(* ===== verification/Py_Text.thy ===== *)
theory Py_Text
  imports Prelude
begin

section \<open>Python text operations used by the program\<close>

text \<open>
  A Python \<open>str\<close> is modelled as a HOL \<open>string\<close>: a list of code points below 256. The
  predicates below are the values of \<open>str.isspace\<close>, \<open>str.isalnum\<close> and \<open>str.lower\<close> on that
  range. Comparison of strings is lexicographic by code point, as in Python.
\<close>

abbreviation code_point :: "char \<Rightarrow> nat" where
  "code_point c \<equiv> of_char c"

definition py_isspace :: "char \<Rightarrow> bool" where
  "py_isspace c = (let n = code_point c in
     (9 \<le> n \<and> n \<le> 13) \<or> (28 \<le> n \<and> n \<le> 32) \<or> n = 133 \<or> n = 160)"

definition py_isdigit :: "char \<Rightarrow> bool" where
  "py_isdigit c = (let n = code_point c in 48 \<le> n \<and> n \<le> 57)"

definition py_isalnum :: "char \<Rightarrow> bool" where
  "py_isalnum c = (let n = code_point c in
     (48 \<le> n \<and> n \<le> 57) \<or> (65 \<le> n \<and> n \<le> 90) \<or> (97 \<le> n \<and> n \<le> 122) \<or> n = 170
     \<or> n = 178 \<or> n = 179 \<or> n = 181 \<or> n = 185 \<or> n = 186 \<or> (188 \<le> n \<and> n \<le> 190)
     \<or> (192 \<le> n \<and> n \<le> 214) \<or> (216 \<le> n \<and> n \<le> 246) \<or> (248 \<le> n \<and> n \<le> 255))"

definition py_lower_char :: "char \<Rightarrow> char" where
  "py_lower_char c = (let n = code_point c in
     if (65 \<le> n \<and> n \<le> 90) \<or> (192 \<le> n \<and> n \<le> 222 \<and> n \<noteq> 215) then char_of (n + 32) else c)"

definition py_lower :: "string \<Rightarrow> string" where
  "py_lower s = map py_lower_char s"

text \<open>\<open>str.strip()\<close> and \<open>str.strip(chars)\<close>.\<close>

definition strip_by :: "(char \<Rightarrow> bool) \<Rightarrow> string \<Rightarrow> string" where
  "strip_by p s = rev (dropWhile p (rev (dropWhile p s)))"

definition py_strip :: "string \<Rightarrow> string" where
  "py_strip s = strip_by py_isspace s"

lemma strip_by_idem [simp]: "strip_by p (strip_by p s) = strip_by p s"
proof -
  define t where "t = dropWhile p s"
  have hd: "dropWhile p t = t" by (simp add: t_def)
  define u where "u = rev (dropWhile p (rev t))"
  have "dropWhile p u = u"
  proof (cases u)
    case Nil
    then show ?thesis by simp
  next
    case (Cons c cs)
    have "\<exists>ys. rev t = ys @ dropWhile p (rev t)"
      by (metis takeWhile_dropWhile_id)
    then obtain ys where "rev t = ys @ rev u" by (auto simp: u_def)
    then have "t = u @ rev ys" by (metis rev_append rev_rev_ident)
    moreover from hd have "t = [] \<or> \<not> p (hd t)" by (simp only: dropWhile_eq_self_iff)
    ultimately have "\<not> p c" using Cons by auto
    with Cons show ?thesis by simp
  qed
  moreover have "dropWhile p (rev u) = rev u" by (simp add: u_def)
  ultimately show ?thesis by (simp add: strip_by_def t_def [symmetric] u_def [symmetric])
qed

lemma py_strip_idem [simp]: "py_strip (py_strip s) = py_strip s"
  by (simp add: py_strip_def)

lemma strip_by_none: "(\<forall>c \<in> set s. \<not> p c) \<Longrightarrow> strip_by p s = s"
proof -
  assume a: "\<forall>c \<in> set s. \<not> p c"
  then have "dropWhile p s = s" by (cases s) auto
  moreover from a have "dropWhile p (rev s) = rev s"
    by (cases "rev s") (auto simp: dropWhile_eq_self_iff dest: arg_cong [of _ _ set])
  ultimately show ?thesis by (simp add: strip_by_def)
qed

lemma py_strip_none: "(\<forall>c \<in> set s. \<not> py_isspace c) \<Longrightarrow> py_strip s = s"
  unfolding py_strip_def by (rule strip_by_none)

lemma py_strip_Nil [simp]: "py_strip [] = []"
  by (simp add: py_strip_def strip_by_def)

lemma set_strip_by: "set (strip_by p s) \<subseteq> set s"
  by (force simp: strip_by_def dest: set_dropWhileD)

text \<open>\<open>str.startswith\<close> and \<open>str.split(":", 1)[1]\<close>.\<close>

definition starts_with :: "string \<Rightarrow> string \<Rightarrow> bool" where
  "starts_with p s = (take (length p) s = p)"

lemma starts_with_append [simp]: "starts_with p (p @ s)"
  by (simp add: starts_with_def)

lemma starts_with_iff: "starts_with p s \<longleftrightarrow> (\<exists>t. s = p @ t)"
  unfolding starts_with_def by (metis append_eq_conv_conj append_take_drop_id)

definition after_colon :: "string \<Rightarrow> string" where
  "after_colon s = tl (dropWhile (\<lambda>c. c \<noteq> CHR '':'') s)"

text \<open>Decimal and hexadecimal numerals; \<open>pad0 w\<close> is the format \<open>0{w}d\<close>.\<close>

definition digit_char :: "nat \<Rightarrow> char" where
  "digit_char d = (if d < 10 then char_of (48 + d) else char_of (87 + d))"

fun digits_base :: "nat \<Rightarrow> nat \<Rightarrow> string" where
  "digits_base b n = (if b < 2 \<or> n < b then [digit_char n] else digits_base b (n div b) @ [digit_char (n mod b)])"

declare digits_base.simps [simp del]

definition dec :: "nat \<Rightarrow> string" where
  "dec n = digits_base 10 n"

definition dec_int :: "int \<Rightarrow> string" where
  "dec_int i = (if i < 0 then CHR ''-'' # dec (nat (- i)) else dec (nat i))"

definition pad0 :: "nat \<Rightarrow> string \<Rightarrow> string" where
  "pad0 w s = replicate (w - length s) (CHR ''0'') @ s"

fun digits_value :: "nat \<Rightarrow> string \<Rightarrow> nat" where
  "digits_value acc [] = acc"
| "digits_value acc (c # cs) = digits_value (10 * acc + (code_point c - 48)) cs"

lemma digits_value_append: "digits_value a (s @ t) = digits_value (digits_value a s) t"
  by (induction s arbitrary: a) auto

lemma code_point_digit: "d < 10 \<Longrightarrow> code_point (digit_char d) = 48 + d"
  by (simp add: digit_char_def)

lemma py_isdigit_digit_char: "d < 10 \<Longrightarrow> py_isdigit (digit_char d)"
  by (simp add: py_isdigit_def code_point_digit)

lemma dec_digits: "list_all py_isdigit (dec n)"
  unfolding dec_def
proof (induction "10::nat" n rule: digits_base.induct)
  case (1 n)
  then show ?case
    by (subst digits_base.simps) (auto simp: py_isdigit_digit_char)
qed

lemma dec_nonempty [simp]: "dec n \<noteq> []"
  unfolding dec_def by (subst digits_base.simps) simp

lemma digits_value_dec: "digits_value 0 (dec n) = n"
  unfolding dec_def
proof (induction "10::nat" n rule: digits_base.induct)
  case (1 n)
  show ?case
  proof (cases "n < 10")
    case True
    then show ?thesis by (subst digits_base.simps) (simp add: code_point_digit)
  next
    case False
    with 1 have "digits_value 0 (digits_base 10 (n div 10)) = n div 10" by simp
    with False show ?thesis
      by (subst digits_base.simps) (simp add: digits_value_append code_point_digit)
  qed
qed

lemma dec_inject [simp]: "dec m = dec n \<longleftrightarrow> m = n"
  by (metis digits_value_dec)

lemma digits_value_zeros: "digits_value 0 (replicate k (CHR ''0'') @ s) = digits_value 0 s"
  by (induction k) auto

lemma digits_value_pad0 [simp]: "digits_value 0 (pad0 w (dec n)) = n"
  by (simp add: pad0_def digits_value_zeros digits_value_dec)

lemma length_dec_bound: "n < 10 ^ k \<Longrightarrow> 0 < k \<Longrightarrow> length (dec n) \<le> k"
  unfolding dec_def
proof (induction k arbitrary: n)
  case 0
  then show ?case by simp
next
  case (Suc k)
  show ?case
  proof (cases "n < 10")
    case True
    then show ?thesis by (subst digits_base.simps) simp
  next
    case False
    with Suc.prems(1) have "n div 10 < 10 ^ k" by (auto simp: less_mult_imp_div_less mult.commute)
    moreover from False Suc.prems(1) have "0 < k" by (cases k) auto
    ultimately have "length (digits_base 10 (n div 10)) \<le> k" by (rule Suc.IH)
    with False show ?thesis by (subst digits_base.simps) simp
  qed
qed

lemma length_pad0: "n < 10 ^ w \<Longrightarrow> 0 < w \<Longrightarrow> length (pad0 w (dec n)) = w"
  using length_dec_bound [of n w] by (simp add: pad0_def)

lemma pad0_digits: "list_all py_isdigit (pad0 w (dec n))"
proof -
  have "py_isdigit (CHR ''0'')" by (simp add: py_isdigit_def)
  moreover have "list_all py_isdigit (dec n)" by (rule dec_digits)
  ultimately show ?thesis by (auto simp: pad0_def list_all_iff)
qed

lemma pad0_inject: "pad0 w (dec m) = pad0 w (dec n) \<longleftrightarrow> m = n"
  by (metis digits_value_pad0)

text \<open>Hexadecimal numerals name the fresh identifiers; distinct numbers give distinct text.\<close>

fun hex_value :: "nat \<Rightarrow> string \<Rightarrow> nat" where
  "hex_value acc [] = acc"
| "hex_value acc (c # cs) =
     hex_value (16 * acc + (if code_point c < 87 then code_point c - 48 else code_point c - 87)) cs"

lemma hex_value_append: "hex_value a (s @ t) = hex_value (hex_value a s) t"
  by (induction s arbitrary: a) auto

lemma hex_value_digits: "hex_value 0 (digits_base 16 n) = n"
proof (induction "16::nat" n rule: digits_base.induct)
  case (1 n)
  have d: "hex_value a [digit_char k] = 16 * a + k" if "k < 16" for a k
    using that by (auto simp: digit_char_def)
  show ?case
  proof (cases "n < 16")
    case True
    then have "digits_base 16 n = [digit_char n]" by (subst digits_base.simps) simp
    with d [OF True, of 0] show ?thesis by (simp only: mult_0_right add_0)
  next
    case False
    with 1 have "hex_value 0 (digits_base 16 (n div 16)) = n div 16" by simp
    with False show ?thesis
      by (subst digits_base.simps) (simp add: hex_value_append d del: hex_value.simps)
  qed
qed

lemma pad0_hex_inject: "pad0 w (digits_base 16 m) = pad0 w (digits_base 16 n) \<longleftrightarrow> m = n"
proof -
  have "hex_value 0 (replicate k (CHR ''0'')) = 0" for k by (induction k) auto
  then have "hex_value 0 (pad0 w s) = hex_value 0 s" for s by (simp add: pad0_def hex_value_append)
  then show ?thesis by (metis hex_value_digits)
qed

text \<open>\<open>sep.join(parts)\<close>.\<close>

fun py_join :: "string \<Rightarrow> string list \<Rightarrow> string" where
  "py_join sep [] = []"
| "py_join sep [x] = x"
| "py_join sep (x # y # ys) = x @ sep @ py_join sep (y # ys)"

end
