(* ===== verification/Py_Time.thy ===== *)
theory Py_Time
  imports Py_Text
begin

section \<open>Timestamps: the calendar, \<open>isoformat\<close> and \<open>fromisoformat\<close>\<close>

text \<open>
  The program stores every timestamp as the text \<open>YYYY-MM-DDTHH:MM:SSZ\<close>
  (\<open>utc_now\<close> of src/src/kernel/model.py) and reads it back with
  \<open>datetime.fromisoformat(value.replace("Z", "+00:00"))\<close>. An instant is a number of
  microseconds on the proleptic Gregorian calendar, day 1 being 0001-01-01, as in Python's
  \<open>toordinal\<close>. \<open>fromisoformat\<close> follows the parser of the standard library (calendar and
  week dates, optional separators, fraction, UTC offset). What \<open>astimezone\<close> does with a
  naive value depends on the time zone of the machine, which is an argument.
\<close>

subsection \<open>The calendar\<close>

definition is_leap :: "nat \<Rightarrow> bool" where
  "is_leap y \<longleftrightarrow> y mod 4 = 0 \<and> (y mod 100 \<noteq> 0 \<or> y mod 400 = 0)"

definition days_before_year :: "nat \<Rightarrow> nat" where
  "days_before_year y = (y - 1) * 365 + (y - 1) div 4 + (y - 1) div 400 - (y - 1) div 100"

definition days_in_month :: "nat \<Rightarrow> nat \<Rightarrow> nat" where
  "days_in_month y m =
     (if m = 2 then (if is_leap y then 29 else 28)
      else if m \<in> {4, 6, 9, 11} then 30 else 31)"

fun days_before_month :: "nat \<Rightarrow> nat \<Rightarrow> nat" where
  "days_before_month y 0 = 0"
| "days_before_month y (Suc 0) = 0"
| "days_before_month y (Suc (Suc m)) = days_before_month y (Suc m) + days_in_month y (Suc m)"

definition ymd2ord :: "nat \<Rightarrow> nat \<Rightarrow> nat \<Rightarrow> nat" where
  "ymd2ord y m d = days_before_year y + days_before_month y m + d"

lemma days_before_year_Suc:
  assumes "1 \<le> y"
  shows "days_before_year (Suc y) = days_before_year y + (if is_leap y then 366 else 365)"
proof -
  obtain k where y: "y = Suc k" using assms by (cases y) auto
  define l4 l100 l400 where "l4 \<longleftrightarrow> Suc k mod 4 = 0" and "l100 \<longleftrightarrow> Suc k mod 100 = 0"
    and "l400 \<longleftrightarrow> Suc k mod 400 = 0"
  define q4 q100 q400 where "q4 = k div 4" and "q100 = k div 100" and "q400 = k div 400"
  have d: "Suc k div 4 = q4 + (if l4 then 1 else 0)"
    "Suc k div 100 = q100 + (if l100 then 1 else 0)"
    "Suc k div 400 = q400 + (if l400 then 1 else 0)"
    unfolding div_Suc q4_def q100_def q400_def l4_def l100_def l400_def by simp_all
  have "Suc k mod 100 mod 4 = Suc k mod 4" "Suc k mod 400 mod 100 = Suc k mod 100"
    by (rule mod_mod_cancel, simp)+
  then have l: "l100 \<Longrightarrow> l4" "l400 \<Longrightarrow> l100"
    by (auto simp only: l4_def l100_def l400_def mod_0)
  have "q100 \<le> q4" by (simp add: q100_def q4_def div_le_mono2)
  moreover have "days_before_year y = k * 365 + q4 + q400 - q100"
    by (simp add: days_before_year_def y q4_def q100_def q400_def)
  moreover have "days_before_year (Suc y)
      = Suc k * 365 + (q4 + (if l4 then 1 else 0)) + (q400 + (if l400 then 1 else 0))
        - (q100 + (if l100 then 1 else 0))"
    unfolding days_before_year_def y diff_Suc_1 d by simp
  moreover have "is_leap y \<longleftrightarrow> l4 \<and> (\<not> l100 \<or> l400)"
    by (simp only: is_leap_def y l4_def l100_def l400_def)
  ultimately show ?thesis using l by (cases l4; cases l100; cases l400) simp_all
qed

function year_search :: "nat \<Rightarrow> nat \<Rightarrow> nat" where
  "year_search n y = (if 1 \<le> y \<and> days_before_year (Suc y) < n then year_search n (Suc y) else y)"
  by pat_completeness auto
termination
  by (relation "measure (\<lambda>(n, y). n - days_before_year y)")
     (auto simp: days_before_year_Suc)

declare year_search.simps [simp del]

lemma year_search_spec:
  "1 \<le> y \<Longrightarrow> days_before_year y < n \<Longrightarrow>
   1 \<le> year_search n y \<and> days_before_year (year_search n y) < n
   \<and> n \<le> days_before_year (Suc (year_search n y))"
proof (induction n y rule: year_search.induct)
  case (1 n y)
  show ?case
  proof (cases "days_before_year (Suc y) < n")
    case True
    with "1.IH" "1.prems" show ?thesis by (simp add: year_search.simps [of n y])
  next
    case False
    with "1.prems" show ?thesis by (simp add: year_search.simps [of n y])
  qed
qed

fun month_search :: "nat \<Rightarrow> nat \<Rightarrow> nat \<Rightarrow> nat" where
  "month_search y r 0 = 1"
| "month_search y r (Suc m) =
     (if m = 0 \<or> days_before_month y (Suc m) < r then Suc m else month_search y r m)"

lemma days_before_month_Suc:
  "1 \<le> m \<Longrightarrow> days_before_month y (Suc m) = days_before_month y m + days_in_month y m"
  by (cases m) auto

lemma month_search_spec:
  "1 \<le> r \<Longrightarrow> r \<le> days_before_month y (Suc m) \<Longrightarrow> 1 \<le> m \<Longrightarrow>
   1 \<le> month_search y r m \<and> month_search y r m \<le> m
   \<and> days_before_month y (month_search y r m) < r
   \<and> r \<le> days_before_month y (month_search y r m) + days_in_month y (month_search y r m)"
proof (induction m)
  case 0
  then show ?case by simp
next
  case (Suc m)
  show ?case
  proof (cases "m = 0 \<or> days_before_month y (Suc m) < r")
    case True
    with Suc.prems show ?thesis by (auto simp: days_before_month_Suc)
  next
    case False
    with Suc.prems Suc.IH show ?thesis by auto
  qed
qed

definition ord2ymd :: "nat \<Rightarrow> nat \<times> nat \<times> nat" where
  "ord2ymd n =
     (let y = year_search n ((n - 1) div 366 + 1);
          r = n - days_before_year y;
          m = month_search y r 12
      in (y, m, r - days_before_month y m))"

lemma days_before_year_low: "1 \<le> n \<Longrightarrow> days_before_year ((n - 1) div 366 + 1) < n"
proof -
  assume n: "1 \<le> n"
  define k where "k = (n - 1) div 366"
  have "k * 366 \<le> n - 1" by (simp add: k_def)
  moreover have "k * 365 + k div 4 + k div 400 - k div 100 \<le> k * 366"
  proof -
    have "k div 400 \<le> k div 100" "k div 4 \<le> k" by (simp_all add: div_le_mono2)
    then show ?thesis by linarith
  qed
  ultimately have "days_before_year (k + 1) < n" using n by (simp add: days_before_year_def)
  then show ?thesis by (simp only: k_def)
qed

lemma year_days: "days_before_month y 13 = (if is_leap y then 366 else 365)"
  by (simp add: eval_nat_numeral days_in_month_def)

lemma ord2ymd_spec:
  assumes "1 \<le> n" and "ord2ymd n = (y, m, d)"
  shows "1 \<le> y" "1 \<le> m" "m \<le> 12" "1 \<le> d" "d \<le> days_in_month y m" "ymd2ord y m d = n"
    "days_before_year y < n"
proof -
  define y' where "y' = year_search n ((n - 1) div 366 + 1)"
  have y': "1 \<le> y'" "days_before_year y' < n" "n \<le> days_before_year (Suc y')"
    using year_search_spec [OF _ days_before_year_low [OF assms(1)]] by (simp_all add: y'_def)
  define r where "r = n - days_before_year y'"
  have r: "1 \<le> r" "r \<le> days_before_month y' (Suc 12)"
    using y' days_before_year_Suc [OF y'(1)] year_days [of y'] by (auto simp: r_def)
  note m' = month_search_spec [OF r]
  have "y = y'" "m = month_search y' r 12" "d = r - days_before_month y' m"
    using assms(2) unfolding ord2ymd_def Let_def prod.inject y'_def [symmetric] r_def [symmetric]
    by auto
  moreover have "n = days_before_year y' + r" using y'(2) by (simp add: r_def)
  ultimately show "1 \<le> y" "1 \<le> m" "m \<le> 12" "1 \<le> d" "d \<le> days_in_month y m" "ymd2ord y m d = n"
    "days_before_year y < n"
    using m' y' by (auto simp: ymd2ord_def)
qed

subsection \<open>Formatting\<close>

type_synonym instant = int

definition us_per_day :: int where
  "us_per_day = 86400000000"

definition min_instant :: instant where
  "min_instant = us_per_day"

definition max_instant :: instant where
  "max_instant = 3652060 * us_per_day - 1"

text \<open>\<open>value.astimezone(UTC).replace(microsecond=0).isoformat().replace("+00:00", "Z")\<close>.\<close>

definition iso_utc :: "instant \<Rightarrow> string" where
  "iso_utc t =
     (let s = t div 1000000;
          (y, m, d) = ord2ymd (nat (s div 86400));
          r = nat (s mod 86400)
      in pad0 4 (dec y) @ ''-'' @ pad0 2 (dec m) @ ''-'' @ pad0 2 (dec d) @ ''T''
         @ pad0 2 (dec (r div 3600)) @ '':'' @ pad0 2 (dec (r div 60 mod 60)) @ '':''
         @ pad0 2 (dec (r mod 60)) @ ''Z'')"

subsection \<open>Parsing\<close>

datatype py_datetime = Naive instant | Aware instant

definition int_field :: "nat \<Rightarrow> string \<Rightarrow> nat option" where
  "int_field n s = (if length s = n \<and> list_all py_isdigit s then Some (digits_value 0 s) else None)"

definition py_slice :: "nat \<Rightarrow> nat \<Rightarrow> string \<Rightarrow> string" where
  "py_slice i j s = take (j - i) (drop i s)"

definition iso_separator_location :: "string \<Rightarrow> nat" where
  "iso_separator_location s =
     (if length s = 7 then 7
      else if s ! 4 = CHR ''-'' then
        (if s ! 5 = CHR ''W'' then
           (if length s > 8 \<and> s ! 8 = CHR ''-'' then
              (if length s > 10 \<and> py_isdigit (s ! 10) then 8 else 10)
            else 8)
         else 10)
      else if s ! 4 = CHR ''W'' then
        (let idx = 7 + length (takeWhile py_isdigit (drop 7 s)) in
           if idx < 9 then idx else if idx mod 2 = 0 then 7 else 8)
      else 8)"

definition iso_week_to_ord :: "nat \<Rightarrow> nat \<Rightarrow> nat \<Rightarrow> nat option" where
  "iso_week_to_ord y w d =
     (let first = ymd2ord y 1 1; wd = (first + 6) mod 7;
          monday = (if wd > 3 then first - wd + 7 else first - wd);
          long_year = (first mod 7 = 4 \<or> (first mod 7 = 3 \<and> is_leap y))
      in if 1 \<le> y \<and> y \<le> 9999 \<and> ((1 \<le> w \<and> w \<le> 52) \<or> (w = 53 \<and> long_year)) \<and> 1 \<le> d \<and> d \<le> 7
         then (let n = monday + (w - 1) * 7 + (d - 1) in if n \<le> 3652059 then Some n else None)
         else None)"

definition parse_iso_date :: "string \<Rightarrow> nat option" where
  "parse_iso_date s =
     (let sep = (s ! 4 = CHR ''-''); pos = (if sep then 5 else 4) in
      case int_field 4 (take 4 s) of None \<Rightarrow> None | Some y \<Rightarrow>
      if take 1 (drop pos s) = ''W'' then
        (case int_field 2 (py_slice (pos + 1) (pos + 3) s) of None \<Rightarrow> None | Some w \<Rightarrow>
         let rest = drop (pos + 3) s in
         if rest = [] then iso_week_to_ord y w 1
         else if (take 1 rest = ''-'') \<noteq> sep then None
         else (case int_field 1 (if sep then drop 1 rest else rest) of None \<Rightarrow> None
               | Some d \<Rightarrow> iso_week_to_ord y w d))
      else
        (case int_field 2 (py_slice pos (pos + 2) s) of None \<Rightarrow> None | Some m \<Rightarrow>
         let rest = drop (pos + 2) s in
         if (take 1 rest = ''-'') \<noteq> sep then None
         else (case int_field 2 (if sep then drop 1 rest else rest) of None \<Rightarrow> None
               | Some d \<Rightarrow>
                   if 1 \<le> y \<and> 1 \<le> m \<and> m \<le> 12 \<and> 1 \<le> d \<and> d \<le> days_in_month y m
                   then Some (ymd2ord y m d) else None)))"

function parse_hms :: "nat \<Rightarrow> bool \<Rightarrow> string \<Rightarrow> (nat list \<times> string) option" where
  "parse_hms ix sep s =
     (case int_field 2 (take 2 s) of None \<Rightarrow> None | Some v \<Rightarrow>
      let rest = drop 2 s; sep' = (if ix = 0 then take 1 rest = '':'' else sep) in
      if rest = [] \<or> ix \<ge> 2 then Some ([v], rest)
      else if sep' \<and> take 1 rest \<noteq> '':'' then None
      else map_option (\<lambda>(vs, r). (v # vs, r))
             (parse_hms (Suc ix) sep' (if sep' then drop 1 rest else rest)))"
  by pat_completeness auto
termination
  by (relation "measure (\<lambda>(ix, sep, s). 3 - ix)") auto

declare parse_hms.simps [simp del]

definition parse_fraction :: "string \<Rightarrow> nat option" where
  "parse_fraction s =
     (case s of [] \<Rightarrow> Some 0
      | c # cs \<Rightarrow>
          if c \<noteq> CHR ''.'' \<and> c \<noteq> CHR '','' then None
          else if cs = [] \<or> \<not> list_all py_isdigit cs then None
          else Some (digits_value 0 (take 6 cs) * 10 ^ (6 - length cs)))"

text \<open>Hours, minutes, seconds and fraction as microseconds; the fields are returned too.\<close>

definition parse_hh_mm_ss_ff :: "string \<Rightarrow> (nat \<times> nat \<times> nat \<times> nat) option" where
  "parse_hh_mm_ss_ff s =
     (case parse_hms 0 False s of None \<Rightarrow> None
      | Some (vs, rest) \<Rightarrow>
          (case parse_fraction rest of None \<Rightarrow> None
           | Some us \<Rightarrow> (case vs of [h] \<Rightarrow> Some (h, 0, 0, us) | [h, m] \<Rightarrow> Some (h, m, 0, us)
                         | [h, m, c] \<Rightarrow> Some (h, m, c, us) | _ \<Rightarrow> None)))"

definition split_zone :: "string \<Rightarrow> string \<times> (char \<times> string) option" where
  "split_zone s =
     (case List.find (\<lambda>c. c \<in> set s) [CHR ''-'', CHR ''+'', CHR ''Z''] of
        None \<Rightarrow> (s, None)
      | Some c \<Rightarrow> (takeWhile (\<lambda>x. x \<noteq> c) s, Some (c, tl (dropWhile (\<lambda>x. x \<noteq> c) s))))"

definition zone_offset :: "char \<Rightarrow> string \<Rightarrow> int option" where
  "zone_offset c s =
     (if c = CHR ''Z'' \<and> s = [] then Some 0
      else if length s \<in> {0, 1, 3} then None
      else (case parse_hh_mm_ss_ff s of None \<Rightarrow> None
            | Some (h, m, sec, us) \<Rightarrow>
                let o' = ((int h * 60 + int m) * 60 + int sec) * 1000000 + int us in
                if o' < us_per_day then Some (if c = CHR ''-'' then - o' else o') else None))"

definition fromisoformat :: "string \<Rightarrow> py_datetime option" where
  "fromisoformat s =
     (if length s < 7 then None
      else let loc = iso_separator_location s; tstr = drop (loc + 1) s in
        case parse_iso_date (take loc s) of None \<Rightarrow> None
        | Some n \<Rightarrow>
            if tstr = [] then Some (Naive (int n * us_per_day))
            else if length tstr < 2 then None
            else (case split_zone tstr of (hms, zone) \<Rightarrow>
              (case parse_hh_mm_ss_ff hms of None \<Rightarrow> None
               | Some (h, m, sec, us) \<Rightarrow>
                   if h < 24 \<and> m < 60 \<and> sec < 60 then
                     (let t = int n * us_per_day + ((int h * 60 + int m) * 60 + int sec) * 1000000 + int us in
                      case zone of None \<Rightarrow> Some (Naive t)
                      | Some (c, z) \<Rightarrow> map_option (\<lambda>o'. Aware (t - o')) (zone_offset c z))
                   else None)))"

text \<open>\<open>value.replace("Z", "+00:00")\<close>.\<close>

definition replace_Z :: "string \<Rightarrow> string" where
  "replace_Z s = concat (map (\<lambda>c. if c = CHR ''Z'' then ''+00:00'' else [c]) s)"

text \<open>
  \<open>astimezone(UTC)\<close>: a naive value is read in the local time zone of the machine (\<open>local\<close>),
  and a result outside the years 1 to 9999 raises \<open>OverflowError\<close>.
\<close>

definition astimezone_utc :: "(instant \<Rightarrow> instant) \<Rightarrow> py_datetime \<Rightarrow> instant res" where
  "astimezone_utc local dt =
     (let t = (case dt of Naive i \<Rightarrow> local i | Aware i \<Rightarrow> i) in
      if min_instant \<le> t \<and> t \<le> max_instant then Inr t
      else Inl (OverflowError ''date value out of range''))"

subsection \<open>Reading back what was written\<close>

lemma digit_not_special:
  assumes "py_isdigit c"
  shows "c \<noteq> CHR ''-''" "c \<noteq> CHR ''+''" "c \<noteq> CHR ''Z''" "c \<noteq> CHR ''W''" "c \<noteq> CHR '':''"
  using assms by (auto simp: py_isdigit_def)

lemma pad0_2_cases:
  assumes "n < 100"
  obtains a b where "pad0 2 (dec n) = [a, b]" "py_isdigit a" "py_isdigit b"
    "int_field 2 [a, b] = Some n"
proof -
  have "length (pad0 2 (dec n)) = 2" using assms by (intro length_pad0) auto
  then obtain a b where ab: "pad0 2 (dec n) = [a, b]" by (auto simp: numeral_2_eq_2 length_Suc_conv)
  moreover have "py_isdigit a" "py_isdigit b" using pad0_digits [of 2 n] ab by auto
  moreover have "digits_value 0 [a, b] = n" using digits_value_pad0 [of 2 n] ab by simp
  ultimately show thesis by (intro that [of a b]) (simp_all add: int_field_def)
qed

lemma pad0_4_cases:
  assumes "n < 10000"
  obtains a b c d where "pad0 4 (dec n) = [a, b, c, d]"
    "py_isdigit a" "py_isdigit b" "py_isdigit c" "py_isdigit d" "int_field 4 [a, b, c, d] = Some n"
proof -
  have "length (pad0 4 (dec n)) = 4" using assms by (intro length_pad0) auto
  then obtain a b c d where abcd: "pad0 4 (dec n) = [a, b, c, d]"
    by (auto simp: eval_nat_numeral length_Suc_conv)
  moreover have "py_isdigit a" "py_isdigit b" "py_isdigit c" "py_isdigit d"
    using pad0_digits [of 4 n] abcd by auto
  moreover have "digits_value 0 [a, b, c, d] = n" using digits_value_pad0 [of 4 n] abcd by simp
  ultimately show thesis by (intro that [of a b c d]) (simp_all add: int_field_def)
qed

lemma int_field_zeros: "int_field 2 ''00'' = Some 0"
  by (simp add: int_field_def py_isdigit_def)

lemma parse_hms_full:
  assumes "int_field 2 [a1, a2] = Some h" "int_field 2 [b1, b2] = Some m" "int_field 2 [c1, c2] = Some s"
  shows "parse_hh_mm_ss_ff [a1, a2, CHR '':'', b1, b2, CHR '':'', c1, c2] = Some (h, m, s, 0)"
  using assms
  by (simp add: parse_hh_mm_ss_ff_def parse_hms.simps [of 0] parse_hms.simps [of "Suc 0"]
      parse_hms.simps [of "Suc (Suc 0)"] parse_fraction_def eval_nat_numeral)

lemma zone_offset_zero: "zone_offset (CHR ''+'') ''00:00'' = Some 0"
proof -
  have "parse_hh_mm_ss_ff ''00:00'' = Some (0, 0, 0, 0)"
    using int_field_zeros
    by (simp add: parse_hh_mm_ss_ff_def parse_hms.simps [of 0] parse_hms.simps [of "Suc 0"]
        parse_fraction_def)
  then show ?thesis by (simp add: zone_offset_def us_per_day_def)
qed

lemma days_before_year_mono: "1 \<le> y \<Longrightarrow> y \<le> z \<Longrightarrow> days_before_year y \<le> days_before_year z"
proof (induction z)
  case 0
  then show ?case by simp
next
  case (Suc z)
  then show ?case
    using days_before_year_Suc [of z] by (cases "y = Suc z") auto
qed

lemma ord2ymd_year_bound:
  assumes "1 \<le> n" "n \<le> 3652059" "ord2ymd n = (y, m, d)"
  shows "y < 10000"
proof (rule ccontr)
  assume "\<not> y < 10000"
  then have "days_before_year 10000 \<le> days_before_year y" by (intro days_before_year_mono) auto
  moreover have "days_before_year 10000 = 3652059" by (simp add: days_before_year_def)
  ultimately show False using ord2ymd_spec(7) [OF assms(1,3)] assms(2) by simp
qed

lemma fromisoformat_iso_parts:
  assumes "y < 10000" "1 \<le> y" "1 \<le> m" "m \<le> 12" "1 \<le> d" "d \<le> days_in_month y m"
    "hh < 24" "mm < 60" "ss < 60"
  shows "fromisoformat (replace_Z (pad0 4 (dec y) @ ''-'' @ pad0 2 (dec m) @ ''-'' @ pad0 2 (dec d)
      @ ''T'' @ pad0 2 (dec hh) @ '':'' @ pad0 2 (dec mm) @ '':'' @ pad0 2 (dec ss) @ ''Z''))
    = Some (Aware (int (ymd2ord y m d) * us_per_day + ((int hh * 60 + int mm) * 60 + int ss) * 1000000))"
proof -
  have "d \<le> 31" using assms(6) by (auto simp: days_in_month_def split: if_splits)
  from pad0_4_cases [OF assms(1)] obtain y1 y2 y3 y4 where y: "pad0 4 (dec y) = [y1, y2, y3, y4]"
    "py_isdigit y1" "py_isdigit y2" "py_isdigit y3" "py_isdigit y4"
    "int_field 4 [y1, y2, y3, y4] = Some y" .
  from pad0_2_cases [of m] assms(4) obtain m1 m2 where m: "pad0 2 (dec m) = [m1, m2]"
    "py_isdigit m1" "py_isdigit m2" "int_field 2 [m1, m2] = Some m" by auto
  from pad0_2_cases [of d] \<open>d \<le> 31\<close> obtain d1 d2 where d: "pad0 2 (dec d) = [d1, d2]"
    "py_isdigit d1" "py_isdigit d2" "int_field 2 [d1, d2] = Some d" by auto
  from pad0_2_cases [of hh] assms(7) obtain h1 h2 where h: "pad0 2 (dec hh) = [h1, h2]"
    "py_isdigit h1" "py_isdigit h2" "int_field 2 [h1, h2] = Some hh" by auto
  from pad0_2_cases [of mm] assms(8) obtain n1 n2 where n: "pad0 2 (dec mm) = [n1, n2]"
    "py_isdigit n1" "py_isdigit n2" "int_field 2 [n1, n2] = Some mm" by auto
  from pad0_2_cases [of ss] assms(9) obtain s1 s2 where s: "pad0 2 (dec ss) = [s1, s2]"
    "py_isdigit s1" "py_isdigit s2" "int_field 2 [s1, s2] = Some ss" by auto
  let ?date = "[y1, y2, y3, y4, CHR ''-'', m1, m2, CHR ''-'', d1, d2]"
  let ?hms = "[h1, h2, CHR '':'', n1, n2, CHR '':'', s1, s2]"
  let ?str = "?date @ [CHR ''T''] @ ?hms @ ''+00:00''"
  note special = y(2-5) m(2,3) d(2,3) h(2,3) n(2,3) s(2,3)
  note ns = special [THEN digit_not_special(1)] special [THEN digit_not_special(2)]
    special [THEN digit_not_special(3)] special [THEN digit_not_special(4)]
  have "replace_Z (pad0 4 (dec y) @ ''-'' @ pad0 2 (dec m) @ ''-'' @ pad0 2 (dec d)
      @ ''T'' @ pad0 2 (dec hh) @ '':'' @ pad0 2 (dec mm) @ '':'' @ pad0 2 (dec ss) @ ''Z'') = ?str"
    unfolding y(1) m(1) d(1) h(1) n(1) s(1) by (simp add: replace_Z_def ns)
  moreover have "iso_separator_location ?str = 10"
    by (simp add: iso_separator_location_def ns)
  moreover have "parse_iso_date ?date = Some (ymd2ord y m d)"
    using m(2) [THEN digit_not_special(4)] assms(2-6) y(6) m(4) d(4)
    by (simp add: parse_iso_date_def py_slice_def)
  moreover have "split_zone (?hms @ ''+00:00'') = (?hms, Some (CHR ''+'', ''00:00''))"
    using ns by (simp add: split_zone_def)
  moreover have "parse_hh_mm_ss_ff ?hms = Some (hh, mm, ss, 0)"
    by (rule parse_hms_full [OF h(4) n(4) s(4)])
  ultimately show ?thesis
    using assms(7-9) by (simp add: fromisoformat_def zone_offset_zero Let_def)
qed

lemma fromisoformat_iso_utc:
  assumes "min_instant \<le> t" "t \<le> max_instant"
  shows "fromisoformat (replace_Z (iso_utc t)) = Some (Aware (t div 1000000 * 1000000))"
proof -
  define s where "s = t div 1000000"
  have s: "86400 \<le> s" "s < 3652060 * 86400"
    using assms by (simp_all add: s_def min_instant_def max_instant_def us_per_day_def)
  define n where "n = nat (s div 86400)"
  have n: "1 \<le> n" "n \<le> 3652059" using s by (simp_all add: n_def le_nat_iff nat_le_iff)
  define r where "r = nat (s mod 86400)"
  have r: "r < 86400" "s = int n * 86400 + int r" using s by (simp_all add: r_def n_def nat_less_iff)
  obtain y m d where ymd: "ord2ymd n = (y, m, d)" by (cases "ord2ymd n") auto
  note spec = ord2ymd_spec [OF n(1) ymd]
  have "int (ymd2ord y m d) * us_per_day
      + ((int (r div 3600) * 60 + int (r div 60 mod 60)) * 60 + int (r mod 60)) * 1000000 = s * 1000000"
  proof -
    have "r div 60 div 60 = r div 3600" by (simp add: div_mult2_eq [symmetric])
    then have "r = (r div 3600 * 60 + r div 60 mod 60) * 60 + r mod 60"
      by (metis mult.commute div_mult_mod_eq)
    then have "int r = (int (r div 3600) * 60 + int (r div 60 mod 60)) * 60 + int (r mod 60)"
      by (metis of_nat_add of_nat_mult of_nat_numeral)
    then show ?thesis using r(2) spec(6) by (simp add: us_per_day_def algebra_simps)
  qed
  moreover have "fromisoformat (replace_Z (iso_utc t))
      = Some (Aware (int (ymd2ord y m d) * us_per_day
          + ((int (r div 3600) * 60 + int (r div 60 mod 60)) * 60 + int (r mod 60)) * 1000000))"
    unfolding iso_utc_def Let_def s_def [symmetric] n_def [symmetric] r_def [symmetric] ymd prod.case
    using r(1) by (intro fromisoformat_iso_parts ord2ymd_year_bound [OF n ymd] spec(1-5)) (auto simp: less_mult_imp_div_less)
  ultimately show ?thesis by (simp add: s_def)
qed

end
