(* ===== verification/Kernel_Defs.thy ===== *)
theory Kernel_Defs
  imports Py_Time
begin

section \<open>Constants, identifiers and endpoints\<close>

text \<open>
  The vocabulary of src/src/kernel/defs.py and src/src/goal/defs.py: system identifiers, the
  endpoint families of the message system (\<open>session:\<close>, \<open>user:\<close>, the legacy \<open>account:\<close>,
  \<open>console:\<close>, \<open>node:\<close>, \<open>agent:\<close>), the two agent roles, their slot groups and aliases.
  The lemmas show that normalising an endpoint is idempotent, that the legacy alias of an
  endpoint denotes the same endpoint, and that distinct identities have distinct endpoints.
\<close>

abbreviation ROOT_UNIT_ID :: string where "ROOT_UNIT_ID \<equiv> ''root''"
abbreviation ROOT_SESSION_ID :: string where "ROOT_SESSION_ID \<equiv> ''root''"
abbreviation ROOT_USERNAME :: string where "ROOT_USERNAME \<equiv> ''root''"
abbreviation SESSION_RECIPIENT :: string where "SESSION_RECIPIENT \<equiv> ''Session''"
abbreviation USER_CONSOLE_RECIPIENT :: string where "USER_CONSOLE_RECIPIENT \<equiv> ''UserConsole''"

definition safe_char :: "char \<Rightarrow> char" where
  "safe_char c = (if py_isalnum c \<or> c = CHR ''-'' \<or> c = CHR ''_'' then c else CHR ''-'')"

definition safe_id_part :: "string \<Rightarrow> string \<Rightarrow> string" where
  "safe_id_part value fallback =
     (let s = strip_by (\<lambda>c. c = CHR ''-'' \<or> c = CHR ''_'') (map safe_char value)
      in if s = [] then fallback else s)"

definition account_home_session_id :: "string \<Rightarrow> string" where
  "account_home_session_id username = ''account-'' @ safe_id_part (py_strip username) ''user''"

definition account_home_unit_id :: "string \<Rightarrow> string" where
  "account_home_unit_id username = account_home_session_id username"

definition session_endpoint :: "string \<Rightarrow> string" where
  "session_endpoint session_id = ''session:'' @ session_id"

definition user_endpoint :: "string \<Rightarrow> string" where
  "user_endpoint username = ''user:'' @ username"

definition account_endpoint :: "string \<Rightarrow> string" where
  "account_endpoint username = ''account:'' @ username"

definition console_endpoint :: "string \<Rightarrow> string" where
  "console_endpoint endpoint_id = ''console:'' @ endpoint_id"

definition node_endpoint :: "string \<Rightarrow> string" where
  "node_endpoint node_id = ''node:'' @ node_id"

definition canonical_endpoint :: "string \<Rightarrow> string" where
  "canonical_endpoint endpoint =
     (let raw = py_strip endpoint in
      if starts_with ''account:'' raw then user_endpoint (after_colon raw) else raw)"

definition legacy_endpoint_alias :: "string \<Rightarrow> string" where
  "legacy_endpoint_alias endpoint =
     (let raw = py_strip endpoint in
      if starts_with ''user:'' raw then account_endpoint (after_colon raw) else raw)"

text \<open>The kernel's \<open>normalize_endpoint\<close>; an empty \<open>session_id\<close> is \<open>None\<close>.\<close>

definition normalize_system_endpoint :: "string \<Rightarrow> string \<Rightarrow> string res" where
  "normalize_system_endpoint value session_id =
     (let raw = py_strip value in
      if raw = [] then Inr ''system''
      else if starts_with ''account:'' raw then Inr (user_endpoint (after_colon raw))
      else if CHR '':'' \<in> set raw \<or> raw = ''system'' \<or> raw = ''dispatcher'' then Inr raw
      else if raw = SESSION_RECIPIENT then
        (if session_id = [] then Inl (StoreError ''Session endpoint requires session_id'')
         else Inr (session_endpoint session_id))
      else if raw = USER_CONSOLE_RECIPIENT then Inr USER_CONSOLE_RECIPIENT
      else if raw = ''remote-aize'' then Inr (node_endpoint ''remote-aize'')
      else Inr (user_endpoint raw))"

subsection \<open>Roles\<close>

datatype role = GoalManager | WorkerAgent

fun role_name :: "role \<Rightarrow> string" where
  "role_name GoalManager = ''GoalManager''"
| "role_name WorkerAgent = ''WorkerAgent''"

lemma role_name_inject [simp]: "role_name r = role_name r' \<longleftrightarrow> r = r'"
  by (cases r; cases r') auto

text \<open>\<open>AGENT_ROLES\<close>: the role that a token names exactly.\<close>

definition agent_role_of :: "string \<Rightarrow> role option" where
  "agent_role_of s = List.find (\<lambda>r. role_name r = s) [GoalManager, WorkerAgent]"

fun slot_group :: "role \<Rightarrow> string" where
  "slot_group GoalManager = ''manage''"
| "slot_group WorkerAgent = ''work''"

definition SLOT_ROLE_BY_GROUP :: "role dict" where
  "SLOT_ROLE_BY_GROUP = [(''manage'', GoalManager), (''work'', WorkerAgent)]"

definition ROLE_ALIASES :: "role dict" where
  "ROLE_ALIASES =
     [(''goalmanager'', GoalManager), (''workeragent'', WorkerAgent), (''worker'', WorkerAgent),
      (''manage'', GoalManager), (''work'', WorkerAgent)]"

definition normalize_agent_role :: "string \<Rightarrow> string" where
  "normalize_agent_role value =
     (let normalized = py_strip value in
      case map_of ROLE_ALIASES normalized of
        Some r \<Rightarrow> role_name r
      | None \<Rightarrow> (case map_of ROLE_ALIASES (py_lower normalized) of
                   Some r \<Rightarrow> role_name r | None \<Rightarrow> normalized))"

definition slot_group_name :: "string \<Rightarrow> string" where
  "slot_group_name value =
     (case agent_role_of (normalize_agent_role value) of Some r \<Rightarrow> slot_group r | None \<Rightarrow> [])"

definition agent_endpoint :: "role \<Rightarrow> string" where
  "agent_endpoint r = ''agent:'' @ role_name r"

definition agent_sender_endpoint :: "role \<Rightarrow> string \<Rightarrow> string" where
  "agent_sender_endpoint r account =
     (let a = py_strip account in if a \<noteq> [] then user_endpoint a else agent_endpoint r)"

definition normalize_endpoint :: "string \<Rightarrow> string \<Rightarrow> string res" where
  "normalize_endpoint value session_id =
     (let raw = py_strip value in
      case agent_role_of raw of
        Some r \<Rightarrow> Inr (agent_endpoint r)
      | None \<Rightarrow> (case map_of ROLE_ALIASES raw of
                   Some r \<Rightarrow> Inr (agent_endpoint r)
                 | None \<Rightarrow> normalize_system_endpoint raw session_id))"

text \<open>\<open>ROLE_MESSAGE_RECIPIENTS\<close>.\<close>

fun role_message_recipients :: "role \<Rightarrow> string list" where
  "role_message_recipients GoalManager = [SESSION_RECIPIENT, USER_CONSOLE_RECIPIENT]"
| "role_message_recipients WorkerAgent = [SESSION_RECIPIENT]"

definition DEFAULT_AGENT_PROVIDER :: string where
  "DEFAULT_AGENT_PROVIDER = ''codex''"

definition DISPATCH_LEASE_RECOVERY_SECONDS :: int where
  "DISPATCH_LEASE_RECOVERY_SECONDS = 600 + 60"

record service_account_spec =
  spec_account :: string
  spec_groups :: "string list"

definition PROVIDER_SERVICE_ACCOUNTS :: "service_account_spec dict" where
  "PROVIDER_SERVICE_ACCOUNTS =
     [(''codex'', \<lparr>spec_account = ''svc-codex'', spec_groups = [''manage'', ''work'']\<rparr>),
      (''claude'', \<lparr>spec_account = ''svc-claude'', spec_groups = [''manage'', ''work'']\<rparr>),
      (''remote-aize'', \<lparr>spec_account = ''svc-remote-aize'', spec_groups = [''work'']\<rparr>)]"

subsection \<open>Properties of the endpoint space\<close>

lemma endpoint_inject [simp]:
  "session_endpoint a = session_endpoint b \<longleftrightarrow> a = b"
  "user_endpoint a = user_endpoint b \<longleftrightarrow> a = b"
  "agent_endpoint r = agent_endpoint r' \<longleftrightarrow> r = r'"
  by (auto simp: session_endpoint_def user_endpoint_def agent_endpoint_def)

lemma endpoint_families_disjoint [simp]:
  "session_endpoint a \<noteq> user_endpoint b" "user_endpoint b \<noteq> session_endpoint a"
  "session_endpoint a \<noteq> agent_endpoint r" "agent_endpoint r \<noteq> session_endpoint a"
  "user_endpoint a \<noteq> agent_endpoint r" "agent_endpoint r \<noteq> user_endpoint a"
  "node_endpoint a \<noteq> session_endpoint b" "session_endpoint b \<noteq> node_endpoint a"
  by (auto simp: session_endpoint_def user_endpoint_def agent_endpoint_def node_endpoint_def)

lemma after_colon_user [simp]: "after_colon (user_endpoint u) = u"
  by (simp add: after_colon_def user_endpoint_def)

lemma after_colon_account [simp]: "after_colon (account_endpoint u) = u"
  by (simp add: after_colon_def account_endpoint_def)

lemma py_isspace_letters [simp]:
  "\<not> py_isspace (CHR ''a'')" "\<not> py_isspace (CHR ''c'')" "\<not> py_isspace (CHR ''s'')"
  "\<not> py_isspace (CHR ''u'')" "\<not> py_isspace (CHR ''n'')" "\<not> py_isspace (CHR '':'')"
  by (simp_all add: py_isspace_def)

lemma py_isspace_cases: "py_isspace c \<Longrightarrow> c \<noteq> CHR '':'' \<and> c \<noteq> CHR ''-'' \<and> c \<noteq> CHR ''u''"
  by (auto simp: py_isspace_def)

text \<open>Text with no leading or trailing white space.\<close>

definition stripped :: "string \<Rightarrow> bool" where
  "stripped s \<longleftrightarrow> py_strip s = s"

lemma stripped_py_strip [simp]: "stripped (py_strip s)"
  by (simp add: stripped_def)

lemma py_strip_alt: "py_strip s = rev (dropWhile py_isspace (rev (dropWhile py_isspace s)))"
  by (simp add: py_strip_def strip_by_def)

lemma stripped_iff:
  "stripped s \<longleftrightarrow> s = [] \<or> \<not> py_isspace (hd s) \<and> \<not> py_isspace (last s)"
proof
  assume "stripped s"
  then have eq: "rev (dropWhile py_isspace (rev (dropWhile py_isspace s))) = s"
    by (simp add: stripped_def py_strip_alt)
  then have "length (dropWhile py_isspace s) \<ge> length s"
    by (metis length_dropWhile_le length_rev)
  then have d: "dropWhile py_isspace s = s"
    by (metis length_append add_le_same_cancel2 append_self_conv2 le_zero_eq length_0_conv takeWhile_dropWhile_id)
  with eq have "dropWhile py_isspace (rev s) = rev s" by (metis rev_rev_ident)
  with d show "s = [] \<or> \<not> py_isspace (hd s) \<and> \<not> py_isspace (last s)"
    by (simp only: dropWhile_eq_self_iff hd_rev) auto
next
  assume "s = [] \<or> \<not> py_isspace (hd s) \<and> \<not> py_isspace (last s)"
  then have "dropWhile py_isspace s = s" "dropWhile py_isspace (rev s) = rev s"
    by (auto simp: dropWhile_eq_self_iff hd_rev)
  then show "stripped s" by (simp add: stripped_def py_strip_alt)
qed

lemma stripped_tail:
  assumes "stripped (p @ t)" "p \<noteq> []" "t \<noteq> []"
  shows "\<not> py_isspace (last t)"
  using assms by (simp add: stripped_iff)

lemma user_endpoint_strip:
  assumes "stripped (account_endpoint u)"
  shows "py_strip (user_endpoint u) = user_endpoint u"
  using assms unfolding stripped_def [symmetric]
  by (auto simp: stripped_iff user_endpoint_def account_endpoint_def split: if_splits)

lemma starts_with_families [simp]:
  "starts_with ''account:'' (account_endpoint u)" "\<not> starts_with ''account:'' (user_endpoint u)"
  "starts_with ''user:'' (user_endpoint u)" "\<not> starts_with ''user:'' (session_endpoint u)"
  by (simp_all add: starts_with_def user_endpoint_def account_endpoint_def session_endpoint_def)

lemma starts_with_account: "starts_with ''account:'' s \<Longrightarrow> \<exists>u. s = account_endpoint u"
  by (simp only: starts_with_iff account_endpoint_def)

lemma starts_with_user: "starts_with ''user:'' s \<Longrightarrow> \<exists>u. s = user_endpoint u"
  by (simp only: starts_with_iff user_endpoint_def)

lemma canonical_cases:
  obtains (account) u where "py_strip e = account_endpoint u" "canonical_endpoint e = user_endpoint u"
  | (other) "\<not> starts_with ''account:'' (py_strip e)" "canonical_endpoint e = py_strip e"
proof (cases "starts_with ''account:'' (py_strip e)")
  case True
  with starts_with_account obtain u where "py_strip e = account_endpoint u" by blast
  then show ?thesis by (intro account) (simp_all add: canonical_endpoint_def)
next
  case False
  then show ?thesis by (intro other) (simp_all add: canonical_endpoint_def)
qed

lemma canonical_endpoint_idem: "canonical_endpoint (canonical_endpoint e) = canonical_endpoint e"
proof (cases e rule: canonical_cases)
  case (account u)
  then have "py_strip (user_endpoint u) = user_endpoint u"
    by (intro user_endpoint_strip) (metis stripped_py_strip)
  then show ?thesis using account by (simp add: canonical_endpoint_def)
next
  case other
  then show ?thesis by (simp add: canonical_endpoint_def)
qed

lemma canonical_legacy_alias:
  "canonical_endpoint (legacy_endpoint_alias e) = canonical_endpoint e"
proof (cases "starts_with ''user:'' (py_strip e)")
  case True
  with starts_with_user obtain u where u: "py_strip e = user_endpoint u" by blast
  then have "stripped (user_endpoint u)" by (metis stripped_py_strip)
  then have "py_strip (account_endpoint u) = account_endpoint u"
    unfolding stripped_def [symmetric]
    by (auto simp: stripped_iff user_endpoint_def account_endpoint_def split: if_splits)
  then show ?thesis
    using True u by (simp add: legacy_endpoint_alias_def canonical_endpoint_def Let_def)
next
  case False
  then show ?thesis by (simp add: legacy_endpoint_alias_def canonical_endpoint_def Let_def)
qed

lemma agent_role_of_simps [simp]:
  "agent_role_of (role_name r) = Some r"
  by (cases r) (simp_all add: agent_role_of_def)

lemma agent_role_of_Some: "agent_role_of s = Some r \<longleftrightarrow> s = role_name r"
  by (cases r) (auto simp: agent_role_of_def split: if_splits)

lemma py_strip_role_name [simp]: "py_strip (role_name r) = role_name r"
  unfolding stripped_def [symmetric] by (cases r) (auto simp: stripped_iff py_isspace_def)

lemma normalize_endpoint_role [simp]:
  "normalize_endpoint (role_name r) sid = Inr (agent_endpoint r)"
  by (simp add: normalize_endpoint_def)

lemma normalize_endpoint_GoalManager [simp]:
  "normalize_endpoint ''GoalManager'' sid = Inr (agent_endpoint GoalManager)"
  using normalize_endpoint_role [of GoalManager] by simp

lemma normalize_endpoint_Session [simp]:
  "sid \<noteq> [] \<Longrightarrow> normalize_endpoint SESSION_RECIPIENT sid = Inr (session_endpoint sid)"
proof -
  have "py_strip SESSION_RECIPIENT = SESSION_RECIPIENT"
    unfolding stripped_def [symmetric] by (auto simp: stripped_iff py_isspace_def)
  moreover assume "sid \<noteq> []"
  ultimately show ?thesis
    by (simp add: normalize_endpoint_def normalize_system_endpoint_def agent_role_of_def
        ROLE_ALIASES_def starts_with_def)
qed

lemma normalize_agent_role_name [simp]: "normalize_agent_role (role_name r) = role_name r"
  by (cases r)
     (simp_all add: normalize_agent_role_def ROLE_ALIASES_def py_lower_def py_lower_char_def
        del: py_strip_role_name add: py_strip_role_name [of GoalManager, simplified]
        py_strip_role_name [of WorkerAgent, simplified])

lemma slot_group_name_role [simp]: "slot_group_name (role_name r) = slot_group r"
  by (simp add: slot_group_name_def)

text \<open>Canonical endpoints are stable: canonicalising twice changes nothing, and the legacy alias under
  which an account's history may be stored canonicalises to the same endpoint, so both spellings
  name one recipient.\<close>

theorem canonical_endpoint_stable:
  "canonical_endpoint (canonical_endpoint e) = canonical_endpoint e
   \<and> canonical_endpoint (legacy_endpoint_alias e) = canonical_endpoint e"
  by (simp add: canonical_endpoint_idem canonical_legacy_alias)

end
