(* ===== verification/Model.thy ===== *)
theory Model
  imports Kernel_Defs
begin

section \<open>The state document: entities, log entries and the store\<close>

text \<open>
  The state that \<open>Store.load\<close> hands to an operation is a JSON object of collections. Each
  entity (\<open>User\<close>, \<open>Session\<close>, \<open>Message\<close> of src/src/kernel/model.py, \<open>Unit\<close>, \<open>Goal\<close> of
  src/src/goal/model.py, and the dictionaries the operations build for readiness entries,
  dispatch runs, agent threads and profiles) is a record with one field per key the code
  reads or writes. The code reads optional text as \<open>str(x.get(k) or "")\<close>, so an absent key,
  \<open>null\<close> and the empty text are one value, \<open>[]\<close>; where the code tells an absent key from a
  present one the field is an \<open>option\<close>. A message payload has a field for every key that is
  read back and \<open>pl_extra\<close> for the keys that are only stored.
\<close>

subsection \<open>Values stored under free keys\<close>

datatype jval = JStr string | JInt int | JBool bool | JStrs "string list" | JObj "(string \<times> jval) list"

type_synonym jobject = "(string \<times> jval) list"

text \<open>\<open>str(d.get(k) or "")\<close> for a key that holds text.\<close>

definition jstr :: "jobject \<Rightarrow> string \<Rightarrow> string" where
  "jstr d k = (case map_of d k of Some (JStr s) \<Rightarrow> s | _ \<Rightarrow> [])"

subsection \<open>Kernel entities\<close>

record user =
  u_username :: string
  u_password_hash :: string
  u_salt :: string
  u_groups :: "string list"
  u_created_at :: string
  u_status :: string
  u_provider :: string
  u_home_session_id :: string
  u_home_unit_id :: string

record scheduling_policy =
  pol_class :: string
  pol_base_priority :: int

record current_state =
  cs_active :: bool
  cs_goal_id :: string
  cs_goal_completion_state :: string

record schedule_timing =
  tm_scheduled_for :: string
  tm_queued_at :: string
  tm_started_at :: string
  tm_completed_at :: string

record session =
  s_session_id :: string
  s_title :: string
  s_unit_id :: string
  s_created_at :: string
  s_updated_at :: string
  s_active :: bool
  s_singleton :: bool
  s_policy :: scheduling_policy
  s_role_cursors :: "role \<Rightarrow> nat"
  s_schedule_timing :: "schedule_timing option"
  s_current_state :: "current_state option"

record payload =
  pl_body :: string
  pl_files :: "jobject list"
  pl_user_input :: bool
  pl_worker_request :: bool
  pl_worker_followup :: bool
  pl_defer_goal_manager :: bool
  pl_implicit_worker_request :: bool
  pl_schedule_update :: bool
  pl_run_id :: string
  pl_reply_to :: string
  pl_agent_role :: "role option"
  pl_agent_user :: string
  pl_wake_events :: "string list"
  pl_extra :: jobject

definition empty_payload :: payload where
  "empty_payload =
     \<lparr>pl_body = [], pl_files = [], pl_user_input = False, pl_worker_request = False,
      pl_worker_followup = False, pl_defer_goal_manager = False,
      pl_implicit_worker_request = False, pl_schedule_update = False, pl_run_id = [],
      pl_reply_to = [], pl_agent_role = None, pl_agent_user = [], pl_wake_events = [],
      pl_extra = []\<rparr>"

record message =
  m_message_id :: string
  m_from :: string
  m_to :: string
  m_payload :: payload
  m_created_at :: string

subsection \<open>Goal entities\<close>

datatype completion_state = Incomplete | Complete | Waiting

fun completion_name :: "completion_state \<Rightarrow> string" where
  "completion_name Incomplete = ''incomplete''"
| "completion_name Complete = ''complete''"
| "completion_name Waiting = ''waiting''"

datatype wait_spec = Wait_deadline string | Wait_event string | Wait_child string

record waiting =
  w_spec :: wait_spec
  w_wake_log_seq :: nat
  w_reason :: string
  w_declared_at :: string
  w_declared_run_id :: string

record goal =
  g_goal_id :: string
  g_session_id :: string
  g_body :: string
  g_created_by :: string
  g_created_at :: string
  g_updated_at :: string
  g_completion_state :: completion_state
  g_completion_reason :: string
  g_completion_reason_updated_at :: string
  g_completed_at :: "string option"
  g_last_incomplete_at :: "string option"
  g_archived_at :: string
  g_waiting :: "waiting option"
  g_dispatched_at :: string
  g_dispatched_unit_id :: string
  g_failed_at :: string

record schedule =
  sch_enabled :: bool
  sch_next_run_at :: string
  sch_note :: string
  sch_resolver :: string
  sch_fixed_parameters :: jobject
  sch_last_run_at :: "string option"
  sch_next_run_required_by :: "string option"
  sch_next_run_note :: "string option"
  sch_next_run_set_by_session_id :: "string option"
  sch_next_run_set_by_run_id :: "string option"
  sch_next_run_set_at :: "string option"
  sch_last_resolution :: "jobject option"

record triggers =
  tr_manual :: bool
  tr_scheduled :: bool
  tr_startup :: bool

record unit_rec =
  un_unit_id :: string
  un_created_at :: string
  un_updated_at :: string
  un_status :: string
  un_instance_policy :: string
  un_singleton_session_id :: string
  un_display_name :: string
  un_description :: string
  un_goal_text :: string
  un_initial_prompt :: string
  un_schedule :: "schedule option"
  un_activation_triggers :: "triggers option"
  un_owner_account :: string
  un_spawn_groups :: "string list"
  un_last_scheduled_at :: string
  un_scheduled_run_count :: nat
  un_last_startup_at :: string
  un_startup_run_count :: nat

subsection \<open>Session log entries\<close>

record transition =
  t_previous_state :: "completion_state option"
  t_completion_state :: completion_state
  t_reason :: string
  t_actor :: string
  t_run_id :: string
  t_created_at :: string
  t_defer_goal_manager :: bool

record system_signal =
  sg_signal_id :: string
  sg_signal_type :: string
  sg_body :: string
  sg_target_roles :: "role list"
  sg_actor :: string
  sg_run_id :: string
  sg_created_at :: string
  sg_data :: jobject

record child_completed =
  cc_child_session_id :: string
  cc_child_goal_id :: string
  cc_child_goal_body :: string
  cc_completion_reason :: string
  cc_actor :: string
  cc_run_id :: string
  cc_created_at :: string

text \<open>The \<open>kind\<close> of an entry with the object that kind carries (\<open>message\<close> or \<open>event\<close>).\<close>

datatype log_item =
    LMessage message
  | LSessionActiveChanged bool bool string string
  | LGoalStateChanged transition
  | LGoalBodyUpdated string string string string string
  | LChildGoalCompleted child_completed
  | LSystemSignal system_signal

record log_entry =
  le_log_id :: string
  le_seq :: nat
  le_session_id :: string
  le_created_at :: string
  le_item :: log_item
  le_event_key :: string

subsection \<open>Dispatch entities\<close>

record wake_reason =
  wr_seq :: nat
  wr_kind :: string
  wr_reason :: string
  wr_message_id :: string
  wr_log_id :: string
  wr_available_after :: string

datatype readiness_status = Ready | Acquired | Resolved | Stale | Failed

record readiness =
  rd_readiness_id :: string
  rd_session_id :: string
  rd_goal_id :: string
  rd_role :: role
  rd_status :: readiness_status
  rd_first_ready_at :: string
  rd_refreshed_at :: string
  rd_from_log_seq :: nat
  rd_observed_to_seq :: nat
  rd_wake_reasons :: "wake_reason list"
  rd_available_after :: string
  rd_acquired_at :: "string option"
  rd_ended_at :: string
  rd_stale_reason :: string
  rd_recovered_at :: string

datatype lease_state = LeaseAcquired | LeaseReleased | LeaseInterrupted

datatype outcome =
    Declared_completion completion_state string jobject string string
  | Declared_waiting wait_spec nat string string string

record turn_outcome =
  to_role :: role
  to_required_output :: string
  to_valid :: bool
  to_session_message_ids :: "string list"
  to_goal_decision :: "outcome option"
  to_protocol_signal_id :: string
  to_protocol_signal_log_id :: string

record run_step =
  sp_phase :: string
  sp_provider :: string
  sp_from :: string
  sp_to :: string
  sp_message_id :: string
  sp_created_at :: string
  sp_output :: string

record stale_result =
  sr_created_at :: string
  sr_role :: role
  sr_fence_reason :: string
  sr_output :: string

record run =
  r_run_id :: string
  r_goal_id :: string
  r_session_id :: string
  r_role :: role
  r_unit_id :: string
  r_lease_state :: lease_state
  r_readiness_id :: string
  r_scheduling_score :: int
  r_scheduling_reason :: string
  r_created_at :: string
  r_lease_acquired_at :: string
  r_lease_released_at :: string
  r_interrupted_at :: string
  r_interrupted_reason :: string
  r_steps :: "run_step list"
  r_session_message_ids :: "string list"
  r_current_phase :: "role option"
  r_agent_group :: string
  r_agent_user :: string
  r_agent_provider :: string
  r_observed_goal_body :: string
  r_from_log_seq :: nat
  r_observed_to_seq :: nat
  r_wake_reasons :: "wake_reason list"
  r_dispatch_lot_id :: "nat option"
  r_recovery_context :: string
  r_completion_state :: "completion_state option"
  r_goal_manager_status :: string
  r_declared_outcome :: "outcome option"
  r_outcome :: "turn_outcome option"
  r_stale_results :: "stale_result list"
  r_stale_result_at :: string
  r_failed_at :: string
  r_error :: string

record agent_profile =
  ap_role :: role
  ap_provider :: string
  ap_accounts :: "string list"
  ap_status :: string
  ap_default_assignment :: bool
  ap_created_at :: string
  ap_updated_at :: string

record agent_turn =
  at_created_at :: string
  at_prompt :: string
  at_result :: string

record agent_thread =
  th_thread_id :: string
  th_session_id :: string
  th_role :: role
  th_group :: string
  th_account :: string
  th_resume_token :: string
  th_created_at :: string
  th_updated_at :: string
  th_turns :: "agent_turn list"
  th_provider_threads :: "string dict"

record edge =
  e_parent :: string
  e_child :: string
  e_created_at :: string

subsection \<open>The state\<close>

text \<open>
  \<open>st_session_logs\<close> and \<open>st_log_full_ids\<close> are the operation-local caches of the state object
  (\<open>session_logs\<close>, \<open>_session_log_full_ids\<close>); \<open>st_disk_logs\<close> is what the storage holds.
  The last four fields are the environment an operation reads: successive readings of the
  clock (in microseconds, one per call, in any order), the supply of fresh identifiers (the
  \<open>uuid4\<close> values, which never repeat) and the machine's local time zone.
\<close>

record state =
  st_users :: "user dict"
  st_units :: "unit_rec dict"
  st_sessions :: "session dict"
  st_session_edges :: "edge list"
  st_goals :: "goal dict"
  st_agent_profiles :: "agent_profile dict"
  st_agent_threads :: "agent_thread dict"
  st_dispatch_runs :: "run dict"
  st_dispatch_readiness :: "readiness list"
  st_dispatch_lot_size :: int
  st_endpoint_cursors :: "string dict"
  st_session_logs :: "log_entry list dict"
  st_log_full_ids :: "string list"
  st_disk_logs :: "log_entry list dict"
  st_clock :: "nat \<Rightarrow> instant"
  st_ticks :: nat
  st_uid :: nat
  st_local_zone :: "instant \<Rightarrow> instant"

text \<open>
  \<open>Session(...).to_dict()\<close>, \<open>Goal(...).to_dict()\<close>, \<open>Unit(...).to_dict()\<close> and \<open>User(...).to_dict()\<close>
  with the fields their callers leave out at the dataclass defaults. A new session's role
  cursors are the zeros that \<open>_ensure_role_cursors\<close> sets.
\<close>

definition new_session :: "string \<Rightarrow> string \<Rightarrow> string \<Rightarrow> string \<Rightarrow> bool \<Rightarrow> session" where
  "new_session session_id unit_id created_at title singleton =
     \<lparr>s_session_id = session_id, s_title = title, s_unit_id = unit_id, s_created_at = created_at,
      s_updated_at = created_at, s_active = True, s_singleton = singleton,
      s_policy = \<lparr>pol_class = ''normal'', pol_base_priority = 0\<rparr>, s_role_cursors = (\<lambda>_. 0),
      s_schedule_timing = None, s_current_state = None\<rparr>"

definition new_goal :: "string \<Rightarrow> string \<Rightarrow> string \<Rightarrow> string \<Rightarrow> string \<Rightarrow> goal" where
  "new_goal goal_id session_id body created_by created_at =
     \<lparr>g_goal_id = goal_id, g_session_id = session_id, g_body = body, g_created_by = created_by,
      g_created_at = created_at, g_updated_at = [], g_completion_state = Incomplete,
      g_completion_reason = [], g_completion_reason_updated_at = [], g_completed_at = None,
      g_last_incomplete_at = None, g_archived_at = [], g_waiting = None, g_dispatched_at = [],
      g_dispatched_unit_id = [], g_failed_at = []\<rparr>"

definition new_unit :: "string \<Rightarrow> string \<Rightarrow> string \<Rightarrow> unit_rec" where
  "new_unit unit_id created_at instance_policy =
     \<lparr>un_unit_id = unit_id, un_created_at = created_at, un_updated_at = [], un_status = ''active'',
      un_instance_policy = instance_policy, un_singleton_session_id = [], un_display_name = [],
      un_description = [], un_goal_text = [], un_initial_prompt = [], un_schedule = None,
      un_activation_triggers = None, un_owner_account = [], un_spawn_groups = [],
      un_last_scheduled_at = [], un_scheduled_run_count = 0, un_last_startup_at = [],
      un_startup_run_count = 0\<rparr>"

definition new_user :: "string \<Rightarrow> string \<Rightarrow> string \<Rightarrow> string list \<Rightarrow> string \<Rightarrow> string \<Rightarrow> string \<Rightarrow> user" where
  "new_user username password_hash salt groups created_at status provider =
     \<lparr>u_username = username, u_password_hash = password_hash, u_salt = salt, u_groups = groups,
      u_created_at = created_at, u_status = status, u_provider = provider,
      u_home_session_id = [], u_home_unit_id = []\<rparr>"

text \<open>The state dictionary that \<open>Store.init\<close> starts a new store with, in a given environment.\<close>

definition blank_state :: "(nat \<Rightarrow> instant) \<Rightarrow> (instant \<Rightarrow> instant) \<Rightarrow> state" where
  "blank_state clock zone =
     \<lparr>st_users = [], st_units = [], st_sessions = [], st_session_edges = [], st_goals = [],
      st_agent_profiles = [], st_agent_threads = [], st_dispatch_runs = [],
      st_dispatch_readiness = [], st_dispatch_lot_size = 1, st_endpoint_cursors = [],
      st_session_logs = [], st_log_full_ids = [], st_disk_logs = [], st_clock = clock,
      st_ticks = 0, st_uid = 0, st_local_zone = zone\<rparr>"

subsection \<open>Clock and identifiers\<close>

definition now_instant :: "state \<Rightarrow> instant \<times> state" where
  "now_instant st = (st_clock st (st_ticks st), st\<lparr>st_ticks := Suc (st_ticks st)\<rparr>)"

definition utc_now :: "state \<Rightarrow> string \<times> state" where
  "utc_now st = (iso_utc (st_clock st (st_ticks st)), st\<lparr>st_ticks := Suc (st_ticks st)\<rparr>)"

definition id_of :: "string \<Rightarrow> nat \<Rightarrow> string" where
  "id_of prefix n = prefix @ ''-'' @ pad0 12 (digits_base 16 n)"

definition new_id :: "string \<Rightarrow> state \<Rightarrow> string \<times> state" where
  "new_id prefix st = (id_of prefix (st_uid st), st\<lparr>st_uid := Suc (st_uid st)\<rparr>)"

lemma id_of_inject [simp]: "id_of p m = id_of p n \<longleftrightarrow> m = n"
  by (simp add: id_of_def pad0_hex_inject)

lemma id_of_nonempty [simp]: "id_of p n \<noteq> []"
  by (simp add: id_of_def)

text \<open>
  \<open>_parse_utc\<close> of src/src/goal/sessions.py: text to an instant, a \<open>StoreError\<close> when the text
  is no timestamp.
\<close>

definition parse_utc :: "state \<Rightarrow> string \<Rightarrow> instant res" where
  "parse_utc st value =
     (case fromisoformat (replace_Z value) of
        None \<Rightarrow> Inl (StoreError (''invalid UTC timestamp: '' @ value))
      | Some dt \<Rightarrow> astimezone_utc (st_local_zone st) dt)"

text \<open>Lookup and in-place mutation of an entity.\<close>

abbreviation get_session :: "state \<Rightarrow> string \<Rightarrow> session option" where
  "get_session st sid \<equiv> map_of (st_sessions st) sid"

abbreviation get_goal :: "state \<Rightarrow> string \<Rightarrow> goal option" where
  "get_goal st gid \<equiv> map_of (st_goals st) gid"

abbreviation get_run :: "state \<Rightarrow> string \<Rightarrow> run option" where
  "get_run st rid \<equiv> map_of (st_dispatch_runs st) rid"

definition upd_session :: "string \<Rightarrow> (session \<Rightarrow> session) \<Rightarrow> state \<Rightarrow> state" where
  "upd_session sid f st = st\<lparr>st_sessions := AList.map_entry sid f (st_sessions st)\<rparr>"

definition upd_goal :: "string \<Rightarrow> (goal \<Rightarrow> goal) \<Rightarrow> state \<Rightarrow> state" where
  "upd_goal gid f st = st\<lparr>st_goals := AList.map_entry gid f (st_goals st)\<rparr>"

definition upd_run :: "string \<Rightarrow> (run \<Rightarrow> run) \<Rightarrow> state \<Rightarrow> state" where
  "upd_run rid f st = st\<lparr>st_dispatch_runs := AList.map_entry rid f (st_dispatch_runs st)\<rparr>"

definition upd_unit :: "string \<Rightarrow> (unit_rec \<Rightarrow> unit_rec) \<Rightarrow> state \<Rightarrow> state" where
  "upd_unit uid f st = st\<lparr>st_units := AList.map_entry uid f (st_units st)\<rparr>"

definition upd_readiness :: "(readiness \<Rightarrow> bool) \<Rightarrow> (readiness \<Rightarrow> readiness) \<Rightarrow> state \<Rightarrow> state" where
  "upd_readiness p f st =
     st\<lparr>st_dispatch_readiness := map (\<lambda>e. if p e then f e else e) (st_dispatch_readiness st)\<rparr>"

lemmas upd_defs = upd_session_def upd_goal_def upd_run_def upd_unit_def upd_readiness_def

lemma iso_utc_nonempty [simp]: "iso_utc i \<noteq> []"
  by (simp add: iso_utc_def Let_def case_prod_beta)

text \<open>Stored timestamps read back: the string \<open>utc_now\<close> writes for any instant a \<open>datetime\<close> can hold
  is parsed by \<open>_parse_utc\<close> to that instant, less its fraction of a second, whatever the machine's
  local time zone.\<close>

theorem utc_now_reads_back:
  assumes "min_instant \<le> st_clock st (st_ticks st)" "st_clock st (st_ticks st) \<le> max_instant"
  shows "parse_utc st' (fst (utc_now st)) = Inr (st_clock st (st_ticks st) div 1000000 * 1000000)"
proof -
  let ?t = "st_clock st (st_ticks st)"
  have "min_instant \<le> ?t div 1000000 * 1000000" "?t div 1000000 * 1000000 \<le> max_instant"
    using assms by (simp_all add: min_instant_def max_instant_def us_per_day_def)
  then show ?thesis
    using fromisoformat_iso_utc [OF assms] by (simp add: parse_utc_def utc_now_def astimezone_utc_def)
qed

theorem utc_now_reads_back_witness:
  "parse_utc (blank_state (\<lambda>_. 0) (\<lambda>i. i - 3600000000))
     (fst (utc_now (blank_state (\<lambda>_. 63900000000123456) (\<lambda>i. i)))) = Inr 63900000000000000"
  using utc_now_reads_back [of "blank_state (\<lambda>_. 63900000000123456) (\<lambda>i. i)"
      "blank_state (\<lambda>_. 0) (\<lambda>i. i - 3600000000)"]
  by (simp add: blank_state_def min_instant_def max_instant_def us_per_day_def)

end
