(* ===== verification/Session_Log.thy ===== *)
theory Session_Log
  imports Model "HOL-Library.Sublist"
begin

section \<open>The session log: caches, append and cursors\<close>

text \<open>
  src/src/kernel/session_log.py. A session's log lives in two places while an operation runs:
  the durable entries of the storage and the entries the operation has appended (or, once the
  whole log was read, a cache of both). \<open>log_view\<close> is the one append-only sequence these
  stand for; \<open>log_inv\<close> is what every operation keeps of the two. The locale
  \<open>append_only_log\<close> is the contract the rest of the program uses, and the model's operations
  are shown to provide it.
\<close>

subsection \<open>The storage's view of a log\<close>

definition disk_log :: "state \<Rightarrow> string \<Rightarrow> log_entry list" where
  "disk_log st sid = dict_get [] (st_disk_logs st) sid"

definition pending_log :: "state \<Rightarrow> string \<Rightarrow> log_entry list" where
  "pending_log st sid = dict_get [] (st_session_logs st) sid"

definition last_seq :: "log_entry list \<Rightarrow> nat" where
  "last_seq es = (case last_opt es of None \<Rightarrow> 0 | Some e \<Rightarrow> le_seq e)"

text \<open>\<open>storage.latest_session_log_seq\<close> and \<open>storage.read_session_log\<close>.\<close>

definition latest_disk_seq :: "state \<Rightarrow> string \<Rightarrow> nat" where
  "latest_disk_seq st sid = last_seq (disk_log st sid)"

definition read_disk_log :: "state \<Rightarrow> string \<Rightarrow> nat \<Rightarrow> nat option \<Rightarrow> log_entry list" where
  "read_disk_log st sid from_seq to_seq =
     filter (\<lambda>e. from_seq \<le> le_seq e \<and> (case to_seq of None \<Rightarrow> True | Some n \<Rightarrow> le_seq e \<le> n))
       (disk_log st sid)"

subsection \<open>Parents, reading, appending\<close>

definition parent_session_ids :: "state \<Rightarrow> string \<Rightarrow> string list" where
  "parent_session_ids st child =
     sorted_set (map e_parent (filter (\<lambda>e. e_child e = child \<and> e_parent e \<noteq> []) (st_session_edges st)))"

definition merge_by_seq :: "log_entry list \<Rightarrow> log_entry list" where
  "merge_by_seq es =
     (let d = fold (\<lambda>e. AList.update (le_seq e) e) es [] in
      map (\<lambda>k. the (map_of d k)) (sort (map fst d)))"

definition session_log_entries :: "string \<Rightarrow> state \<Rightarrow> log_entry list \<times> state" where
  "session_log_entries sid st =
     (if sid \<in> set (st_log_full_ids st) then (pending_log st sid, st)
      else let merged = merge_by_seq (disk_log st sid @ pending_log st sid) in
        (merged, st\<lparr>st_session_logs := AList.update sid merged (st_session_logs st),
                    st_log_full_ids := st_log_full_ids st @ [sid]\<rparr>))"

definition all_session_log_ids :: "state \<Rightarrow> string list" where
  "all_session_log_ids st = sorted_set (dict_keys (st_disk_logs st) @ dict_keys (st_session_logs st))"

definition clear_session_log_cache :: "state \<Rightarrow> state" where
  "clear_session_log_cache st = st\<lparr>st_session_logs := [], st_log_full_ids := []\<rparr>"

fun item_message :: "log_item \<Rightarrow> message option" where
  "item_message (LMessage m) = Some m"
| "item_message _ = None"

definition has_message_id :: "string \<Rightarrow> log_entry \<Rightarrow> bool" where
  "has_message_id mid e = (case item_message (le_item e) of None \<Rightarrow> False | Some m \<Rightarrow> m_message_id m = mid)"

definition duplicate_entry :: "log_entry list \<Rightarrow> log_item \<Rightarrow> string \<Rightarrow> bool" where
  "duplicate_entry entries item event_key \<longleftrightarrow>
     (case item_message item of
        Some m \<Rightarrow> m_message_id m \<noteq> [] \<and> list_ex (has_message_id (m_message_id m)) entries
      | None \<Rightarrow> False)
     \<or> event_key \<noteq> [] \<and> list_ex (\<lambda>e. le_event_key e = event_key) entries"

definition append_session_log_entry ::
  "string \<Rightarrow> log_item \<Rightarrow> string \<Rightarrow> string \<Rightarrow> state \<Rightarrow> log_entry \<times> state" where
  "append_session_log_entry sid item created_at event_key st =
     (let entries = pending_log st sid;
          st0 = st\<lparr>st_session_logs := dict_setdefault sid [] (st_session_logs st)\<rparr>
      in if duplicate_entry entries item event_key then (last entries, st0)
         else
           let next_seq = max (latest_disk_seq st sid) (last_seq entries) + 1;
               (log_id, st1) = new_id ''log'' st0;
               (ts, st2) = (if created_at = [] then utc_now st1 else (created_at, st1));
               entry = \<lparr>le_log_id = log_id, le_seq = next_seq, le_session_id = sid,
                        le_created_at = ts, le_item = item, le_event_key = event_key\<rparr>
           in (entry, st2\<lparr>st_session_logs := AList.update sid (entries @ [entry]) (st_session_logs st2)\<rparr>))"

text \<open>
  \<open>_log_message_for_session\<close> stores the message in the entry that the append returned, which
  for a message identifier already logged is the last entry.
\<close>

fun set_item_message :: "message \<Rightarrow> log_item \<Rightarrow> log_item" where
  "set_item_message m (LMessage _) = LMessage m"
| "set_item_message m item = item"

definition map_last :: "('a \<Rightarrow> 'a) \<Rightarrow> 'a list \<Rightarrow> 'a list" where
  "map_last f xs = (if xs = [] then [] else butlast xs @ [f (last xs)])"

definition log_message_for_session :: "message \<Rightarrow> string \<Rightarrow> state \<Rightarrow> state" where
  "log_message_for_session m sid st =
     (let (entry, st1) = append_session_log_entry sid (LMessage m) (m_created_at m) [] st
      in st1\<lparr>st_session_logs := AList.map_entry sid
               (map_last (\<lambda>e. e\<lparr>le_item := set_item_message m (le_item e)\<rparr>)) (st_session_logs st1)\<rparr>)"

definition session_log_after_cursor :: "state \<Rightarrow> string \<Rightarrow> nat \<Rightarrow> log_entry list" where
  "session_log_after_cursor st sid cursor =
     (let entries =
        (if sid \<in> set (st_log_full_ids st) then pending_log st sid
         else read_disk_log st sid (cursor + 1) None
              @ filter (\<lambda>e. le_seq e > cursor) (pending_log st sid))
      in filter (\<lambda>e. le_seq e > cursor) entries)"

definition latest_session_log_seq :: "state \<Rightarrow> string \<Rightarrow> nat" where
  "latest_session_log_seq st sid = max (latest_disk_seq st sid) (last_seq (pending_log st sid))"

definition set_session_log_cursor :: "string \<Rightarrow> role \<Rightarrow> nat \<Rightarrow> state \<Rightarrow> state" where
  "set_session_log_cursor sid role n st =
     upd_session sid (\<lambda>s. s\<lparr>s_role_cursors := (s_role_cursors s)(role := max (s_role_cursors s role) n)\<rparr>) st"

definition message_for_log_entry :: "log_entry \<Rightarrow> message option" where
  "message_for_log_entry e =
     (case item_message (le_item e) of
        None \<Rightarrow> None
      | Some m \<Rightarrow> if m_message_id m = [] then None else Some m)"

fun item_signal :: "log_item \<Rightarrow> system_signal option" where
  "item_signal (LSystemSignal s) = Some s"
| "item_signal _ = None"

definition system_signals_for_log_range ::
  "state \<Rightarrow> string \<Rightarrow> nat \<Rightarrow> nat \<Rightarrow> role option \<Rightarrow> (system_signal \<times> string \<times> nat) list" where
  "system_signals_for_log_range st sid from_seq to_seq target =
     (let entries =
        (if sid \<in> set (st_log_full_ids st) then pending_log st sid
         else read_disk_log st sid from_seq (Some to_seq) @ pending_log st sid)
      in List.map_filter
           (\<lambda>e. if le_seq e < from_seq \<or> le_seq e > to_seq then None
                else case item_signal (le_item e) of
                  None \<Rightarrow> None
                | Some s \<Rightarrow> (case target of
                    Some r \<Rightarrow> if r \<in> set (sg_target_roles s) then Some (s, le_log_id e, le_seq e) else None
                  | None \<Rightarrow> Some (s, le_log_id e, le_seq e))) entries)"

subsection \<open>Saving\<close>

text \<open>
  \<open>storage.append_session_log_entries\<close> as the operations see it: the entries past the durable
  ones must continue the sequence and belong to the session, and are then durable too.
\<close>

fun validate_pending :: "string \<Rightarrow> nat \<Rightarrow> log_entry list \<Rightarrow> unit res" where
  "validate_pending sid expected [] = Inr ()"
| "validate_pending sid expected (e # es) =
     (if le_seq e \<noteq> expected then Inl (StoreError (''SessionLog sequence mismatch for '' @ sid))
      else if le_session_id e \<noteq> sid then
        Inl (StoreError (''SessionLog entry belongs to another Session: '' @ sid))
      else validate_pending sid (Suc expected) es)"

definition append_disk_log :: "string \<Rightarrow> log_entry list \<Rightarrow> state \<Rightarrow> state res" where
  "append_disk_log sid entries st =
     (let persisted = latest_disk_seq st sid;
          pending = filter (\<lambda>e. le_seq e > persisted) entries
      in if pending = [] then Inr st
         else bindR (validate_pending sid (Suc persisted) pending)
           (\<lambda>_. Inr (st\<lparr>st_disk_logs := AList.update sid (disk_log st sid @ pending) (st_disk_logs st)\<rparr>)))"

definition save_session_logs :: "state \<Rightarrow> state res" where
  "save_session_logs st = foldR (\<lambda>(sid, entries). append_disk_log sid entries) (st_session_logs st) st"

subsection \<open>The log as one sequence\<close>

definition log_view :: "state \<Rightarrow> string \<Rightarrow> log_entry list" where
  "log_view st sid =
     (if sid \<in> set (st_log_full_ids st) then pending_log st sid else disk_log st sid @ pending_log st sid)"

definition seq_from :: "nat \<Rightarrow> log_entry list \<Rightarrow> bool" where
  "seq_from k es \<longleftrightarrow> map le_seq es = [k ..< k + length es]"

definition log_inv :: "state \<Rightarrow> bool" where
  "log_inv st \<longleftrightarrow>
     distinct (dict_keys (st_session_logs st)) \<and>
     (\<forall>sid. seq_from 1 (log_view st sid) \<and> seq_from 1 (disk_log st sid)
       \<and> (sid \<in> set (st_log_full_ids st) \<longrightarrow>
            take (length (disk_log st sid)) (pending_log st sid) = disk_log st sid)
       \<and> (\<forall>e \<in> set (log_view st sid). le_session_id e = sid))"

lemma seq_from_Nil [simp]: "seq_from k []"
  by (simp add: seq_from_def)

lemma seq_from_append: "seq_from k (xs @ ys) \<longleftrightarrow> seq_from k xs \<and> seq_from (k + length xs) ys"
proof -
  have "[k ..< k + (length xs + length ys)]
      = [k ..< k + length xs] @ [k + length xs ..< k + length xs + length ys]"
    by (metis add.assoc upt_add_eq_append le_add1)
  moreover have "(map le_seq xs @ map le_seq ys
        = [k ..< k + length xs] @ [k + length xs ..< k + length xs + length ys])
      = (map le_seq xs = [k ..< k + length xs] \<and> map le_seq ys = [k + length xs ..< k + length xs + length ys])"
    by (rule append_eq_append_conv) simp
  ultimately show ?thesis by (simp only: seq_from_def map_append length_append)
qed

lemma seq_from_single [simp]: "seq_from k [e] \<longleftrightarrow> le_seq e = k"
  by (auto simp: seq_from_def)

lemma seq_from_nth: "seq_from k es \<Longrightarrow> i < length es \<Longrightarrow> le_seq (es ! i) = k + i"
  unfolding seq_from_def by (metis length_map nth_map nth_upt add_less_cancel_left length_upt diff_add_inverse)

lemma seq_from_mem:
  assumes "seq_from k es" "e \<in> set es"
  shows "k \<le> le_seq e" "le_seq e < k + length es"
proof -
  from assms(2) have "le_seq e \<in> set (map le_seq es)" by simp
  with assms(1) show "k \<le> le_seq e" "le_seq e < k + length es" by (auto simp: seq_from_def)
qed

lemma last_seq_snoc [simp]: "last_seq (es @ [e]) = le_seq e"
  by (simp add: last_seq_def)

lemma last_seq_Nil [simp]: "last_seq [] = 0"
  by (simp add: last_seq_def)

lemma last_seq_from: "seq_from k es \<Longrightarrow> es \<noteq> [] \<Longrightarrow> Suc (last_seq es) = k + length es"
  by (induction es rule: rev_induct) (auto simp: seq_from_append)

lemma last_seq_one: "seq_from 1 es \<Longrightarrow> last_seq es = length es"
  by (cases "es = []") (auto dest: last_seq_from)

lemma filter_after_seq:
  "seq_from k es \<Longrightarrow> filter (\<lambda>e. c < le_seq e) es = drop (Suc c - k) es"
proof (induction es arbitrary: k)
  case Nil
  then show ?case by simp
next
  case (Cons e es)
  from Cons.prems have "seq_from k ([e] @ es)" by simp
  then have e: "le_seq e = k" and es: "seq_from (Suc k) es"
    by (auto simp: seq_from_append simp del: append.simps)
  show ?case
  proof (cases "c < k")
    case True
    then have "filter (\<lambda>e. c < le_seq e) es = es"
      using seq_from_mem(1) [OF es] by (fastforce simp: filter_id_conv)
    with e True show ?thesis by simp
  next
    case False
    then show ?thesis using Cons.IH [OF es] e by (simp add: Suc_diff_le not_less)
  qed
qed

lemma fold_update_distinct:
  fixes es :: "log_entry list"
  assumes "distinct (map le_seq es)" "\<forall>e \<in> set es. le_seq e \<notin> fst ` set d"
  shows "fold (\<lambda>e. AList.update (le_seq e) e) es d = d @ map (\<lambda>e. (le_seq e, e)) es"
  using assms
proof (induction es arbitrary: d)
  case Nil
  then show ?case by simp
next
  case (Cons e es)
  have "k \<notin> fst ` set d \<Longrightarrow> AList.update k v d = d @ [(k, v)]" for k and v :: log_entry
    by (induction d) auto
  with Cons.prems have "AList.update (le_seq e) e d = d @ [(le_seq e, e)]" by simp
  moreover have "fold (\<lambda>e. AList.update (le_seq e) e) es (d @ [(le_seq e, e)])
      = (d @ [(le_seq e, e)]) @ map (\<lambda>e. (le_seq e, e)) es"
    using Cons.prems by (intro Cons.IH) (auto simp: image_iff)
  ultimately show ?case by simp
qed

lemma merge_by_seq_id: "seq_from k es \<Longrightarrow> merge_by_seq es = es"
proof -
  assume s: "seq_from k es"
  then have d: "distinct (map le_seq es)" by (simp add: seq_from_def)
  have "sorted (map le_seq es)" using s by (simp add: seq_from_def)
  then have keys: "sort (map le_seq es) = map le_seq es" by (simp add: sorted_sort_id)
  have "map (\<lambda>k. the (map_of (map (\<lambda>e. (le_seq e, e)) es) k)) (map le_seq es) = es"
  proof (rule nth_equalityI)
    fix i
    assume "i < length (map (\<lambda>k. the (map_of (map (\<lambda>e. (le_seq e, e)) es) k)) (map le_seq es))"
    then have i: "i < length es" by simp
    have "map_of (map (\<lambda>e. (le_seq e, e)) es) (le_seq (es ! i)) = Some (es ! i)"
      using d i by (intro map_of_is_SomeI) (auto simp: o_def)
    then show "map (\<lambda>k. the (map_of (map (\<lambda>e. (le_seq e, e)) es) k)) (map le_seq es) ! i = es ! i"
      using i by simp
  qed simp
  then show ?thesis
    using fold_update_distinct [OF d, of "[]"] keys by (simp add: merge_by_seq_def o_def)
qed

subsection \<open>Reading keeps the sequence\<close>

lemma log_invD:
  assumes "log_inv st"
  shows "seq_from 1 (log_view st sid)" "seq_from 1 (disk_log st sid)"
    "e \<in> set (log_view st sid) \<Longrightarrow> le_session_id e = sid"
  using assms by (auto simp: log_inv_def)

lemma log_view_split:
  assumes "log_inv st"
  shows "take (length (disk_log st sid)) (log_view st sid) = disk_log st sid"
  using assms by (auto simp: log_inv_def log_view_def)

lemma session_log_entries_view:
  "log_inv st \<Longrightarrow> fst (session_log_entries sid st) = log_view st sid"
  using log_invD(1) [of st sid]
  by (auto simp: session_log_entries_def log_view_def Let_def dest: merge_by_seq_id split: if_splits)

lemma session_log_entries_log_view:
  "log_inv st \<Longrightarrow> log_view (snd (session_log_entries sid st)) sid' = log_view st sid'"
  using log_invD(1) [of st sid]
  by (auto simp: session_log_entries_def log_view_def Let_def pending_log_def disk_log_def
      dest: merge_by_seq_id split: if_splits)

lemma session_log_entries_disk [simp]:
  "disk_log (snd (session_log_entries sid st)) sid' = disk_log st sid'"
  by (simp add: session_log_entries_def disk_log_def Let_def)

lemma session_log_entries_inv: "log_inv st \<Longrightarrow> log_inv (snd (session_log_entries sid st))"
proof -
  assume inv: "log_inv st"
  let ?st = "snd (session_log_entries sid st)"
  have "distinct (dict_keys (st_session_logs ?st))"
    using inv by (simp add: log_inv_def session_log_entries_def Let_def)
  moreover have "sid' \<in> set (st_log_full_ids ?st) \<Longrightarrow>
      take (length (disk_log ?st sid')) (pending_log ?st sid') = disk_log ?st sid'" for sid'
    using session_log_entries_log_view [OF inv, of sid sid'] log_view_split [OF inv, of sid']
    by (simp add: log_view_def)
  ultimately show ?thesis
    using inv by (simp add: log_inv_def session_log_entries_log_view [OF inv])
qed

lemma session_log_after_cursor_view:
  assumes "log_inv st"
  shows "session_log_after_cursor st sid cursor = drop cursor (log_view st sid)"
proof -
  have "session_log_after_cursor st sid cursor = filter (\<lambda>e. cursor < le_seq e) (log_view st sid)"
    by (auto simp: session_log_after_cursor_def log_view_def read_disk_log_def Let_def Suc_le_eq
        intro!: filter_cong)
  then show ?thesis using filter_after_seq [OF log_invD(1) [OF assms]] by simp
qed

lemma last_seq_pending:
  assumes "log_inv st"
  shows "max (latest_disk_seq st sid) (last_seq (pending_log st sid)) = length (log_view st sid)"
proof (cases "sid \<in> set (st_log_full_ids st)")
  case True
  then have "pending_log st sid = log_view st sid" by (simp add: log_view_def)
  moreover have "length (disk_log st sid) \<le> length (log_view st sid)"
    using log_view_split [OF assms, of sid] by (metis length_take min.cobounded1)
  ultimately show ?thesis
    using log_invD(1,2) [OF assms, of sid] by (simp add: latest_disk_seq_def last_seq_one)
next
  case False
  then have v: "log_view st sid = disk_log st sid @ pending_log st sid" by (simp add: log_view_def)
  with log_invD(1) [OF assms, of sid]
  have "seq_from (1 + length (disk_log st sid)) (pending_log st sid)" by (simp add: seq_from_append)
  then have "pending_log st sid \<noteq> [] \<Longrightarrow>
      last_seq (pending_log st sid) = length (disk_log st sid) + length (pending_log st sid)"
    by (auto dest: last_seq_from)
  then show ?thesis
    using v log_invD(2) [OF assms, of sid] by (cases "pending_log st sid = []")
      (auto simp: latest_disk_seq_def last_seq_one)
qed

lemma latest_session_log_seq_view:
  "log_inv st \<Longrightarrow> latest_session_log_seq st sid = length (log_view st sid)"
  by (simp add: latest_session_log_seq_def last_seq_pending)

subsection \<open>Identifiers not yet handed out do not occur in the log\<close>

definition signal_key :: "nat \<Rightarrow> string" where
  "signal_key n = ''system-signal:'' @ id_of ''sig'' n"

definition entry_fresh :: "nat \<Rightarrow> log_item \<Rightarrow> string \<Rightarrow> bool" where
  "entry_fresh u item event_key \<longleftrightarrow>
     (\<forall>n \<ge> u. event_key \<noteq> signal_key n
        \<and> (\<forall>m. item_message item = Some m \<longrightarrow> m_message_id m \<noteq> id_of ''msg'' n))"

definition log_fresh :: "state \<Rightarrow> bool" where
  "log_fresh st \<longleftrightarrow>
     (\<forall>sid. \<forall>e \<in> set (log_view st sid). entry_fresh (st_uid st) (le_item e) (le_event_key e))"

definition log_ok :: "state \<Rightarrow> bool" where
  "log_ok st \<longleftrightarrow> log_inv st \<and> log_fresh st"

lemma entry_fresh_mono: "entry_fresh u item k \<Longrightarrow> u \<le> u' \<Longrightarrow> entry_fresh u' item k"
  by (auto simp: entry_fresh_def)

lemma signal_key_inject [simp]: "signal_key m = signal_key n \<longleftrightarrow> m = n"
  by (simp add: signal_key_def)

subsection \<open>What leaves the logs alone\<close>

lemma pending_log_frame [simp]:
  "pending_log (st\<lparr>st_users := x_users\<rparr>) sid = pending_log st sid"
  "pending_log (st\<lparr>st_units := x_units\<rparr>) sid = pending_log st sid"
  "pending_log (st\<lparr>st_sessions := x_sessions\<rparr>) sid = pending_log st sid"
  "pending_log (st\<lparr>st_session_edges := x_session_edges\<rparr>) sid = pending_log st sid"
  "pending_log (st\<lparr>st_goals := x_goals\<rparr>) sid = pending_log st sid"
  "pending_log (st\<lparr>st_agent_profiles := x_agent_profiles\<rparr>) sid = pending_log st sid"
  "pending_log (st\<lparr>st_agent_threads := x_agent_threads\<rparr>) sid = pending_log st sid"
  "pending_log (st\<lparr>st_dispatch_runs := x_dispatch_runs\<rparr>) sid = pending_log st sid"
  "pending_log (st\<lparr>st_dispatch_readiness := x_dispatch_readiness\<rparr>) sid = pending_log st sid"
  "pending_log (st\<lparr>st_dispatch_lot_size := x_dispatch_lot_size\<rparr>) sid = pending_log st sid"
  "pending_log (st\<lparr>st_endpoint_cursors := x_endpoint_cursors\<rparr>) sid = pending_log st sid"
  "pending_log (st\<lparr>st_ticks := x_ticks\<rparr>) sid = pending_log st sid"
  "pending_log (st\<lparr>st_uid := x\<rparr>) sid = pending_log st sid"
  by (simp_all add: pending_log_def)

lemma disk_log_frame [simp]:
  "disk_log (st\<lparr>st_users := x_users\<rparr>) sid = disk_log st sid"
  "disk_log (st\<lparr>st_units := x_units\<rparr>) sid = disk_log st sid"
  "disk_log (st\<lparr>st_sessions := x_sessions\<rparr>) sid = disk_log st sid"
  "disk_log (st\<lparr>st_session_edges := x_session_edges\<rparr>) sid = disk_log st sid"
  "disk_log (st\<lparr>st_goals := x_goals\<rparr>) sid = disk_log st sid"
  "disk_log (st\<lparr>st_agent_profiles := x_agent_profiles\<rparr>) sid = disk_log st sid"
  "disk_log (st\<lparr>st_agent_threads := x_agent_threads\<rparr>) sid = disk_log st sid"
  "disk_log (st\<lparr>st_dispatch_runs := x_dispatch_runs\<rparr>) sid = disk_log st sid"
  "disk_log (st\<lparr>st_dispatch_readiness := x_dispatch_readiness\<rparr>) sid = disk_log st sid"
  "disk_log (st\<lparr>st_dispatch_lot_size := x_dispatch_lot_size\<rparr>) sid = disk_log st sid"
  "disk_log (st\<lparr>st_endpoint_cursors := x_endpoint_cursors\<rparr>) sid = disk_log st sid"
  "disk_log (st\<lparr>st_ticks := x_ticks\<rparr>) sid = disk_log st sid"
  "disk_log (st\<lparr>st_uid := x\<rparr>) sid = disk_log st sid"
  "disk_log (st\<lparr>st_session_logs := y\<rparr>) sid = disk_log st sid"
  by (simp_all add: disk_log_def)

lemma log_view_frame [simp]:
  "log_view (st\<lparr>st_users := x_users\<rparr>) sid = log_view st sid"
  "log_view (st\<lparr>st_units := x_units\<rparr>) sid = log_view st sid"
  "log_view (st\<lparr>st_sessions := x_sessions\<rparr>) sid = log_view st sid"
  "log_view (st\<lparr>st_session_edges := x_session_edges\<rparr>) sid = log_view st sid"
  "log_view (st\<lparr>st_goals := x_goals\<rparr>) sid = log_view st sid"
  "log_view (st\<lparr>st_agent_profiles := x_agent_profiles\<rparr>) sid = log_view st sid"
  "log_view (st\<lparr>st_agent_threads := x_agent_threads\<rparr>) sid = log_view st sid"
  "log_view (st\<lparr>st_dispatch_runs := x_dispatch_runs\<rparr>) sid = log_view st sid"
  "log_view (st\<lparr>st_dispatch_readiness := x_dispatch_readiness\<rparr>) sid = log_view st sid"
  "log_view (st\<lparr>st_dispatch_lot_size := x_dispatch_lot_size\<rparr>) sid = log_view st sid"
  "log_view (st\<lparr>st_endpoint_cursors := x_endpoint_cursors\<rparr>) sid = log_view st sid"
  "log_view (st\<lparr>st_ticks := x_ticks\<rparr>) sid = log_view st sid"
  "log_view (st\<lparr>st_uid := x\<rparr>) sid = log_view st sid"
  by (simp_all add: log_view_def)

lemma log_inv_frame [simp]:
  "log_inv (st\<lparr>st_users := x_users\<rparr>) = log_inv st"
  "log_inv (st\<lparr>st_units := x_units\<rparr>) = log_inv st"
  "log_inv (st\<lparr>st_sessions := x_sessions\<rparr>) = log_inv st"
  "log_inv (st\<lparr>st_session_edges := x_session_edges\<rparr>) = log_inv st"
  "log_inv (st\<lparr>st_goals := x_goals\<rparr>) = log_inv st"
  "log_inv (st\<lparr>st_agent_profiles := x_agent_profiles\<rparr>) = log_inv st"
  "log_inv (st\<lparr>st_agent_threads := x_agent_threads\<rparr>) = log_inv st"
  "log_inv (st\<lparr>st_dispatch_runs := x_dispatch_runs\<rparr>) = log_inv st"
  "log_inv (st\<lparr>st_dispatch_readiness := x_dispatch_readiness\<rparr>) = log_inv st"
  "log_inv (st\<lparr>st_dispatch_lot_size := x_dispatch_lot_size\<rparr>) = log_inv st"
  "log_inv (st\<lparr>st_endpoint_cursors := x_endpoint_cursors\<rparr>) = log_inv st"
  "log_inv (st\<lparr>st_ticks := x_ticks\<rparr>) = log_inv st"
  "log_inv (st\<lparr>st_uid := x\<rparr>) = log_inv st"
  by (simp_all add: log_inv_def)

lemma log_fresh_frame [simp]:
  "log_fresh (st\<lparr>st_users := x_users\<rparr>) = log_fresh st"
  "log_fresh (st\<lparr>st_units := x_units\<rparr>) = log_fresh st"
  "log_fresh (st\<lparr>st_sessions := x_sessions\<rparr>) = log_fresh st"
  "log_fresh (st\<lparr>st_session_edges := x_session_edges\<rparr>) = log_fresh st"
  "log_fresh (st\<lparr>st_goals := x_goals\<rparr>) = log_fresh st"
  "log_fresh (st\<lparr>st_agent_profiles := x_agent_profiles\<rparr>) = log_fresh st"
  "log_fresh (st\<lparr>st_agent_threads := x_agent_threads\<rparr>) = log_fresh st"
  "log_fresh (st\<lparr>st_dispatch_runs := x_dispatch_runs\<rparr>) = log_fresh st"
  "log_fresh (st\<lparr>st_dispatch_readiness := x_dispatch_readiness\<rparr>) = log_fresh st"
  "log_fresh (st\<lparr>st_dispatch_lot_size := x_dispatch_lot_size\<rparr>) = log_fresh st"
  "log_fresh (st\<lparr>st_endpoint_cursors := x_endpoint_cursors\<rparr>) = log_fresh st"
  "log_fresh (st\<lparr>st_ticks := x_ticks\<rparr>) = log_fresh st"
  by (simp_all add: log_fresh_def)

lemma log_ok_frame [simp]:
  "log_ok (st\<lparr>st_users := x_users\<rparr>) = log_ok st"
  "log_ok (st\<lparr>st_units := x_units\<rparr>) = log_ok st"
  "log_ok (st\<lparr>st_sessions := x_sessions\<rparr>) = log_ok st"
  "log_ok (st\<lparr>st_session_edges := x_session_edges\<rparr>) = log_ok st"
  "log_ok (st\<lparr>st_goals := x_goals\<rparr>) = log_ok st"
  "log_ok (st\<lparr>st_agent_profiles := x_agent_profiles\<rparr>) = log_ok st"
  "log_ok (st\<lparr>st_agent_threads := x_agent_threads\<rparr>) = log_ok st"
  "log_ok (st\<lparr>st_dispatch_runs := x_dispatch_runs\<rparr>) = log_ok st"
  "log_ok (st\<lparr>st_dispatch_readiness := x_dispatch_readiness\<rparr>) = log_ok st"
  "log_ok (st\<lparr>st_dispatch_lot_size := x_dispatch_lot_size\<rparr>) = log_ok st"
  "log_ok (st\<lparr>st_endpoint_cursors := x_endpoint_cursors\<rparr>) = log_ok st"
  "log_ok (st\<lparr>st_ticks := x_ticks\<rparr>) = log_ok st"
  by (simp_all add: log_ok_def)

lemma log_ok_uid: "log_ok st \<Longrightarrow> st_uid st \<le> u \<Longrightarrow> log_ok (st\<lparr>st_uid := u\<rparr>)"
  by (auto simp: log_ok_def log_fresh_def intro: entry_fresh_mono)

lemma log_ok_inv: "log_ok st \<Longrightarrow> log_inv st"
  by (simp add: log_ok_def)

subsection \<open>Appending\<close>

lemma append_session_log_entry_frame [simp]:
  "st_users (snd (append_session_log_entry sid item c k st)) = st_users st"
  "st_units (snd (append_session_log_entry sid item c k st)) = st_units st"
  "st_sessions (snd (append_session_log_entry sid item c k st)) = st_sessions st"
  "st_session_edges (snd (append_session_log_entry sid item c k st)) = st_session_edges st"
  "st_goals (snd (append_session_log_entry sid item c k st)) = st_goals st"
  "st_agent_profiles (snd (append_session_log_entry sid item c k st)) = st_agent_profiles st"
  "st_agent_threads (snd (append_session_log_entry sid item c k st)) = st_agent_threads st"
  "st_dispatch_runs (snd (append_session_log_entry sid item c k st)) = st_dispatch_runs st"
  "st_dispatch_readiness (snd (append_session_log_entry sid item c k st)) = st_dispatch_readiness st"
  "st_dispatch_lot_size (snd (append_session_log_entry sid item c k st)) = st_dispatch_lot_size st"
  "st_endpoint_cursors (snd (append_session_log_entry sid item c k st)) = st_endpoint_cursors st"
  "st_log_full_ids (snd (append_session_log_entry sid item c k st)) = st_log_full_ids st"
  "st_disk_logs (snd (append_session_log_entry sid item c k st)) = st_disk_logs st"
  "st_clock (snd (append_session_log_entry sid item c k st)) = st_clock st"
  "st_local_zone (snd (append_session_log_entry sid item c k st)) = st_local_zone st"
  by (cases "c = []"; simp add: append_session_log_entry_def new_id_def utc_now_def Let_def)+

lemma append_session_log_entry_uid:
  "st_uid st \<le> st_uid (snd (append_session_log_entry sid item c k st))"
  by (cases "c = []"; simp add: append_session_log_entry_def new_id_def utc_now_def Let_def)

lemma append_duplicate:
  assumes "duplicate_entry (pending_log st sid) item k"
  shows "pending_log (snd (append_session_log_entry sid item c k st)) sid' = pending_log st sid'"
    "fst (append_session_log_entry sid item c k st) = last (pending_log st sid)"
  using assms
  by (auto simp: append_session_log_entry_def Let_def pending_log_def dict_setdefault_def dict_get_def
      split: option.splits)

lemma append_new:
  assumes "\<not> duplicate_entry (pending_log st sid) item k"
  shows "pending_log (snd (append_session_log_entry sid item c k st)) sid'
      = (if sid' = sid then pending_log st sid @ [fst (append_session_log_entry sid item c k st)]
         else pending_log st sid')"
    "le_item (fst (append_session_log_entry sid item c k st)) = item"
    "le_event_key (fst (append_session_log_entry sid item c k st)) = k"
    "le_session_id (fst (append_session_log_entry sid item c k st)) = sid"
    "le_seq (fst (append_session_log_entry sid item c k st))
      = Suc (max (latest_disk_seq st sid) (last_seq (pending_log st sid)))"
    "st_uid (snd (append_session_log_entry sid item c k st)) = Suc (st_uid st)"
  using assms
  by (cases "c = []"; auto simp: append_session_log_entry_def Let_def pending_log_def
      dict_setdefault_def dict_get_def new_id_def utc_now_def split: option.splits)+

lemma disk_log_append [simp]:
  "disk_log (snd (append_session_log_entry sid item c k st)) sid' = disk_log st sid'"
  by (simp add: disk_log_def)

lemma append_log_view:
  assumes "log_inv st"
  shows "log_view (snd (append_session_log_entry sid item c k st)) sid'
    = (if sid' = sid \<and> \<not> duplicate_entry (pending_log st sid) item k
       then log_view st sid @ [fst (append_session_log_entry sid item c k st)] else log_view st sid')"
  by (cases "duplicate_entry (pending_log st sid) item k")
     (auto simp: log_view_def append_duplicate append_new)

lemma append_new_seq:
  assumes "log_inv st" "\<not> duplicate_entry (pending_log st sid) item k"
  shows "le_seq (fst (append_session_log_entry sid item c k st)) = Suc (length (log_view st sid))"
  using append_new(5) [OF assms(2)] last_seq_pending [OF assms(1)] by simp

lemma dict_keys_append:
  "distinct (dict_keys (st_session_logs st)) \<Longrightarrow>
   distinct (dict_keys (st_session_logs (snd (append_session_log_entry sid item c k st))))"
  by (cases "c = []"; auto simp: append_session_log_entry_def Let_def new_id_def utc_now_def
      dict_setdefault_def split: option.splits)

lemma log_inv_append:
  assumes "log_inv st"
  shows "log_inv (snd (append_session_log_entry sid item c k st))"
proof (cases "duplicate_entry (pending_log st sid) item k")
  case True
  then show ?thesis
    using assms by (auto simp: log_inv_def append_log_view [OF assms] append_duplicate
        intro: dict_keys_append)
next
  case False
  let ?st = "snd (append_session_log_entry sid item c k st)"
  have view: "log_view ?st sid' = (if sid' = sid
      then log_view st sid @ [fst (append_session_log_entry sid item c k st)] else log_view st sid')" for sid'
    using append_log_view [OF assms] False by simp
  have "distinct (dict_keys (st_session_logs ?st))"
    using assms by (simp add: log_inv_def dict_keys_append)
  moreover have "seq_from 1 (log_view ?st sid')" for sid'
    using log_invD(1) [OF assms] append_new_seq [OF assms False] by (simp add: view seq_from_append)
  moreover have "sid' \<in> set (st_log_full_ids ?st) \<Longrightarrow>
      take (length (disk_log ?st sid')) (pending_log ?st sid') = disk_log ?st sid'" for sid'
  proof -
    assume "sid' \<in> set (st_log_full_ids ?st)"
    then have full: "log_view st sid' = pending_log st sid'" by (simp add: log_view_def)
    have "length (disk_log st sid') \<le> length (log_view st sid')"
      using log_view_split [OF assms, of sid'] by (metis length_take min.cobounded1)
    then show ?thesis
      using full log_view_split [OF assms, of sid'] append_new(1) [OF False, of c sid']
      by (cases "sid' = sid") auto
  qed
  moreover have "\<forall>e \<in> set (log_view ?st sid'). le_session_id e = sid'" for sid'
    using log_invD(3) [OF assms] append_new(4) [OF False] by (auto simp: view)
  ultimately show ?thesis
    using log_invD(2) [OF assms] by (simp add: log_inv_def)
qed

lemma log_ok_append:
  assumes "log_ok st" "entry_fresh (Suc (st_uid st)) item k"
  shows "log_ok (snd (append_session_log_entry sid item c k st))"
proof -
  have inv: "log_inv st" and fr: "log_fresh st" using assms(1) by (simp_all add: log_ok_def)
  have "log_fresh (snd (append_session_log_entry sid item c k st))"
  proof (cases "duplicate_entry (pending_log st sid) item k")
    case True
    then show ?thesis
      using fr append_session_log_entry_uid [of st sid item c k]
      by (auto simp: log_fresh_def append_log_view [OF inv] intro: entry_fresh_mono)
  next
    case False
    then show ?thesis
      using fr assms(2) append_new [OF False, of c]
      by (fastforce simp: log_fresh_def append_log_view [OF inv] split: if_splits
          intro: entry_fresh_mono [OF _ le_SucI [OF order_refl]])
  qed
  with log_inv_append [OF inv] show ?thesis by (simp add: log_ok_def)
qed

lemma pending_subset_view: "set (pending_log st sid) \<subseteq> set (log_view st sid)"
  by (auto simp: log_view_def)

lemma fresh_not_duplicate:
  assumes "log_ok st"
  shows "item_message item = None \<Longrightarrow> st_uid st \<le> n \<Longrightarrow>
      \<not> duplicate_entry (pending_log st sid) item (signal_key n)"
    "item_message item = Some m \<Longrightarrow> m_message_id m = id_of ''msg'' n \<Longrightarrow> st_uid st \<le> n \<Longrightarrow>
      \<not> duplicate_entry (pending_log st sid) item []"
  using assms pending_subset_view [of st sid]
  by (force simp: duplicate_entry_def log_ok_def log_fresh_def entry_fresh_def list_ex_iff
      has_message_id_def split: option.splits)+

lemma map_entry_triv: "map_of d k = Some v \<Longrightarrow> f v = v \<Longrightarrow> AList.map_entry k f d = d"
  by (induction d) (auto split: if_splits)

lemma log_message_new:
  assumes "\<not> duplicate_entry (pending_log st sid) (LMessage m) []"
  shows "log_message_for_session m sid st
    = snd (append_session_log_entry sid (LMessage m) (m_created_at m) [] st)"
proof -
  let ?r = "append_session_log_entry sid (LMessage m) (m_created_at m) [] st"
  let ?f = "map_last (\<lambda>e. e\<lparr>le_item := set_item_message m (le_item e)\<rparr>)"
  have "pending_log (snd ?r) sid = pending_log st sid @ [fst ?r]" using append_new(1) [OF assms] by simp
  then have "map_of (st_session_logs (snd ?r)) sid = Some (pending_log st sid @ [fst ?r])"
    by (auto simp: pending_log_def dict_get_def split: option.splits)
  moreover have "?f (pending_log st sid @ [fst ?r]) = pending_log st sid @ [fst ?r]"
    using append_new(2) [OF assms, of "m_created_at m"] by (simp add: map_last_def)
  ultimately have "AList.map_entry sid ?f (st_session_logs (snd ?r)) = st_session_logs (snd ?r)"
    by (rule map_entry_triv)
  then show ?thesis by (simp add: log_message_for_session_def case_prod_beta)
qed

lemma log_message_frame [simp]:
  "st_users (log_message_for_session m sid st) = st_users st"
  "st_units (log_message_for_session m sid st) = st_units st"
  "st_session_edges (log_message_for_session m sid st) = st_session_edges st"
  "st_goals (log_message_for_session m sid st) = st_goals st"
  "st_agent_profiles (log_message_for_session m sid st) = st_agent_profiles st"
  "st_agent_threads (log_message_for_session m sid st) = st_agent_threads st"
  "st_dispatch_runs (log_message_for_session m sid st) = st_dispatch_runs st"
  "st_dispatch_readiness (log_message_for_session m sid st) = st_dispatch_readiness st"
  "st_dispatch_lot_size (log_message_for_session m sid st) = st_dispatch_lot_size st"
  "st_endpoint_cursors (log_message_for_session m sid st) = st_endpoint_cursors st"
  "st_log_full_ids (log_message_for_session m sid st) = st_log_full_ids st"
  "st_disk_logs (log_message_for_session m sid st) = st_disk_logs st"
  "st_clock (log_message_for_session m sid st) = st_clock st"
  "st_local_zone (log_message_for_session m sid st) = st_local_zone st"
  "st_sessions (log_message_for_session m sid st) = st_sessions st"
  by (simp_all add: log_message_for_session_def case_prod_beta)

lemma log_message_uid: "st_uid st \<le> st_uid (log_message_for_session m sid st)"
  using append_session_log_entry_uid [of st sid "LMessage m" "m_created_at m" "[]"]
  by (simp add: log_message_for_session_def case_prod_beta)

subsection \<open>Saving makes the whole sequence durable\<close>

lemma validate_pending_ok:
  "seq_from k es \<Longrightarrow> \<forall>e \<in> set es. le_session_id e = sid \<Longrightarrow> validate_pending sid k es = Inr ()"
proof (induction es arbitrary: k)
  case Nil
  then show ?case by simp
next
  case (Cons e es)
  from Cons.prems(1) have "seq_from k ([e] @ es)" by simp
  then have "le_seq e = k" "seq_from (Suc k) es" by (auto simp: seq_from_append simp del: append.simps)
  with Cons show ?case by simp
qed

lemma append_disk_log_ok:
  assumes "seq_from 1 all" "disk_log st sid = take n all" "n \<le> length all"
    "filter (\<lambda>e. n < le_seq e) entries = drop n all" "\<forall>e \<in> set all. le_session_id e = sid"
  shows "\<exists>D. append_disk_log sid entries st = Inr (st\<lparr>st_disk_logs := D\<rparr>)
    \<and> disk_log (st\<lparr>st_disk_logs := D\<rparr>) sid = all
    \<and> (\<forall>sid'. sid' \<noteq> sid \<longrightarrow> disk_log (st\<lparr>st_disk_logs := D\<rparr>) sid' = disk_log st sid')"
proof -
  have parts: "seq_from 1 (take n all)" "seq_from (Suc n) (drop n all)"
    using assms(1,3) seq_from_append [of 1 "take n all" "drop n all"] by simp_all
  then have latest: "latest_disk_seq st sid = n"
    using assms(2,3) by (simp add: latest_disk_seq_def last_seq_one)
  show ?thesis
  proof (cases "drop n all = []")
    case True
    then have "append_disk_log sid entries st = Inr (st\<lparr>st_disk_logs := st_disk_logs st\<rparr>)"
      using assms(4) latest by (simp add: append_disk_log_def)
    then show ?thesis using True assms(2,3) by (auto intro!: exI [of _ "st_disk_logs st"])
  next
    case False
    have "validate_pending sid (Suc n) (drop n all) = Inr ()"
      using parts(2) assms(5) by (intro validate_pending_ok) (auto dest: in_set_dropD)
    with False assms(2,4) latest have "append_disk_log sid entries st
        = Inr (st\<lparr>st_disk_logs := AList.update sid all (st_disk_logs st)\<rparr>)"
      by (simp add: append_disk_log_def)
    then show ?thesis by (auto simp: disk_log_def)
  qed
qed

lemma pending_after_disk:
  assumes "log_inv st"
  shows "filter (\<lambda>e. length (disk_log st sid) < le_seq e) (pending_log st sid)
    = drop (length (disk_log st sid)) (log_view st sid)"
proof (cases "sid \<in> set (st_log_full_ids st)")
  case True
  then show ?thesis
    using filter_after_seq [OF log_invD(1) [OF assms, of sid]] by (simp add: log_view_def)
next
  case False
  then have v: "log_view st sid = disk_log st sid @ pending_log st sid" by (simp add: log_view_def)
  with log_invD(1) [OF assms, of sid] have "seq_from (Suc (length (disk_log st sid))) (pending_log st sid)"
    by (simp add: seq_from_append)
  then show ?thesis using seq_from_mem(1) v by (fastforce simp: filter_id_conv)
qed

lemma save_session_logs_list:
  assumes "log_inv st0" "distinct (dict_keys L)"
    "\<And>sid es. (sid, es) \<in> set L \<Longrightarrow> es = pending_log st0 sid \<and> disk_log st sid = disk_log st0 sid"
  shows "\<exists>D. foldR (\<lambda>(sid, entries). append_disk_log sid entries) L st = Inr (st\<lparr>st_disk_logs := D\<rparr>)
    \<and> (\<forall>sid. disk_log (st\<lparr>st_disk_logs := D\<rparr>) sid
          = (if sid \<in> set (dict_keys L) then log_view st0 sid else disk_log st sid))"
  using assms(2,3)
proof (induction L arbitrary: st)
  case Nil
  have "st = st\<lparr>st_disk_logs := st_disk_logs st\<rparr>" by simp
  then show ?case by (intro exI [of _ "st_disk_logs st"]) simp
next
  case (Cons p L)
  obtain sid es where p: "p = (sid, es)" by (cases p)
  have h: "es = pending_log st0 sid" "disk_log st sid = disk_log st0 sid"
    using Cons.prems(2) [of sid es] p by auto
  let ?n = "length (disk_log st0 sid)"
  have "\<exists>D. append_disk_log sid es st = Inr (st\<lparr>st_disk_logs := D\<rparr>)
    \<and> disk_log (st\<lparr>st_disk_logs := D\<rparr>) sid = log_view st0 sid
    \<and> (\<forall>sid'. sid' \<noteq> sid \<longrightarrow> disk_log (st\<lparr>st_disk_logs := D\<rparr>) sid' = disk_log st sid')"
  proof (rule append_disk_log_ok [where n = ?n])
    show "disk_log st sid = take ?n (log_view st0 sid)"
      using h(2) log_view_split [OF assms(1)] by simp
    show "?n \<le> length (log_view st0 sid)"
      using log_view_split [OF assms(1), of sid] by (metis length_take min.cobounded1)
    show "filter (\<lambda>e. ?n < le_seq e) es = drop ?n (log_view st0 sid)"
      using h(1) pending_after_disk [OF assms(1)] by simp
  qed (use log_invD [OF assms(1)] in auto)
  then obtain D where D: "append_disk_log sid es st = Inr (st\<lparr>st_disk_logs := D\<rparr>)"
    "disk_log (st\<lparr>st_disk_logs := D\<rparr>) sid = log_view st0 sid"
    "\<And>sid'. sid' \<noteq> sid \<Longrightarrow> disk_log (st\<lparr>st_disk_logs := D\<rparr>) sid' = disk_log st sid'" by blast
  have "\<exists>D'. foldR (\<lambda>(sid, entries). append_disk_log sid entries) L (st\<lparr>st_disk_logs := D\<rparr>)
        = Inr ((st\<lparr>st_disk_logs := D\<rparr>)\<lparr>st_disk_logs := D'\<rparr>)
    \<and> (\<forall>sid. disk_log ((st\<lparr>st_disk_logs := D\<rparr>)\<lparr>st_disk_logs := D'\<rparr>) sid
          = (if sid \<in> set (dict_keys L) then log_view st0 sid else disk_log (st\<lparr>st_disk_logs := D\<rparr>) sid))"
    using Cons.prems p D(3) by (intro Cons.IH) (auto simp: image_iff)
  then obtain D' where D': "foldR (\<lambda>(sid, entries). append_disk_log sid entries) L (st\<lparr>st_disk_logs := D\<rparr>)
        = Inr (st\<lparr>st_disk_logs := D'\<rparr>)"
    "\<And>x. disk_log (st\<lparr>st_disk_logs := D'\<rparr>) x
          = (if x \<in> set (dict_keys L) then log_view st0 x else disk_log (st\<lparr>st_disk_logs := D\<rparr>) x)"
    by (auto simp del: list.set_map)
  show ?case
  proof (intro exI [of _ D'] conjI allI)
    show "foldR (\<lambda>(sid, entries). append_disk_log sid entries) (p # L) st = Inr (st\<lparr>st_disk_logs := D'\<rparr>)"
      using D(1) D'(1) p by simp
    show "disk_log (st\<lparr>st_disk_logs := D'\<rparr>) x
        = (if x \<in> set (dict_keys (p # L)) then log_view st0 x else disk_log st x)" for x
      unfolding D'(2) using D(2,3) p by (cases "x = sid") auto
  qed
qed

lemma save_session_logs_ok:
  assumes "log_inv st"
  shows "\<exists>D. save_session_logs st = Inr (st\<lparr>st_disk_logs := D\<rparr>)
    \<and> (\<forall>sid. disk_log (st\<lparr>st_disk_logs := D\<rparr>) sid = log_view st sid)"
proof -
  have d: "distinct (dict_keys (st_session_logs st))" using assms by (simp add: log_inv_def)
  have "\<exists>D. save_session_logs st = Inr (st\<lparr>st_disk_logs := D\<rparr>)
    \<and> (\<forall>sid. disk_log (st\<lparr>st_disk_logs := D\<rparr>) sid
          = (if sid \<in> set (dict_keys (st_session_logs st)) then log_view st sid else disk_log st sid))"
    unfolding save_session_logs_def using d
    by (intro save_session_logs_list [OF assms d]) (auto simp: pending_log_def dict_get_def)
  moreover have "sid \<notin> set (dict_keys (st_session_logs st)) \<Longrightarrow> disk_log st sid = log_view st sid" for sid
  proof -
    assume "sid \<notin> set (dict_keys (st_session_logs st))"
    then have "pending_log st sid = []"
      by (auto simp: pending_log_def dict_get_def split: option.splits dest: map_of_SomeD intro: rev_image_eqI)
    then show ?thesis using log_view_split [OF assms, of sid] by (auto simp: log_view_def split: if_splits)
  qed
  ultimately show ?thesis by metis
qed

lemma clear_cache_view:
  "log_view (clear_session_log_cache st) sid = disk_log st sid"
  by (simp add: clear_session_log_cache_def log_view_def pending_log_def disk_log_def)

lemma clear_cache_inv: "log_inv st \<Longrightarrow> log_inv (clear_session_log_cache st)"
proof -
  assume inv: "log_inv st"
  have "e \<in> set (disk_log st sid) \<Longrightarrow> le_session_id e = sid" for e sid
    using log_invD(3) [OF inv, of e sid] log_view_split [OF inv, of sid] by (metis in_set_takeD)
  then show ?thesis
    using log_invD(2) [OF inv]
    by (auto simp: log_inv_def clear_cache_view)
       (auto simp: clear_session_log_cache_def pending_log_def disk_log_def)
qed

subsection \<open>The contract: an append-only log with numbered entries\<close>

text \<open>
  What the operations of the program rely on: the entries of a log are numbered from 1, and
  an operation only adds entries at the end. The lemmas of the locale are what readers with a
  cursor need: the entries they have read never change, and the unread entries of a later
  state are the unread entries of the earlier one followed by the new ones.
\<close>

locale append_only_log =
  fixes ok :: "'s \<Rightarrow> bool"
    and view :: "'s \<Rightarrow> 'k \<Rightarrow> 'e list"
    and seq :: "'e \<Rightarrow> nat"
    and grows :: "'s \<Rightarrow> 's \<Rightarrow> bool"
  assumes numbered: "ok s \<Longrightarrow> i < length (view s k) \<Longrightarrow> seq (view s k ! i) = Suc i"
    and grows_ok: "grows s t \<Longrightarrow> ok s \<Longrightarrow> ok t"
    and grows_prefix: "grows s t \<Longrightarrow> ok s \<Longrightarrow> prefix (view s k) (view t k)"
    and grows_refl: "grows s s"
    and grows_trans: "grows s t \<Longrightarrow> grows t u \<Longrightarrow> grows s u"
begin

lemma read_entries_stable:
  assumes "grows s t" "ok s" "i < length (view s k)"
  shows "i < length (view t k)" "view t k ! i = view s k ! i"
  using grows_prefix [OF assms(1,2), of k] assms(3)
  by (auto simp: prefix_def nth_append)

lemma latest_monotone: "grows s t \<Longrightarrow> ok s \<Longrightarrow> length (view s k) \<le> length (view t k)"
  by (rule prefix_length_le) (rule grows_prefix)

lemma unread_extends:
  assumes "grows s t" "ok s" "c \<le> length (view s k)"
  shows "prefix (drop c (view s k)) (drop c (view t k))"
  using grows_prefix [OF assms(1,2), of k] assms(3) by (auto simp: prefix_def)

lemma unread_numbers:
  assumes "ok s" "e \<in> set (drop c (view s k))"
  shows "c < seq e" "seq e \<le> length (view s k)"
proof -
  from assms(2) obtain i where i: "i < length (drop c (view s k))" "e = drop c (view s k) ! i"
    by (metis in_set_conv_nth)
  then have "seq e = Suc (c + i)" using numbered [OF assms(1), of "c + i" k] by simp
  with i show "c < seq e" "seq e \<le> length (view s k)" by auto
qed

lemma nothing_new:
  assumes "grows s t" "ok s" "length (view t k) \<le> length (view s k)"
  shows "view t k = view s k"
  using grows_prefix [OF assms(1,2), of k] assms(3) by (auto simp: prefix_def)

end

definition log_grows :: "state \<Rightarrow> state \<Rightarrow> bool" where
  "log_grows st st' \<longleftrightarrow>
     st_uid st \<le> st_uid st' \<and>
     (log_ok st \<longrightarrow> log_ok st' \<and> (\<forall>sid. prefix (log_view st sid) (log_view st' sid)))"

lemma log_grows_refl [simp]: "log_grows st st"
  by (simp add: log_grows_def)

lemma log_grows_trans [trans]: "log_grows s t \<Longrightarrow> log_grows t u \<Longrightarrow> log_grows s u"
  unfolding log_grows_def by (meson order_trans prefix_order.order_trans)

interpretation slog: append_only_log log_ok log_view le_seq log_grows
proof unfold_locales
  fix s i k
  assume "log_ok s" "i < length (log_view s k)"
  then show "le_seq (log_view s k ! i) = Suc i"
    using seq_from_nth [OF log_invD(1) [OF log_ok_inv]] by simp
qed (auto simp: log_grows_def intro: prefix_order.order_trans)

lemma log_growsD:
  assumes "log_grows st st'" "log_ok st"
  shows "log_ok st'" "prefix (log_view st sid) (log_view st' sid)" "st_uid st \<le> st_uid st'"
  using assms by (auto simp: log_grows_def)

lemma log_grows_append:
  "entry_fresh (Suc (st_uid st)) item k \<Longrightarrow>
   log_grows st (snd (append_session_log_entry sid item c k st))"
  by (auto simp: log_grows_def append_session_log_entry_uid log_ok_append append_log_view log_ok_inv)

text \<open>A state that differs only outside the logs and the identifier supply.\<close>

lemma log_grows_frame:
  assumes "st_session_logs st' = st_session_logs st" "st_log_full_ids st' = st_log_full_ids st"
    "st_disk_logs st' = st_disk_logs st" "st_uid st \<le> st_uid st'"
  shows "log_grows st st'"
proof -
  have v: "log_view st' = log_view st" "pending_log st' = pending_log st" "disk_log st' = disk_log st"
    using assms by (simp_all add: fun_eq_iff log_view_def pending_log_def disk_log_def)
  show ?thesis
    using assms entry_fresh_mono [OF _ assms(4)]
    by (auto simp: log_grows_def log_ok_def log_inv_def log_fresh_def v)
qed

subsection \<open>Saving\<close>

text \<open>
  \<open>Store.save\<close> followed by the reading of the next transaction: the cached log entries become
  durable, the other collections are written as they are, and the next \<open>load\<close> starts with
  empty caches.
\<close>

definition save :: "state \<Rightarrow> state res" where
  "save st = bindR (save_session_logs st) (\<lambda>st'. Inr (clear_session_log_cache st'))"

lemma foldR_frame:
  assumes "foldR f xs s = Inr t" "\<And>x s t. f x s = Inr t \<Longrightarrow> \<exists>D. t = s\<lparr>st_disk_logs := D\<rparr>"
  shows "\<exists>D. t = s\<lparr>st_disk_logs := D\<rparr>"
  using assms(1)
proof (induction xs arbitrary: s)
  case Nil
  then show ?case by (auto intro: exI [of _ "st_disk_logs s"])
next
  case (Cons x xs)
  then obtain u where "f x s = Inr u" "foldR f xs u = Inr t" by (auto simp: bindR_Inr_iff)
  with Cons.IH [of u] assms(2) [of x s u] show ?case by fastforce
qed

lemma save_frame:
  assumes "save st = Inr st'"
  shows "\<exists>D. st' = st\<lparr>st_disk_logs := D, st_session_logs := [], st_log_full_ids := []\<rparr>"
proof -
  have step: "append_disk_log sid es s = Inr t \<Longrightarrow> \<exists>D. t = s\<lparr>st_disk_logs := D\<rparr>" for sid es s t
    by (auto simp: append_disk_log_def bindR_Inr_iff Let_def split: if_splits
        intro: exI [of _ "st_disk_logs s"])
  from assms obtain u where u: "save_session_logs st = Inr u" "st' = clear_session_log_cache u"
    by (auto simp: save_def bindR_Inr_iff)
  have "\<exists>D. u = st\<lparr>st_disk_logs := D\<rparr>"
    using u(1) unfolding save_session_logs_def by (rule foldR_frame) (auto dest: step)
  with u(2) show ?thesis by (auto simp: clear_session_log_cache_def)
qed

lemma save_view:
  assumes "save st = Inr st'" "log_inv st"
  shows "log_view st' sid = log_view st sid" "disk_log st' sid = log_view st sid"
proof -
  obtain D where D: "save_session_logs st = Inr (st\<lparr>st_disk_logs := D\<rparr>)"
    "\<And>sid. disk_log (st\<lparr>st_disk_logs := D\<rparr>) sid = log_view st sid"
    using save_session_logs_ok [OF assms(2)] by blast
  with assms(1) have st': "st' = clear_session_log_cache (st\<lparr>st_disk_logs := D\<rparr>)" by (simp add: save_def)
  show "log_view st' sid = log_view st sid" unfolding st' clear_cache_view by (rule D(2))
  show "disk_log st' sid = log_view st sid"
    using D(2) [of sid] unfolding st' by (simp add: clear_session_log_cache_def disk_log_def)
qed

lemma save_total: "log_inv st \<Longrightarrow> \<exists>st'. save st = Inr st'"
  using save_session_logs_ok by (fastforce simp: save_def)

lemma save_log_grows:
  assumes "save st = Inr st'"
  shows "log_grows st st'"
proof -
  obtain D where D: "st' = st\<lparr>st_disk_logs := D, st_session_logs := [], st_log_full_ids := []\<rparr>"
    using save_frame [OF assms] by blast
  have "log_ok st'" if "log_ok st"
  proof -
    have inv: "log_inv st" using that by (simp add: log_ok_def)
    note v = save_view [OF assms inv]
    have D': "st_session_logs st' = []" "st_log_full_ids st' = []" "st_uid st' = st_uid st"
      by (simp_all add: D)
    have "log_inv st'" using log_invD [OF inv] by (auto simp: log_inv_def v D')
    moreover have "log_fresh st'" using that by (simp add: log_ok_def log_fresh_def v D')
    ultimately show ?thesis by (simp add: log_ok_def)
  qed
  then show ?thesis
    using save_view(1) [OF assms] D by (auto simp: log_grows_def log_ok_def)
qed

lemma log_view_saved:
  assumes "st_session_logs st = []" "st_log_full_ids st = []"
  shows "log_view st sid = disk_log st sid"
  using assms by (simp add: log_view_def pending_log_def)

subsection \<open>What the log promises\<close>

text \<open>Appending extends exactly one log: an entry that no pending entry duplicates gets the next
  sequence number, is placed at the end of its session's log and leaves every other session's log
  as it is; all logs stay numbered from one without gaps.\<close>

theorem append_extends_log:
  assumes "log_inv st" "\<not> duplicate_entry (pending_log st sid) item k"
    "append_session_log_entry sid item c k st = (e, st')"
  shows "log_view st' sid' = log_view st sid' @ (if sid' = sid then [e] else [])
    \<and> le_seq e = Suc (length (log_view st sid)) \<and> le_item e = item \<and> log_inv st'"
  using append_log_view [OF assms(1), of sid item c k sid'] append_new(2) [OF assms(2), of c]
    append_new_seq [OF assms(1,2), of c] log_inv_append [OF assms(1), of sid item c k] assms(2,3)
  by simp

text \<open>An event is logged at most once per transaction: after an event was appended under a key, a
  second append under that key adds nothing to any log.\<close>

theorem event_key_appended_once:
  assumes "log_inv st" "item_message item = None" "k \<noteq> []"
    "append_session_log_entry sid item c k st = (e, st1)"
    "append_session_log_entry sid item' c' k st1 = (e', st2)"
  shows "log_view st2 sid' = log_view st1 sid'"
proof -
  have inv1: "log_inv st1" using log_inv_append [OF assms(1), of sid item c k] assms(4) by simp
  have "\<exists>x \<in> set (pending_log st1 sid). le_event_key x = k"
  proof (cases "duplicate_entry (pending_log st sid) item k")
    case True
    then show ?thesis
      using append_duplicate(1) [of st sid item k c sid] assms(2,4)
      by (auto simp: duplicate_entry_def list_ex_iff)
  next
    case False
    then show ?thesis
      using append_new(1) [OF False, of c sid] append_new(3) [OF False, of c] assms(4) by simp
  qed
  then have "duplicate_entry (pending_log st1 sid) item' k"
    using assms(3) by (auto simp: duplicate_entry_def list_ex_iff)
  then show ?thesis using append_log_view [OF inv1, of sid item' c' k sid'] assms(5) by simp
qed


text \<open>A log whose first entry is durable and whose second is pending.\<close>

definition two_entry_log :: state where
  "two_entry_log = (blank_state (\<lambda>_. 0) (\<lambda>_. 0))
     \<lparr>st_disk_logs := [(''s'', [\<lparr>le_log_id = ''l1'', le_seq = 1, le_session_id = ''s'', le_created_at = [],
         le_item = LSessionActiveChanged True False [] [], le_event_key = ''k1''\<rparr>])],
      st_session_logs := [(''s'', [\<lparr>le_log_id = ''l2'', le_seq = 2, le_session_id = ''s'', le_created_at = [],
         le_item = LSessionActiveChanged False True [] [], le_event_key = ''k2''\<rparr>])]\<rparr>"

lemma two_entry_log_ok: "log_ok two_entry_log"
  by (auto simp: two_entry_log_def blank_state_def log_ok_def log_inv_def log_view_def pending_log_def
      disk_log_def seq_from_def dict_get_def log_fresh_def entry_fresh_def signal_key_def upt_rec)

theorem append_extends_log_witness:
  "case append_session_log_entry ''s'' (LSessionActiveChanged True False [] []) ''t'' ''k3'' two_entry_log of
     (e, st') \<Rightarrow> le_seq e = 3 \<and> log_view st' ''s'' = log_view two_entry_log ''s'' @ [e]"
proof -
  obtain e st' where r: "append_session_log_entry ''s'' (LSessionActiveChanged True False [] []) ''t'' ''k3''
      two_entry_log = (e, st')" by fastforce
  have "\<not> duplicate_entry (pending_log two_entry_log ''s'') (LSessionActiveChanged True False [] []) ''k3''"
    "length (log_view two_entry_log ''s'') = 2"
    by (simp_all add: two_entry_log_def blank_state_def duplicate_entry_def pending_log_def dict_get_def
        log_view_def disk_log_def)
  with append_extends_log [OF log_ok_inv [OF two_entry_log_ok] _ r, of "''s''"] show ?thesis
    unfolding r by simp
qed

theorem event_key_appended_once_witness:
  "log_view (snd (append_session_log_entry ''s'' (LSessionActiveChanged True False [] []) ''t'' ''k3''
      (snd (append_session_log_entry ''s'' (LSessionActiveChanged True False [] []) ''t'' ''k3'' two_entry_log)))) ''s''
   = log_view (snd (append_session_log_entry ''s'' (LSessionActiveChanged True False [] []) ''t'' ''k3''
       two_entry_log)) ''s''"
  by (rule event_key_appended_once [OF log_ok_inv [OF two_entry_log_ok] _ _ prod.collapse [symmetric]
      prod.collapse [symmetric]]) simp_all


end
