(* ===== verification/Session_Graph.thy ===== *)
theory Session_Graph
  imports Session_Log
begin

section \<open>The session graph\<close>

text \<open>
  \<open>link_sessions\<close> and \<open>_has_path\<close> of src/src/goal/sessions.py. The edges go from parent to child
  sessions and must stay acyclic; the check is a depth-first search over the child lists, whose
  stack is a list with its top at the head.
\<close>

definition children_by_parent :: "edge list \<Rightarrow> string list dict" where
  "children_by_parent edges =
     fold (\<lambda>e d. AList.update (e_parent e) (dict_get [] d (e_parent e) @ [e_child e]) d) edges []"

lemma dict_get_children_fold:
  "dict_get [] (fold (\<lambda>e d. AList.update (e_parent e) (dict_get [] d (e_parent e) @ [e_child e]) d) edges d) p
     = dict_get [] d p @ map e_child (filter (\<lambda>e. e_parent e = p) edges)"
  by (induction edges arbitrary: d) auto

lemma dict_get_children_by_parent:
  "dict_get [] (children_by_parent edges) p = map e_child (filter (\<lambda>e. e_parent e = p) edges)"
  by (simp add: children_by_parent_def dict_get_children_fold)

text \<open>The loop of \<open>_has_path\<close>; it ends because a session is expanded at most once.\<close>

lemma dict_get_nonempty: "dict_get [] d k \<noteq> [] \<Longrightarrow> k \<in> set (dict_keys d)"
  unfolding dict_get_def by (cases "map_of d k") (auto dest: map_of_SomeD intro: rev_image_eqI)

function path_search :: "string list dict \<Rightarrow> string \<Rightarrow> string list \<Rightarrow> string list \<Rightarrow> bool" where
  "path_search children target [] seen = False"
| "path_search children target (sid # stack) seen =
     (if sid = target then True
      else if sid \<in> set seen then path_search children target stack seen
      else path_search children target (rev (dict_get [] children sid) @ stack) (sid # seen))"
  by pat_completeness auto

termination
proof (relation "measures [\<lambda>(children, target, stack, seen). card (set (dict_keys children) - set seen),
                           \<lambda>(children, target, stack, seen). length stack]")
  show "wf (measures [\<lambda>(children, target, stack, seen). card (set (dict_keys children) - set seen),
      \<lambda>(children, target, stack, seen). length stack])"
    by simp
next
  fix children :: "string list dict" and target sid :: string and stack seen :: "string list"
  assume "sid \<notin> set seen"
  then show "((children, target, rev (dict_get [] children sid) @ stack, sid # seen), children, target, sid # stack, seen)
      \<in> measures [\<lambda>(children, target, stack, seen). card (set (dict_keys children) - set seen),
                  \<lambda>(children, target, stack, seen). length stack]"
  proof (cases "sid \<in> set (dict_keys children)")
    case True
    with \<open>sid \<notin> set seen\<close> have "set (dict_keys children) - set (sid # seen) \<subset> set (dict_keys children) - set seen"
      by auto
    then have "card (set (dict_keys children) - set (sid # seen)) < card (set (dict_keys children) - set seen)"
      by (intro psubset_card_mono) auto
    then show ?thesis by simp
  next
    case False
    then have "dict_get [] children sid = []" using dict_get_nonempty by blast
    moreover from False have "set (dict_keys children) - set (sid # seen) = set (dict_keys children) - set seen"
      by auto
    ultimately show ?thesis by simp
  qed
qed simp

definition has_path :: "edge list \<Rightarrow> string \<Rightarrow> string \<Rightarrow> bool" where
  "has_path edges start target = path_search (children_by_parent edges) target [start] []"

definition same_edge :: "string \<Rightarrow> string \<Rightarrow> edge \<Rightarrow> bool" where
  "same_edge parent child e \<longleftrightarrow> e_parent e = parent \<and> e_child e = child"

definition link_sessions_in_state :: "string \<Rightarrow> string \<Rightarrow> state \<Rightarrow> (edge \<times> state) res" where
  "link_sessions_in_state parent child st =
     (if get_session st parent = None then Inl (StoreError (''unknown parent session: '' @ parent))
      else if get_session st child = None then Inl (StoreError (''unknown child session: '' @ child))
      else if parent = child then Inl (StoreError ''session graph cannot contain self edges'')
      else case List.find (same_edge parent child) (st_session_edges st) of
        Some e \<Rightarrow> Inr (e, st)
      | None \<Rightarrow>
          if has_path (st_session_edges st) child parent then
            Inl (StoreError (''link would create a cycle: '' @ parent @ '' -> '' @ child))
          else
            let (now, st1) = utc_now st;
                e = \<lparr>e_parent = parent, e_child = child, e_created_at = now\<rparr>
            in Inr (e, st1\<lparr>st_session_edges := st_session_edges st1 @ [e]\<rparr>))"

subsection \<open>The search finds exactly the paths\<close>

definition edge_rel :: "edge list \<Rightarrow> (string \<times> string) set" where
  "edge_rel edges = (\<lambda>e. (e_parent e, e_child e)) ` set edges"

definition succ_rel :: "string list dict \<Rightarrow> (string \<times> string) set" where
  "succ_rel children = {(p, c). c \<in> set (dict_get [] children p)}"

lemma succ_rel_children [simp]: "succ_rel (children_by_parent edges) = edge_rel edges"
  by (auto simp: succ_rel_def edge_rel_def dict_get_children_by_parent)

lemma path_search_sound:
  "path_search children target stack seen \<Longrightarrow> \<exists>s \<in> set stack. (s, target) \<in> (succ_rel children)\<^sup>*"
proof (induction children target stack seen rule: path_search.induct)
  case (1 children target seen)
  then show ?case by simp
next
  case (2 children target sid stack seen)
  show ?case
  proof (cases "sid = target \<or> sid \<in> set seen")
    case True
    with 2 show ?thesis by (auto split: if_splits)
  next
    case False
    with 2 obtain s where s: "s \<in> set (dict_get [] children sid) \<or> s \<in> set stack"
        "(s, target) \<in> (succ_rel children)\<^sup>*" by fastforce
    from s(1) show ?thesis
    proof
      assume "s \<in> set (dict_get [] children sid)"
      then have "(sid, s) \<in> succ_rel children" by (simp add: succ_rel_def)
      with s(2) show ?thesis by (auto intro: converse_rtrancl_into_rtrancl)
    qed (use s(2) in auto)
  qed
qed

text \<open>
  What the search has seen and expanded is closed under steps up to the stack; when it fails,
  the seen sessions are closed and hold no target.
\<close>

lemma path_search_complete:
  assumes "\<not> path_search children target stack seen"
    and "target \<notin> set seen"
    and "\<And>x y. x \<in> set seen \<Longrightarrow> (x, y) \<in> succ_rel children \<Longrightarrow> y \<in> set seen \<union> set stack"
    and "s \<in> set seen \<union> set stack" and "(s, t) \<in> (succ_rel children)\<^sup>*"
  shows "t \<noteq> target"
  using assms
proof (induction children target stack seen rule: path_search.induct)
  case (1 children target seen)
  from 1(5,4) have "t \<in> set seen"
    by (induction rule: rtrancl_induct) (use 1(3) in auto)
  with 1(2) show ?case by auto
next
  case (2 children target sid stack seen)
  from 2(3) have ne: "sid \<noteq> target" by auto
  show ?case
  proof (cases "sid \<in> set seen")
    case True
    show ?thesis
    proof (rule 2(1) [OF ne True])
      show "\<not> path_search children target stack seen" using 2(3) ne True by simp
      show "\<And>x y. x \<in> set seen \<Longrightarrow> (x, y) \<in> succ_rel children \<Longrightarrow> y \<in> set seen \<union> set stack"
        using 2(5) True by fastforce
      show "s \<in> set seen \<union> set stack" using 2(6) True by auto
    qed (use 2(4,7) in auto)
  next
    case False
    show ?thesis
    proof (rule 2(2) [OF ne False])
      show "\<not> path_search children target (rev (dict_get [] children sid) @ stack) (sid # seen)"
        using 2(3) ne False by simp
      show "x \<in> set (sid # seen) \<Longrightarrow> (x, y) \<in> succ_rel children \<Longrightarrow>
          y \<in> set (sid # seen) \<union> set (rev (dict_get [] children sid) @ stack)" for x y
        using 2(5) [of x y] by (auto simp: succ_rel_def)
    qed (use 2(4,6,7) ne in auto)
  qed
qed

lemma has_path_iff: "has_path edges a b \<longleftrightarrow> (a, b) \<in> (edge_rel edges)\<^sup>*"
proof
  assume "has_path edges a b"
  then have "path_search (children_by_parent edges) b [a] []" by (simp add: has_path_def)
  from path_search_sound [OF this] show "(a, b) \<in> (edge_rel edges)\<^sup>*" by simp
next
  assume r: "(a, b) \<in> (edge_rel edges)\<^sup>*"
  show "has_path edges a b"
  proof (rule ccontr)
    assume "\<not> has_path edges a b"
    then have n: "\<not> path_search (children_by_parent edges) b [a] []" unfolding has_path_def .
    have "b \<noteq> b"
      by (rule path_search_complete [OF n, where s = a]) (use r in simp_all)
    then show False by simp
  qed
qed

subsection \<open>The graph stays acyclic\<close>

text \<open>The contract of the graph: a link adds one edge, and only where no path leads back.\<close>

locale acyclic_links =
  fixes rel :: "'st \<Rightarrow> (string \<times> string) set"
    and link :: "string \<Rightarrow> string \<Rightarrow> 'st \<Rightarrow> (edge \<times> 'st) res"
  assumes link_adds: "link p c st = Inr (e, st') \<Longrightarrow> rel st' = insert (p, c) (rel st)"
    and link_safe: "link p c st = Inr (e, st') \<Longrightarrow> (p, c) \<in> rel st \<or> (c, p) \<notin> (rel st)\<^sup>*"
begin

lemma link_acyclic: "link p c st = Inr (e, st') \<Longrightarrow> acyclic (rel st) \<Longrightarrow> acyclic (rel st')"
  using link_adds link_safe by (metis acyclic_insert insert_absorb)

lemma link_mono: "link p c st = Inr (e, st') \<Longrightarrow> rel st \<subseteq> rel st'"
  using link_adds by auto

lemma links_acyclic:
  assumes "foldR (\<lambda>p st. bindR (link p c st) (\<lambda>(e, st'). Inr st')) ps st = Inr st'" "acyclic (rel st)"
  shows "acyclic (rel st')"
proof (rule foldR_invariant [where I = "\<lambda>st. acyclic (rel st)", OF assms])
  fix p s t
  assume "acyclic (rel s)" "bindR (link p c s) (\<lambda>(e, st'). Inr st') = Inr t"
  then show "acyclic (rel t)" by (auto simp: bindR_Inr_iff intro: link_acyclic)
qed

lemma links_rel:
  assumes "foldR (\<lambda>p st. bindR (link p c st) (\<lambda>(e, st'). Inr st')) ps st = Inr st'"
  shows "rel st' = (\<lambda>p. (p, c)) ` set ps \<union> rel st"
  using assms
proof (induction ps arbitrary: st)
  case Nil
  then show ?case by simp
next
  case (Cons p ps)
  then obtain e u where "link p c st = Inr (e, u)"
      "foldR (\<lambda>p st. bindR (link p c st) (\<lambda>(e, st'). Inr st')) ps u = Inr st'"
    by (auto simp: bindR_Inr_iff)
  with Cons.IH [of u] link_adds show ?case by auto
qed

end

abbreviation graph :: "state \<Rightarrow> (string \<times> string) set" where
  "graph st \<equiv> edge_rel (st_session_edges st)"

lemma edge_rel_snoc [simp]: "edge_rel (es @ [e]) = insert (e_parent e, e_child e) (edge_rel es)"
  by (simp add: edge_rel_def)

lemma find_same_edge: "List.find (same_edge p c) es = Some e \<Longrightarrow> (p, c) \<in> edge_rel es"
  by (auto dest!: find_Some_mem simp: same_edge_def edge_rel_def)

lemma find_same_edge_None: "List.find (same_edge p c) es = None \<longleftrightarrow> (p, c) \<notin> edge_rel es"
  by (auto simp: find_None_iff same_edge_def edge_rel_def)

lemma link_sessions_cases:
  assumes "link_sessions_in_state p c st = Inr (e, st')"
  obtains (existing) "(p, c) \<in> graph st" "st' = st"
  | (linked) "p \<noteq> c" "(p, c) \<notin> graph st" "(c, p) \<notin> (graph st)\<^sup>*" "e_parent e = p" "e_child e = c"
      "st' = (snd (utc_now st))\<lparr>st_session_edges := st_session_edges st @ [e]\<rparr>"
proof (cases "List.find (same_edge p c) (st_session_edges st)")
  case None
  then have "(p, c) \<notin> graph st" by (simp only: find_same_edge_None not_False_eq_True)
  with None assms show ?thesis
    by (intro linked)
       (auto simp: link_sessions_in_state_def has_path_iff utc_now_def Let_def split: if_splits)
next
  case (Some e')
  with assms show ?thesis
    by (intro existing find_same_edge [OF Some]) (simp add: link_sessions_in_state_def split: if_splits)
qed

interpretation session_graph: acyclic_links graph link_sessions_in_state
proof
  fix p c st e st'
  assume l: "link_sessions_in_state p c st = Inr (e, st')"
  then show "graph st' = insert (p, c) (graph st)"
    by (cases rule: link_sessions_cases) auto
  from l show "(p, c) \<in> graph st \<or> (c, p) \<notin> (graph st)\<^sup>*"
    by (cases rule: link_sessions_cases) auto
qed

lemma link_sessions_frame:
  assumes "link_sessions_in_state p c st = Inr (e, st')"
  shows "st' = st\<lparr>st_session_edges := st_session_edges st', st_ticks := st_ticks st'\<rparr>"
  using assms by (cases rule: link_sessions_cases) (auto simp: utc_now_def)

lemma parent_session_ids_set:
  "set (parent_session_ids st c) = {p. (p, c) \<in> graph st \<and> p \<noteq> []}"
  by (auto simp: parent_session_ids_def edge_rel_def)

text \<open>The depth-first search decides reachability: it always returns, also on a graph with cycles,
  and answers true exactly when a path of edges leads from the start to the target.\<close>

theorem has_path_decides_reachability:
  "has_path edges start target = ((start, target) \<in> (edge_rel edges)\<^sup>*)"
  by (rule has_path_iff)

text \<open>C11: Linking sessions keeps the graph acyclic: it never creates a cycle, it adds exactly the
  requested edge, and it is refused with an error (and no change) whenever the edge would close
  a cycle or a self edge.\<close>

theorem link_keeps_graph_acyclic:
  assumes "acyclic (graph st)"
  shows "case link_sessions_in_state p c st of
      Inr (e, st') \<Rightarrow> acyclic (graph st') \<and> graph st' = insert (p, c) (graph st)
    | Inl _ \<Rightarrow> get_session st p = None \<or> get_session st c = None \<or> (c, p) \<in> (graph st)\<^sup>*"
proof (cases "link_sessions_in_state p c st")
  case (Inl err)
  then show ?thesis
    by (auto simp: link_sessions_in_state_def has_path_iff Let_def utc_now_def
        split: if_splits option.splits)
next
  case (Inr r)
  then show ?thesis
    using assms session_graph.link_acyclic session_graph.link_adds by (cases r) fastforce
qed

text \<open>Two linked sessions: the reverse link is refused.\<close>

definition linked_pair :: state where
  "linked_pair = (blank_state (\<lambda>_. 0) (\<lambda>_. 0))
     \<lparr>st_sessions := [(''a'', new_session ''a'' [] [] ''A'' False), (''b'', new_session ''b'' [] [] ''B'' False)],
      st_session_edges := [\<lparr>e_parent = ''a'', e_child = ''b'', e_created_at = []\<rparr>]\<rparr>"

theorem link_keeps_graph_acyclic_witness:
  "acyclic (graph linked_pair) \<and>
   (\<exists>e. link_sessions_in_state ''b'' ''a'' linked_pair = Inl e) \<and> (''a'', ''b'') \<in> (graph linked_pair)\<^sup>*"
proof -
  have g: "graph linked_pair = {(''a'', ''b'')}" by (simp add: linked_pair_def edge_rel_def)
  then have ac: "acyclic (graph linked_pair)"
    by (simp add: acyclic_insert) (simp add: acyclic_def)
  have "\<not> acyclic (insert (''b'', ''a'') {(''a'', ''b'')})"
    by (simp only: acyclic_insert) blast
  then have cyc: "\<not> (acyclic X \<and> X = insert (''b'', ''a'') {(''a'', ''b'')})" for X by blast
  have "\<exists>e. link_sessions_in_state ''b'' ''a'' linked_pair = Inl e"
  proof (cases "link_sessions_in_state ''b'' ''a'' linked_pair")
    case (Inr r)
    obtain e s where r: "r = (e, s)" by (cases r)
    from link_keeps_graph_acyclic [OF ac, of "''b''" "''a''"] cyc [of "graph s"]
    show ?thesis unfolding Inr r g by simp
  qed simp
  with ac g show ?thesis by blast
qed

end
