(* ===== verification/Kernel_Messages.thy ===== *)
theory Kernel_Messages
  imports Session_Log
begin

section \<open>Messages\<close>

text \<open>
  src/src/kernel/messages.py: building a message, logging it in a session, the messages of one
  session and of all sessions, and the per-endpoint cursor of a receiver.
\<close>

definition make_message :: "string \<Rightarrow> string \<Rightarrow> payload \<Rightarrow> string \<Rightarrow> state \<Rightarrow> message \<times> state" where
  "make_message from_endpoint to_endpoint payload created_at st =
     (let (mid, st1) = new_id ''msg'' st;
          (ts, st2) = (if created_at = [] then utc_now st1 else (created_at, st1))
      in (\<lparr>m_message_id = mid, m_from = from_endpoint, m_to = to_endpoint, m_payload = payload,
            m_created_at = ts\<rparr>, st2))"

definition append_session_message_locked ::
  "string \<Rightarrow> string \<Rightarrow> string \<Rightarrow> payload \<Rightarrow> string \<Rightarrow> state \<Rightarrow> (message \<times> state) res" where
  "append_session_message_locked session_id from_endpoint to_endpoint payload created_at st =
     (if get_session st session_id = None then Inl (StoreError (''unknown session: '' @ session_id))
      else
        let (m, st1) = make_message from_endpoint to_endpoint payload created_at st;
            st2 = log_message_for_session m session_id st1;
            st3 = upd_session session_id (\<lambda>s. s\<lparr>s_updated_at := m_created_at m\<rparr>) st2
        in Inr (m, st3))"

definition session_messages :: "string \<Rightarrow> state \<Rightarrow> message list \<times> state" where
  "session_messages session_id st =
     (let (entries, st1) = session_log_entries session_id st
      in (List.map_filter message_for_log_entry entries, st1))"

type_synonym indexed_message = "(string \<times> string \<times> nat) \<times> message"

definition index_message ::
  "string \<Rightarrow> log_entry \<Rightarrow> string list \<times> indexed_message list \<Rightarrow> string list \<times> indexed_message list" where
  "index_message session_id e acc =
     (case acc of (seen, indexed) \<Rightarrow>
        case message_for_log_entry e of
          None \<Rightarrow> (seen, indexed)
        | Some m \<Rightarrow>
            if m_message_id m \<in> set seen then (seen, indexed)
            else (m_message_id m # seen, indexed @ [((m_created_at m, session_id, le_seq e), m)]))"

definition all_messages :: "state \<Rightarrow> message list \<times> state" where
  "all_messages st =
     (let ((seen, indexed), st1) =
        fold (\<lambda>sid (acc, st). let (entries, st') = session_log_entries sid st
                              in (fold (index_message sid) entries acc, st'))
          (all_session_log_ids st) (([], []), st)
      in (map snd (sort_key fst indexed), st1))"

definition messages_after_cursor :: "string \<Rightarrow> state \<Rightarrow> message list \<times> state" where
  "messages_after_cursor endpoint0 st =
     (let (messages, st1) = all_messages st;
          endpoint = canonical_endpoint endpoint0;
          own = dict_get [] (st_endpoint_cursors st1) endpoint;
          cursor_id = (if own \<noteq> [] then own
                       else dict_get [] (st_endpoint_cursors st1) (legacy_endpoint_alias endpoint));
          unread =
            (if cursor_id = [] then messages
             else case List.extract (\<lambda>m. m_message_id m = cursor_id) messages of
                    None \<Rightarrow> messages
                  | Some (_, _, after) \<Rightarrow> after)
      in (filter (\<lambda>m. canonical_endpoint (m_to m) = endpoint) unread, st1))"

definition advance_endpoint_cursor :: "string \<Rightarrow> message list \<Rightarrow> state \<Rightarrow> state" where
  "advance_endpoint_cursor endpoint0 messages st =
     (let endpoint = canonical_endpoint endpoint0 in
      case List.find (\<lambda>m. canonical_endpoint (m_to m) = endpoint) (rev messages) of
        None \<Rightarrow> st
      | Some m \<Rightarrow> st\<lparr>st_endpoint_cursors := AList.update endpoint (m_message_id m) (st_endpoint_cursors st)\<rparr>)"

definition latest_reply_endpoint_for_session :: "string \<Rightarrow> state \<Rightarrow> string \<times> state" where
  "latest_reply_endpoint_for_session session_id st =
     (let (messages, st1) = session_messages session_id st in
      case List.find (\<lambda>m. m_to m = session_endpoint session_id \<and> pl_user_input (m_payload m)
                          \<and> py_strip (pl_reply_to (m_payload m)) \<noteq> []) (rev messages) of
        None \<Rightarrow> ([], st1)
      | Some m \<Rightarrow> (py_strip (pl_reply_to (m_payload m)), st1))"

definition is_service_identity :: "state \<Rightarrow> string \<Rightarrow> bool" where
  "is_service_identity st username =
     (case map_of (st_users st) username of None \<Rightarrow> False | Some u \<Rightarrow> u_status u = ''service'')"

text \<open>\<open>_normalize_message_files\<close> only copies here: a file payload is an object by its type.\<close>

definition endpoint_is_service :: "state \<Rightarrow> string \<Rightarrow> bool" where
  "endpoint_is_service st endpoint \<longleftrightarrow>
     starts_with ''user:'' endpoint \<and> is_service_identity st (after_colon endpoint)"

definition append_message ::
  "string \<Rightarrow> string \<Rightarrow> string \<Rightarrow> string \<Rightarrow> jobject list \<Rightarrow> state \<Rightarrow> (message \<times> state) res" where
  "append_message session_id sender recipient body files st =
     (if get_session st session_id = None then Inl (StoreError (''unknown session: '' @ session_id))
      else
        bindR (normalize_endpoint sender session_id) (\<lambda>from_endpoint.
        bindR (normalize_endpoint recipient session_id) (\<lambda>to_endpoint.
          if starts_with ''agent:'' from_endpoint \<or> starts_with ''agent:'' to_endpoint then
            Inl (StoreError ''generic messages may not use agent endpoints'')
          else if list_ex (endpoint_is_service st) [from_endpoint, to_endpoint] then
            Inl (StoreError ''generic messages may not use service identities as endpoints'')
          else
            bindR (append_session_message_locked session_id from_endpoint to_endpoint
                     (empty_payload\<lparr>pl_body := body, pl_files := files\<rparr>) [] st) (\<lambda>(m, st1).
            bindR (save st1) (\<lambda>st2. Inr (m, st2))))))"

subsection \<open>What they keep and what they add\<close>

lemma make_message_facts:
  "m_message_id (fst (make_message f t p c st)) = id_of ''msg'' (st_uid st)"
  "m_from (fst (make_message f t p c st)) = f" "m_to (fst (make_message f t p c st)) = t"
  "m_payload (fst (make_message f t p c st)) = p"
  "snd (make_message f t p c st)
     = st\<lparr>st_uid := Suc (st_uid st), st_ticks := st_ticks (snd (make_message f t p c st))\<rparr>"
  by (cases "c = []"; simp add: make_message_def new_id_def utc_now_def Let_def)+

lemma session_messages_view:
  assumes "log_inv st"
  shows "fst (session_messages sid st) = List.map_filter message_for_log_entry (log_view st sid)"
  using session_log_entries_view [OF assms] by (simp add: session_messages_def case_prod_beta)

lemma log_grows_read:
  assumes "log_inv st \<Longrightarrow> log_inv st'" "st_uid st = st_uid st'"
    "log_inv st \<Longrightarrow> \<forall>sid. log_view st' sid = log_view st sid"
  shows "log_grows st st'"
  using assms by (auto simp: log_grows_def log_ok_def log_fresh_def)

lemma session_log_entries_frame [simp]:
  "st_users (snd (session_log_entries sid st)) = st_users st"
  "st_units (snd (session_log_entries sid st)) = st_units st"
  "st_sessions (snd (session_log_entries sid st)) = st_sessions st"
  "st_session_edges (snd (session_log_entries sid st)) = st_session_edges st"
  "st_goals (snd (session_log_entries sid st)) = st_goals st"
  "st_agent_profiles (snd (session_log_entries sid st)) = st_agent_profiles st"
  "st_agent_threads (snd (session_log_entries sid st)) = st_agent_threads st"
  "st_dispatch_runs (snd (session_log_entries sid st)) = st_dispatch_runs st"
  "st_dispatch_readiness (snd (session_log_entries sid st)) = st_dispatch_readiness st"
  "st_dispatch_lot_size (snd (session_log_entries sid st)) = st_dispatch_lot_size st"
  "st_endpoint_cursors (snd (session_log_entries sid st)) = st_endpoint_cursors st"
  "st_disk_logs (snd (session_log_entries sid st)) = st_disk_logs st"
  "st_clock (snd (session_log_entries sid st)) = st_clock st"
  "st_ticks (snd (session_log_entries sid st)) = st_ticks st"
  "st_uid (snd (session_log_entries sid st)) = st_uid st"
  "st_local_zone (snd (session_log_entries sid st)) = st_local_zone st"
  by (simp_all add: session_log_entries_def Let_def)

lemma log_grows_entries: "log_grows st (snd (session_log_entries sid st))"
  by (rule log_grows_read) (simp_all add: session_log_entries_inv session_log_entries_log_view)

lemma session_messages_state [simp]:
  "snd (session_messages sid st) = snd (session_log_entries sid st)"
  by (simp add: session_messages_def case_prod_beta)

lemma latest_reply_state [simp]:
  "snd (latest_reply_endpoint_for_session sid st) = snd (session_log_entries sid st)"
  by (simp add: latest_reply_endpoint_for_session_def case_prod_beta Let_def split: option.splits)

end
