(* ===== verification/Evolution.thy ===== *)
theory Evolution
  imports Session_Graph Kernel_Messages
begin

section \<open>How a transaction may change the state\<close>

text \<open>
  \<open>evolves st st'\<close> collects what every operation except the acquisition of a lease keeps:
  the logs only grow, an acyclic session graph stays acyclic, no goal or session disappears, a
  goal keeps its identifier and its session, a new goal has a fresh identifier, no dispatch run
  becomes acquired, and a readiness entry belongs to the session of its goal if that held
  before. It is reflexive and transitive, so an operation evolves when its steps do; the
  invariants of the store then follow for all of them at once.
\<close>

definition goals_evolve :: "state \<Rightarrow> state \<Rightarrow> bool" where
  "goals_evolve st st' \<longleftrightarrow>
     (\<forall>gid g. get_goal st gid = Some g \<longrightarrow>
        (\<exists>g'. get_goal st' gid = Some g' \<and> g_session_id g' = g_session_id g \<and> g_goal_id g' = g_goal_id g))"

text \<open>Goals are stored under their identifier, and no identifier still to be made is in use.\<close>

definition goals_ok :: "state \<Rightarrow> bool" where
  "goals_ok st \<longleftrightarrow>
     distinct (dict_keys (st_goals st)) \<and> (\<forall>(k, g) \<in> set (st_goals st). g_goal_id g = k)
     \<and> (\<forall>n \<ge> st_uid st. get_goal st (id_of ''goal'' n) = None)"

definition runs_evolve :: "state \<Rightarrow> state \<Rightarrow> bool" where
  "runs_evolve st st' \<longleftrightarrow>
     (\<forall>rid r'. get_run st' rid = Some r' \<longrightarrow> r_lease_state r' = LeaseAcquired \<longrightarrow>
        (\<exists>r. get_run st rid = Some r \<and> r_lease_state r = LeaseAcquired \<and> r_run_id r' = r_run_id r
           \<and> r_session_id r' = r_session_id r \<and> r_role r' = r_role r \<and> r_goal_id r' = r_goal_id r))"

definition entry_matches_goal :: "state \<Rightarrow> readiness \<Rightarrow> bool" where
  "entry_matches_goal st e \<longleftrightarrow>
     (\<exists>g. get_goal st (rd_goal_id e) = Some g \<and> g_session_id g = rd_session_id e)"

definition readiness_evolve :: "state \<Rightarrow> state \<Rightarrow> bool" where
  "readiness_evolve st st' \<longleftrightarrow>
     (\<forall>e' \<in> set (st_dispatch_readiness st').
        entry_matches_goal st' e'
        \<or> (\<exists>e \<in> set (st_dispatch_readiness st).
              rd_goal_id e' = rd_goal_id e \<and> rd_session_id e' = rd_session_id e))"

definition sessions_evolve :: "state \<Rightarrow> state \<Rightarrow> bool" where
  "sessions_evolve st st' \<longleftrightarrow> (\<forall>sid. get_session st sid \<noteq> None \<longrightarrow> get_session st' sid \<noteq> None)"

definition evolves :: "state \<Rightarrow> state \<Rightarrow> bool" where
  "evolves st st' \<longleftrightarrow>
     log_grows st st' \<and> (acyclic (graph st) \<longrightarrow> acyclic (graph st')) \<and> sessions_evolve st st'
     \<and> runs_evolve st st'
     \<and> (goals_ok st \<longrightarrow> goals_ok st' \<and> goals_evolve st st' \<and> readiness_evolve st st')"

named_theorems evolve_intros "operations that evolve the state"

lemma evolves_refl [simp, intro]: "evolves st st"
  by (auto simp: evolves_def goals_evolve_def runs_evolve_def readiness_evolve_def sessions_evolve_def
      split: option.splits)

lemma mem_map_entry:
  "(k, v) \<in> set (AList.map_entry x f d) \<Longrightarrow> (k, v) \<in> set d \<or> k = x \<and> (\<exists>u. (x, u) \<in> set d \<and> v = f u)"
  by (induction d) (auto split: if_splits)

lemma mem_update: "(k', v') \<in> set (AList.update k v d) \<Longrightarrow> k' = k \<and> v' = v \<or> (k', v') \<in> set d"
  by (induction d) (auto split: if_splits)

lemma goals_okD: "goals_ok st \<Longrightarrow> get_goal st gid = Some g \<Longrightarrow> g_goal_id g = gid"
  by (auto simp: goals_ok_def dest: map_of_SomeD)

lemma goals_evolve_trans:
  assumes "goals_evolve s t" "goals_evolve t u"
  shows "goals_evolve s u"
  unfolding goals_evolve_def
proof (intro allI impI)
  fix gid g
  assume "get_goal s gid = Some g"
  with assms(1) obtain h where h: "get_goal t gid = Some h" "g_session_id h = g_session_id g"
    "g_goal_id h = g_goal_id g" unfolding goals_evolve_def by blast
  from h(1) assms(2) obtain i where "get_goal u gid = Some i" "g_session_id i = g_session_id h"
    "g_goal_id i = g_goal_id h" unfolding goals_evolve_def by blast
  with h show "\<exists>g'. get_goal u gid = Some g' \<and> g_session_id g' = g_session_id g \<and> g_goal_id g' = g_goal_id g"
    by simp
qed

lemma entry_matches_evolves:
  assumes "goals_evolve st st'" "entry_matches_goal st e"
    "rd_goal_id e' = rd_goal_id e" "rd_session_id e' = rd_session_id e"
  shows "entry_matches_goal st' e'"
proof -
  obtain g where g: "get_goal st (rd_goal_id e) = Some g" "g_session_id g = rd_session_id e"
    using assms(2) unfolding entry_matches_goal_def by blast
  then obtain g' where "get_goal st' (rd_goal_id e) = Some g'" "g_session_id g' = g_session_id g"
    using assms(1) unfolding goals_evolve_def by blast
  then show ?thesis using g(2) assms(3,4) unfolding entry_matches_goal_def by metis
qed

lemma readiness_evolve_trans:
  assumes "readiness_evolve s t" "readiness_evolve t u" "goals_evolve t u"
  shows "readiness_evolve s u"
  unfolding readiness_evolve_def
proof
  fix e'
  assume "e' \<in> set (st_dispatch_readiness u)"
  with assms(2) consider "entry_matches_goal u e'"
    | e where "e \<in> set (st_dispatch_readiness t)" "rd_goal_id e' = rd_goal_id e"
        "rd_session_id e' = rd_session_id e"
    unfolding readiness_evolve_def by blast
  then show "entry_matches_goal u e' \<or> (\<exists>e \<in> set (st_dispatch_readiness s).
              rd_goal_id e' = rd_goal_id e \<and> rd_session_id e' = rd_session_id e)"
  proof cases
    case 2
    with assms(1) consider "entry_matches_goal t e"
      | d where "d \<in> set (st_dispatch_readiness s)" "rd_goal_id e = rd_goal_id d"
          "rd_session_id e = rd_session_id d"
      unfolding readiness_evolve_def by blast
    then show ?thesis
      using 2 entry_matches_evolves [OF assms(3)] by cases (blast, metis)
  qed simp
qed

lemma runs_evolveD:
  assumes "runs_evolve st st'" "get_run st' rid = Some r'" "r_lease_state r' = LeaseAcquired"
  obtains r where "get_run st rid = Some r" "r_lease_state r = LeaseAcquired" "r_run_id r' = r_run_id r"
    "r_session_id r' = r_session_id r" "r_role r' = r_role r" "r_goal_id r' = r_goal_id r"
  using assms unfolding runs_evolve_def by blast

lemma runs_evolve_trans:
  assumes "runs_evolve s t" "runs_evolve t u"
  shows "runs_evolve s u"
  unfolding runs_evolve_def
proof (intro allI impI)
  fix rid r2
  assume "get_run u rid = Some r2" "r_lease_state r2 = LeaseAcquired"
  then obtain r1 where r1: "get_run t rid = Some r1" "r_lease_state r1 = LeaseAcquired" "r_run_id r2 = r_run_id r1"
    "r_session_id r2 = r_session_id r1" "r_role r2 = r_role r1" "r_goal_id r2 = r_goal_id r1"
    by (rule runs_evolveD [OF assms(2)])
  obtain r where "get_run s rid = Some r" "r_lease_state r = LeaseAcquired" "r_run_id r1 = r_run_id r"
    "r_session_id r1 = r_session_id r" "r_role r1 = r_role r" "r_goal_id r1 = r_goal_id r"
    by (rule runs_evolveD [OF assms(1) r1(1,2)])
  with r1 show "\<exists>r. get_run s rid = Some r \<and> r_lease_state r = LeaseAcquired \<and> r_run_id r2 = r_run_id r
      \<and> r_session_id r2 = r_session_id r \<and> r_role r2 = r_role r \<and> r_goal_id r2 = r_goal_id r" by simp
qed

lemma evolves_trans [trans]:
  assumes "evolves s t" "evolves t u"
  shows "evolves s u"
  unfolding evolves_def
proof (intro conjI)
  show "log_grows s u" using assms by (meson evolves_def log_grows_trans)
  show "acyclic (graph s) \<longrightarrow> acyclic (graph u)" using assms by (simp add: evolves_def)
  show "sessions_evolve s u" using assms by (simp add: evolves_def sessions_evolve_def)
  show "runs_evolve s u" using assms by (meson evolves_def runs_evolve_trans)
  show "goals_ok s \<longrightarrow> goals_ok u \<and> goals_evolve s u \<and> readiness_evolve s u"
    using assms by (meson evolves_def goals_evolve_trans readiness_evolve_trans)
qed

lemma evolves_fold:
  assumes "\<And>x s. x \<in> set xs \<Longrightarrow> evolves s (f x s)"
  shows "evolves s (fold f xs s)"
  using assms
proof (induction xs arbitrary: s)
  case (Cons x xs)
  then have "evolves s (f x s)" "evolves (f x s) (fold f xs (f x s))" by auto
  then show ?case by (auto intro: evolves_trans)
qed simp

lemma evolves_foldR:
  assumes "foldR f xs s = Inr t" "\<And>x s t. x \<in> set xs \<Longrightarrow> f x s = Inr t \<Longrightarrow> evolves s t"
  shows "evolves s t"
  using assms
proof (induction xs arbitrary: s)
  case (Cons x xs)
  then obtain u where u: "f x s = Inr u" "foldR f xs u = Inr t" by (auto simp: bindR_Inr_iff)
  with Cons have "evolves s u" "evolves u t" by auto
  then show ?case by (rule evolves_trans)
qed simp

subsection \<open>Steps that evolve\<close>

text \<open>A step that leaves goals, runs, readiness and edges alone, drops no session and lets the logs grow.\<close>

lemma evolves_frame:
  assumes "log_grows st st'" "st_goals st' = st_goals st" "st_dispatch_runs st' = st_dispatch_runs st"
    "st_dispatch_readiness st' = st_dispatch_readiness st" "st_session_edges st' = st_session_edges st"
    "\<And>sid. get_session st sid \<noteq> None \<Longrightarrow> get_session st' sid \<noteq> None"
  shows "evolves st st'"
proof -
  have "st_uid st \<le> st_uid st'" using assms(1) by (simp add: log_grows_def)
  then have "goals_ok st \<longrightarrow> goals_ok st'" using assms(2) by (auto simp: goals_ok_def)
  then show ?thesis
    using assms
    by (auto simp: evolves_def goals_evolve_def runs_evolve_def readiness_evolve_def sessions_evolve_def
        split: option.splits)
qed

lemma evolves_ticks [evolve_intros]: "evolves st (st\<lparr>st_ticks := n\<rparr>)"
  by (rule evolves_frame) (simp_all add: log_grows_frame)

lemma evolves_utc_now [evolve_intros]: "evolves st (snd (utc_now st))"
  by (simp add: utc_now_def evolves_ticks)

lemma evolves_new_id [evolve_intros]: "evolves st (snd (new_id p st))"
  by (rule evolves_frame) (simp_all add: new_id_def log_grows_frame)

lemma evolves_upd_session [evolve_intros]: "evolves st (upd_session sid f st)"
  by (rule evolves_frame) (auto simp: upd_session_def intro: log_grows_frame)

lemma evolves_upd_unit [evolve_intros]: "evolves st (upd_unit uid f st)"
  by (rule evolves_frame) (auto simp: upd_unit_def intro: log_grows_frame)

lemma evolves_threads [evolve_intros]: "evolves st (st\<lparr>st_agent_threads := d\<rparr>)"
  by (rule evolves_frame) (auto intro: log_grows_frame)

lemma evolves_cursors [evolve_intros]: "evolves st (st\<lparr>st_endpoint_cursors := d\<rparr>)"
  by (rule evolves_frame) (auto intro: log_grows_frame)

lemma evolves_append [evolve_intros]:
  "entry_fresh (Suc (st_uid st)) item k \<Longrightarrow> evolves st (snd (append_session_log_entry sid item c k st))"
  by (rule evolves_frame) (auto intro: log_grows_append)

lemma evolves_entries [evolve_intros]: "evolves st (snd (session_log_entries sid st))"
  by (rule evolves_frame) (auto intro: log_grows_entries)

lemma evolves_upd_goal:
  assumes "\<And>g. g_session_id (f g) = g_session_id g" "\<And>g. g_goal_id (f g) = g_goal_id g"
  shows "evolves st (upd_goal gid f st)"
proof -
  have "goals_evolve st (upd_goal gid f st)"
    using assms by (auto simp: goals_evolve_def upd_goal_def)
  moreover have "goals_ok (upd_goal gid f st)" if ok: "goals_ok st"
  proof -
    have "g_goal_id g' = k" if "(k, g') \<in> set (AList.map_entry gid f (st_goals st))" for k g'
      using mem_map_entry [OF that] ok assms(2) by (auto simp: goals_ok_def)
    then show ?thesis using ok by (auto simp: goals_ok_def upd_goal_def)
  qed
  moreover have "log_grows st (upd_goal gid f st)" by (rule log_grows_frame) (simp_all add: upd_goal_def)
  ultimately show ?thesis
    by (auto simp: evolves_def runs_evolve_def readiness_evolve_def sessions_evolve_def upd_goal_def)
qed

lemma evolves_add_goal:
  assumes "gid = id_of ''goal'' (st_uid st)" "g_goal_id g = gid" "Suc (st_uid st) \<le> u"
  shows "evolves st (st\<lparr>st_uid := u, st_goals := AList.update gid g (st_goals st)\<rparr>)"
proof -
  let ?st = "st\<lparr>st_uid := u, st_goals := AList.update gid g (st_goals st)\<rparr>"
  have "goals_ok ?st \<and> goals_evolve st ?st" if ok: "goals_ok st"
  proof -
    have none: "get_goal st gid = None" using ok assms(1) by (simp add: goals_ok_def)
    have "g_goal_id g' = k" if "(k, g') \<in> set (AList.update gid g (st_goals st))" for k g'
      using mem_update [OF that] ok assms(2) by (auto simp: goals_ok_def)
    with none ok assms show ?thesis by (auto simp: goals_evolve_def goals_ok_def)
  qed
  moreover have "log_grows st ?st" using assms by (intro log_grows_frame) auto
  ultimately show ?thesis
    by (auto simp: evolves_def runs_evolve_def readiness_evolve_def sessions_evolve_def)
qed

lemma evolves_upd_run:
  assumes "\<And>r. r_lease_state (f r) = LeaseAcquired \<Longrightarrow> r_lease_state r = LeaseAcquired"
    "\<And>r. r_run_id (f r) = r_run_id r" "\<And>r. r_session_id (f r) = r_session_id r" "\<And>r. r_role (f r) = r_role r" "\<And>r. r_goal_id (f r) = r_goal_id r"
  shows "evolves st (upd_run rid f st)"
proof -
  have "runs_evolve st (upd_run rid f st)"
    using assms by (auto simp: runs_evolve_def upd_run_def split: if_splits)
  moreover have "log_grows st (upd_run rid f st)" by (rule log_grows_frame) (simp_all add: upd_run_def)
  ultimately show ?thesis
    by (auto simp: evolves_def goals_evolve_def goals_ok_def readiness_evolve_def sessions_evolve_def upd_run_def
        split: option.splits)
qed

lemma evolves_readiness:
  assumes "\<And>e'. e' \<in> set es \<Longrightarrow> entry_matches_goal st e' \<or> (\<exists>e \<in> set (st_dispatch_readiness st).
      rd_goal_id e' = rd_goal_id e \<and> rd_session_id e' = rd_session_id e)"
  shows "evolves st (st\<lparr>st_dispatch_readiness := es\<rparr>)"
proof -
  have "readiness_evolve st (st\<lparr>st_dispatch_readiness := es\<rparr>)"
    using assms by (auto simp: readiness_evolve_def entry_matches_goal_def)
  moreover have "log_grows st (st\<lparr>st_dispatch_readiness := es\<rparr>)" by (rule log_grows_frame) simp_all
  ultimately show ?thesis
    by (auto simp: evolves_def goals_evolve_def goals_ok_def runs_evolve_def sessions_evolve_def
        split: option.splits)
qed

lemma evolves_upd_readiness:
  assumes "\<And>e. rd_goal_id (f e) = rd_goal_id e" "\<And>e. rd_session_id (f e) = rd_session_id e"
  shows "evolves st (upd_readiness p f st)"
  unfolding upd_readiness_def
proof (rule evolves_readiness)
  fix e'
  assume "e' \<in> set (map (\<lambda>e. if p e then f e else e) (st_dispatch_readiness st))"
  then obtain e where "e \<in> set (st_dispatch_readiness st)" "e' = (if p e then f e else e)" by auto
  with assms show "entry_matches_goal st e' \<or> (\<exists>e \<in> set (st_dispatch_readiness st).
      rd_goal_id e' = rd_goal_id e \<and> rd_session_id e' = rd_session_id e)" by auto
qed

lemma evolves_link [evolve_intros]:
  assumes "link_sessions_in_state p c st = Inr (e, st')"
  shows "evolves st st'"
proof -
  have ac: "acyclic (graph st) \<longrightarrow> acyclic (graph st')"
    using session_graph.link_acyclic [OF assms] by blast
  obtain es n where st': "st' = st\<lparr>st_session_edges := es, st_ticks := n\<rparr>"
    using link_sessions_frame [OF assms] by blast
  have "log_grows st st'" unfolding st' by (rule log_grows_frame) simp_all
  with ac show ?thesis unfolding st'
    by (auto simp: evolves_def goals_evolve_def goals_ok_def runs_evolve_def readiness_evolve_def
        sessions_evolve_def split: option.splits)
qed

lemma entry_fresh_message: "m_message_id m = id_of ''msg'' n \<Longrightarrow> n < u \<Longrightarrow> entry_fresh u (LMessage m) []"
  by (auto simp: entry_fresh_def signal_key_def)

lemma evolves_make_message [evolve_intros]: "evolves st (snd (make_message f t p c st))"
  by (subst make_message_facts(5), rule evolves_frame) (simp_all add: log_grows_frame)

lemma evolves_save [evolve_intros]: "save st = Inr st' \<Longrightarrow> evolves st st'"
  by (frule save_frame, frule save_log_grows, rule evolves_frame) auto

text \<open>Logging a message whose identifier has just been made.\<close>

lemma log_grows_log_message:
  assumes "m_message_id m = id_of ''msg'' n" "n < st_uid st"
    "log_ok st \<Longrightarrow> \<not> duplicate_entry (pending_log st sid) (LMessage m) []"
  shows "log_grows st (log_message_for_session m sid st)"
proof (cases "log_ok st")
  case True
  then have "log_message_for_session m sid st
      = snd (append_session_log_entry sid (LMessage m) (m_created_at m) [] st)"
    using assms(3) by (simp add: log_message_new)
  then show ?thesis using assms(1,2) by (simp add: log_grows_append entry_fresh_message)
next
  case False
  then show ?thesis by (simp add: log_grows_def log_message_uid)
qed

lemma make_message_fresh:
  assumes "log_ok st"
  shows "\<not> duplicate_entry (pending_log (snd (make_message f t p c st)) sid)
    (LMessage (fst (make_message f t p c st))) []"
proof -
  have "pending_log (snd (make_message f t p c st)) sid = pending_log st sid"
    by (subst make_message_facts(5)) simp
  then show ?thesis using fresh_not_duplicate(2) [OF assms] make_message_facts(1) by simp
qed

lemma append_session_message_frame:
  assumes "append_session_message_locked sid f t p c st = Inr (m, st')"
  shows "st' = (let st2 = log_message_for_session m sid (snd (make_message f t p c st))
     in upd_session sid (\<lambda>s. s\<lparr>s_updated_at := m_created_at m\<rparr>) st2)"
    "m = fst (make_message f t p c st)" "get_session st sid \<noteq> None"
  using assms by (auto simp: append_session_message_locked_def Let_def case_prod_beta split: if_splits)

lemma evolves_append_message [evolve_intros]:
  assumes "append_session_message_locked sid f t p c st = Inr (m, st')"
  shows "evolves st st'"
proof -
  let ?mk = "make_message f t p c st"
  have uid: "st_uid (snd ?mk) = Suc (st_uid st)" by (subst make_message_facts(5)) simp
  have mk: "log_grows st (snd ?mk)" by (subst make_message_facts(5), rule log_grows_frame) simp_all
  have "log_grows st (log_message_for_session (fst ?mk) sid (snd ?mk))"
  proof (cases "log_ok st")
    case True
    then have "log_grows (snd ?mk) (log_message_for_session (fst ?mk) sid (snd ?mk))"
      using uid make_message_facts(1) make_message_fresh
      by (intro log_grows_log_message [where n = "st_uid st"]) auto
    with mk show ?thesis by (rule log_grows_trans)
  next
    case False
    then show ?thesis
      using uid log_message_uid [of "snd ?mk" "fst ?mk" sid] by (simp add: log_grows_def)
  qed
  then have "evolves st (log_message_for_session (fst ?mk) sid (snd ?mk))"
    by (rule evolves_frame) (subst make_message_facts(5), simp)+
  then show ?thesis
    using append_session_message_frame [OF assms] evolves_upd_session
    by (auto simp: Let_def intro: evolves_trans)
qed

lemma append_message_evolves:
  "append_message sid sender recipient body files st = Inr (m, st') \<Longrightarrow> evolves st st'"
  by (auto simp: append_message_def bindR_Inr_iff split: if_splits
      intro: evolves_trans evolves_append_message evolves_save)

end
