(* ===== verification/Goal_Log.thy ===== *)
theory Goal_Log
  imports Evolution
begin

section \<open>Goals and what is logged about them\<close>

text \<open>
  src/src/goal/log.py with the goal lookups of src/src/goal/sessions.py it uses. Where the code
  passes a goal, session or run object and mutates it, the model passes its identifier and
  updates the stored entity.
\<close>

subsection \<open>The current goal of a session\<close>

definition goal_order :: "goal \<Rightarrow> string \<times> string" where
  "goal_order g = (g_created_at g, g_goal_id g)"

definition current_goal_for_session :: "state \<Rightarrow> string \<Rightarrow> goal option" where
  "current_goal_for_session st session_id =
     last_opt (sort_key goal_order
       (filter (\<lambda>g. g_session_id g = session_id \<and> g_archived_at g = []) (dict_values (st_goals st))))"

definition current_goals :: "state \<Rightarrow> goal list" where
  "current_goals st =
     (let by_session =
        fold (\<lambda>g d. if g_session_id g \<noteq> [] then AList.update (g_session_id g) g d else d)
          (sort_key goal_order (filter (\<lambda>g. g_archived_at g = []) (dict_values (st_goals st)))) []
      in map snd (sort_key fst by_session))"

definition sync_session_current_state :: "string \<Rightarrow> state \<Rightarrow> bool \<times> state" where
  "sync_session_current_state session_id st =
     (case get_session st session_id of
        None \<Rightarrow> (False, st)
      | Some s \<Rightarrow>
          let cs = (case current_goal_for_session st session_id of
                None \<Rightarrow> \<lparr>cs_active = s_active s, cs_goal_id = [], cs_goal_completion_state = []\<rparr>
              | Some g \<Rightarrow> \<lparr>cs_active = s_active s, cs_goal_id = g_goal_id g,
                           cs_goal_completion_state = completion_name (g_completion_state g)\<rparr>)
          in if s_current_state s = Some cs then (False, st)
             else (True, upd_session session_id (\<lambda>s. s\<lparr>s_current_state := Some cs\<rparr>) st))"

subsection \<open>Log entries about goals and sessions\<close>

text \<open>
  The endpoint of an actor. \<open>normalize_endpoint\<close> raises only for the token Session with an empty
  session identifier, and no session has an empty identifier.
\<close>

definition actor_endpoint :: "string \<Rightarrow> string \<Rightarrow> string" where
  "actor_endpoint actor session_id =
     (case normalize_endpoint actor session_id of Inl _ \<Rightarrow> [] | Inr e \<Rightarrow> e)"

lemma normalize_endpoint_total:
  assumes "session_id \<noteq> []"
  shows "normalize_endpoint v session_id = Inr (actor_endpoint v session_id)"
proof -
  have "\<exists>e. normalize_endpoint v session_id = Inr e"
    using assms
    by (simp add: normalize_endpoint_def normalize_system_endpoint_def Let_def split: option.splits)
  then show ?thesis by (auto simp: actor_endpoint_def)
qed

definition goal_state_event_key :: "goal \<Rightarrow> transition \<Rightarrow> string" where
  "goal_state_event_key g t =
     py_join '':'' [''goal-state'', g_goal_id g, t_created_at t, completion_name (t_completion_state t),
                    t_run_id t, t_actor t]"

definition log_goal_state_transition :: "goal \<Rightarrow> transition \<Rightarrow> state \<Rightarrow> state" where
  "log_goal_state_transition g t st =
     (if g_session_id g = [] then st
      else
        let (created_at, st1) = (if t_created_at t = [] then utc_now st else (t_created_at t, st));
            (_, st2) = append_session_log_entry (g_session_id g) (LGoalStateChanged t) created_at
                         (goal_state_event_key g t) st1
        in snd (sync_session_current_state (g_session_id g) st2))"

definition log_goal_body_update ::
  "string \<Rightarrow> string \<Rightarrow> string \<Rightarrow> string \<Rightarrow> string \<Rightarrow> string \<Rightarrow> state \<Rightarrow> state res" where
  "log_goal_body_update session_id goal_id previous_body body actor created_at st =
     bindR (normalize_endpoint actor session_id) (\<lambda>actor_ep.
       let (revision, st1) = new_id ''revision'' st;
           (_, st2) = append_session_log_entry session_id
             (LGoalBodyUpdated goal_id previous_body body actor_ep created_at) created_at
             (''goal-body:'' @ goal_id @ '':'' @ created_at @ '':'' @ revision) st1
       in Inr (snd (sync_session_current_state session_id st2)))"

definition log_child_goal_completed_for_parent ::
  "goal \<Rightarrow> transition \<Rightarrow> string \<Rightarrow> string \<Rightarrow> state \<Rightarrow> state" where
  "log_child_goal_completed_for_parent g t completed_at parent st =
     (if get_session st parent = None then st
      else
        let (_, st1) = append_session_log_entry parent
              (LChildGoalCompleted
                 \<lparr>cc_child_session_id = g_session_id g, cc_child_goal_id = g_goal_id g,
                  cc_child_goal_body = g_body g, cc_completion_reason = t_reason t,
                  cc_actor = t_actor t, cc_run_id = t_run_id t, cc_created_at = completed_at\<rparr>)
              completed_at
              (''child-goal-completed:'' @ parent @ '':'' @ g_goal_id g @ '':'' @ completed_at) st
        in upd_session parent (\<lambda>s. s\<lparr>s_updated_at := completed_at\<rparr>) st1)"

definition log_child_goal_completed_for_parents :: "goal \<Rightarrow> transition \<Rightarrow> state \<Rightarrow> state" where
  "log_child_goal_completed_for_parents g t st =
     (let (completed_at, st1) = (if t_created_at t = [] then utc_now st else (t_created_at t, st)) in
      if g_session_id g = [] \<or> g_goal_id g = [] then st1
      else fold (log_child_goal_completed_for_parent g t completed_at)
             (parent_session_ids st1 (g_session_id g)) st1)"

definition bool_name :: "bool \<Rightarrow> string" where
  "bool_name b = (if b then ''True'' else ''False'')"

definition log_session_active_change ::
  "string \<Rightarrow> bool \<Rightarrow> bool \<Rightarrow> string \<Rightarrow> string \<Rightarrow> state \<Rightarrow> state res" where
  "log_session_active_change session_id previous_active active actor created_at st =
     bindR (normalize_endpoint actor session_id) (\<lambda>actor_ep.
       let (_, st1) = append_session_log_entry session_id
             (LSessionActiveChanged previous_active active actor_ep created_at) created_at
             (''session-active:'' @ session_id @ '':'' @ created_at @ '':'' @ bool_name previous_active
              @ ''->'' @ bool_name active) st
       in Inr (snd (sync_session_current_state session_id st1)))"

definition log_system_signal ::
  "string \<Rightarrow> string \<Rightarrow> string \<Rightarrow> role list \<Rightarrow> string \<Rightarrow> string \<Rightarrow> jobject \<Rightarrow> string \<Rightarrow> state
     \<Rightarrow> log_entry \<times> state" where
  "log_system_signal session_id signal_type body target_roles actor run_id data created_at st =
     (let roles = (if target_roles = [] then [GoalManager] else target_roles);
          (timestamp, st1) = (if created_at = [] then utc_now st else (created_at, st));
          (signal_id, st2) = new_id ''sig'' st1;
          stype = py_strip (if signal_type = [] then ''system'' else signal_type);
          signal = \<lparr>sg_signal_id = signal_id, sg_signal_type = (if stype = [] then ''system'' else stype),
                    sg_body = py_strip body, sg_target_roles = roles,
                    sg_actor = actor_endpoint actor session_id, sg_run_id = run_id,
                    sg_created_at = timestamp, sg_data = data\<rparr>
      in append_session_log_entry session_id (LSystemSignal signal) timestamp
           (''system-signal:'' @ signal_id) st2)"

subsection \<open>Role cursors\<close>

definition session_log_entries_after_cursor :: "state \<Rightarrow> string \<Rightarrow> role \<Rightarrow> log_entry list" where
  "session_log_entries_after_cursor st session_id role =
     session_log_after_cursor st session_id
       (case get_session st session_id of None \<Rightarrow> 0 | Some s \<Rightarrow> s_role_cursors s role)"

definition set_role_cursor :: "string \<Rightarrow> role \<Rightarrow> nat \<Rightarrow> state \<Rightarrow> state" where
  "set_role_cursor session_id role seq st =
     (if get_session st session_id = None then st else set_session_log_cursor session_id role seq st)"

subsection \<open>They only add to the logs\<close>

lemma evolves_snd_sync [evolve_intros]: "evolves st (snd (sync_session_current_state sid st))"
  by (auto simp: sync_session_current_state_def Let_def split: option.splits intro: evolves_upd_session)

lemma entry_fresh_event:
  assumes "item_message item = None" "hd k \<noteq> CHR ''s'' \<or> k = [] \<or> (\<exists>a b. k = ''session-active:'' @ b)"
  shows "entry_fresh u item k"
  using assms by (auto simp: entry_fresh_def signal_key_def)

lemma entry_fresh_signal: "n < u \<Longrightarrow> entry_fresh u (LSystemSignal s) (''system-signal:'' @ id_of ''sig'' n)"
  by (auto simp: entry_fresh_def signal_key_def)

lemma evolves_append_at:
  assumes "\<And>u. entry_fresh u item k"
  shows "evolves st (snd (append_session_log_entry sid item c k st))"
  by (rule evolves_append) (rule assms)

lemma evolves_log_transition [evolve_intros]: "evolves st (log_goal_state_transition g t st)"
proof -
  have k: "entry_fresh u (LGoalStateChanged t) (goal_state_event_key g t)" for u
    by (rule entry_fresh_event) (simp_all add: goal_state_event_key_def)
  show ?thesis
    unfolding log_goal_state_transition_def Let_def case_prod_beta
    by (auto intro!: evolves_trans [OF _ evolves_snd_sync] evolves_append_at k
        intro: evolves_trans [OF evolves_utc_now])
qed

lemma evolves_log_body [evolve_intros]:
  "log_goal_body_update sid gid p b a c st = Inr st' \<Longrightarrow> evolves st st'"
  by (auto simp: log_goal_body_update_def bindR_Inr_iff Let_def case_prod_beta
      intro!: evolves_trans [OF _ evolves_snd_sync] evolves_trans [OF evolves_new_id evolves_append_at]
        entry_fresh_event)

lemma evolves_log_child_parent [evolve_intros]:
  "evolves st (log_child_goal_completed_for_parent g t c p st)"
  by (auto simp: log_child_goal_completed_for_parent_def Let_def case_prod_beta
      intro!: evolves_trans [OF _ evolves_upd_session] evolves_append_at entry_fresh_event)

lemma evolves_log_child [evolve_intros]: "evolves st (log_child_goal_completed_for_parents g t st)"
  unfolding log_child_goal_completed_for_parents_def Let_def case_prod_beta
  by (auto intro!: evolves_fold evolves_log_child_parent evolves_utc_now
      intro: evolves_trans [OF evolves_utc_now])

lemma evolves_log_active [evolve_intros]:
  "log_session_active_change sid p a actor c st = Inr st' \<Longrightarrow> evolves st st'"
  by (auto simp: log_session_active_change_def bindR_Inr_iff Let_def case_prod_beta
      intro!: evolves_trans [OF _ evolves_snd_sync] evolves_append_at entry_fresh_event)

lemma evolves_log_signal [evolve_intros]:
  "evolves st (snd (log_system_signal sid ty b ro a r d c st))"
proof -
  let ?st1 = "snd (if c = [] then utc_now st else (c, st))"
  have "evolves st ?st1" by (auto intro: evolves_utc_now)
  also have "evolves ?st1 (snd (new_id ''sig'' ?st1))" by (rule evolves_new_id)
  also have "evolves (snd (new_id ''sig'' ?st1)) (snd (log_system_signal sid ty b ro a r d c st))"
    unfolding log_system_signal_def Let_def case_prod_beta
    by (intro evolves_append) (auto simp: new_id_def entry_fresh_def signal_key_def)
  finally show ?thesis .
qed

lemma evolves_set_role_cursor [evolve_intros]: "evolves st (set_role_cursor sid r n st)"
  by (auto simp: set_role_cursor_def set_session_log_cursor_def intro: evolves_upd_session)

end
