(* ===== verification/Goals.thy ===== *)
theory Goals
  imports Goal_Log
begin

section \<open>Completion states\<close>

text \<open>
  \<open>_set_goal_completion_state\<close>, \<open>_reopen_completed_parent_goals_for_child\<close> and
  \<open>_mark_session_reprocess_needed\<close> of src/src/goal/sessions.py, \<open>_resolve_dispatch_readiness\<close>
  of src/src/goal/readiness.py. A goal object the code holds is the goal stored under its
  identifier; an identifier that is not stored cannot come from the code and is a \<open>KeyError\<close>.
\<close>

definition live_status :: "readiness_status \<Rightarrow> bool" where
  "live_status s \<longleftrightarrow> s = Ready \<or> s = Acquired"

definition resolve_dispatch_readiness :: "string \<Rightarrow> string \<Rightarrow> state \<Rightarrow> state" where
  "resolve_dispatch_readiness goal_id resolved_at st =
     upd_readiness (\<lambda>e. rd_goal_id e = goal_id \<and> live_status (rd_status e))
       (\<lambda>e. e\<lparr>rd_status := Resolved, rd_ended_at := resolved_at\<rparr>) st"

definition completion_fields :: "completion_state \<Rightarrow> string \<Rightarrow> string \<Rightarrow> goal \<Rightarrow> goal" where
  "completion_fields cs reason now g =
     (let g1 = g\<lparr>g_completion_state := cs, g_completion_reason := reason,
                 g_completion_reason_updated_at := now\<rparr>
      in if cs = Complete then g1\<lparr>g_completed_at := Some now\<rparr>
         else g1\<lparr>g_completed_at := None, g_last_incomplete_at := Some now\<rparr>)"

text \<open>The part of \<open>_set_goal_completion_state\<close> up to the log entry of the transition.\<close>

definition enter_completion_state ::
  "string \<Rightarrow> completion_state \<Rightarrow> string \<Rightarrow> string \<Rightarrow> string \<Rightarrow> string \<Rightarrow> bool \<Rightarrow> state
     \<Rightarrow> (transition \<times> state) res" where
  "enter_completion_state gid cs reason actor run_id occurred_at defer_goal_manager st =
     (case get_goal st gid of
        None \<Rightarrow> Inl (KeyError gid)
      | Some g \<Rightarrow>
          if cs = Waiting then
            Inl (StoreError (''unsupported goal completion state: '' @ completion_name cs))
          else
            let (now, st1) = (if occurred_at = [] then utc_now st else (occurred_at, st));
                st2 = upd_goal gid (completion_fields cs reason now) st1;
                st3 = (if cs = Complete then resolve_dispatch_readiness (g_goal_id g) now st2 else st2);
                st4 = upd_session (g_session_id g) (\<lambda>s. s\<lparr>s_updated_at := now\<rparr>) st3
            in bindR (normalize_endpoint actor (g_session_id g)) (\<lambda>actor_ep.
                 let t = \<lparr>t_previous_state = Some (g_completion_state g), t_completion_state = cs,
                          t_reason = reason, t_actor = actor_ep, t_run_id = run_id, t_created_at = now,
                          t_defer_goal_manager = defer_goal_manager\<rparr>
                 in Inr (t, log_goal_state_transition (completion_fields cs reason now g) t st4)))"

text \<open>The nested call of the reopening has \<open>incomplete\<close> as its state, so it ends with its log entry.\<close>

definition reopen_completed_parent_goal :: "string \<Rightarrow> transition \<Rightarrow> string \<Rightarrow> state \<Rightarrow> state res" where
  "reopen_completed_parent_goal child_session_id t parent st =
     (case current_goal_for_session st parent of
        None \<Rightarrow> Inr st
      | Some pg \<Rightarrow>
          if g_completion_state pg \<noteq> Complete then Inr st
          else
            let (occurred_at, st1) = (if t_created_at t = [] then utc_now st else (t_created_at t, st))
            in bindR (enter_completion_state (g_goal_id pg) Incomplete
                 (''Child SessionGoal '' @ child_session_id @ '' completed and requires parent review.'')
                 ''system'' [] occurred_at False st1) (\<lambda>(_, st2). Inr st2))"

definition reopen_completed_parent_goals_for_child :: "string \<Rightarrow> transition \<Rightarrow> state \<Rightarrow> state res" where
  "reopen_completed_parent_goals_for_child child_session_id t st =
     foldR (reopen_completed_parent_goal child_session_id t) (parent_session_ids st child_session_id) st"

definition set_goal_completion_state ::
  "string \<Rightarrow> completion_state \<Rightarrow> string \<Rightarrow> string \<Rightarrow> string \<Rightarrow> string \<Rightarrow> bool \<Rightarrow> state
     \<Rightarrow> (transition \<times> state) res" where
  "set_goal_completion_state gid cs reason actor run_id occurred_at defer_goal_manager st =
     bindR (enter_completion_state gid cs reason actor run_id occurred_at defer_goal_manager st)
       (\<lambda>(t, st1).
          case get_goal st1 gid of
            None \<Rightarrow> Inl (KeyError gid)
          | Some g \<Rightarrow>
              if cs = Complete \<and> t_previous_state t \<noteq> Some Complete then
                bindR (reopen_completed_parent_goals_for_child (g_session_id g) t
                         (log_child_goal_completed_for_parents g t st1)) (\<lambda>st2. Inr (t, st2))
              else Inr (t, st1))"

definition reprocess_target :: "string \<Rightarrow> string \<Rightarrow> string \<Rightarrow> state \<Rightarrow> goal \<times> state" where
  "reprocess_target session_id actor created_at st =
     (case current_goal_for_session st session_id of
        Some g \<Rightarrow> (g, st)
      | None \<Rightarrow>
          let (gid, st1) = new_id ''goal'' st;
              g = new_goal gid session_id ''Reply to user input sent to this Session.'' actor created_at
          in (g, st1\<lparr>st_goals := AList.update gid g (st_goals st1)\<rparr>))"

definition cancel_goal_waiting :: "string \<Rightarrow> goal \<Rightarrow> string \<Rightarrow> string \<Rightarrow> string \<Rightarrow> state \<Rightarrow> state" where
  "cancel_goal_waiting session_id g actor reason created_at st =
     (if g_waiting g = None then st
      else snd (log_system_signal session_id ''GoalWaitingCancelled''
             (''New UserInput cancelled the SessionGoal's bounded waiting: '' @ reason)
             [GoalManager] actor [] [(''goal_id'', JStr (g_goal_id g))] created_at
             (upd_goal (g_goal_id g) (\<lambda>g. g\<lparr>g_waiting := None\<rparr>) st)))"

definition mark_session_reprocess_needed ::
  "string \<Rightarrow> string \<Rightarrow> string \<Rightarrow> string \<Rightarrow> bool \<Rightarrow> state \<Rightarrow> (string \<times> state) res" where
  "mark_session_reprocess_needed session_id actor reason created_at defer_goal_manager st =
     (let (g, st1) = reprocess_target session_id actor created_at st;
          st2 = cancel_goal_waiting session_id g actor reason created_at st1
      in bindR (set_goal_completion_state (g_goal_id g) Incomplete reason actor [] [] defer_goal_manager st2)
           (\<lambda>(_, st3). Inr (g_goal_id g, st3)))"

subsection \<open>They evolve the state\<close>

lemma completion_fields_ids [simp]:
  "g_session_id (completion_fields cs r n g) = g_session_id g"
  "g_goal_id (completion_fields cs r n g) = g_goal_id g"
  "g_completion_state (completion_fields cs r n g) = cs"
  "g_archived_at (completion_fields cs r n g) = g_archived_at g"
  "g_created_at (completion_fields cs r n g) = g_created_at g"
  "g_body (completion_fields cs r n g) = g_body g"
  "g_waiting (completion_fields cs r n g) = g_waiting g"
  by (simp_all add: completion_fields_def Let_def)

lemma evolves_resolve [evolve_intros]: "evolves st (resolve_dispatch_readiness gid t st)"
  unfolding resolve_dispatch_readiness_def by (rule evolves_upd_readiness) simp_all

definition clock_or :: "string \<Rightarrow> state \<Rightarrow> string \<times> state" where
  "clock_or oc st = (if oc = [] then utc_now st else (oc, st))"

lemma evolves_clock_or [evolve_intros]: "evolves st (snd (clock_or oc st))"
  by (simp add: clock_or_def evolves_utc_now)

lemma clock_or_fields [simp]:
  "st_users (snd (clock_or oc st)) = st_users st"
  "st_units (snd (clock_or oc st)) = st_units st"
  "st_sessions (snd (clock_or oc st)) = st_sessions st"
  "st_session_edges (snd (clock_or oc st)) = st_session_edges st"
  "st_goals (snd (clock_or oc st)) = st_goals st"
  "st_agent_profiles (snd (clock_or oc st)) = st_agent_profiles st"
  "st_agent_threads (snd (clock_or oc st)) = st_agent_threads st"
  "st_dispatch_runs (snd (clock_or oc st)) = st_dispatch_runs st"
  "st_dispatch_readiness (snd (clock_or oc st)) = st_dispatch_readiness st"
  "st_dispatch_lot_size (snd (clock_or oc st)) = st_dispatch_lot_size st"
  "st_endpoint_cursors (snd (clock_or oc st)) = st_endpoint_cursors st"
  "st_session_logs (snd (clock_or oc st)) = st_session_logs st"
  "st_log_full_ids (snd (clock_or oc st)) = st_log_full_ids st"
  "st_disk_logs (snd (clock_or oc st)) = st_disk_logs st"
  "st_clock (snd (clock_or oc st)) = st_clock st"
  "st_uid (snd (clock_or oc st)) = st_uid st"
  "st_local_zone (snd (clock_or oc st)) = st_local_zone st"
  by (simp_all add: clock_or_def utc_now_def)

lemma clock_or_frame: "snd (clock_or oc st) = st\<lparr>st_ticks := st_ticks (snd (clock_or oc st))\<rparr>"
  by (simp add: clock_or_def utc_now_def)

lemma enter_completion_cases:
  assumes "enter_completion_state gid cs reason actor run_id oc d st = Inr (t, st')"
  obtains g now st1 where "get_goal st gid = Some g" "cs \<noteq> Waiting" "clock_or oc st = (now, st1)"
    "t_previous_state t = Some (g_completion_state g)" "t_completion_state t = cs" "t_created_at t = now"
    "t_reason t = reason" "t_run_id t = run_id"
    "normalize_endpoint actor (g_session_id g) = Inr (t_actor t)"
    "st' = log_goal_state_transition (completion_fields cs reason now g) t
        (upd_session (g_session_id g) (\<lambda>s. s\<lparr>s_updated_at := now\<rparr>)
          (if cs = Complete then resolve_dispatch_readiness (g_goal_id g) now
              (upd_goal gid (completion_fields cs reason now) st1)
           else upd_goal gid (completion_fields cs reason now) st1))"
proof -
  from assms obtain g where g: "get_goal st gid = Some g"
    by (auto simp: enter_completion_state_def split: option.splits)
  obtain now st1 where p: "clock_or oc st = (now, st1)" by (cases "clock_or oc st")
  from assms g p [unfolded clock_or_def] show ?thesis
    by (intro that [OF g _ p])
       (auto simp: enter_completion_state_def bindR_Inr_iff Let_def split: if_splits)
qed

lemma evolves_enter [evolve_intros]:
  assumes "enter_completion_state gid cs reason actor run_id oc d st = Inr (t, st')"
  shows "evolves st st'"
  using assms
proof (cases rule: enter_completion_cases)
  case (1 g now st1)
  have "evolves st st1" using evolves_clock_or [of st oc] 1(3) by simp
  also have "evolves st1 (upd_goal gid (completion_fields cs reason now) st1)"
    by (rule evolves_upd_goal) simp_all
  also have "evolves (upd_goal gid (completion_fields cs reason now) st1) st'"
    unfolding 1(10)
    by (intro evolves_trans [OF _ evolves_log_transition] evolves_trans [OF _ evolves_upd_session])
       (auto intro: evolves_resolve)
  finally show ?thesis .
qed

lemma evolves_reopen [evolve_intros]:
  "reopen_completed_parent_goals_for_child c t st = Inr st' \<Longrightarrow> evolves st st'"
  unfolding reopen_completed_parent_goals_for_child_def
  by (erule evolves_foldR)
     (auto simp: reopen_completed_parent_goal_def bindR_Inr_iff Let_def case_prod_beta
       split: option.splits if_splits intro: evolves_trans evolves_enter evolves_utc_now)

lemma evolves_set_goal_completion [evolve_intros]:
  "set_goal_completion_state gid cs reason actor run_id oc d st = Inr (t, st') \<Longrightarrow> evolves st st'"
  by (auto simp: set_goal_completion_state_def bindR_Inr_iff split: option.splits if_splits
      intro: evolves_enter evolves_trans [OF evolves_enter evolves_trans [OF evolves_log_child evolves_reopen]])

lemma evolves_reprocess_target [evolve_intros]: "evolves st (snd (reprocess_target sid actor c st))"
  by (auto simp: reprocess_target_def new_id_def Let_def intro!: evolves_add_goal split: option.splits)
     (simp add: new_goal_def)

lemma evolves_cancel_waiting [evolve_intros]: "evolves st (cancel_goal_waiting sid g actor reason c st)"
  by (auto simp: cancel_goal_waiting_def intro!: evolves_trans [OF evolves_upd_goal evolves_log_signal])

lemma evolves_mark_reprocess [evolve_intros]:
  "mark_session_reprocess_needed sid actor reason c d st = Inr (gid, st') \<Longrightarrow> evolves st st'"
  by (auto simp: mark_session_reprocess_needed_def Let_def case_prod_beta bindR_Inr_iff
      intro: evolves_trans [OF evolves_trans [OF evolves_reprocess_target evolves_cancel_waiting]
        evolves_set_goal_completion])

subsection \<open>What they do to the goals\<close>

lemma sync_frame [simp]:
  "st_goals (snd (sync_session_current_state sid st)) = st_goals st"
  "st_session_edges (snd (sync_session_current_state sid st)) = st_session_edges st"
  "st_dispatch_runs (snd (sync_session_current_state sid st)) = st_dispatch_runs st"
  "st_dispatch_readiness (snd (sync_session_current_state sid st)) = st_dispatch_readiness st"
  "log_view (snd (sync_session_current_state sid st)) = log_view st"
  "pending_log (snd (sync_session_current_state sid st)) = pending_log st"
  by (auto simp: sync_session_current_state_def Let_def upd_session_def split: option.splits)

lemma log_transition_frame [simp]:
  "st_goals (log_goal_state_transition g t st) = st_goals st"
  "st_session_edges (log_goal_state_transition g t st) = st_session_edges st"
  "st_dispatch_runs (log_goal_state_transition g t st) = st_dispatch_runs st"
  "st_dispatch_readiness (log_goal_state_transition g t st) = st_dispatch_readiness st"
  by (simp_all add: log_goal_state_transition_def Let_def case_prod_beta utc_now_def)

lemma log_child_parent_frame [simp]:
  "st_goals (log_child_goal_completed_for_parent g t c p st) = st_goals st"
  "st_session_edges (log_child_goal_completed_for_parent g t c p st) = st_session_edges st"
  by (simp_all add: log_child_goal_completed_for_parent_def Let_def case_prod_beta upd_session_def)

lemma log_child_frame [simp]:
  "st_goals (log_child_goal_completed_for_parents g t st) = st_goals st"
  "st_session_edges (log_child_goal_completed_for_parents g t st) = st_session_edges st"
  unfolding log_child_goal_completed_for_parents_def Let_def case_prod_beta
  by (auto simp: utc_now_def fold_preserves [where g = st_goals] fold_preserves [where g = st_session_edges])

lemma resolve_frame [simp]:
  "st_goals (resolve_dispatch_readiness gid t st) = st_goals st"
  "st_session_edges (resolve_dispatch_readiness gid t st) = st_session_edges st"
  "st_sessions (resolve_dispatch_readiness gid t st) = st_sessions st"
  by (simp_all add: resolve_dispatch_readiness_def upd_readiness_def)

lemma enter_completion_goals:
  assumes "enter_completion_state gid cs reason actor run_id oc d st = Inr (t, st')"
  shows "st_goals st' = AList.map_entry gid (completion_fields cs reason (t_created_at t)) (st_goals st)"
    "st_session_edges st' = st_session_edges st"
  using assms
proof (atomize (full), cases rule: enter_completion_cases)
  case (1 g now st1)
  have "st_goals st1 = st_goals st" "st_session_edges st1 = st_session_edges st"
    using arg_cong [OF 1(3), of "\<lambda>x. st_goals (snd x)"] arg_cong [OF 1(3), of "\<lambda>x. st_session_edges (snd x)"]
    by (simp_all add: clock_or_def utc_now_def split: if_splits)
  then show "st_goals st' = AList.map_entry gid (completion_fields cs reason (t_created_at t)) (st_goals st)
      \<and> st_session_edges st' = st_session_edges st"
    using 1 by (simp add: upd_defs)
qed

lemma sort_key_map_same:
  assumes "\<And>x. k (h x) = k x"
  shows "sort_key k (map h xs) = map h (sort_key k xs)"
proof -
  have "insort_key k (h x) (map h xs) = map h (insort_key k x xs)" for x xs
    by (induction xs) (auto simp: assms)
  then show ?thesis by (induction xs) auto
qed

lemma last_opt_map: "last_opt (map h xs) = map_option h (last_opt xs)"
  by (simp add: last_opt_def last_map)

lemma values_map_entry:
  assumes "distinct (dict_keys d)" "\<forall>(k, g) \<in> set d. g_goal_id g = k"
  shows "dict_values (AList.map_entry gid f d)
    = map (\<lambda>g. if g_goal_id g = gid then f g else g) (dict_values d)"
  using assms
proof (induction d)
  case (Cons p d)
  obtain k g where p: "p = (k, g)" by (cases p)
  with Cons.prems have k: "g_goal_id g = k" by auto
  show ?case
  proof (cases "k = gid")
    case True
    have "g_goal_id h \<noteq> gid" if "h \<in> set (dict_values d)" for h
    proof -
      from that obtain l where "(l, h) \<in> set d" by auto
      with Cons.prems p True show ?thesis by (force simp: image_iff)
    qed
    then have "map (\<lambda>g. if g_goal_id g = gid then f g else g) (dict_values d) = dict_values d"
      by (intro map_idI) (auto simp del: list.map_comp)
    with True p k show ?thesis by simp
  next
    case False
    with Cons p k show ?thesis by simp
  qed
qed simp

lemma current_goal_map_entry:
  assumes "goals_ok st" "st_goals st' = AList.map_entry gid f (st_goals st)"
    "\<And>g. g_session_id (f g) = g_session_id g" "\<And>g. g_goal_id (f g) = g_goal_id g"
    "\<And>g. g_archived_at (f g) = g_archived_at g" "\<And>g. g_created_at (f g) = g_created_at g"
  shows "current_goal_for_session st' sid
    = map_option (\<lambda>g. if g_goal_id g = gid then f g else g) (current_goal_for_session st sid)"
proof -
  let ?h = "\<lambda>g. if g_goal_id g = gid then f g else g"
  have v: "dict_values (st_goals st') = map ?h (dict_values (st_goals st))"
    unfolding assms(2) using assms(1) by (intro values_map_entry) (auto simp: goals_ok_def)
  have "filter (\<lambda>g. g_session_id g = sid \<and> g_archived_at g = []) (map ?h xs)
      = map ?h (filter (\<lambda>g. g_session_id g = sid \<and> g_archived_at g = []) xs)" for xs
    by (induction xs) (auto simp: assms(3,5))
  moreover have "sort_key goal_order (map ?h xs) = map ?h (sort_key goal_order xs)" for xs
    by (rule sort_key_map_same) (simp add: goal_order_def assms(4,6))
  ultimately show ?thesis unfolding current_goal_for_session_def v by (simp only: last_opt_map)
qed

lemma current_goal_mem:
  assumes "current_goal_for_session st sid = Some g" "goals_ok st"
  shows "get_goal st (g_goal_id g) = Some g" "g_session_id g = sid" "g_archived_at g = []"
proof -
  have "g \<in> set (dict_values (st_goals st))" and g: "g_session_id g = sid" "g_archived_at g = []"
    using assms(1) by (auto simp: current_goal_for_session_def dest!: last_opt_mem)
  then obtain k where "(k, g) \<in> set (st_goals st)" by auto
  moreover from this assms(2) have "g_goal_id g = k" by (auto simp: goals_ok_def)
  ultimately show "get_goal st (g_goal_id g) = Some g" using assms(2) by (simp add: goals_ok_def)
qed (use assms in \<open>auto simp: current_goal_for_session_def dest!: last_opt_mem\<close>)

lemma current_goal_cong: "st_goals st' = st_goals st \<Longrightarrow> current_goal_for_session st' = current_goal_for_session st"
  by (simp add: fun_eq_iff current_goal_for_session_def)

lemma goals_ok_evolves: "evolves st st' \<Longrightarrow> goals_ok st \<Longrightarrow> goals_ok st'"
  by (simp add: evolves_def)

subsection \<open>Completion is reported to the parents\<close>

definition child_completed_key :: "string \<Rightarrow> goal \<Rightarrow> string \<Rightarrow> string" where
  "child_completed_key parent g at = ''child-goal-completed:'' @ parent @ '':'' @ g_goal_id g @ '':'' @ at"

definition reports_child :: "goal \<Rightarrow> transition \<Rightarrow> log_entry \<Rightarrow> bool" where
  "reports_child g t e \<longleftrightarrow>
     (\<exists>cc. le_item e = LChildGoalCompleted cc \<and> cc_child_session_id cc = g_session_id g
         \<and> cc_child_goal_id cc = g_goal_id g \<and> cc_completion_reason cc = t_reason t)"

definition reported_in :: "log_entry list \<Rightarrow> log_entry list \<Rightarrow> string \<Rightarrow> goal \<Rightarrow> transition \<Rightarrow> bool" where
  "reported_in before after key g t \<longleftrightarrow>
     (\<exists>e \<in> set after. le_event_key e = key \<and> (e \<in> set before \<or> reports_child g t e))"

lemma log_view_evolves: "evolves st st' \<Longrightarrow> log_ok st \<Longrightarrow> set (log_view st sid) \<subseteq> set (log_view st' sid)"
  by (auto simp: evolves_def dest: log_growsD(2) [of _ _ sid] set_mono_prefix)

lemma log_ok_evolves: "evolves st st' \<Longrightarrow> log_ok st \<Longrightarrow> log_ok st'"
  by (auto simp: evolves_def dest: log_growsD(1))

lemma append_key_present:
  assumes "log_inv st" "k \<noteq> []" "item_message item = None"
  shows "\<exists>e \<in> set (log_view (snd (append_session_log_entry sid item c k st)) sid).
    le_event_key e = k \<and> (e \<in> set (log_view st sid) \<or> le_item e = item)"
proof (cases "\<exists>e \<in> set (pending_log st sid). le_event_key e = k")
  case True
  then show ?thesis
    using pending_subset_view [of st sid] by (auto simp: append_log_view [OF assms(1)])
next
  case False
  then have n: "\<not> duplicate_entry (pending_log st sid) item k"
    using assms(3) by (auto simp: duplicate_entry_def list_ex_iff)
  then show ?thesis using append_new [OF n, of c] by (simp add: append_log_view [OF assms(1)])
qed

lemma log_child_parent_view:
  assumes "log_inv st"
  shows "get_session st p \<noteq> None \<Longrightarrow>
      reported_in (log_view st p) (log_view (log_child_goal_completed_for_parent g t c p st) p)
        (child_completed_key p g c) g t"
    "q \<noteq> p \<Longrightarrow> log_view (log_child_goal_completed_for_parent g t c p st) q = log_view st q"
proof -
  assume p: "get_session st p \<noteq> None"
  let ?item = "LChildGoalCompleted
                 \<lparr>cc_child_session_id = g_session_id g, cc_child_goal_id = g_goal_id g,
                  cc_child_goal_body = g_body g, cc_completion_reason = t_reason t,
                  cc_actor = t_actor t, cc_run_id = t_run_id t, cc_created_at = c\<rparr>"
  have "\<exists>e \<in> set (log_view (snd (append_session_log_entry p ?item c (child_completed_key p g c) st)) p).
      le_event_key e = child_completed_key p g c \<and> (e \<in> set (log_view st p) \<or> le_item e = ?item)"
    by (rule append_key_present [OF assms]) (simp_all add: child_completed_key_def)
  with p show "reported_in (log_view st p) (log_view (log_child_goal_completed_for_parent g t c p st) p)
      (child_completed_key p g c) g t"
    unfolding reported_in_def reports_child_def
    by (auto simp: log_child_goal_completed_for_parent_def case_prod_beta Let_def upd_session_def
        child_completed_key_def)
next
  show "q \<noteq> p \<Longrightarrow> log_view (log_child_goal_completed_for_parent g t c p st) q = log_view st q"
    by (simp add: log_child_goal_completed_for_parent_def case_prod_beta Let_def upd_session_def
        append_log_view [OF assms])
qed

lemma reported_in_mono:
  "reported_in a b k g t \<Longrightarrow> set b \<subseteq> set b' \<Longrightarrow> (\<And>e. e \<in> set a \<Longrightarrow> le_event_key e = k \<Longrightarrow> e \<in> set a') \<Longrightarrow>
   reported_in a' b' k g t"
  unfolding reported_in_def by blast

lemma log_child_fold_reported:
  assumes "p \<in> set ps" "log_ok st" "get_session st p \<noteq> None"
  shows "reported_in (log_view st p) (log_view (fold (log_child_goal_completed_for_parent g t c) ps st) p)
    (child_completed_key p g c) g t"
  using assms
proof (induction ps arbitrary: st)
  case (Cons q ps)
  let ?st = "log_child_goal_completed_for_parent g t c q st"
  have ev: "evolves st ?st" by (rule evolves_log_child_parent)
  have rest: "evolves ?st (fold (log_child_goal_completed_for_parent g t c) ps ?st)"
    by (rule evolves_fold) (rule evolves_log_child_parent)
  have ok: "log_ok ?st" by (rule log_ok_evolves [OF ev Cons.prems(2)])
  show ?case
  proof (cases "q = p")
    case True
    have "reported_in (log_view st p) (log_view ?st p) (child_completed_key p g c) g t"
      unfolding True by (rule log_child_parent_view(1) [OF log_ok_inv [OF Cons.prems(2)] Cons.prems(3)])
    then show ?thesis
      using log_view_evolves [OF rest ok, of p] by (auto elim: reported_in_mono)
  next
    case False
    have "get_session ?st p \<noteq> None" using ev Cons.prems(3) by (auto simp: evolves_def sessions_evolve_def)
    with Cons.IH [OF _ ok] Cons.prems(1) False log_child_parent_view(2) [OF log_ok_inv [OF Cons.prems(2)]]
    show ?thesis by (metis fold_simps(2) set_ConsD)
  qed
qed simp

lemma enter_completion_view:
  assumes "enter_completion_state gid cs reason actor run_id oc d st = Inr (t, st')" "log_inv st"
    "e \<in> set (log_view st' sid)" "e \<notin> set (log_view st sid)"
  shows "hd (le_event_key e) = CHR ''g''"
  using assms(1)
proof (cases rule: enter_completion_cases)
  case (1 g now st1)
  define u where "u = upd_session (g_session_id g) (\<lambda>s. s\<lparr>s_updated_at := now\<rparr>)
          (if cs = Complete then resolve_dispatch_readiness (g_goal_id g) now
              (upd_goal gid (completion_fields cs reason now) st1)
           else upd_goal gid (completion_fields cs reason now) st1)"
  have "st1 = st\<lparr>st_ticks := st_ticks st1\<rparr>" using clock_or_frame [of oc st] 1(3) by simp
  then have "log_view st1 = log_view st" "log_inv st1 = log_inv st"
    by (metis log_view_frame(12) ext, metis log_inv_frame(12))
  then have u: "log_view u = log_view st" "log_inv u"
    using assms(2) by (auto simp: u_def upd_defs resolve_dispatch_readiness_def fun_eq_iff)
  have key: "hd (goal_state_event_key g t) = CHR ''g''" for g t by (simp add: goal_state_event_key_def)
  show ?thesis
    using assms(3,4) append_new(3) key
    unfolding 1(10) u_def [symmetric]
    by (auto simp: log_goal_state_transition_def Let_def case_prod_beta append_log_view u utc_now_def
        split: if_splits)
qed

lemma set_goal_completion_cases:
  assumes "set_goal_completion_state gid cs reason actor run_id oc d st = Inr (t, st')"
  obtains (quiet) "enter_completion_state gid cs reason actor run_id oc d st = Inr (t, st')"
      "cs \<noteq> Complete \<or> t_previous_state t = Some Complete"
  | (reports) g st1 where "enter_completion_state gid Complete reason actor run_id oc d st = Inr (t, st1)"
      "cs = Complete" "t_previous_state t \<noteq> Some Complete" "get_goal st1 gid = Some g"
      "reopen_completed_parent_goals_for_child (g_session_id g) t (log_child_goal_completed_for_parents g t st1)
         = Inr st'"
  using assms
  by (auto simp: set_goal_completion_state_def bindR_Inr_iff split: option.splits if_splits)

lemma enter_completion_created:
  assumes "enter_completion_state gid cs reason actor run_id oc d st = Inr (t, st')"
  shows "t_created_at t \<noteq> []" "t_completion_state t = cs" "t_reason t = reason"
    "t_previous_state t = map_option g_completion_state (get_goal st gid)" "cs \<noteq> Waiting"
    "oc \<noteq> [] \<Longrightarrow> t_created_at t = oc"
  using assms by (auto elim!: enter_completion_cases simp: clock_or_def utc_now_def split: if_splits)

text \<open>C6: Completion is reported upward: when a goal that was not complete becomes complete, the log of
  every existing parent session then holds a ChildGoalCompleted entry for this completion, which
  carries the child's session and goal, and the reason it was completed with (an entry that the
  parent's log already held under the same event key is not repeated).\<close>

theorem child_completion_reported:
  assumes "set_goal_completion_state gid Complete reason actor run_id oc d st = Inr (t, st')"
    "log_ok st" "get_goal st gid = Some g" "g_completion_state g \<noteq> Complete"
    "g_session_id g \<noteq> []" "g_goal_id g \<noteq> []"
    "p \<in> set (parent_session_ids st (g_session_id g))" "get_session st p \<noteq> None"
  shows "\<exists>e \<in> set (log_view st' p).
    le_event_key e = child_completed_key p g (t_created_at t)
    \<and> (e \<in> set (log_view st p) \<or> (\<exists>cc. le_item e = LChildGoalCompleted cc
         \<and> cc_child_session_id cc = g_session_id g \<and> cc_child_goal_id cc = g_goal_id g
         \<and> cc_completion_reason cc = reason))"
  using assms(1)
proof (cases rule: set_goal_completion_cases)
  case quiet
  with enter_completion_created(4) [OF quiet(1)] assms(3,4) show ?thesis by simp
next
  case (reports h st1)
  note entered = enter_completion_created [OF reports(1)]
  have h: "h = completion_fields Complete reason (t_created_at t) g"
    using reports(4) enter_completion_goals(1) [OF reports(1)] assms(3) by simp
  have ev1: "evolves st st1" by (rule evolves_enter [OF reports(1)])
  have ok1: "log_ok st1" by (rule log_ok_evolves [OF ev1 assms(2)])
  have p1: "get_session st1 p \<noteq> None"
    using ev1 assms(8) by (auto simp: evolves_def sessions_evolve_def)
  let ?st2 = "log_child_goal_completed_for_parents h t st1"
  have "parent_session_ids st1 = parent_session_ids st"
    using enter_completion_goals(2) [OF reports(1)] by (simp add: fun_eq_iff parent_session_ids_def)
  then have st2: "?st2 = fold (log_child_goal_completed_for_parent h t (t_created_at t))
      (parent_session_ids st (g_session_id g)) st1"
    using entered(1) assms(5,6) by (simp add: log_child_goal_completed_for_parents_def h)
  have "reported_in (log_view st1 p) (log_view ?st2 p) (child_completed_key p h (t_created_at t)) h t"
    unfolding st2 by (rule log_child_fold_reported [OF assms(7) ok1 p1])
  moreover have "set (log_view ?st2 p) \<subseteq> set (log_view st' p)"
    by (rule log_view_evolves [OF evolves_reopen [OF reports(5)] log_ok_evolves [OF evolves_log_child ok1]])
  moreover have "e \<in> set (log_view st p)"
    if "e \<in> set (log_view st1 p)" "le_event_key e = child_completed_key p h (t_created_at t)" for e
    using enter_completion_view [OF reports(1) log_ok_inv [OF assms(2)] that(1)] that(2)
    by (auto simp: child_completed_key_def)
  ultimately have "reported_in (log_view st p) (log_view st' p) (child_completed_key p h (t_created_at t)) h t"
    by (rule reported_in_mono)
  then show ?thesis
    using entered(3) by (auto simp: reported_in_def reports_child_def child_completed_key_def h)
qed

subsection \<open>Completion reopens complete parents\<close>

definition parent_open :: "state \<Rightarrow> string \<Rightarrow> bool" where
  "parent_open st p \<longleftrightarrow>
     (case current_goal_for_session st p of None \<Rightarrow> True | Some pg \<Rightarrow> g_completion_state pg \<noteq> Complete)"

lemma reopen_step_goals:
  assumes "reopen_completed_parent_goal c t q st = Inr st'"
  obtains (none) "st_goals st' = st_goals st" "parent_open st q"
  | (reopened) pg reason now where "current_goal_for_session st q = Some pg"
      "st_goals st' = AList.map_entry (g_goal_id pg) (completion_fields Incomplete reason now) (st_goals st)"
proof -
  from assms consider "st' = st" "parent_open st q"
    | pg x where "current_goal_for_session st q = Some pg"
        "enter_completion_state (g_goal_id pg) Incomplete
           (''Child SessionGoal '' @ c @ '' completed and requires parent review.'') ''system'' []
           (fst (clock_or (t_created_at t) st)) False (snd (clock_or (t_created_at t) st)) = Inr (x, st')"
    by (auto simp: reopen_completed_parent_goal_def parent_open_def clock_or_def bindR_Inr_iff Let_def
        case_prod_beta split: option.splits if_splits)
  then show ?thesis
  proof cases
    case 1
    then show ?thesis by (intro none) simp_all
  next
    case 2
    from enter_completion_goals(1) [OF 2(2)] have
      "st_goals st' = AList.map_entry (g_goal_id pg) (completion_fields Incomplete
         (''Child SessionGoal '' @ c @ '' completed and requires parent review.'') (t_created_at x)) (st_goals st)"
      by simp
    with 2(1) show ?thesis by (rule reopened)
  qed
qed

lemma reopen_step_open:
  assumes "reopen_completed_parent_goal c t q st = Inr st'" "goals_ok st" "p = q \<or> parent_open st p"
  shows "parent_open st' p"
  using assms(1)
proof (cases rule: reopen_step_goals)
  case none
  then show ?thesis using assms(3) current_goal_cong [OF none(1)] by (auto simp: parent_open_def)
next
  case (reopened pg reason now)
  have "current_goal_for_session st' p = map_option (\<lambda>g. if g_goal_id g = g_goal_id pg
      then completion_fields Incomplete reason now g else g) (current_goal_for_session st p)"
    by (rule current_goal_map_entry [OF assms(2) reopened(2)]) simp_all
  then show ?thesis
    using assms(3) reopened(1) by (auto simp: parent_open_def split: option.splits)
qed

lemma evolves_reopen_step: "reopen_completed_parent_goal c t q st = Inr st' \<Longrightarrow> evolves st st'"
  using evolves_reopen [of c t st st'] unfolding reopen_completed_parent_goals_for_child_def
  by (auto simp: reopen_completed_parent_goal_def bindR_Inr_iff Let_def case_prod_beta
       split: option.splits if_splits intro: evolves_trans evolves_enter evolves_utc_now)

lemma reopen_fold_open:
  assumes "foldR (reopen_completed_parent_goal c t) ps st = Inr st'" "goals_ok st"
    "p \<in> set ps \<or> parent_open st p"
  shows "parent_open st' p"
  using assms
proof (induction ps arbitrary: st)
  case (Cons q ps)
  then obtain u where u: "reopen_completed_parent_goal c t q st = Inr u"
      "foldR (reopen_completed_parent_goal c t) ps u = Inr st'"
    by (auto simp: bindR_Inr_iff)
  have "goals_ok u" using goals_ok_evolves [OF evolves_reopen_step [OF u(1)] Cons.prems(2)] .
  moreover have "p \<in> set ps \<or> parent_open u p"
    using reopen_step_open [OF u(1) Cons.prems(2)] Cons.prems(3) by auto
  ultimately show ?case using Cons.IH [OF u(2)] by blast
qed simp

text \<open>C7: Completing a goal that was not complete leaves no parent session whose current goal is
  complete: every complete parent goal is reopened for review in the same transaction.\<close>

theorem child_completion_reopens_parents:
  assumes "set_goal_completion_state gid Complete reason actor run_id oc d st = Inr (t, st')"
    "goals_ok st" "get_goal st gid = Some g" "g_completion_state g \<noteq> Complete"
    "p \<in> set (parent_session_ids st (g_session_id g))"
    "current_goal_for_session st' p = Some pg"
  shows "g_completion_state pg \<noteq> Complete"
  using assms(1)
proof (cases rule: set_goal_completion_cases)
  case quiet
  with enter_completion_created(4) [OF quiet(1)] assms(3,4) show ?thesis by simp
next
  case (reports h st1)
  have h: "h = completion_fields Complete reason (t_created_at t) g"
    using reports(4) enter_completion_goals(1) [OF reports(1)] assms(3) by simp
  let ?st2 = "log_child_goal_completed_for_parents h t st1"
  have "parent_session_ids ?st2 = parent_session_ids st"
    using enter_completion_goals(2) [OF reports(1)] by (simp add: fun_eq_iff parent_session_ids_def)
  moreover have "goals_ok ?st2"
    using goals_ok_evolves [OF evolves_log_child goals_ok_evolves [OF evolves_enter [OF reports(1)] assms(2)]] .
  ultimately have "parent_open st' p"
    using reports(5) assms(5) unfolding reopen_completed_parent_goals_for_child_def
    by (auto simp: h intro: reopen_fold_open)
  then show ?thesis using assms(6) by (simp add: parent_open_def)
qed

text \<open>A complete parent session and its child, whose goal is about to complete.\<close>

definition family :: state where
  "family = (blank_state (\<lambda>_. 0) (\<lambda>_. 0))
     \<lparr>st_sessions := [(''p'', new_session ''p'' [] [] ''P'' False), (''c'', new_session ''c'' [] [] ''C'' False)],
      st_session_edges := [\<lparr>e_parent = ''p'', e_child = ''c'', e_created_at = []\<rparr>],
      st_goals := [(''gp'', (new_goal ''gp'' ''p'' ''parent'' ''root'' ''t0'')\<lparr>g_completion_state := Complete\<rparr>),
                   (''gc'', new_goal ''gc'' ''c'' ''child'' ''root'' ''t0'')]\<rparr>"

definition family_done :: "(transition \<times> state) res" where
  "family_done = set_goal_completion_state ''gc'' Complete ''done'' ''system'' [] ''t1'' False family"

lemma family_ok: "log_ok family" "goals_ok family"
  by (auto simp: family_def blank_state_def log_ok_def log_inv_def log_view_def pending_log_def
      disk_log_def seq_from_def dict_get_def log_fresh_def goals_ok_def new_goal_def id_of_def split: if_splits)

lemma family_done_ok:
  obtains t st' where "set_goal_completion_state ''gc'' Complete ''done'' ''system'' [] ''t1'' False family = Inr (t, st')"
proof -
  have "case family_done of Inl _ \<Rightarrow> False | Inr _ \<Rightarrow> True" by code_simp
  with that show ?thesis by (auto simp: family_done_def split: sum.splits)
qed

theorem child_completion_reported_witness:
  "\<exists>t st' e. set_goal_completion_state ''gc'' Complete ''done'' ''system'' [] ''t1'' False family = Inr (t, st')
     \<and> e \<in> set (log_view st' ''p'')
     \<and> le_event_key e = child_completed_key ''p'' (new_goal ''gc'' ''c'' ''child'' ''root'' ''t0'') (t_created_at t)"
proof -
  obtain t st' where r: "set_goal_completion_state ''gc'' Complete ''done'' ''system'' [] ''t1'' False family = Inr (t, st')"
    by (rule family_done_ok)
  from child_completion_reported [OF r family_ok(1), of "new_goal ''gc'' ''c'' ''child'' ''root'' ''t0''" "''p''"] r
  show ?thesis
    by (auto simp: family_def new_goal_def parent_session_ids_def)
qed

theorem child_completion_reopens_parents_witness:
  "\<exists>t st' pg. set_goal_completion_state ''gc'' Complete ''done'' ''system'' [] ''t1'' False family = Inr (t, st')
     \<and> current_goal_for_session st' ''p'' = Some pg \<and> g_completion_state pg \<noteq> Complete"
proof -
  have "case family_done of Inl _ \<Rightarrow> False | Inr (t, st') \<Rightarrow> current_goal_for_session st' ''p'' \<noteq> None"
    by code_simp
  then obtain t st' pg where r: "set_goal_completion_state ''gc'' Complete ''done'' ''system'' [] ''t1'' False family
      = Inr (t, st')" "current_goal_for_session st' ''p'' = Some pg"
    by (auto simp: family_done_def split: sum.splits)
  from child_completion_reopens_parents [OF r(1) family_ok(2), of "new_goal ''gc'' ''c'' ''child'' ''root'' ''t0''" "''p''"] r
  show ?thesis
    by (auto simp: family_def new_goal_def parent_session_ids_def)
qed

end
