(* ===== verification/Policy.thy ===== *)
theory Policy
  imports Model
begin

section \<open>The scheduling policy\<close>

text \<open>
  src/src/goal/policy.py: which ready entry a dispatch takes. Entries whose goal is gone or no
  longer incomplete are reported as stale; the others compete by score (scheduling class,
  session priority, age) unless one has waited ten minutes, which then goes first, oldest
  first. Timestamps without an offset are read as UTC here. An instant is in microseconds.
\<close>

definition STARVATION_WAIT_SECONDS :: int where
  "STARVATION_WAIT_SECONDS = 600"

definition AGING_INTERVAL_SECONDS :: int where
  "AGING_INTERVAL_SECONDS = 60"

definition AGING_SCORE_LIMIT :: int where
  "AGING_SCORE_LIMIT = 100"

definition SCHEDULING_CLASS_SCORES :: "int dict" where
  "SCHEDULING_CLASS_SCORES =
     [(''idle'', -100), (''background'', -20), (''normal'', 0), (''high'', 20), (''critical'', 100)]"

fun role_base_priority :: "role \<Rightarrow> int" where
  "role_base_priority GoalManager = 0"
| "role_base_priority WorkerAgent = 0"

definition parse_timestamp :: "string \<Rightarrow> instant option" where
  "parse_timestamp value =
     (if value = [] then None
      else map_option (\<lambda>dt. case dt of Naive i \<Rightarrow> i | Aware i \<Rightarrow> i) (fromisoformat (replace_Z value)))"

text \<open>\<open>_waiting_seconds\<close>, in microseconds.\<close>

definition waiting_us :: "string \<Rightarrow> instant \<Rightarrow> int" where
  "waiting_us value now = (case parse_timestamp value of None \<Rightarrow> 0 | Some t \<Rightarrow> max 0 (now - t))"

definition readiness_is_available :: "readiness \<Rightarrow> instant \<Rightarrow> bool" where
  "readiness_is_available entry now =
     (let available_after = py_strip (rd_available_after entry) in
      if available_after = [] then True
      else case parse_timestamp available_after of None \<Rightarrow> True | Some t \<Rightarrow> t \<le> now)"

definition scheduling_score :: "session \<Rightarrow> role \<Rightarrow> string \<Rightarrow> instant \<Rightarrow> int \<times> string" where
  "scheduling_score session role first_ready_at now =
     (let cls = (if pol_class (s_policy session) = [] then ''normal'' else pol_class (s_policy session));
          class_score = dict_get 0 SCHEDULING_CLASS_SCORES cls;
          base_priority = pol_base_priority (s_policy session);
          role_priority = role_base_priority role;
          age_score = min AGING_SCORE_LIMIT (waiting_us first_ready_at now div (AGING_INTERVAL_SECONDS * 1000000))
      in (class_score + base_priority + role_priority + age_score,
          ''class='' @ cls @ ''('' @ dec_int class_score @ ''); session='' @ dec_int base_priority
          @ ''; role='' @ dec_int role_priority @ ''; waiting_age='' @ dec_int age_score))"

record scheduling_decision =
  sd_readiness_index :: "nat option"
  sd_stale_indexes :: "nat list"
  sd_score :: "int option"
  sd_reason :: string

datatype verdict = Skip | Stale_index | Candidate int string

definition entry_verdict ::
  "goal dict \<Rightarrow> session dict \<Rightarrow> (string \<times> role) list \<Rightarrow> string \<Rightarrow> instant \<Rightarrow> readiness \<Rightarrow> verdict" where
  "entry_verdict goals sessions acquired_roles session_id now entry =
     (if rd_status entry \<noteq> Ready then Skip
      else if session_id \<noteq> [] \<and> rd_session_id entry \<noteq> session_id then Skip
      else if \<not> readiness_is_available entry now then Skip
      else case map_of goals (rd_goal_id entry) of
        None \<Rightarrow> Stale_index
      | Some goal \<Rightarrow>
          if g_archived_at goal \<noteq> [] \<or> g_completion_state goal \<noteq> Incomplete then Stale_index
          else case map_of sessions (rd_session_id entry) of
            None \<Rightarrow> Skip
          | Some session \<Rightarrow>
              if \<not> s_active session then Skip
              else if (rd_session_id entry, rd_role entry) \<in> set acquired_roles then Skip
              else case scheduling_score session (rd_role entry) (rd_first_ready_at entry) now of
                (score, reason) \<Rightarrow> Candidate score reason)"

type_synonym candidate = "nat \<times> readiness \<times> int \<times> string"

definition dispatch_candidates :: "(readiness \<Rightarrow> verdict) \<Rightarrow> readiness list \<Rightarrow> candidate list" where
  "dispatch_candidates v entries =
     List.map_filter (\<lambda>(i, e). case v e of Candidate score reason \<Rightarrow> Some (i, e, score, reason) | _ \<Rightarrow> None)
       (enumerate 0 entries)"

definition stale_positions :: "(readiness \<Rightarrow> verdict) \<Rightarrow> readiness list \<Rightarrow> nat list" where
  "stale_positions v entries = map fst (filter (\<lambda>(i, e). v e = Stale_index) (enumerate 0 entries))"

definition starved :: "instant \<Rightarrow> candidate \<Rightarrow> bool" where
  "starved now c = (case c of (i, e, score, reason) \<Rightarrow>
     waiting_us (rd_first_ready_at e) now \<ge> STARVATION_WAIT_SECONDS * 1000000)"

definition age_key :: "candidate \<Rightarrow> string \<times> string \<times> string \<times> nat" where
  "age_key c = (case c of (i, e, score, reason) \<Rightarrow>
     (rd_first_ready_at e, rd_session_id e, role_name (rd_role e), i))"

definition score_key :: "candidate \<Rightarrow> int \<times> string \<times> string \<times> string \<times> nat" where
  "score_key c = (case c of (i, e, score, reason) \<Rightarrow> (- score, age_key c))"

definition select_role_dispatch_readiness ::
  "readiness list \<Rightarrow> goal dict \<Rightarrow> session dict \<Rightarrow> (string \<times> role) list \<Rightarrow> string \<Rightarrow> instant
     \<Rightarrow> scheduling_decision" where
  "select_role_dispatch_readiness entries goals sessions acquired_roles session_id now =
     (let v = entry_verdict goals sessions acquired_roles session_id now;
          candidates = dispatch_candidates v entries;
          stale = stale_positions v entries
      in case min_by age_key (filter (starved now) candidates) of
        Some (i, e, score, reason) \<Rightarrow>
          \<lparr>sd_readiness_index = Some i, sd_stale_indexes = stale, sd_score = Some score,
           sd_reason = reason @ ''; starvation_override=true''\<rparr>
      | None \<Rightarrow>
          (case min_by score_key candidates of
             Some (i, e, score, reason) \<Rightarrow>
               \<lparr>sd_readiness_index = Some i, sd_stale_indexes = stale, sd_score = Some score,
                sd_reason = reason\<rparr>
           | None \<Rightarrow>
               \<lparr>sd_readiness_index = None, sd_stale_indexes = stale, sd_score = None, sd_reason = []\<rparr>))"

subsection \<open>What the policy promises\<close>

definition eligible ::
  "goal dict \<Rightarrow> session dict \<Rightarrow> (string \<times> role) list \<Rightarrow> string \<Rightarrow> instant \<Rightarrow> readiness \<Rightarrow> bool" where
  "eligible goals sessions acquired_roles session_id now entry \<longleftrightarrow>
     rd_status entry = Ready
     \<and> (session_id = [] \<or> rd_session_id entry = session_id)
     \<and> readiness_is_available entry now
     \<and> (\<exists>g. map_of goals (rd_goal_id entry) = Some g \<and> g_archived_at g = []
            \<and> g_completion_state g = Incomplete)
     \<and> (\<exists>s. map_of sessions (rd_session_id entry) = Some s \<and> s_active s)
     \<and> (rd_session_id entry, rd_role entry) \<notin> set acquired_roles"

definition entry_score :: "session dict \<Rightarrow> instant \<Rightarrow> readiness \<Rightarrow> int" where
  "entry_score sessions now entry =
     (case map_of sessions (rd_session_id entry) of None \<Rightarrow> 0
      | Some s \<Rightarrow> fst (scheduling_score s (rd_role entry) (rd_first_ready_at entry) now))"

lemma verdict_Candidate_iff:
  "(\<exists>score reason. entry_verdict goals sessions acq sid now e = Candidate score reason)
     \<longleftrightarrow> eligible goals sessions acq sid now e"
  by (auto simp: entry_verdict_def eligible_def split: option.splits prod.splits)

lemma verdict_Candidate_score:
  "entry_verdict goals sessions acq sid now e = Candidate score reason
     \<Longrightarrow> score = entry_score sessions now e"
  by (auto simp: entry_verdict_def entry_score_def split: option.splits prod.splits if_splits)

lemma set_enumerate_nth: "set (enumerate 0 es) = {(i, es ! i) | i. i < length es}"
  by (auto simp: enumerate_eq_zip set_zip) (metis add_0 nth_upt)

lemma mem_dispatch_candidates:
  "(i, e, score, reason) \<in> set (dispatch_candidates v es)
     \<longleftrightarrow> i < length es \<and> es ! i = e \<and> v e = Candidate score reason"
proof -
  have "(case v e' of Candidate sc r \<Rightarrow> Some (j, e', sc, r) | _ \<Rightarrow> None) = Some (i, e, score, reason)
      \<longleftrightarrow> j = i \<and> e' = e \<and> v e' = Candidate score reason" for j e'
    by (cases "v e'") auto
  then show ?thesis by (auto simp: dispatch_candidates_def set_map_filter set_enumerate_nth)
qed

lemma mem_stale_positions:
  "i \<in> set (stale_positions v es) \<longleftrightarrow> i < length es \<and> v (es ! i) = Stale_index"
  by (force simp: stale_positions_def enumerate_eq_zip set_zip image_iff)

lemma select_is_candidate:
  assumes "sd_readiness_index (select_role_dispatch_readiness es goals sessions acq sid now) = Some i"
  obtains score reason where
    "(i, es ! i, score, reason) \<in> set (dispatch_candidates (entry_verdict goals sessions acq sid now) es)"
    "sd_score (select_role_dispatch_readiness es goals sessions acq sid now) = Some score"
  using assms
  by (auto simp: select_role_dispatch_readiness_def Let_def mem_dispatch_candidates
      split: option.splits prod.splits dest!: min_by_Some)

lemma select_stale_indexes:
  "i \<in> set (sd_stale_indexes (select_role_dispatch_readiness es goals sessions acq sid now))
     \<longleftrightarrow> i < length es \<and> entry_verdict goals sessions acq sid now (es ! i) = Stale_index"
  by (auto simp: select_role_dispatch_readiness_def Let_def mem_stale_positions
      split: option.splits prod.splits)

lemma select_starved_none:
  assumes "filter (starved now) (dispatch_candidates (entry_verdict goals sessions acq sid now) es) = []"
    "min_by score_key (dispatch_candidates (entry_verdict goals sessions acq sid now) es)
       = Some (i, e, score, reason)"
  shows "sd_readiness_index (select_role_dispatch_readiness es goals sessions acq sid now) = Some i"
  using assms by (simp add: select_role_dispatch_readiness_def Let_def)

lemma select_starved_some:
  assumes "min_by age_key (filter (starved now)
      (dispatch_candidates (entry_verdict goals sessions acq sid now) es)) = Some (i, e, score, reason)"
  shows "sd_readiness_index (select_role_dispatch_readiness es goals sessions acq sid now) = Some i"
  using assms by (simp add: select_role_dispatch_readiness_def Let_def)

lemma min_by_mem:
  assumes "x \<in> set xs"
  obtains y where "min_by f xs = Some y" "y \<in> set xs" "f y \<le> f x"
  using assms min_by_None [of f xs] min_by_Some [of f xs]
  by (metis empty_iff list.set(1) not_None_eq)

lemma eligible_candidate:
  assumes "j < length es" "eligible goals sessions acq sid now (es ! j)"
  obtains s r where
    "(j, es ! j, s, r) \<in> set (dispatch_candidates (entry_verdict goals sessions acq sid now) es)"
    "s = entry_score sessions now (es ! j)"
  using assms verdict_Candidate_iff verdict_Candidate_score
  by (metis mem_dispatch_candidates)

lemma eligible_selected:
  assumes "e \<in> set es" "eligible goals sessions acq sid now e"
  shows "sd_readiness_index (select_role_dispatch_readiness es goals sessions acq sid now) \<noteq> None"
proof -
  let ?cs = "dispatch_candidates (entry_verdict goals sessions acq sid now) es"
  obtain j where "j < length es" "es ! j = e" using assms(1) by (auto simp: in_set_conv_nth)
  with assms(2) obtain s r where j: "(j, e, s, r) \<in> set ?cs" by (metis eligible_candidate)
  show ?thesis
  proof (cases "filter (starved now) ?cs = []")
    case True
    from j obtain y where "min_by score_key ?cs = Some y" by (rule min_by_mem)
    with True show ?thesis by (cases y) (auto dest: select_starved_none)
  next
    case False
    then obtain y where "min_by age_key (filter (starved now) ?cs) = Some y"
      by (metis min_by_None not_None_eq)
    then show ?thesis by (cases y) (auto dest: select_starved_some)
  qed
qed

text \<open>
  What the dispatcher relies on when it asks a policy for the next entry: a chosen position is that
  of an eligible entry, it is not reported as stale, and an eligible entry is never passed over
  for nothing.
\<close>

locale dispatch_policy =
  fixes select :: "readiness list \<Rightarrow> goal dict \<Rightarrow> session dict \<Rightarrow> (string \<times> role) list \<Rightarrow> string \<Rightarrow> instant
     \<Rightarrow> scheduling_decision"
  assumes chosen_eligible: "sd_readiness_index (select es goals sessions acq sid now) = Some i \<Longrightarrow>
      i < length es \<and> eligible goals sessions acq sid now (es ! i)
      \<and> i \<notin> set (sd_stale_indexes (select es goals sessions acq sid now))"
    and stale_bounded: "i \<in> set (sd_stale_indexes (select es goals sessions acq sid now)) \<Longrightarrow> i < length es"
    and work_conserving: "e \<in> set es \<Longrightarrow> eligible goals sessions acq sid now e \<Longrightarrow>
      sd_readiness_index (select es goals sessions acq sid now) \<noteq> None"
begin

lemma chosen_slot_free:
  assumes "sd_readiness_index (select es goals sessions acq sid now) = Some i"
  shows "i < length es" "rd_status (es ! i) = Ready" "(rd_session_id (es ! i), rd_role (es ! i)) \<notin> set acq"
  using chosen_eligible [OF assms] by (simp_all add: eligible_def)

lemma nothing_chosen_iff:
  "sd_readiness_index (select es goals sessions acq sid now) = None
     \<longleftrightarrow> (\<forall>e \<in> set es. \<not> eligible goals sessions acq sid now e)"
proof
  assume "sd_readiness_index (select es goals sessions acq sid now) = None"
  then show "\<forall>e \<in> set es. \<not> eligible goals sessions acq sid now e" using work_conserving by blast
next
  assume none: "\<forall>e \<in> set es. \<not> eligible goals sessions acq sid now e"
  show "sd_readiness_index (select es goals sessions acq sid now) = None"
  proof (rule ccontr)
    assume "\<not> ?thesis"
    then obtain i where "sd_readiness_index (select es goals sessions acq sid now) = Some i" by blast
    from chosen_eligible [OF this] none show False by (meson nth_mem)
  qed
qed

end

lemma selected_eligible:
  assumes "sd_readiness_index (select_role_dispatch_readiness es goals sessions acq sid now) = Some i"
  shows "i < length es \<and> eligible goals sessions acq sid now (es ! i)
    \<and> i \<notin> set (sd_stale_indexes (select_role_dispatch_readiness es goals sessions acq sid now))"
proof -
  from assms obtain score reason where
    "(i, es ! i, score, reason) \<in> set (dispatch_candidates (entry_verdict goals sessions acq sid now) es)"
    by (rule select_is_candidate)
  then have "i < length es" "entry_verdict goals sessions acq sid now (es ! i) = Candidate score reason"
    by (simp_all add: mem_dispatch_candidates)
  moreover from this(2) have "eligible goals sessions acq sid now (es ! i)"
    by (metis verdict_Candidate_iff)
  ultimately show ?thesis by (simp add: select_stale_indexes)
qed

interpretation role_policy: dispatch_policy select_role_dispatch_readiness
  by unfold_locales (fact selected_eligible, simp add: select_stale_indexes, fact eligible_selected)

text \<open>C8: The entry a dispatch takes is one it may take: it is ready and available now, its goal exists,
  is not archived and is incomplete, its session exists and is active, and no acquired run holds
  that session's role; with a session filter it belongs to that session.\<close>

theorem policy_selects_eligible:
  assumes "sd_readiness_index (select_role_dispatch_readiness es goals sessions acq sid now) = Some i"
  shows "i < length es \<and> eligible goals sessions acq sid now (es ! i)
    \<and> i \<notin> set (sd_stale_indexes (select_role_dispatch_readiness es goals sessions acq sid now))"
  using assms by (rule role_policy.chosen_eligible)


text \<open>Without a starved entry the highest score wins: the selected entry's score is at least that of
  every eligible entry, and among equal scores no eligible entry has been ready longer.\<close>

theorem policy_highest_score:
  assumes "j < length es" "eligible goals sessions acq sid now (es ! j)"
    "\<And>e. e \<in> set es \<Longrightarrow> eligible goals sessions acq sid now e \<Longrightarrow>
       waiting_us (rd_first_ready_at e) now < STARVATION_WAIT_SECONDS * 1000000"
  shows "\<exists>i. sd_readiness_index (select_role_dispatch_readiness es goals sessions acq sid now) = Some i
    \<and> entry_score sessions now (es ! j) \<le> entry_score sessions now (es ! i)
    \<and> (entry_score sessions now (es ! j) = entry_score sessions now (es ! i) \<longrightarrow>
         rd_first_ready_at (es ! i) \<le> rd_first_ready_at (es ! j))"
proof -
  let ?v = "entry_verdict goals sessions acq sid now"
  let ?cs = "dispatch_candidates ?v es"
  have none: "filter (starved now) ?cs = []"
  proof -
    have "\<not> starved now c" if "c \<in> set ?cs" for c
    proof -
      obtain i e sc re where c: "c = (i, e, sc, re)" by (cases c)
      with that have "e \<in> set es" "?v e = Candidate sc re" by (auto simp: mem_dispatch_candidates)
      then have "waiting_us (rd_first_ready_at e) now < STARVATION_WAIT_SECONDS * 1000000"
        using assms(3) by (metis verdict_Candidate_iff)
      then show ?thesis by (simp add: c starved_def)
    qed
    then show ?thesis by (simp add: filter_empty_conv)
  qed
  from assms(1,2) obtain s r where j: "(j, es ! j, s, r) \<in> set ?cs"
    and s: "s = entry_score sessions now (es ! j)" by (rule eligible_candidate)
  from j obtain c where c: "min_by score_key ?cs = Some c" and mem: "c \<in> set ?cs"
    and le: "score_key c \<le> score_key (j, es ! j, s, r)" by (rule min_by_mem)
  obtain i e sc re where ce: "c = (i, e, sc, re)" by (cases c)
  from mem ce have e: "es ! i = e" "sc = entry_score sessions now e"
    by (auto simp: mem_dispatch_candidates dest: verdict_Candidate_score)
  from le ce have "s \<le> sc" "s = sc \<longrightarrow> rd_first_ready_at e \<le> rd_first_ready_at (es ! j)"
    by (auto simp: score_key_def age_key_def less_eq_prod_def)
  with e s select_starved_none [OF none c [unfolded ce]] show ?thesis by auto
qed

text \<open>Two ready entries of an active session: one has waited eleven minutes, the other one second.\<close>

definition waiting_entry :: "string \<Rightarrow> string \<Rightarrow> role \<Rightarrow> readiness" where
  "waiting_entry rid since role =
     \<lparr>rd_readiness_id = rid, rd_session_id = ''s'', rd_goal_id = ''g'', rd_role = role, rd_status = Ready,
      rd_first_ready_at = since, rd_refreshed_at = since, rd_from_log_seq = 1, rd_observed_to_seq = 1,
      rd_wake_reasons = [], rd_available_after = [], rd_acquired_at = None, rd_ended_at = [],
      rd_stale_reason = [], rd_recovered_at = []\<rparr>"

definition demo_queue :: "readiness list" where
  "demo_queue = [waiting_entry ''r1'' (iso_utc 63900000659000000) GoalManager,
                 waiting_entry ''r2'' (iso_utc 63900000000000000) WorkerAgent]"

definition demo_now :: instant where
  "demo_now = 63900000660000000"

definition demo_goals :: "goal dict" where
  "demo_goals = [(''g'', new_goal ''g'' ''s'' ''body'' ''root'' ''t0'')]"

definition demo_sessions :: "session dict" where
  "demo_sessions = [(''s'', new_session ''s'' [] [] ''S'' False)]"

lemma demo_eligible: "e \<in> set demo_queue \<Longrightarrow> eligible demo_goals demo_sessions [] [] now e"
  by (auto simp: demo_queue_def waiting_entry_def eligible_def readiness_is_available_def py_strip_def
      strip_by_def demo_goals_def demo_sessions_def new_goal_def new_session_def)

lemma parse_timestamp_iso_utc:
  "min_instant \<le> t \<Longrightarrow> t \<le> max_instant \<Longrightarrow> parse_timestamp (iso_utc t) = Some (t div 1000000 * 1000000)"
  by (simp add: parse_timestamp_def fromisoformat_iso_utc)

lemma demo_waiting:
  "waiting_us (rd_first_ready_at (demo_queue ! 0)) demo_now = 1000000"
  "waiting_us (rd_first_ready_at (demo_queue ! Suc 0)) demo_now = 660000000"
  by (simp_all add: demo_queue_def waiting_entry_def waiting_us_def demo_now_def parse_timestamp_iso_utc
      min_instant_def max_instant_def us_per_day_def)

lemma demo_mem: "demo_queue ! 0 \<in> set demo_queue" "demo_queue ! Suc 0 \<in> set demo_queue"
  "length demo_queue = 2"
  by (simp_all add: demo_queue_def)

theorem policy_selects_eligible_witness:
  "\<exists>i. sd_readiness_index (select_role_dispatch_readiness demo_queue demo_goals demo_sessions [] [] demo_now)
       = Some i \<and> eligible demo_goals demo_sessions [] [] demo_now (demo_queue ! i)"
  using eligible_selected [OF demo_mem(1) demo_eligible [OF demo_mem(1)], of demo_now] policy_selects_eligible
  by blast


theorem policy_highest_score_witness:
  "\<exists>i. sd_readiness_index (select_role_dispatch_readiness (take 1 demo_queue) demo_goals demo_sessions [] []
       demo_now) = Some i \<and> entry_score demo_sessions demo_now (demo_queue ! 0)
         \<le> entry_score demo_sessions demo_now (take 1 demo_queue ! i)"
proof -
  have e: "take 1 demo_queue = [demo_queue ! 0]" by (simp add: demo_queue_def)
  show ?thesis
    using policy_highest_score [of 0 "take 1 demo_queue" demo_goals demo_sessions "[]" "[]" demo_now]
      demo_eligible [OF demo_mem(1), of demo_now]
    unfolding e by (auto simp: demo_waiting STARVATION_WAIT_SECONDS_def)
qed

end
