(* ===== verification/Projections.thy ===== *)
theory Projections
  imports Session_Log
begin

section \<open>Which unread log entries wake a role\<close>

text \<open>
  src/src/goal/projections.py: from the log entries past a role's cursor to one readiness
  window. A log item is the entry; its message is the one the entry carries
  (\<open>message_for_log_entry\<close>). The session identifier is never empty here (callers take it from
  \<open>current_goals\<close>), so \<open>normalize_endpoint\<close> of the Session recipient does not raise.
\<close>

record role_dispatch_readiness =
  rdr_from_log_seq :: nat
  rdr_observed_to_seq :: nat
  rdr_wake_reasons :: "wake_reason list"
  rdr_available_after :: string

definition reason_of :: "log_entry \<Rightarrow> string \<Rightarrow> string \<Rightarrow> string \<Rightarrow> wake_reason" where
  "reason_of e kind text available_after =
     \<lparr>wr_seq = le_seq e, wr_kind = kind, wr_reason = text,
      wr_message_id = (case message_for_log_entry e of None \<Rightarrow> [] | Some m \<Rightarrow> m_message_id m),
      wr_log_id = le_log_id e, wr_available_after = available_after\<rparr>"

definition system_signal_reason :: "log_entry \<Rightarrow> role \<Rightarrow> wake_reason option" where
  "system_signal_reason e role =
     (case item_signal (le_item e) of
        None \<Rightarrow> None
      | Some event \<Rightarrow>
          if role \<notin> set (sg_target_roles event) then None
          else
            let available_after = py_strip (jstr (sg_data event) ''available_after'');
                signal_type = (if sg_signal_type event = [] then ''system'' else sg_signal_type event)
            in Some (reason_of e ''SystemSignal''
                 (''System signal '' @ signal_type @ '' requires '' @ role_name role @ '' processing.'')
                 available_after))"

definition agent_sender_matches :: "message \<Rightarrow> role \<Rightarrow> string \<Rightarrow> bool" where
  "agent_sender_matches m role session_id \<longleftrightarrow>
     pl_agent_role (m_payload m) = Some role
     \<or> normalize_endpoint (role_name role) session_id = Inr (m_from m)"

definition addressed_to_session :: "message \<Rightarrow> string \<Rightarrow> bool" where
  "addressed_to_session m session_id \<longleftrightarrow>
     normalize_endpoint SESSION_RECIPIENT session_id = Inr (m_to m)"

definition goal_manager_message_reason :: "log_entry \<Rightarrow> message \<Rightarrow> string \<Rightarrow> wake_reason option" where
  "goal_manager_message_reason e m session_id =
     (if pl_user_input (m_payload m) then
        (if pl_worker_request (m_payload m) \<or> pl_defer_goal_manager (m_payload m) then None
         else Some (reason_of e ''UserInput'' ''New UserInput requires GoalManager review.'' []))
      else if pl_schedule_update (m_payload m) then
        Some (reason_of e ''ScheduleUpdate'' ''A Unit schedule update requires GoalManager review.'' [])
      else if addressed_to_session m session_id \<and> agent_sender_matches m WorkerAgent session_id then
        Some (reason_of e ''WorkerReport'' ''A WorkerAgent Session report requires GoalManager review.'' [])
      else None)"

definition goal_manager_wake_reason :: "log_entry \<Rightarrow> string \<Rightarrow> bool \<Rightarrow> wake_reason option" where
  "goal_manager_wake_reason e session_id active_worker =
     (case le_item e of
        LSessionActiveChanged previous active actor at \<Rightarrow>
          if active then Some (reason_of e ''SessionActivated'' ''Session became active with an incomplete Goal.'' [])
          else None
      | LGoalStateChanged event \<Rightarrow>
          if t_completion_state event \<noteq> Incomplete then None
          else if t_defer_goal_manager event then None
          else if normalize_endpoint (role_name GoalManager) session_id = Inr (t_actor event) then None
          else if active_worker then None
          else Some (reason_of e ''GoalIncomplete'' ''SessionGoal became incomplete outside GoalManager.'' [])
      | LSystemSignal _ \<Rightarrow> system_signal_reason e GoalManager
      | LChildGoalCompleted _ \<Rightarrow>
          Some (reason_of e ''ChildGoalCompleted'' ''A child SessionGoal completed and requires parent review.'' [])
      | LMessage _ \<Rightarrow>
          (case message_for_log_entry e of
             None \<Rightarrow> None
           | Some m \<Rightarrow> goal_manager_message_reason e m session_id)
      | LGoalBodyUpdated _ _ _ _ _ \<Rightarrow> None)"

definition worker_wake_reason :: "log_entry \<Rightarrow> string \<Rightarrow> wake_reason option" where
  "worker_wake_reason e session_id =
     (case le_item e of
        LSystemSignal _ \<Rightarrow> system_signal_reason e WorkerAgent
      | LMessage _ \<Rightarrow>
          (case message_for_log_entry e of
             None \<Rightarrow> None
           | Some m \<Rightarrow>
               if \<not> pl_worker_request (m_payload m) then None
               else if \<not> addressed_to_session m session_id then None
               else if agent_sender_matches m GoalManager session_id then
                 Some (reason_of e ''WorkerRequest'' ''GoalManager requested WorkerAgent work.'' [])
               else if pl_worker_followup (m_payload m) then
                 Some (reason_of e ''WorkerFollowup'' ''New UserInput must reach the active WorkerAgent.'' [])
               else None)
      | _ \<Rightarrow> None)"

definition wake_reason_of :: "role \<Rightarrow> string \<Rightarrow> bool \<Rightarrow> log_entry \<Rightarrow> wake_reason option" where
  "wake_reason_of role session_id active_worker e =
     (case role of
        GoalManager \<Rightarrow> goal_manager_wake_reason e session_id active_worker
      | WorkerAgent \<Rightarrow> worker_wake_reason e session_id)"

definition derive_role_dispatch_readiness ::
  "log_entry list \<Rightarrow> role \<Rightarrow> string \<Rightarrow> bool \<Rightarrow> role_dispatch_readiness option" where
  "derive_role_dispatch_readiness items role session_id active_worker =
     (if items = [] then None
      else
        let wake_reasons = List.map_filter (wake_reason_of role session_id active_worker) items in
        if wake_reasons = [] then None
        else
          let delayed = filter (\<lambda>t. t \<noteq> []) (map wr_available_after wake_reasons);
              available_after = (if length delayed \<noteq> length wake_reasons then [] else Min (set delayed))
          in Some \<lparr>rdr_from_log_seq = Min (set (map le_seq items)),
                   rdr_observed_to_seq = Max (set (map le_seq items)),
                   rdr_wake_reasons = sort_key wr_seq wake_reasons,
                   rdr_available_after = available_after\<rparr>)"

subsection \<open>Properties of the window\<close>

lemma wake_reason_seq: "wake_reason_of role sid aw e = Some w \<Longrightarrow> wr_seq w = le_seq e \<and> wr_log_id w = le_log_id e"
  by (auto simp: wake_reason_of_def goal_manager_wake_reason_def worker_wake_reason_def
      goal_manager_message_reason_def system_signal_reason_def reason_of_def Let_def
      split: role.splits log_item.splits if_splits option.splits)

lemma derive_None_iff:
  "derive_role_dispatch_readiness items role sid aw = None
     \<longleftrightarrow> (\<forall>e \<in> set items. wake_reason_of role sid aw e = None)"
proof -
  have "List.map_filter f xs = [] \<longleftrightarrow> (\<forall>x \<in> set xs. f x = None)" for f :: "log_entry \<Rightarrow> wake_reason option" and xs
    by (induction xs) (auto simp: map_filter_simps split: option.splits)
  then show ?thesis by (auto simp: derive_role_dispatch_readiness_def Let_def)
qed

lemma derive_nonempty: "derive_role_dispatch_readiness items role sid aw = Some r \<Longrightarrow> items \<noteq> []"
  by (auto simp: derive_role_dispatch_readiness_def)

lemma derive_SomeD:
  assumes "derive_role_dispatch_readiness items role sid aw = Some r"
  shows "\<forall>e \<in> set items. rdr_from_log_seq r \<le> le_seq e \<and> le_seq e \<le> rdr_observed_to_seq r"
    "\<exists>e \<in> set items. le_seq e = rdr_from_log_seq r"
    "\<exists>e \<in> set items. le_seq e = rdr_observed_to_seq r"
    "rdr_wake_reasons r = sort_key wr_seq (List.map_filter (wake_reason_of role sid aw) items)"
    "rdr_wake_reasons r \<noteq> []"
proof -
  have ne: "items \<noteq> []" using assms by (rule derive_nonempty)
  have r: "rdr_from_log_seq r = Min (le_seq ` set items)" "rdr_observed_to_seq r = Max (le_seq ` set items)"
    using assms by (auto simp: derive_role_dispatch_readiness_def Let_def split: if_splits)
  have "Min (le_seq ` set items) \<in> le_seq ` set items" "Max (le_seq ` set items) \<in> le_seq ` set items"
    using ne by (auto intro!: Min_in Max_in)
  then show "\<exists>e \<in> set items. le_seq e = rdr_from_log_seq r" "\<exists>e \<in> set items. le_seq e = rdr_observed_to_seq r"
    unfolding r by force+
  show "\<forall>e \<in> set items. rdr_from_log_seq r \<le> le_seq e \<and> le_seq e \<le> rdr_observed_to_seq r"
    "rdr_wake_reasons r = sort_key wr_seq (List.map_filter (wake_reason_of role sid aw) items)"
    using assms by (auto simp: derive_role_dispatch_readiness_def Let_def split: if_splits)
  show "rdr_wake_reasons r \<noteq> []"
    using assms by (auto simp: derive_role_dispatch_readiness_def Let_def split: if_splits)
qed


text \<open>Worker gating: a log entry wakes the WorkerAgent exactly when it is a system signal that targets
  it, or a worker request addressed to the session that GoalManager sent or that forwards new user
  input to the active worker. Plain user input, reports and state changes never do.\<close>

theorem worker_wake_iff:
  assumes "sid \<noteq> []"
  shows "worker_wake_reason e sid \<noteq> None \<longleftrightarrow>
    (\<exists>s. le_item e = LSystemSignal s \<and> WorkerAgent \<in> set (sg_target_roles s))
    \<or> (\<exists>m. message_for_log_entry e = Some m \<and> pl_worker_request (m_payload m) \<and> m_to m = session_endpoint sid
        \<and> (pl_agent_role (m_payload m) = Some GoalManager \<or> m_from m = agent_endpoint GoalManager
            \<or> pl_worker_followup (m_payload m)))"
  using assms normalize_endpoint_role [of GoalManager sid]
  by (auto simp: worker_wake_reason_def system_signal_reason_def addressed_to_session_def
      agent_sender_matches_def message_for_log_entry_def Let_def
      split: log_item.splits option.splits if_splits)

theorem worker_wake_iff_witness:
  "worker_wake_reason
     \<lparr>le_log_id = ''log-1'', le_seq = 1, le_session_id = ''s'', le_created_at = [],
      le_item = LMessage \<lparr>m_message_id = ''m'', m_from = ''user:u'', m_to = session_endpoint ''s'',
        m_payload = empty_payload\<lparr>pl_user_input := True\<rparr>, m_created_at = []\<rparr>, le_event_key = []\<rparr> ''s'' = None"
  using worker_wake_iff [of "''s''" "\<lparr>le_log_id = ''log-1'', le_seq = 1, le_session_id = ''s'', le_created_at = [],
      le_item = LMessage \<lparr>m_message_id = ''m'', m_from = ''user:u'', m_to = session_endpoint ''s'',
        m_payload = empty_payload\<lparr>pl_user_input := True\<rparr>, m_created_at = []\<rparr>, le_event_key = []\<rparr>"]
  by (simp add: empty_payload_def message_for_log_entry_def)

end
