(* ===== verification/Readiness.thy ===== *)
theory Readiness
  imports Goals Policy Projections
begin

section \<open>Dispatch readiness\<close>

text \<open>
  src/src/goal/readiness.py: the ready entries are derived from the session logs past each
  role's cursor, one per session and role; waiting goals wake on their condition; leases without
  a living run are recovered; and an active incomplete goal is never left without work. Deadline
  texts are parsed, and parsing can raise an \<open>OverflowError\<close> that the code does not catch, so the
  refresh returns a result or an error.
\<close>

subsection \<open>Lookups\<close>

definition run_start :: "run \<Rightarrow> string" where
  "run_start r = (if r_lease_acquired_at r = [] then r_created_at r else r_lease_acquired_at r)"

definition active_worker_run_for_session :: "state \<Rightarrow> string \<Rightarrow> run option" where
  "active_worker_run_for_session st session_id =
     last_opt (sort_key run_start
       (filter (\<lambda>r. r_session_id r = session_id \<and> r_lease_state r = LeaseAcquired
                    \<and> r_current_phase r = Some WorkerAgent) (dict_values (st_dispatch_runs st))))"

definition has_acquired_role_run :: "state \<Rightarrow> string \<Rightarrow> role \<Rightarrow> bool" where
  "has_acquired_role_run st session_id role \<longleftrightarrow>
     list_ex (\<lambda>r. r_session_id r = session_id \<and> (r_role r = role \<or> r_current_phase r = Some role)
                  \<and> r_lease_state r = LeaseAcquired) (dict_values (st_dispatch_runs st))"

definition acquired_readiness_for_role :: "state \<Rightarrow> string \<Rightarrow> role \<Rightarrow> readiness option" where
  "acquired_readiness_for_role st session_id role =
     List.find (\<lambda>e. rd_status e = Acquired \<and> rd_session_id e = session_id \<and> rd_role e = role)
       (st_dispatch_readiness st)"

definition has_live_worker_readiness_for_goal :: "state \<Rightarrow> string \<Rightarrow> bool" where
  "has_live_worker_readiness_for_goal st goal_id \<longleftrightarrow>
     goal_id \<noteq> [] \<and>
     (list_ex (\<lambda>e. rd_goal_id e = goal_id \<and> rd_role e = WorkerAgent \<and> live_status (rd_status e))
        (st_dispatch_readiness st)
      \<or> list_ex (\<lambda>r. r_goal_id r = goal_id \<and> r_role r = WorkerAgent \<and> r_lease_state r = LeaseAcquired)
          (dict_values (st_dispatch_runs st)))"

definition readiness_entry_by_id :: "state \<Rightarrow> string \<Rightarrow> readiness option" where
  "readiness_entry_by_id st readiness_id =
     List.find (\<lambda>e. rd_readiness_id e = readiness_id) (st_dispatch_readiness st)"

text \<open>A mutation of the first entry that satisfies a test.\<close>

fun update_first :: "('a \<Rightarrow> bool) \<Rightarrow> ('a \<Rightarrow> 'a) \<Rightarrow> 'a list \<Rightarrow> 'a list" where
  "update_first p f [] = []"
| "update_first p f (x # xs) = (if p x then f x # xs else x # update_first p f xs)"

subsection \<open>Waiting goals\<close>

definition message_fires :: "string \<Rightarrow> log_entry \<Rightarrow> bool" where
  "message_fires event_name e =
     (case message_for_log_entry e of None \<Rightarrow> False | Some m \<Rightarrow> event_name \<in> set (pl_wake_events (m_payload m)))"

definition child_fires :: "string \<Rightarrow> log_entry \<Rightarrow> bool" where
  "child_fires child_session_id e =
     (case le_item e of
        LChildGoalCompleted cc \<Rightarrow> child_session_id = [] \<or> cc_child_session_id cc = child_session_id
      | _ \<Rightarrow> False)"

definition deadline_passed :: "state \<Rightarrow> string \<Rightarrow> string \<Rightarrow> bool res" where
  "deadline_passed st wait_until now =
     (case bindR (parse_utc st wait_until) (\<lambda>d. bindR (parse_utc st now) (\<lambda>n. Inr (d \<le> n))) of
        Inl (StoreError _) \<Rightarrow> Inr True
      | r \<Rightarrow> r)"

definition goal_waiting_wake_reason :: "state \<Rightarrow> string \<Rightarrow> waiting \<Rightarrow> string \<Rightarrow> string option res" where
  "goal_waiting_wake_reason st session_id w now =
     (case w_spec w of
        Wait_deadline wait_until \<Rightarrow>
          bindR (deadline_passed st wait_until now) (\<lambda>passed.
            Inr (if passed then
                   Some ''bounded waiting deadline reached; GoalManager must review the SessionGoal again.''
                 else None))
      | Wait_event event_name \<Rightarrow>
          Inr (if list_ex (message_fires event_name) (session_log_after_cursor st session_id (w_wake_log_seq w))
               then Some (''bounded waiting event '' @ event_name @ '' fired.'') else None)
      | Wait_child child_session_id \<Rightarrow>
          Inr (if list_ex (child_fires child_session_id) (session_log_after_cursor st session_id (w_wake_log_seq w))
               then Some (''bounded waiting child SessionGoal ''
                      @ (if child_session_id = [] then ''(any child)'' else child_session_id) @ '' completed.'')
               else None))"

fun wait_kind :: "wait_spec \<Rightarrow> string" where
  "wait_kind (Wait_deadline _) = ''deadline''"
| "wait_kind (Wait_event _) = ''event''"
| "wait_kind (Wait_child _) = ''child''"

definition session_is_active :: "state \<Rightarrow> string \<Rightarrow> bool" where
  "session_is_active st session_id =
     (case get_session st session_id of None \<Rightarrow> False | Some s \<Rightarrow> s_active s)"

definition expire_goal :: "string \<Rightarrow> goal \<Rightarrow> bool \<times> state \<Rightarrow> (bool \<times> state) res" where
  "expire_goal now g acc =
     (case acc of (superseded, st) \<Rightarrow>
        case g_waiting g of
          None \<Rightarrow> Inr (superseded, st)
        | Some w \<Rightarrow>
            if \<not> session_is_active st (g_session_id g) then Inr (superseded, st)
            else
              bindR (goal_waiting_wake_reason st (g_session_id g) w now) (\<lambda>reason.
                case reason of
                  None \<Rightarrow> Inr (superseded, st)
                | Some text \<Rightarrow>
                    let st1 = upd_goal (g_goal_id g) (\<lambda>g. g\<lparr>g_waiting := None\<rparr>) st;
                        (_, st2) = log_system_signal (g_session_id g) ''GoalWaitingWake'' text [GoalManager]
                          ''scheduler'' []
                          [(''goal_id'', JStr (g_goal_id g)), (''wait_kind'', JStr (wait_kind (w_spec w)))] now st1
                    in Inr (True, st2)))"

definition expire_goal_waiting :: "state \<Rightarrow> (bool \<times> state) res" where
  "expire_goal_waiting st =
     (let (now, st1) = utc_now st in foldR (expire_goal now) (current_goals st1) (False, st1))"

subsection \<open>Refreshing the ready entries\<close>

type_synonym slot = "string \<times> role"

definition entry_slot :: "readiness \<Rightarrow> slot" where
  "entry_slot e = (rd_session_id e, rd_role e)"

definition deduplicate_step ::
  "readiness \<Rightarrow> readiness list \<times> (slot \<times> readiness) list \<Rightarrow> readiness list \<times> (slot \<times> readiness) list" where
  "deduplicate_step e acc =
     (case acc of (retained, by_key) \<Rightarrow>
        if rd_status e \<noteq> Ready then (retained @ [e], by_key)
        else case map_of by_key (entry_slot e) of
          None \<Rightarrow> (retained @ [e], AList.update (entry_slot e) e by_key)
        | Some existing \<Rightarrow>
            if rd_first_ready_at e < rd_first_ready_at existing then
              (remove_first (\<lambda>x. x = existing) retained @ [e], AList.update (entry_slot e) e by_key)
            else (retained, by_key))"

definition deduplicate_ready_entries :: "readiness list \<Rightarrow> readiness list" where
  "deduplicate_ready_entries entries = fst (fold deduplicate_step entries ([], []))"

definition ready_for :: "string \<Rightarrow> role \<Rightarrow> readiness \<Rightarrow> bool" where
  "ready_for session_id role e \<longleftrightarrow> rd_status e = Ready \<and> rd_session_id e = session_id \<and> rd_role e = role"

definition readiness_fields_from_session_log :: "state \<Rightarrow> string \<Rightarrow> role \<Rightarrow> role_dispatch_readiness option" where
  "readiness_fields_from_session_log st session_id role =
     derive_role_dispatch_readiness (session_log_entries_after_cursor st session_id role) role session_id
       (active_worker_run_for_session st session_id \<noteq> None)"

definition reconcile_ready_entry ::
  "goal \<Rightarrow> role \<Rightarrow> role_dispatch_readiness option \<Rightarrow> state \<Rightarrow> state" where
  "reconcile_ready_entry g role derived st =
     (let current = List.find (ready_for (g_session_id g) role) (st_dispatch_readiness st) in
      case derived of
        None \<Rightarrow>
          (case current of
             None \<Rightarrow> st
           | Some c \<Rightarrow> st\<lparr>st_dispatch_readiness := remove_first (\<lambda>x. x = c) (st_dispatch_readiness st)\<rparr>)
      | Some f \<Rightarrow>
          let (now, st1) = utc_now st in
          case current of
            None \<Rightarrow>
              let (rid, st2) = new_id ''ready'' st1;
                  e = \<lparr>rd_readiness_id = rid, rd_session_id = g_session_id g, rd_goal_id = g_goal_id g,
                       rd_role = role, rd_status = Ready, rd_first_ready_at = now, rd_refreshed_at = now,
                       rd_from_log_seq = rdr_from_log_seq f, rd_observed_to_seq = rdr_observed_to_seq f,
                       rd_wake_reasons = rdr_wake_reasons f, rd_available_after = rdr_available_after f,
                       rd_acquired_at = None, rd_ended_at = [], rd_stale_reason = [], rd_recovered_at = []\<rparr>
              in st2\<lparr>st_dispatch_readiness := st_dispatch_readiness st2 @ [e]\<rparr>
          | Some _ \<Rightarrow>
              st1\<lparr>st_dispatch_readiness := update_first (ready_for (g_session_id g) role)
                (\<lambda>e. e\<lparr>rd_goal_id := g_goal_id g, rd_from_log_seq := rdr_from_log_seq f,
                       rd_observed_to_seq := rdr_observed_to_seq f, rd_wake_reasons := rdr_wake_reasons f,
                       rd_available_after := rdr_available_after f, rd_refreshed_at := now\<rparr>)
                (st_dispatch_readiness st1)\<rparr>)"

definition refresh_role :: "goal \<Rightarrow> role \<Rightarrow> state \<Rightarrow> state" where
  "refresh_role g role st =
     (if has_acquired_role_run st (g_session_id g) role then st
      else if acquired_readiness_for_role st (g_session_id g) role \<noteq> None then st
      else reconcile_ready_entry g role (readiness_fields_from_session_log st (g_session_id g) role) st)"

definition refresh_goal :: "goal \<Rightarrow> state \<Rightarrow> state" where
  "refresh_goal g st =
     (if g_archived_at g \<noteq> [] \<or> g_completion_state g \<noteq> Incomplete \<or> g_waiting g \<noteq> None then st
      else if \<not> session_is_active st (g_session_id g) then st
      else fold (refresh_role g) [GoalManager, WorkerAgent] st)"

definition refresh_dispatch_readiness :: "state \<Rightarrow> (bool \<times> state) res" where
  "refresh_dispatch_readiness st =
     bindR (expire_goal_waiting st) (\<lambda>(waiting_changed, st1).
       let previous = st_dispatch_readiness st1;
           live = filter (\<lambda>e. live_status (rd_status e)) previous;
           st2 = st1\<lparr>st_dispatch_readiness := deduplicate_ready_entries live\<rparr>;
           st3 = fold refresh_goal (current_goals st2) st2
       in Inr (previous \<noteq> st_dispatch_readiness st3 \<or> waiting_changed, st3))"

subsection \<open>Liveness\<close>

text \<open>\<open>_dispatch_lease_expired\<close>; the sum overflows in the last minutes of the year 9999.\<close>

definition datetime_instant :: "py_datetime \<Rightarrow> instant" where
  "datetime_instant dt = (case dt of Naive i \<Rightarrow> i | Aware i \<Rightarrow> i)"

definition dispatch_lease_expired :: "run \<Rightarrow> string \<Rightarrow> bool res" where
  "dispatch_lease_expired r now =
     (if run_start r = [] then Inr True
      else case (fromisoformat (replace_Z (run_start r)), fromisoformat (replace_Z now)) of
        (Some acquired, Some current) \<Rightarrow>
          let limit = datetime_instant acquired + DISPATCH_LEASE_RECOVERY_SECONDS * 1000000 in
          if limit > max_instant then Inl (OverflowError ''date value out of range'')
          else Inr (datetime_instant current \<ge> limit)
      | _ \<Rightarrow> Inr True)"

type_synonym repairs = "(string list \<times> string list) dict"

definition repair :: "string \<Rightarrow> string list \<Rightarrow> string list \<Rightarrow> repairs \<Rightarrow> repairs" where
  "repair session_id readiness_ids run_ids d =
     (let (a, b) = dict_get ([], []) d session_id
      in AList.update session_id (a @ readiness_ids, b @ run_ids) d)"

definition interrupt_run :: "string \<Rightarrow> string \<Rightarrow> run \<Rightarrow> run" where
  "interrupt_run now reason r =
     r\<lparr>r_lease_state := LeaseInterrupted, r_interrupted_at := now, r_interrupted_reason := reason,
       r_current_phase := None\<rparr>"

definition expire_lease :: "string \<Rightarrow> run \<Rightarrow> repairs \<times> state \<Rightarrow> (repairs \<times> state) res" where
  "expire_lease now r acc =
     (case acc of (repaired, st) \<Rightarrow>
        bindR (dispatch_lease_expired r now) (\<lambda>expired.
          if \<not> expired then Inr (repaired, st)
          else Inr (repair (r_session_id r) [] [r_run_id r] repaired,
                    upd_run (r_run_id r)
                      (interrupt_run now ''dispatch lease exceeded the Agent execution limit'') st)))"

definition lease_alive :: "state \<Rightarrow> run list \<Rightarrow> readiness \<Rightarrow> bool" where
  "lease_alive st acquired_runs e =
     (case List.find (\<lambda>r. r_readiness_id r \<noteq> [] \<and> r_readiness_id r = rd_readiness_id e) (rev acquired_runs) of
        None \<Rightarrow> False
      | Some r \<Rightarrow> (case get_run st (r_run_id r) of None \<Rightarrow> False
                    | Some r' \<Rightarrow> r_lease_state r' = LeaseAcquired))"

definition stale_entry :: "string \<Rightarrow> string \<Rightarrow> readiness \<Rightarrow> readiness" where
  "stale_entry now reason e =
     e\<lparr>rd_status := Stale, rd_ended_at := now, rd_stale_reason := reason, rd_acquired_at := None\<rparr>"

definition drop_dead_leases :: "string \<Rightarrow> run list \<Rightarrow> repairs \<Rightarrow> state \<Rightarrow> repairs \<times> state" where
  "drop_dead_leases now acquired_runs repaired st =
     (let dead = (\<lambda>e. rd_status e = Acquired \<and> \<not> lease_alive st acquired_runs e) in
      (fold (\<lambda>e. repair (rd_session_id e) [rd_readiness_id e] [])
         (filter dead (st_dispatch_readiness st)) repaired,
       upd_readiness dead
         (stale_entry now ''acquired readiness has no live acquired dispatch run'') st))"

definition signal_repair ::
  "string \<Rightarrow> string \<times> (string list \<times> string list) \<Rightarrow> bool \<times> state \<Rightarrow> bool \<times> state" where
  "signal_repair now item acc =
     (case item of (session_id, (readiness_ids, run_ids)) \<Rightarrow> case acc of (changed, st) \<Rightarrow>
        if get_session st session_id = None then (changed, st)
        else (True, snd (log_system_signal session_id ''DispatchLivenessRecovered''
          (''AIze recovered dispatch ownership that no longer had a live Agent run. ''
           @ ''GoalManager must reassess the SessionGoal.'')
          [GoalManager] ''dispatcher'' []
          [(''readiness_ids'', JStrs readiness_ids), (''run_ids'', JStrs run_ids)] now st)))"

definition unit_paused :: "unit_rec option \<Rightarrow> bool" where
  "unit_paused u =
     (case u of None \<Rightarrow> False
      | Some un \<Rightarrow> (if un_status un = [] then ''active'' else un_status un) \<noteq> ''active'')"

definition live_goal_ids :: "state \<Rightarrow> string list" where
  "live_goal_ids st =
     map rd_goal_id (filter (\<lambda>e. live_status (rd_status e)) (st_dispatch_readiness st))
     @ map r_goal_id (filter (\<lambda>r. r_lease_state r = LeaseAcquired) (dict_values (st_dispatch_runs st)))"

definition needs_liveness_signal :: "state \<Rightarrow> string list \<Rightarrow> goal \<Rightarrow> bool" where
  "needs_liveness_signal st live g \<longleftrightarrow>
     g_goal_id g \<noteq> [] \<and> g_archived_at g = [] \<and> g_completion_state g = Incomplete
     \<and> (case get_session st (g_session_id g) of
          None \<Rightarrow> False
        | Some s \<Rightarrow> s_active s \<and> \<not> unit_paused (map_of (st_units st) (s_unit_id s)))
     \<and> g_goal_id g \<notin> set live \<and> g_waiting g = None"

definition signal_liveness :: "string \<Rightarrow> goal \<Rightarrow> string list \<times> bool \<times> state \<Rightarrow> string list \<times> bool \<times> state" where
  "signal_liveness now g acc =
     (case acc of (live, added, st) \<Rightarrow>
        if \<not> needs_liveness_signal st live g then (live, added, st)
        else
          let (_, st1) = log_system_signal (g_session_id g) ''SessionLivenessRecovery''
                (''This Session is Active and its SessionGoal is incomplete, but no GoalManager or ''
                 @ ''WorkerAgent is ready or running. GoalManager must choose the next action.'')
                [GoalManager] ''dispatcher'' [] [(''goal_id'', JStr (g_goal_id g))] now st
          in (g_goal_id g # live, True, st1))"

definition settle_dispatch :: "string \<Rightarrow> bool \<Rightarrow> state \<Rightarrow> (bool \<times> state) res" where
  "settle_dispatch now changed st =
     bindR (refresh_dispatch_readiness st) (\<lambda>(changed', st1).
       let (live, added, st2) = fold (signal_liveness now) (current_goals st1) (live_goal_ids st1, False, st1)
       in if added then bindR (refresh_dispatch_readiness st2) (\<lambda>(_, st3). Inr (True, st3))
          else Inr (changed \<or> changed', st2))"

definition repair_dispatch :: "string \<Rightarrow> state \<Rightarrow> (bool \<times> state) res" where
  "repair_dispatch now st =
     (let acquired_runs = filter (\<lambda>r. r_lease_state r = LeaseAcquired) (dict_values (st_dispatch_runs st))
      in bindR (foldR (expire_lease now) acquired_runs ([], st)) (\<lambda>(repaired1, st1).
           let (repaired2, st2) = drop_dead_leases now acquired_runs repaired1 st1
           in Inr (fold (signal_repair now) repaired2 (repaired2 \<noteq> [], st2))))"

definition reconcile_dispatch_liveness :: "state \<Rightarrow> (bool \<times> state) res" where
  "reconcile_dispatch_liveness st =
     (let (now, st1) = utc_now st
      in bindR (repair_dispatch now st1) (\<lambda>(changed, st2). settle_dispatch now changed st2))"

subsection \<open>Choosing the next entry\<close>

definition acquired_slots :: "state \<Rightarrow> slot list" where
  "acquired_slots st =
     concat (map (\<lambda>r. (r_session_id r, r_role r)
                      # (case r_current_phase r of None \<Rightarrow> [] | Some p \<Rightarrow> [(r_session_id r, p)]))
       (filter (\<lambda>r. r_lease_state r = LeaseAcquired) (dict_values (st_dispatch_runs st))))"

definition next_dispatch_readiness_entry :: "string \<Rightarrow> state \<Rightarrow> ((nat \<times> int \<times> string) option \<times> state) res" where
  "next_dispatch_readiness_entry session_id st =
     bindR (refresh_dispatch_readiness st) (\<lambda>(_, st1).
       let (now, st2) = now_instant st1;
           d = select_role_dispatch_readiness (st_dispatch_readiness st2) (st_goals st2) (st_sessions st2)
                 (acquired_slots st2) session_id now;
           st3 = (if sd_stale_indexes d = [] then st2
                  else let (stale_at, st') = utc_now st2 in
                    st'\<lparr>st_dispatch_readiness :=
                      fold (\<lambda>i es. es[i := (es ! i)\<lparr>rd_status := Stale, rd_ended_at := stale_at\<rparr>])
                        (sd_stale_indexes d) (st_dispatch_readiness st')\<rparr>)
       in Inr (case sd_readiness_index d of
                 None \<Rightarrow> (None, st3)
               | Some i \<Rightarrow> (Some (i, the (sd_score d), sd_reason d), st3)))"

subsection \<open>At most one ready entry per session and role\<close>

definition ready_slots :: "readiness list \<Rightarrow> slot list" where
  "ready_slots es = map entry_slot (filter (\<lambda>e. rd_status e = Ready) es)"

lemma ready_slots_simps [simp]:
  "ready_slots [] = []"
  "ready_slots (xs @ ys) = ready_slots xs @ ready_slots ys"
  "ready_slots (e # es) = (if rd_status e = Ready then entry_slot e # ready_slots es else ready_slots es)"
  by (simp_all add: ready_slots_def)

lemma mem_ready_slots: "k \<in> set (ready_slots es) \<longleftrightarrow> (\<exists>e \<in> set es. rd_status e = Ready \<and> entry_slot e = k)"
  by (auto simp: ready_slots_def)

lemma ready_slots_filter_live [simp]:
  "ready_slots (filter (\<lambda>e. live_status (rd_status e)) es) = ready_slots es"
  by (induction es) (auto simp: live_status_def)

lemma ready_slots_remove_first_split:
  assumes "c \<in> set es"
  obtains as bs where "es = as @ c # bs" "remove_first (\<lambda>x. x = c) es = as @ bs"
  using assms
proof (induction es arbitrary: thesis)
  case (Cons x es)
  show ?case
  proof (cases "x = c")
    case True
    then show ?thesis using Cons.prems(1) [of "[]" es] by simp
  next
    case False
    with Cons.prems(2) have "c \<in> set es" by auto
    then obtain as bs where "es = as @ c # bs" "remove_first (\<lambda>x. x = c) es = as @ bs"
      using Cons.IH by blast
    then show ?thesis using Cons.prems(1) [of "x # as" bs] False by simp
  qed
qed simp

text \<open>What the first loop keeps: \<open>by_key\<close> holds, for every slot, the one ready entry retained for it.\<close>

definition dedupe_inv :: "readiness list \<Rightarrow> readiness list \<times> (slot \<times> readiness) list \<Rightarrow> bool" where
  "dedupe_inv seen acc \<longleftrightarrow>
     (case acc of (retained, by_key) \<Rightarrow>
        set retained \<subseteq> set seen
        \<and> filter (\<lambda>e. rd_status e \<noteq> Ready) retained = filter (\<lambda>e. rd_status e \<noteq> Ready) seen
        \<and> distinct (ready_slots retained)
        \<and> (\<forall>k e. map_of by_key k = Some e \<longleftrightarrow> e \<in> set retained \<and> rd_status e = Ready \<and> entry_slot e = k)
        \<and> (\<forall>e \<in> set seen. rd_status e = Ready \<longrightarrow>
             (\<exists>e' \<in> set retained. rd_status e' = Ready \<and> entry_slot e' = entry_slot e
                \<and> rd_first_ready_at e' \<le> rd_first_ready_at e)))"

lemma dedupe_step_inv:
  assumes "dedupe_inv seen (retained, by_key)"
  shows "dedupe_inv (seen @ [e]) (deduplicate_step e (retained, by_key))"
proof -
  note inv = assms [unfolded dedupe_inv_def split]
  have keys: "map_of by_key k = Some x \<longleftrightarrow> x \<in> set retained \<and> rd_status x = Ready \<and> entry_slot x = k" for k x
    using inv by blast
  consider (other) "rd_status e \<noteq> Ready" | (new) "rd_status e = Ready" "map_of by_key (entry_slot e) = None"
    | (old) x where "rd_status e = Ready" "map_of by_key (entry_slot e) = Some x"
    by (cases "map_of by_key (entry_slot e)") auto
  then show ?thesis
  proof cases
    case other
    then show ?thesis using inv by (auto simp: dedupe_inv_def deduplicate_step_def)
  next
    case new
    have fresh: "\<And>x. x \<in> set retained \<Longrightarrow> rd_status x = Ready \<Longrightarrow> entry_slot x \<noteq> entry_slot e"
      using new(2) keys by (metis option.distinct(1))
    then have "entry_slot e \<notin> set (ready_slots retained)" unfolding mem_ready_slots by blast
    with fresh show ?thesis using inv new by (auto simp: dedupe_inv_def deduplicate_step_def)
  next
    case old
    have x: "x \<in> set retained" "rd_status x = Ready" "entry_slot x = entry_slot e" using keys old(2) by auto
    have only: "y = x" if "y \<in> set retained" "rd_status y = Ready" "entry_slot y = entry_slot e" for y
      using keys old(2) that by (metis option.inject)
    show ?thesis
    proof (cases "rd_first_ready_at e < rd_first_ready_at x")
      case False
      then have "rd_first_ready_at x \<le> rd_first_ready_at e" by simp
      then show ?thesis using inv old x False by (auto simp: dedupe_inv_def deduplicate_step_def)
    next
      case True
      obtain as bs where sp: "retained = as @ x # bs" "remove_first (\<lambda>y. y = x) retained = as @ bs"
        using ready_slots_remove_first_split [OF x(1)] by blast
      have d: "distinct (ready_slots (as @ x # bs))" using inv sp(1) by simp
      have out: "x \<notin> set (as @ bs)" "entry_slot e \<notin> set (ready_slots (as @ bs))"
        using d x(2,3) by (auto simp: mem_ready_slots)
      have mem: "y \<in> set (as @ bs) \<longleftrightarrow> y \<in> set retained \<and> y \<noteq> x" for y using out(1) sp(1) by auto
      have step: "deduplicate_step e (retained, by_key) = (as @ bs @ [e], AList.update (entry_slot e) e by_key)"
        using old True sp(2) by (simp add: deduplicate_step_def)
      have k': "map_of (AList.update (entry_slot e) e by_key) k = Some y \<longleftrightarrow>
          y \<in> set (as @ bs @ [e]) \<and> rd_status y = Ready \<and> entry_slot y = k" for k y
        using keys [of k y] only mem [of y] old(1) x(3) by auto
      have old_seen: "\<exists>e' \<in> set (as @ bs @ [e]). rd_status e' = Ready \<and> entry_slot e' = entry_slot y
          \<and> rd_first_ready_at e' \<le> rd_first_ready_at y" if y: "y \<in> set (seen @ [e])" "rd_status y = Ready" for y
      proof (cases "y = e")
        case False
        with y inv obtain z where z: "z \<in> set retained" "rd_status z = Ready" "entry_slot z = entry_slot y"
            "rd_first_ready_at z \<le> rd_first_ready_at y" by auto
        show ?thesis
        proof (cases "z = x")
          case True
          have "rd_first_ready_at e \<le> rd_first_ready_at y"
            using \<open>rd_first_ready_at e < rd_first_ready_at x\<close> z(4) True by simp
          then show ?thesis using old(1) x(3) z(3) True by auto
        next
          case False
          then show ?thesis using mem [of z] z by auto
        qed
      qed (use y in auto)
      have c1: "filter (\<lambda>e. rd_status e \<noteq> Ready) (as @ bs @ [e]) = filter (\<lambda>e. rd_status e \<noteq> Ready) (seen @ [e])"
        using inv sp(1) x(2) old(1) by simp
      have c2: "set (as @ bs @ [e]) \<subseteq> set (seen @ [e])" using inv mem by auto
      have c3: "distinct (ready_slots (as @ bs @ [e]))" using d out(2) old(1) by (auto split: if_splits)
      show ?thesis unfolding step dedupe_inv_def split
        by (intro conjI allI ballI impI c1 c2 c3 k' old_seen)
    qed
  qed
qed

lemma dedupe_fold_inv: "dedupe_inv seen acc \<Longrightarrow> dedupe_inv (seen @ es) (fold deduplicate_step es acc)"
proof (induction es arbitrary: seen acc)
  case (Cons e es)
  have "dedupe_inv (seen @ [e]) (deduplicate_step e acc)"
    using Cons.prems dedupe_step_inv by (cases acc) auto
  from Cons.IH [OF this] show ?case by simp
qed simp

lemma deduplicate_ready_entries_inv:
  "\<exists>by_key. dedupe_inv es (deduplicate_ready_entries es, by_key)"
  using dedupe_fold_inv [of "[]" "([], [])" es]
  by (cases "fold deduplicate_step es ([], [])")
     (auto simp: deduplicate_ready_entries_def dedupe_inv_def)

lemma deduplicate_facts:
  "set (deduplicate_ready_entries es) \<subseteq> set es"
  "distinct (ready_slots (deduplicate_ready_entries es))"
  "filter (\<lambda>e. rd_status e \<noteq> Ready) (deduplicate_ready_entries es) = filter (\<lambda>e. rd_status e \<noteq> Ready) es"
  "e \<in> set es \<Longrightarrow> rd_status e = Ready \<Longrightarrow>
     \<exists>e' \<in> set (deduplicate_ready_entries es). rd_status e' = Ready \<and> entry_slot e' = entry_slot e
       \<and> rd_first_ready_at e' \<le> rd_first_ready_at e"
proof -
  obtain by_key where "dedupe_inv es (deduplicate_ready_entries es, by_key)"
    using deduplicate_ready_entries_inv by blast
  note inv = this [unfolded dedupe_inv_def split]
  show "set (deduplicate_ready_entries es) \<subseteq> set es"
    "distinct (ready_slots (deduplicate_ready_entries es))"
    "filter (\<lambda>e. rd_status e \<noteq> Ready) (deduplicate_ready_entries es) = filter (\<lambda>e. rd_status e \<noteq> Ready) es"
    using inv by blast+
  show "e \<in> set es \<Longrightarrow> rd_status e = Ready \<Longrightarrow>
     \<exists>e' \<in> set (deduplicate_ready_entries es). rd_status e' = Ready \<and> entry_slot e' = entry_slot e
       \<and> rd_first_ready_at e' \<le> rd_first_ready_at e"
    using inv by blast
qed

subsection \<open>Reconciling one slot\<close>

definition ready_unique :: "state \<Rightarrow> bool" where
  "ready_unique st \<longleftrightarrow> distinct (ready_slots (st_dispatch_readiness st))"

lemma ready_for_slot: "ready_for sid role e \<longleftrightarrow> rd_status e = Ready \<and> entry_slot e = (sid, role)"
  by (auto simp: ready_for_def entry_slot_def)

lemma update_first_slots:
  assumes "\<And>e. rd_status (f e) = rd_status e" "\<And>e. entry_slot (f e) = entry_slot e"
  shows "ready_slots (update_first p f es) = ready_slots es"
  by (induction es) (auto simp: assms)

lemma set_update_first: "e \<in> set (update_first p f es) \<Longrightarrow> e \<in> set es \<or> (\<exists>x \<in> set es. p x \<and> e = f x)"
  by (induction es) (auto split: if_splits)

lemma update_first_mem: "x \<in> set es \<Longrightarrow> \<not> p x \<Longrightarrow> x \<in> set (update_first p f es)"
  by (induction es) auto

lemma update_first_hits: "\<exists>x \<in> set es. p x \<Longrightarrow> \<exists>x \<in> set es. p x \<and> f x \<in> set (update_first p f es)"
  by (induction es) auto

lemma ready_slots_remove_first:
  "distinct (ready_slots es) \<Longrightarrow> distinct (ready_slots (remove_first p es))"
  "set (ready_slots (remove_first p es)) \<subseteq> set (ready_slots es)"
  by (induction es) auto

lemma reconcile_ready_entry_cases:
  obtains (removed) q where "derived = None" "reconcile_ready_entry g role derived st
        = st\<lparr>st_dispatch_readiness := remove_first q (st_dispatch_readiness st)\<rparr>"
      "\<And>x. q x \<Longrightarrow> ready_for (g_session_id g) role x"
  | (added) f n u e where "derived = Some f" "rd_status e = Ready" "rd_session_id e = g_session_id g"
      "rd_goal_id e = g_goal_id g" "rd_role e = role" "rd_observed_to_seq e = rdr_observed_to_seq f"
      "rd_from_log_seq e = rdr_from_log_seq f" "rd_available_after e = rdr_available_after f"
      "st_uid st \<le> u" "(g_session_id g, role) \<notin> set (ready_slots (st_dispatch_readiness st))"
      "reconcile_ready_entry g role derived st = st\<lparr>st_ticks := n, st_uid := u,
         st_dispatch_readiness := st_dispatch_readiness st @ [e]\<rparr>"
  | (updated) f n h where "derived = Some f" "\<And>e. rd_status (h e) = rd_status e"
      "\<And>e. entry_slot (h e) = entry_slot e" "\<And>e. rd_goal_id (h e) = g_goal_id g"
      "\<And>e. rd_observed_to_seq (h e) = rdr_observed_to_seq f"
      "\<exists>x \<in> set (st_dispatch_readiness st). ready_for (g_session_id g) role x"
      "reconcile_ready_entry g role derived st = st\<lparr>st_ticks := n,
         st_dispatch_readiness := update_first (ready_for (g_session_id g) role) h (st_dispatch_readiness st)\<rparr>"
proof (cases derived)
  case None
  show ?thesis
  proof (cases "List.find (ready_for (g_session_id g) role) (st_dispatch_readiness st)")
    case None': None
    have "remove_first (\<lambda>x. False) es = es" for es :: "readiness list" by (induction es) auto
    with None None' show ?thesis
      by (intro removed [where q = "\<lambda>x. False"]) (simp_all add: reconcile_ready_entry_def)
  next
    case (Some c)
    with None show ?thesis
      by (intro removed [where q = "\<lambda>x. x = c"]) (auto simp: reconcile_ready_entry_def dest: find_Some_mem)
  qed
next
  case (Some f)
  show ?thesis
  proof (cases "List.find (ready_for (g_session_id g) role) (st_dispatch_readiness st)")
    case None
    then have "(g_session_id g, role) \<notin> set (ready_slots (st_dispatch_readiness st))"
      by (auto simp: find_None_iff mem_ready_slots ready_for_slot)
    with Some None show ?thesis
      by (intro added) (auto simp: reconcile_ready_entry_def utc_now_def new_id_def)
  next
    case (Some c)
    with \<open>derived = Some f\<close> show ?thesis
      by (intro updated) (auto simp: reconcile_ready_entry_def utc_now_def entry_slot_def dest: find_Some_mem)
  qed
qed

subsection \<open>What the readiness list promises\<close>

text \<open>Deduplication keeps the earliest claim: afterwards every slot (session and role) has at most
  one ready entry, entries that are not ready are untouched and keep their order, nothing new
  appears, and every ready entry that was there is represented by one for its slot that became ready
  no later.\<close>

theorem deduplicate_keeps_earliest:
  "distinct (ready_slots (deduplicate_ready_entries es))
   \<and> filter (\<lambda>e. rd_status e \<noteq> Ready) (deduplicate_ready_entries es) = filter (\<lambda>e. rd_status e \<noteq> Ready) es
   \<and> set (deduplicate_ready_entries es) \<subseteq> set es
   \<and> {e \<in> set es. rd_status e = Ready \<and> \<not> (\<exists>e' \<in> set (deduplicate_ready_entries es).
        rd_status e' = Ready \<and> entry_slot e' = entry_slot e
        \<and> rd_first_ready_at e' \<le> rd_first_ready_at e)} = {}"
  using deduplicate_facts(1-3) [of es] deduplicate_facts(4) [of _ es] by blast

end
