(* ===== verification/Schedules.thy ===== *)
theory Schedules
  imports Evolution
begin

section \<open>Schedules: resolvers and the next run of a Unit\<close>

text \<open>
  src/src/goal/schedules.py and the schedule operations of src/src/goal/sessions.py. A resolver
  maps the Unit's fixed parameters and the runtime parameters of a call to the text of a
  timestamp. Parameters are JSON objects; a value under one of the keys read here is a text, an
  integer or a boolean. The boundary search of \<open>next_interval_boundary\<close> is written as the loop it
  is and shown to compute the least boundary after the completion.
\<close>

subsection \<open>Parameters as numbers and text\<close>

text \<open>\<open>int(s)\<close> for a text: an optional sign and digits, with single underscores between digits.\<close>

fun int_digits :: "nat \<Rightarrow> string \<Rightarrow> nat option" where
  "int_digits acc [] = Some acc"
| "int_digits acc (c # cs) =
     (if py_isdigit c then int_digits (10 * acc + (of_char c - 48)) cs
      else if c = CHR ''_'' then
        (case cs of d # ds \<Rightarrow> if py_isdigit d then int_digits (10 * acc + (of_char d - 48)) ds else None
         | [] \<Rightarrow> None)
      else None)"

definition int_body :: "string \<Rightarrow> nat option" where
  "int_body s = (case s of c # cs \<Rightarrow> if py_isdigit c then int_digits 0 s else None | [] \<Rightarrow> None)"

definition py_int :: "string \<Rightarrow> int option" where
  "py_int s =
     (case py_strip s of
        c # cs \<Rightarrow>
          if c = CHR ''-'' then map_option (\<lambda>n. - int n) (int_body cs)
          else if c = CHR ''+'' then map_option int (int_body cs)
          else map_option int (int_body (c # cs))
      | [] \<Rightarrow> None)"

text \<open>\<open>int(d.get(k) or 0)\<close> and \<open>str(d.get(k) or "")\<close>.\<close>

definition jint :: "jobject \<Rightarrow> string \<Rightarrow> int res" where
  "jint d k =
     (case map_of d k of
        Some (JInt i) \<Rightarrow> Inr i
      | Some (JBool b) \<Rightarrow> Inr (if b then 1 else 0)
      | Some (JStr s) \<Rightarrow>
          if s = [] then Inr 0
          else (case py_int s of
                  Some i \<Rightarrow> Inr i
                | None \<Rightarrow> Inl (ValueError (''invalid literal for int() with base 10: '' @ s)))
      | _ \<Rightarrow> Inr 0)"

definition jtext :: "jobject \<Rightarrow> string \<Rightarrow> string" where
  "jtext d k =
     (case map_of d k of
        Some (JStr s) \<Rightarrow> s
      | Some (JInt i) \<Rightarrow> if i = 0 then [] else dec_int i
      | Some (JBool b) \<Rightarrow> if b then ''True'' else []
      | _ \<Rightarrow> [])"

definition jobj :: "jobject \<Rightarrow> string \<Rightarrow> jobject" where
  "jobj d k = (case map_of d k of Some (JObj o') \<Rightarrow> o' | _ \<Rightarrow> [])"

subsection \<open>Resolvers\<close>

text \<open>\<open>_parse_utc\<close> of schedules.py; \<open>local\<close> is the machine's time zone, which a naive text is read in.\<close>

definition resolver_parse_utc :: "(instant \<Rightarrow> instant) \<Rightarrow> string \<Rightarrow> instant res" where
  "resolver_parse_utc local value =
     (case fromisoformat (replace_Z value) of
        None \<Rightarrow> Inl (ScheduleResolverError (''invalid UTC timestamp: '' @ value))
      | Some dt \<Rightarrow> astimezone_utc local dt)"

definition explicit_next_run_at :: "jobject \<Rightarrow> jobject \<Rightarrow> string res" where
  "explicit_next_run_at unit_parameters runtime_parameters =
     (let next_run_at = py_strip (jtext (jobj runtime_parameters ''call_parameters'') ''next_run_at'') in
      if next_run_at = [] then
        Inl (ScheduleResolverError ''explicit resolver requires call parameter next_run_at'')
      else Inr next_run_at)"

text \<open>The loop \<open>while candidate <= completed: candidate += interval\<close>; its caller has checked that
  the interval is positive. Adding past year 9999 raises.\<close>

function boundary_search :: "int \<Rightarrow> instant \<Rightarrow> instant \<Rightarrow> instant res" where
  "boundary_search interval completed candidate =
     (if candidate \<le> completed \<and> 0 < interval then
        (if candidate + interval > max_instant then Inl (OverflowError ''date value out of range'')
         else boundary_search interval completed (candidate + interval))
      else Inr candidate)"
  by pat_completeness auto
termination
  by (relation "measure (\<lambda>(interval, completed, candidate). nat (completed + 1 - candidate))") auto

declare boundary_search.simps [simp del]

definition max_timedelta_seconds :: int where
  "max_timedelta_seconds = 86399999999999"

definition next_interval_boundary :: "(instant \<Rightarrow> instant) \<Rightarrow> jobject \<Rightarrow> jobject \<Rightarrow> string res" where
  "next_interval_boundary local unit_parameters runtime_parameters =
     bindR (jint unit_parameters ''interval_seconds'') (\<lambda>interval_seconds.
       if interval_seconds < 1 then
         Inl (ScheduleResolverError ''next_interval_boundary requires positive interval_seconds'')
       else
         let anchor0 = jtext unit_parameters ''anchor'';
             anchor_name = py_strip (if anchor0 = [] then ''scheduled_for'' else anchor0);
             anchor_value = py_strip (jtext runtime_parameters anchor_name);
             completed_at = py_strip (jtext runtime_parameters ''completed_at'')
         in if anchor_value = [] then
              Inl (ScheduleResolverError (''runtime parameter is required: '' @ anchor_name))
            else if completed_at = [] then
              Inl (ScheduleResolverError ''runtime parameter is required: completed_at'')
            else
              bindR (resolver_parse_utc local anchor_value) (\<lambda>candidate.
              bindR (resolver_parse_utc local completed_at) (\<lambda>completed.
                if interval_seconds > max_timedelta_seconds then
                  Inl (OverflowError ''days=%d; must have magnitude <= 999999999'')
                else
                  bindR (boundary_search (interval_seconds * 1000000) completed candidate)
                    (\<lambda>boundary. Inr (iso_utc boundary)))))"

definition schedule_resolver ::
  "(instant \<Rightarrow> instant) \<Rightarrow> string \<Rightarrow> (jobject \<Rightarrow> jobject \<Rightarrow> string res) option" where
  "schedule_resolver local name =
     (if name = ''explicit'' then Some explicit_next_run_at
      else if name = ''next_interval_boundary'' then Some (next_interval_boundary local)
      else None)"

definition resolve_next_run_at :: "(instant \<Rightarrow> instant) \<Rightarrow> string \<Rightarrow> jobject \<Rightarrow> jobject \<Rightarrow> string res" where
  "resolve_next_run_at local resolver_name unit_parameters runtime_parameters =
     (case schedule_resolver local (py_strip resolver_name) of
        None \<Rightarrow> Inl (ScheduleResolverError (''unknown schedule resolver: '' @ resolver_name))
      | Some resolver \<Rightarrow>
          bindR (resolver unit_parameters runtime_parameters) (\<lambda>text.
          bindR (resolver_parse_utc local text) (\<lambda>t. Inr (iso_utc t))))"

text \<open>What the loop computes: the first boundary after the completion, counted from the anchor.\<close>

definition boundary_spec :: "int \<Rightarrow> instant \<Rightarrow> instant \<Rightarrow> instant" where
  "boundary_spec interval completed anchor =
     (if completed < anchor then anchor
      else anchor + ((completed - anchor) div interval + 1) * interval)"

lemma boundary_spec_step:
  assumes "0 < interval" "anchor \<le> completed"
  shows "boundary_spec interval completed (anchor + interval) = boundary_spec interval completed anchor"
proof (cases "completed < anchor + interval")
  case True
  then have "(completed - anchor) div interval = 0" using assms by (simp add: div_pos_pos_trivial)
  then show ?thesis using assms True by (simp add: boundary_spec_def)
next
  case False
  have "(completed - anchor) div interval = (completed - anchor - interval) div interval + 1"
    using assms(1) div_add_self2 [of interval "completed - anchor - interval"] by simp
  then show ?thesis using assms False by (simp add: boundary_spec_def algebra_simps)
qed

lemma boundary_spec_after: "0 < interval \<Longrightarrow> completed < boundary_spec interval completed anchor"
proof -
  assume i: "0 < interval"
  have "(completed - anchor) div interval * interval = completed - anchor - (completed - anchor) mod interval"
    by (simp add: minus_mod_eq_div_mult)
  moreover have "(completed - anchor) mod interval < interval" using i by simp
  ultimately have "completed - anchor < ((completed - anchor) div interval + 1) * interval"
    by (simp add: distrib_right)
  then show ?thesis by (simp add: boundary_spec_def)
qed

lemma boundary_search_spec:
  assumes "0 < interval" "anchor \<le> max_instant"
  shows "boundary_search interval completed anchor =
    (if boundary_spec interval completed anchor \<le> max_instant
     then Inr (boundary_spec interval completed anchor)
     else Inl (OverflowError ''date value out of range''))"
  using assms
proof (induction interval completed anchor rule: boundary_search.induct)
  case (1 interval completed anchor)
  show ?case
  proof (cases "anchor \<le> completed")
    case True
    have "boundary_spec interval completed anchor \<ge> anchor + interval"
      using True 1 by (simp add: boundary_spec_def algebra_simps pos_imp_zdiv_nonneg_iff)
    then show ?thesis
      using True 1 boundary_spec_step [of interval anchor completed]
      by (subst boundary_search.simps) auto
  next
    case False
    then show ?thesis using 1 by (subst boundary_search.simps) (simp add: boundary_spec_def)
  qed
qed

subsection \<open>A Unit's schedule and triggers\<close>

text \<open>
  \<open>_normalize_unit_schedule\<close>: the raw schedule is a schedule record together with the value of the
  key \<open>every_hours\<close>, which only raw schedules have; no schedule is \<open>{}\<close>.
\<close>

definition normalize_unit_schedule :: "schedule option \<Rightarrow> int \<Rightarrow> state \<Rightarrow> schedule option res" where
  "normalize_unit_schedule raw every_hours st =
     (case raw of
        None \<Rightarrow> Inr None
      | Some sch \<Rightarrow>
          let next_run_at = py_strip (sch_next_run_at sch);
              resolver0 = py_strip (if sch_resolver sch = [] then ''explicit'' else sch_resolver sch);
              hourly = (every_hours \<noteq> 0 \<and> resolver0 = ''explicit'');
              resolver = (if hourly then ''next_interval_boundary'' else resolver0);
              fixed = (if hourly then [(''interval_seconds'', JInt (every_hours * 3600)), (''anchor'', JStr ''scheduled_for'')]
                       else sch_fixed_parameters sch);
              normalized = sch\<lparr>sch_next_run_at := next_run_at, sch_note := py_strip (sch_note sch),
                               sch_resolver := resolver, sch_fixed_parameters := fixed\<rparr>
          in bindR (if sch_enabled sch \<and> next_run_at \<noteq> [] then map_sum id (\<lambda>_. ()) (parse_utc st next_run_at)
                    else Inr ()) (\<lambda>_.
             if resolver \<noteq> ''explicit'' \<and> resolver \<noteq> ''next_interval_boundary'' then
               Inl (StoreError (''unknown schedule resolver: '' @ resolver))
             else Inr (Some normalized)))"

definition schedule_enabled :: "schedule option \<Rightarrow> bool" where
  "schedule_enabled s = (case s of None \<Rightarrow> False | Some sch \<Rightarrow> sch_enabled sch)"

definition normalize_unit_activation_triggers :: "bool dict \<Rightarrow> schedule option \<Rightarrow> triggers res" where
  "normalize_unit_activation_triggers raw sch =
     (let normalized =
        (if raw = [] then \<lparr>tr_manual = True, tr_scheduled = schedule_enabled sch, tr_startup = False\<rparr>
         else \<lparr>tr_manual = dict_get False raw ''manual'',
               tr_scheduled = (if schedule_enabled sch \<and> map_of raw ''scheduled'' = None then True
                               else dict_get False raw ''scheduled''),
               tr_startup = dict_get False raw ''startup''\<rparr>)
      in if \<not> (tr_manual normalized \<or> tr_scheduled normalized \<or> tr_startup normalized) then
           Inl (StoreError ''unit must allow at least one activation trigger'')
         else Inr normalized)"

definition trigger_value :: "triggers \<Rightarrow> string \<Rightarrow> bool" where
  "trigger_value t trigger =
     (if trigger = ''manual'' then tr_manual t else if trigger = ''scheduled'' then tr_scheduled t
      else tr_startup t)"

text \<open>A Unit without triggers gets the default ones when it is first asked.\<close>

definition unit_activation_trigger_enabled :: "string \<Rightarrow> string \<Rightarrow> state \<Rightarrow> (bool \<times> state) res" where
  "unit_activation_trigger_enabled unit_id trigger st =
     (if trigger \<notin> {''manual'', ''scheduled'', ''startup''} then
        Inl (StoreError (''unsupported unit activation trigger: '' @ trigger))
      else case map_of (st_units st) unit_id of
        None \<Rightarrow> Inl (KeyError unit_id)
      | Some u \<Rightarrow>
          (case un_activation_triggers u of
             Some t \<Rightarrow> Inr (trigger_value t trigger, st)
           | None \<Rightarrow>
               bindR (normalize_unit_activation_triggers [] (un_schedule u)) (\<lambda>t.
                 Inr (trigger_value t trigger, upd_unit unit_id (\<lambda>u. u\<lparr>un_activation_triggers := Some t\<rparr>) st))))"

definition unit_schedule_due :: "state \<Rightarrow> unit_rec \<Rightarrow> instant \<Rightarrow> bool res" where
  "unit_schedule_due st u now_dt =
     (case un_schedule u of
        None \<Rightarrow> Inr False
      | Some sch \<Rightarrow>
          if \<not> sch_enabled sch then Inr False
          else
            let next_run_at = py_strip (sch_next_run_at sch) in
            if next_run_at = [] then Inr False
            else bindR (parse_utc st next_run_at) (\<lambda>t. Inr (t \<le> now_dt)))"

definition empty_timing :: schedule_timing where
  "empty_timing = \<lparr>tm_scheduled_for = [], tm_queued_at = [], tm_started_at = [], tm_completed_at = []\<rparr>"

definition timing_of :: "session \<Rightarrow> schedule_timing" where
  "timing_of s = (case s_schedule_timing s of None \<Rightarrow> empty_timing | Some t \<Rightarrow> t)"

definition upd_timing :: "(schedule_timing \<Rightarrow> schedule_timing) \<Rightarrow> session \<Rightarrow> session" where
  "upd_timing f s = s\<lparr>s_schedule_timing := Some (f (timing_of s))\<rparr>"

definition backfill_unit_schedule_timing :: "schedule \<Rightarrow> state \<Rightarrow> state res" where
  "backfill_unit_schedule_timing sch st =
     (if sch_resolver sch \<noteq> ''next_interval_boundary'' then Inr st
      else
        bindR (jint (sch_fixed_parameters sch) ''interval_seconds'') (\<lambda>interval_seconds.
          let next_run_at = py_strip (sch_next_run_at sch);
              session_id = py_strip (case sch_next_run_set_by_session_id sch of None \<Rightarrow> [] | Some s \<Rightarrow> s)
          in case get_session st session_id of
               None \<Rightarrow> Inr st
             | Some session \<Rightarrow>
                 if interval_seconds < 1 \<or> next_run_at = [] then Inr st
                 else
                   let st1 = upd_session session_id (upd_timing id) st in
                   if tm_scheduled_for (timing_of session) \<noteq> [] then Inr st1
                   else
                     bindR (parse_utc st next_run_at) (\<lambda>t.
                       let previous_boundary = t - interval_seconds * 1000000 in
                       if previous_boundary < min_instant then Inl (ValueError ''year is out of range'')
                       else Inr (upd_session session_id
                              (upd_timing (\<lambda>tm. tm\<lparr>tm_scheduled_for := iso_utc previous_boundary\<rparr>)) st1))))"

definition blank_schedule :: schedule where
  "blank_schedule =
     \<lparr>sch_enabled = False, sch_next_run_at = [], sch_note = [], sch_resolver = [], sch_fixed_parameters = [],
      sch_last_run_at = None, sch_next_run_required_by = None, sch_next_run_note = None,
      sch_next_run_set_by_session_id = None, sch_next_run_set_by_run_id = None, sch_next_run_set_at = None,
      sch_last_resolution = None\<rparr>"

definition trigger_dict :: "triggers option \<Rightarrow> bool dict" where
  "trigger_dict t =
     (case t of None \<Rightarrow> []
      | Some t \<Rightarrow> [(''manual'', tr_manual t), (''scheduled'', tr_scheduled t), (''startup'', tr_startup t)])"

definition configure_unit_schedule ::
  "string \<Rightarrow> string \<Rightarrow> jobject \<Rightarrow> string option \<Rightarrow> string option \<Rightarrow> bool \<Rightarrow> state \<Rightarrow> state res" where
  "configure_unit_schedule unit_id resolver fixed_parameters next_run_at note enabled st =
     (case map_of (st_units st) unit_id of
        None \<Rightarrow> Inl (StoreError (''unknown unit: '' @ unit_id))
      | Some u \<Rightarrow>
          let existing = (case un_schedule u of None \<Rightarrow> blank_schedule | Some s \<Rightarrow> s);
              sch = existing\<lparr>sch_enabled := enabled, sch_resolver := py_strip resolver,
                             sch_fixed_parameters := fixed_parameters, sch_last_resolution := None\<rparr>;
              sch1 = (case next_run_at of None \<Rightarrow> sch | Some t \<Rightarrow> sch\<lparr>sch_next_run_at := py_strip t\<rparr>);
              sch2 = (case note of None \<Rightarrow> sch1 | Some n \<Rightarrow> sch1\<lparr>sch_note := py_strip n\<rparr>)
          in bindR (normalize_unit_schedule (Some sch2) 0 st) (\<lambda>normalized.
             bindR (case normalized of None \<Rightarrow> Inr st | Some s \<Rightarrow> backfill_unit_schedule_timing s st) (\<lambda>st1.
             bindR (normalize_unit_activation_triggers
                      (AList.update ''scheduled'' enabled (trigger_dict (un_activation_triggers u))) normalized) (\<lambda>t.
               let (now, st2) = utc_now st1 in
               save (upd_unit unit_id (\<lambda>u. u\<lparr>un_schedule := normalized, un_activation_triggers := Some t,
                                            un_updated_at := now\<rparr>) st2)))))"

subsection \<open>The next run of a scheduled Unit\<close>

definition runtime_actor_allowed :: "state \<Rightarrow> string \<Rightarrow> string \<Rightarrow> role \<Rightarrow> bool" where
  "runtime_actor_allowed st actor run_id role \<longleftrightarrow>
     normalize_agent_role actor = role_name role
     \<or> run_id \<noteq> [] \<and> (case get_run st run_id of
          None \<Rightarrow> False
        | Some r \<Rightarrow> r_agent_user r \<noteq> [] \<and> r_agent_user r = py_strip actor)"

definition first_run_start :: "state \<Rightarrow> string \<Rightarrow> string" where
  "first_run_start st session_id =
     (case sort (map r_lease_acquired_at (filter (\<lambda>r. r_session_id r = session_id \<and> r_lease_acquired_at r \<noteq> [])
              (dict_values (st_dispatch_runs st)))) of
        [] \<Rightarrow> [] | s # _ \<Rightarrow> s)"

definition schedule_runtime_parameters :: "state \<Rightarrow> session \<Rightarrow> string \<Rightarrow> jobject \<Rightarrow> bool \<Rightarrow> jobject" where
  "schedule_runtime_parameters st session completed_at call_parameters completion_is_provisional =
     (let session_id = s_session_id session;
          timing = timing_of session;
          started_at = (if tm_started_at timing = [] then first_run_start st session_id else tm_started_at timing)
      in [(''session_id'', JStr session_id), (''unit_id'', JStr (s_unit_id session)),
          (''scheduled_for'', JStr (tm_scheduled_for timing)), (''queued_at'', JStr (tm_queued_at timing)),
          (''started_at'', JStr started_at), (''completed_at'', JStr completed_at),
          (''completion_is_provisional'', JBool completion_is_provisional),
          (''call_parameters'', JObj call_parameters)])"

definition store_error :: "'a res \<Rightarrow> 'a res" where
  "store_error r = (case r of Inl (ScheduleResolverError e) \<Rightarrow> Inl (StoreError e) | _ \<Rightarrow> r)"

definition set_next_run :: "string \<Rightarrow> string \<Rightarrow> string \<Rightarrow> string \<Rightarrow> string \<Rightarrow> jobject \<Rightarrow> schedule \<Rightarrow> schedule" where
  "set_next_run next note session_id run_id resolved_at resolution sch =
     sch\<lparr>sch_next_run_at := next, sch_next_run_note := Some note,
         sch_next_run_set_by_session_id := Some session_id, sch_next_run_set_by_run_id := Some run_id,
         sch_next_run_set_at := Some resolved_at, sch_last_resolution := Some resolution,
         sch_next_run_required_by := None\<rparr>"

definition next_run_update :: "string \<Rightarrow> string \<Rightarrow> string \<Rightarrow> string \<Rightarrow> string \<Rightarrow> jobject \<Rightarrow> unit_rec \<Rightarrow> unit_rec" where
  "next_run_update nxt note session_id run_id resolved_at resolution u =
     u\<lparr>un_schedule := map_option (set_next_run nxt note session_id run_id resolved_at resolution) (un_schedule u),
       un_updated_at := resolved_at\<rparr>"

text \<open>The checks of \<open>_schedule_next_unit_run_locked\<close>: the session and the enabled schedule of its Unit.\<close>

definition scheduled_session :: "string \<Rightarrow> string \<Rightarrow> string \<Rightarrow> state \<Rightarrow> (session \<times> schedule) res" where
  "scheduled_session session_id actor run_id st =
     (case get_session st session_id of
        None \<Rightarrow> Inl (StoreError (''unknown session: '' @ session_id))
      | Some session \<Rightarrow>
          if \<not> runtime_actor_allowed st actor run_id GoalManager then
            Inl (StoreError ''only GoalManager may set a Scheduled Unit next run time'')
          else if s_unit_id session = [] then Inl (StoreError ''session is not owned by a Unit'')
          else case map_of (st_units st) (s_unit_id session) of
            None \<Rightarrow> Inl (StoreError (''session references unknown unit: '' @ s_unit_id session))
          | Some u \<Rightarrow>
              (case un_schedule u of
                 None \<Rightarrow> Inl (StoreError (''unit is not scheduled: '' @ s_unit_id session))
               | Some sch \<Rightarrow>
                   if \<not> sch_enabled sch then Inl (StoreError (''unit is not scheduled: '' @ s_unit_id session))
                   else Inr (session, sch)))"

definition schedule_next_unit_run_locked ::
  "string \<Rightarrow> jobject \<Rightarrow> string \<Rightarrow> string \<Rightarrow> string \<Rightarrow> bool \<Rightarrow> state \<Rightarrow> (message \<times> state) res" where
  "schedule_next_unit_run_locked session_id call_parameters actor run_id completed_at provisional st =
     bindR (scheduled_session session_id actor run_id st) (\<lambda>(session, sch).
       let params = schedule_runtime_parameters st session completed_at call_parameters provisional;
           resolver = (if sch_resolver sch = [] then ''explicit'' else sch_resolver sch);
           note = py_strip (jtext call_parameters ''note'')
       in bindR (store_error (resolve_next_run_at (st_local_zone st) resolver (sch_fixed_parameters sch) params))
            (\<lambda>normalized_next.
          bindR (parse_utc st normalized_next) (\<lambda>parsed_next.
          let (resolved_at, st1) = utc_now st in
          bindR (parse_utc st (if completed_at = [] then resolved_at else completed_at)) (\<lambda>comparison.
            if parsed_next \<le> comparison then Inl (StoreError ''next_run_at must be in the future'')
            else
              let resolution = [(''resolver'', JStr resolver), (''unit_parameters'', JObj (sch_fixed_parameters sch)),
                                (''runtime_parameters'', JObj params), (''next_run_at'', JStr normalized_next)];
                  st2 = upd_unit (s_unit_id session)
                          (next_run_update normalized_next note session_id run_id resolved_at resolution) st1
              in bindR (normalize_endpoint (role_name GoalManager) session_id) (\<lambda>from_ep.
                   append_session_message_locked session_id from_ep (session_endpoint session_id)
                     (empty_payload\<lparr>pl_body := ''Scheduled Unit next_run_at set to '' @ normalized_next @ ''.'',
                        pl_schedule_update := True, pl_run_id := run_id,
                        pl_extra := (''unit_id'', JStr (s_unit_id session)) # (''note'', JStr note) # resolution\<rparr>)
                     resolved_at st2)))))"

definition schedule_next_unit_run_from_session ::
  "string \<Rightarrow> jobject \<Rightarrow> string \<Rightarrow> string \<Rightarrow> state \<Rightarrow> (message \<times> state) res" where
  "schedule_next_unit_run_from_session session_id call_parameters actor run_id st =
     (let (now, st1) = utc_now st in
      bindR (schedule_next_unit_run_locked session_id call_parameters actor run_id now True st1) (\<lambda>(m, st2).
      bindR (save st2) (\<lambda>st3. Inr (m, st3))))"

definition set_next_unit_run_at_from_session ::
  "string \<Rightarrow> string \<Rightarrow> string \<Rightarrow> string \<Rightarrow> string \<Rightarrow> state \<Rightarrow> (message \<times> state) res" where
  "set_next_unit_run_at_from_session session_id next_run_at note actor run_id st =
     schedule_next_unit_run_from_session session_id
       [(''next_run_at'', JStr next_run_at), (''note'', JStr note)] actor run_id st"

subsection \<open>What the schedule operations do\<close>

lemma append_session_message_keeps:
  assumes "append_session_message_locked sid f t p c st = Inr (m, st')"
  shows "st_units st' = st_units st" "st_local_zone st' = st_local_zone st" "st_goals st' = st_goals st"
    "st_dispatch_runs st' = st_dispatch_runs st" "st_dispatch_readiness st' = st_dispatch_readiness st"
    "st_users st' = st_users st" "st_session_edges st' = st_session_edges st"
    "st_agent_profiles st' = st_agent_profiles st" "st_agent_threads st' = st_agent_threads st"
    "st_clock st' = st_clock st" "m_payload m = p" "m_from m = f" "m_to m = t"
    "c \<noteq> [] \<Longrightarrow> m_created_at m = c" "m_message_id m = id_of ''msg'' (st_uid st)"
    "get_session st sid \<noteq> None"
  using assms
  by (cases "c = []"; auto simp: append_session_message_locked_def make_message_def new_id_def utc_now_def
      Let_def case_prod_beta upd_session_def split: if_splits)+

lemma guard_Inr_iff: "((if c then Inl e else x) = Inr y) \<longleftrightarrow> \<not> c \<and> x = Inr y"
  by simp

lemma scheduled_session_iff:
  "scheduled_session sid actor rid st = Inr (session, sch) \<longleftrightarrow>
     get_session st sid = Some session \<and> runtime_actor_allowed st actor rid GoalManager \<and> s_unit_id session \<noteq> []
     \<and> (\<exists>u. map_of (st_units st) (s_unit_id session) = Some u \<and> un_schedule u = Some sch) \<and> sch_enabled sch"
  by (auto simp: scheduled_session_def split: option.splits)

lemma schedule_next_cases:
  assumes "schedule_next_unit_run_locked sid call actor rid completed prov st = Inr (m, st')"
  obtains session sch nxt t c from_ep p nt res where
    "scheduled_session sid actor rid st = Inr (session, sch)"
    "parse_utc st nxt = Inr t" "parse_utc st (if completed = [] then fst (utc_now st) else completed) = Inr c" "c < t"
    "append_session_message_locked sid from_ep (session_endpoint sid) p (fst (utc_now st))
       (upd_unit (s_unit_id session) (next_run_update nxt nt sid rid (fst (utc_now st)) res) (snd (utc_now st)))
         = Inr (m, st')"
    "pl_schedule_update p" "pl_run_id p = rid"
proof -
  from assms obtain session sch where s: "scheduled_session sid actor rid st = Inr (session, sch)"
    unfolding schedule_next_unit_run_locked_def by (auto simp: bindR_Inr_iff)
  from assms [unfolded schedule_next_unit_run_locked_def s bindR.simps Let_def case_prod_beta fst_conv snd_conv]
  show thesis
    apply (simp only: bindR_Inr_iff guard_Inr_iff)
    apply (elim exE conjE)
    by (rule that, rule s, assumption, assumption, simp, assumption, simp_all)
qed

lemma evolves_schedule_next:
  "schedule_next_unit_run_locked sid call actor rid completed prov st = Inr (m, st') \<Longrightarrow> evolves st st'"
  by (elim schedule_next_cases) (blast intro: evolves_trans evolves_append_message evolves_upd_unit evolves_utc_now)

text \<open>The interval resolver computes the next boundary: counted from the anchor in whole intervals, the
  result is the first instant strictly after the completion (the anchor itself when it is later);
  the search always returns, and it fails only when that boundary is past the last instant a
  \<open>datetime\<close> can hold.\<close>

theorem boundary_search_least:
  assumes "0 < interval" "anchor \<le> max_instant"
  shows "case boundary_search interval completed anchor of
      Inr b \<Rightarrow> completed < b \<and> anchor \<le> b \<and> b \<le> max_instant \<and> interval dvd b - anchor
        \<and> (b = anchor \<or> b - interval \<le> completed)
    | Inl e \<Rightarrow> e = OverflowError ''date value out of range''
        \<and> max_instant < boundary_spec interval completed anchor"
proof -
  let ?b = "boundary_spec interval completed anchor"
  have "completed < ?b" by (rule boundary_spec_after [OF assms(1)])
  moreover have "anchor \<le> ?b" "interval dvd ?b - anchor" "?b = anchor \<or> ?b - interval \<le> completed"
  proof -
    have q: "(completed - anchor) div interval * interval \<le> completed - anchor" if "anchor \<le> completed"
      using assms(1) by (simp add: minus_mod_eq_div_mult [symmetric])
    have z: "0 \<le> (completed - anchor) div interval" if "anchor \<le> completed"
      using assms(1) that by (simp add: pos_imp_zdiv_nonneg_iff)
    show "anchor \<le> ?b" using assms(1) z by (simp add: boundary_spec_def)
    show "interval dvd ?b - anchor" by (simp add: boundary_spec_def)
    show "?b = anchor \<or> ?b - interval \<le> completed"
      using q by (auto simp: boundary_spec_def distrib_right)
  qed
  ultimately show ?thesis using boundary_search_spec [OF assms] by simp
qed

theorem boundary_search_least_witness:
  "boundary_search 3600000000 63900007200000001 63900000000000000 = Inr 63900010800000000"
proof -
  have s: "boundary_spec 3600000000 63900007200000001 63900000000000000 = 63900010800000000"
    by (simp add: boundary_spec_def)
  with boundary_search_least [of 3600000000 63900000000000000 63900007200000001]
  have "\<exists>b. boundary_search 3600000000 63900007200000001 63900000000000000 = Inr b"
    by (simp add: max_instant_def us_per_day_def split: sum.splits)
  then show ?thesis
    using boundary_search_spec [of 3600000000 63900000000000000 63900007200000001] s
    by (simp add: max_instant_def us_per_day_def split: if_splits)
qed


text \<open>A Unit with the explicit resolver and its running session.\<close>

definition nightly :: state where
  "nightly = (blank_state (\<lambda>_. 63900000000000000) (\<lambda>i. i))
     \<lparr>st_units := [(''u'', (new_unit ''u'' [] ''multi'')
         \<lparr>un_schedule := Some (blank_schedule\<lparr>sch_enabled := True, sch_resolver := ''explicit''\<rparr>)\<rparr>)],
      st_sessions := [(''s'', new_session ''s'' ''u'' [] ''S'' False)]\<rparr>"

lemma py_isdigit_not_space: "py_isdigit c \<Longrightarrow> \<not> py_isspace c"
  by (auto simp: py_isdigit_def py_isspace_def Let_def)

lemma iso_utc_strip [simp]: "py_strip (iso_utc t) = iso_utc t"
proof -
  have ne: "pad0 4 (dec y) \<noteq> []" for y by (simp add: pad0_def)
  have "py_isdigit (hd (pad0 4 (dec y)))" for y
    using pad0_digits [of 4 y] hd_in_set [OF ne] by (simp add: list_all_iff)
  then have "\<not> py_isspace (hd (iso_utc t))"
    by (simp add: iso_utc_def Let_def case_prod_beta hd_append ne py_isdigit_not_space)
  moreover have "\<not> py_isspace (last (iso_utc t))"
    by (simp add: iso_utc_def Let_def case_prod_beta py_isspace_def)
  ultimately show ?thesis by (metis stripped_def stripped_iff)
qed

lemma parse_utc_iso:
  "min_instant \<le> t \<Longrightarrow> t \<le> max_instant \<Longrightarrow> t mod 1000000 = 0 \<Longrightarrow> parse_utc st (iso_utc t) = Inr t"
  by (simp add: parse_utc_def fromisoformat_iso_utc astimezone_utc_def minus_mod_eq_div_mult [symmetric])

lemma resolver_parse_iso:
  "min_instant \<le> t \<Longrightarrow> t \<le> max_instant \<Longrightarrow> t mod 1000000 = 0 \<Longrightarrow>
   resolver_parse_utc local (iso_utc t) = Inr t"
  by (simp add: resolver_parse_utc_def fromisoformat_iso_utc astimezone_utc_def minus_mod_eq_div_mult [symmetric])

lemma nightly_session:
  "scheduled_session ''s'' (role_name GoalManager) [] nightly
    = Inr (new_session ''s'' ''u'' [] ''S'' False, blank_schedule\<lparr>sch_enabled := True, sch_resolver := ''explicit''\<rparr>)"
  unfolding scheduled_session_def runtime_actor_allowed_def normalize_agent_role_name
  by (simp add: nightly_def blank_state_def new_session_def new_unit_def blank_schedule_def)

lemma nightly_zone: "st_local_zone nightly = (\<lambda>i. i)"
  by (simp add: nightly_def blank_state_def)

lemma nightly_scheduled:
  obtains m st' where "schedule_next_unit_run_locked ''s'' [(''next_run_at'', JStr (iso_utc 63900003600000000))]
       (role_name GoalManager) [] (iso_utc 63900000000000000) False nightly = Inr (m, st')"
proof -
  let ?call = "[(''next_run_at'', JStr (iso_utc 63900003600000000))]"
  have ex: "py_strip ''explicit'' = ''explicit''" by code_simp
  have e: "resolve_next_run_at (\<lambda>i. i) ''explicit'' [] (schedule_runtime_parameters nightly
      (new_session ''s'' ''u'' [] ''S'' False) (iso_utc 63900000000000000) ?call False) = Inr (iso_utc 63900003600000000)"
    by (simp add: resolve_next_run_at_def schedule_resolver_def ex explicit_next_run_at_def
        schedule_runtime_parameters_def Let_def jobj_def jtext_def resolver_parse_iso
        min_instant_def max_instant_def us_per_day_def)
  have ep: "normalize_endpoint (role_name GoalManager) ''s'' = Inr (agent_endpoint GoalManager)"
    by (simp only: normalize_endpoint_role)
  have "\<exists>r. schedule_next_unit_run_locked ''s'' ?call (role_name GoalManager) [] (iso_utc 63900000000000000) False nightly
      = Inr r"
    unfolding schedule_next_unit_run_locked_def nightly_session ep
    by (simp add: nightly_zone e blank_schedule_def store_error_def parse_utc_iso min_instant_def max_instant_def
        us_per_day_def utc_now_def append_session_message_locked_def make_message_def new_id_def Let_def
        upd_unit_def case_prod_beta) (simp add: nightly_def new_session_def)
  with that show thesis by fastforce
qed


end
