(* ===== verification/Units.thy ===== *)
theory Units
  imports Readiness Schedules
begin

section \<open>Units, agent profiles and scheduling settings\<close>

text \<open>
  The administrative operations of src/src/goal/sessions.py: creating a Unit, its spawn groups
  and its activity, the provider and the accounts of an agent profile, a session's activity and
  scheduling policy. Directories a Unit or a session gets on the file system are not modelled.
\<close>

subsection \<open>Spawn groups\<close>

definition normalize_spawn_groups :: "string list \<Rightarrow> string list" where
  "normalize_spawn_groups spawn_groups =
     fold (\<lambda>value normalized. let g = py_strip value in
             if g \<noteq> [] \<and> g \<notin> set normalized then normalized @ [g] else normalized) spawn_groups []"

definition unit_spawn_groups :: "unit_rec option \<Rightarrow> string list" where
  "unit_spawn_groups u = (case u of None \<Rightarrow> [] | Some u \<Rightarrow> un_spawn_groups u)"

definition memberships :: "state \<Rightarrow> string \<Rightarrow> string list" where
  "memberships st username =
     (if username = [] then []
      else case map_of (st_users st) username of None \<Rightarrow> [] | Some u \<Rightarrow> u_groups u)"

definition check_unit_spawn_membership :: "state \<Rightarrow> unit_rec option \<Rightarrow> string \<Rightarrow> unit res" where
  "check_unit_spawn_membership st u username =
     (let required = unit_spawn_groups u in
      if required = [] then Inr ()
      else if list_ex (\<lambda>g. g \<in> set required) (memberships st username) then Inr ()
      else Inl (StoreError (''user '' @ username @ '' is not a member of the required spawn groups: ''
                            @ py_join '', '' required)))"

definition set_unit_spawn_groups :: "string \<Rightarrow> string list \<Rightarrow> state \<Rightarrow> state res" where
  "set_unit_spawn_groups unit_id groups st =
     (if map_of (st_units st) unit_id = None then Inl (StoreError (''unknown unit: '' @ unit_id))
      else save (upd_unit unit_id (\<lambda>u. u\<lparr>un_spawn_groups := normalize_spawn_groups groups\<rparr>) st))"

subsection \<open>Creating and pausing a Unit\<close>

definition create_unit ::
  "string \<Rightarrow> string \<Rightarrow> string \<Rightarrow> string \<Rightarrow> string \<Rightarrow> string \<Rightarrow> schedule option \<Rightarrow> int \<Rightarrow> bool dict
     \<Rightarrow> string list \<Rightarrow> string \<Rightarrow> state \<Rightarrow> state res" where
  "create_unit unit_id instance_policy display_name description goal_text initial_prompt sch every_hours
       activation_triggers spawn_groups owner_account st =
     (if instance_policy \<notin> {''multi'', ''singleton''} then
        Inl (StoreError (''unsupported instance policy: '' @ instance_policy))
      else
        bindR (normalize_unit_schedule sch every_hours st) (\<lambda>normalized_schedule.
        bindR (normalize_unit_activation_triggers activation_triggers normalized_schedule) (\<lambda>normalized_triggers.
          let normalized_owner = py_strip owner_account in
          if map_of (st_units st) unit_id \<noteq> None then Inl (StoreError (''unit already exists: '' @ unit_id))
          else if normalized_owner \<noteq> [] \<and> map_of (st_users st) normalized_owner = None then
            Inl (StoreError (''unknown owner account: '' @ normalized_owner))
          else
            let (now, st1) = utc_now st;
                u = (new_unit unit_id now instance_policy)
                      \<lparr>un_display_name := py_strip display_name, un_description := py_strip description,
                       un_goal_text := py_strip goal_text, un_initial_prompt := py_strip initial_prompt,
                       un_schedule := normalized_schedule, un_activation_triggers := Some normalized_triggers,
                       un_owner_account := normalized_owner,
                       un_spawn_groups := normalize_spawn_groups spawn_groups\<rparr>
            in save (st1\<lparr>st_units := AList.update unit_id u (st_units st1)\<rparr>))))"

definition set_unit_active :: "string \<Rightarrow> bool \<Rightarrow> state \<Rightarrow> state res" where
  "set_unit_active unit_id active st =
     (if map_of (st_units st) unit_id = None then Inl (StoreError (''unknown unit: '' @ unit_id))
      else if unit_id = ROOT_UNIT_ID \<and> \<not> active then
        Inl (StoreError ''the system root Unit cannot be paused'')
      else save (upd_unit unit_id (\<lambda>u. u\<lparr>un_status := if active then ''active'' else ''paused''\<rparr>) st))"

subsection \<open>Agent profiles\<close>

definition ensure_provider_service_account :: "string \<Rightarrow> state \<Rightarrow> (user \<times> state) res" where
  "ensure_provider_service_account provider st =
     (let name = py_lower (py_strip provider) in
      case map_of PROVIDER_SERVICE_ACCOUNTS name of
        None \<Rightarrow> Inl (StoreError (''provider has no service account: '' @ provider))
      | Some spec \<Rightarrow>
          (case map_of (st_users st) (spec_account spec) of
             Some u \<Rightarrow> Inr (u, st)
           | None \<Rightarrow>
               let (now, st1) = utc_now st;
                   u = new_user (spec_account spec) [] [] (spec_groups spec) now ''service'' name
               in Inr (u, st1\<lparr>st_users := AList.update (spec_account spec) u (st_users st1)\<rparr>)))"

definition check_account_slot_eligibility :: "user \<Rightarrow> string \<Rightarrow> string \<Rightarrow> unit res" where
  "check_account_slot_eligibility account role provider =
     (let group = slot_group_name role in
      if group \<noteq> [] \<and> group \<notin> set (u_groups account) then
        Inl (StoreError (''provider '' @ provider @ '' cannot serve '' @ role @ '': account ''
                         @ u_username account @ '' is not '' @ group @ ''-capable''))
      else Inr ())"

text \<open>\<open>state["agent_profiles"].setdefault(role, {"role": role, "created_at": utc_now()})\<close> followed by the
  assignments of the caller and a new \<open>updated_at\<close>.\<close>

definition bare_profile :: "role \<Rightarrow> string \<Rightarrow> agent_profile" where
  "bare_profile r now =
     \<lparr>ap_role = r, ap_provider = [], ap_accounts = [], ap_status = [], ap_default_assignment = False,
      ap_created_at = now, ap_updated_at = []\<rparr>"

definition update_profile :: "role \<Rightarrow> (agent_profile \<Rightarrow> agent_profile) \<Rightarrow> state \<Rightarrow> state" where
  "update_profile r f st =
     (let (now, st1) = utc_now st;
          profiles = dict_setdefault (role_name r) (bare_profile r now) (st_agent_profiles st1);
          (updated_at, st2) = utc_now st1
      in st2\<lparr>st_agent_profiles := AList.map_entry (role_name r)
               (\<lambda>p. (f p)\<lparr>ap_default_assignment := False, ap_updated_at := updated_at\<rparr>) profiles\<rparr>)"

definition supported_role :: "string \<Rightarrow> role res" where
  "supported_role role =
     (case agent_role_of (normalize_agent_role role) of
        None \<Rightarrow> Inl (StoreError (''unsupported agent role: '' @ role))
      | Some r \<Rightarrow> Inr r)"

definition set_agent_provider :: "string \<Rightarrow> string \<Rightarrow> state \<Rightarrow> state res" where
  "set_agent_provider role provider st =
     bindR (supported_role role) (\<lambda>r.
       let normalized = py_lower (py_strip provider) in
       if normalized \<notin> {''local'', ''codex'', ''claude'', ''remote-aize''} then
         Inl (StoreError (''unsupported agent provider: '' @ provider))
       else
         bindR (if normalized = ''local'' then Inr ([], st)
                else bindR (ensure_provider_service_account normalized st) (\<lambda>(account, st1).
                     bindR (check_account_slot_eligibility account (role_name r) normalized) (\<lambda>_.
                       Inr ([u_username account], st1)))) (\<lambda>(accounts, st1).
           save (update_profile r (\<lambda>p. p\<lparr>ap_provider := normalized, ap_accounts := accounts,
                                         ap_status := ''active''\<rparr>) st1)))"

definition add_agent_account :: "state \<Rightarrow> role \<Rightarrow> string \<Rightarrow> string list \<Rightarrow> string list res" where
  "add_agent_account st r value accounts =
     (let username = py_strip value in
      if username = [] \<or> username \<in> set accounts then Inr accounts
      else case map_of (st_users st) username of
        None \<Rightarrow> Inl (StoreError (''unknown service account: '' @ username))
      | Some u \<Rightarrow>
          if u_status u \<noteq> ''service'' then
            Inl (StoreError (''account is not a non-login service user: '' @ username))
          else if slot_group r \<notin> set (u_groups u) then
            Inl (StoreError (''service account '' @ username @ '' is not eligible for '' @ role_name r
                             @ '': missing group '' @ slot_group r))
          else Inr (accounts @ [username]))"

definition set_agent_accounts :: "string \<Rightarrow> string list \<Rightarrow> state \<Rightarrow> state res" where
  "set_agent_accounts role accounts st =
     bindR (supported_role role) (\<lambda>r.
     bindR (foldR (add_agent_account st r) accounts []) (\<lambda>normalized.
       save (update_profile r (\<lambda>p. p\<lparr>ap_accounts := normalized\<rparr>) st)))"

definition agent_profiles :: "state \<Rightarrow> agent_profile list" where
  "agent_profiles st = sort_key (\<lambda>p. role_name (ap_role p)) (dict_values (st_agent_profiles st))"

subsection \<open>A session's activity and scheduling policy\<close>

definition set_session_scheduling_policy :: "string \<Rightarrow> string \<Rightarrow> int \<Rightarrow> state \<Rightarrow> state res" where
  "set_session_scheduling_policy session_id scheduling_class base_priority st =
     (let cls = py_lower (py_strip scheduling_class) in
      if map_of SCHEDULING_CLASS_SCORES cls = None then
        Inl (StoreError (''unsupported scheduling class: '' @ scheduling_class @ ''; expected one of ''
                         @ py_join '', '' (sort (dict_keys SCHEDULING_CLASS_SCORES))))
      else if get_session st session_id = None then Inl (StoreError (''unknown session: '' @ session_id))
      else
        let (now, st1) = utc_now st in
        save (upd_session session_id (\<lambda>s. s\<lparr>s_policy := \<lparr>pol_class = cls, pol_base_priority = base_priority\<rparr>,
                                            s_updated_at := now\<rparr>) st1))"

definition set_session_active :: "string \<Rightarrow> bool \<Rightarrow> state \<Rightarrow> state res" where
  "set_session_active session_id active st =
     (case get_session st session_id of
        None \<Rightarrow> Inl (StoreError (''unknown session: '' @ session_id))
      | Some s \<Rightarrow>
          let (now, st1) = utc_now st;
              st2 = upd_session session_id (\<lambda>s. s\<lparr>s_active := active, s_updated_at := now\<rparr>) st1
          in bindR (log_session_active_change session_id (s_active s) active ''system'' now st2) save)"

end
