(* ===== verification/Sessions.thy ===== *)
theory Sessions
  imports Units
begin

section \<open>Starting sessions and changing their goals\<close>

text \<open>
  The session operations of src/src/goal/sessions.py: creating a session, starting a session with
  a goal, activating the one session of a singleton Unit, replacing the goal's body and linking
  two sessions. \<open>_start_goal_session_in_state\<close> is also called inside a \<open>try\<close> that catches
  \<open>StoreError\<close> and keeps the state, so an error carries the state it was raised in.
\<close>

type_synonym 'a st_res = "(error \<times> state) + 'a"

text \<open>A check or a step that raises before it changes anything.\<close>

definition raise_in :: "state \<Rightarrow> 'a res \<Rightarrow> 'a st_res" where
  "raise_in st r = map_sum (\<lambda>e. (e, st)) id r"

definition abort_on_error :: "'a st_res \<Rightarrow> 'a res" where
  "abort_on_error r = map_sum fst id r"

lemma raise_in_simps [simp]:
  "raise_in st (Inl e) = Inl (e, st)" "raise_in st (Inr x) = Inr x"
  "raise_in st r = Inr x \<longleftrightarrow> r = Inr x"
  "raise_in st r = Inl (e, s) \<longleftrightarrow> r = Inl e \<and> s = st"
  by (cases r; auto simp: raise_in_def)+

lemma abort_on_error_simps [simp]:
  "abort_on_error (Inl (e, s)) = Inl e" "abort_on_error (Inr x) = Inr x"
  "abort_on_error r = Inr x \<longleftrightarrow> r = Inr x"
  by (cases r; auto simp: abort_on_error_def)+

lemma bindR_pairs:
  "bindR m (\<lambda>(a, b). f a b) = Inr y \<longleftrightarrow> (\<exists>a b. m = Inr (a, b) \<and> f a b = Inr y)"
  "bindR m3 (\<lambda>(a, b, c). g a b c) = Inr y \<longleftrightarrow> (\<exists>a b c. m3 = Inr (a, b, c) \<and> g a b c = Inr y)"
  by (auto simp: bindR_Inr_iff)

subsection \<open>What a Unit must allow\<close>

definition admit_unit_activation :: "string \<Rightarrow> string \<Rightarrow> string \<Rightarrow> state \<Rightarrow> state st_res" where
  "admit_unit_activation unit_id trigger created_by st =
     (if unit_id = [] then Inr st
      else if map_of (st_units st) unit_id = None then Inl (StoreError (''unknown unit: '' @ unit_id), st)
      else
        bindR (raise_in st (unit_activation_trigger_enabled unit_id trigger st)) (\<lambda>(enabled, st1).
          if \<not> enabled then
            Inl (StoreError (''unit does not allow '' @ trigger @ '' activation: '' @ unit_id), st1)
          else if unit_paused (map_of (st_units st1) unit_id) then
            Inl (StoreError (''unit is paused: '' @ unit_id), st1)
          else
            bindR (raise_in st1 (check_unit_spawn_membership st1 (map_of (st_units st1) unit_id) created_by))
              (\<lambda>_. Inr st1)))"

text \<open>The Unit's session when it is a singleton that has one.\<close>

definition singleton_session :: "state \<Rightarrow> string \<Rightarrow> string option" where
  "singleton_session st unit_id =
     (case map_of (st_units st) unit_id of
        None \<Rightarrow> None
      | Some u \<Rightarrow>
          if unit_id \<noteq> [] \<and> un_instance_policy u = ''singleton'' \<and> un_singleton_session_id u \<noteq> []
             \<and> get_session st (un_singleton_session_id u) \<noteq> None
          then Some (un_singleton_session_id u) else None)"

definition is_singleton_unit :: "state \<Rightarrow> string \<Rightarrow> bool" where
  "is_singleton_unit st unit_id \<longleftrightarrow>
     unit_id \<noteq> [] \<and> (case map_of (st_units st) unit_id of None \<Rightarrow> False
                     | Some u \<Rightarrow> un_instance_policy u = ''singleton'')"

definition known_parents :: "string list \<Rightarrow> state \<Rightarrow> unit res" where
  "known_parents parents st =
     foldR (\<lambda>p _. if get_session st p = None then Inl (StoreError (''unknown parent session: '' @ p))
                  else Inr ()) parents ()"

definition insert_session :: "session \<Rightarrow> state \<Rightarrow> state" where
  "insert_session s st = st\<lparr>st_sessions := AList.update (s_session_id s) s (st_sessions st)\<rparr>"

text \<open>Storing the new session, and making it the one session of a singleton Unit.\<close>

definition add_unit_session :: "string \<Rightarrow> string \<Rightarrow> string \<Rightarrow> string \<Rightarrow> state \<Rightarrow> state" where
  "add_unit_session session_id unit_id now title st =
     (let st1 = insert_session (new_session session_id unit_id now title False) st in
      if is_singleton_unit st unit_id then
        upd_session session_id (\<lambda>s. s\<lparr>s_singleton := True\<rparr>)
          (upd_unit unit_id (\<lambda>u. u\<lparr>un_singleton_session_id := session_id\<rparr>) st1)
      else st1)"

definition link_parents :: "string list \<Rightarrow> string \<Rightarrow> state \<Rightarrow> state st_res" where
  "link_parents parents session_id st =
     foldR (\<lambda>p s. bindR (raise_in s (link_sessions_in_state p session_id s)) (\<lambda>(_, s'). Inr s')) parents st"

subsection \<open>Creating a session\<close>

definition new_session_checks :: "string \<Rightarrow> string \<Rightarrow> string list \<Rightarrow> string \<Rightarrow> state \<Rightarrow> unit res" where
  "new_session_checks session_id unit_id parents created_by st =
     (if unit_id \<noteq> [] \<and> map_of (st_users st) created_by = None then
        Inl (StoreError (''unknown user: '' @ created_by))
      else if get_session st session_id \<noteq> None then
        Inl (StoreError (''session already exists: '' @ session_id))
      else
        bindR (if session_id = ROOT_SESSION_ID then Inr () else known_parents parents st) (\<lambda>_.
          case singleton_session st unit_id of
            Some sid \<Rightarrow> Inl (StoreError (''unit is singleton and already has session: '' @ sid))
          | None \<Rightarrow> Inr ()))"

definition open_session :: "string \<Rightarrow> string \<Rightarrow> string list \<Rightarrow> state \<Rightarrow> state res" where
  "open_session session_id unit_id parents st =
     (let (now, st1) = utc_now st;
          st2 = add_unit_session session_id unit_id now session_id st1
      in if session_id = ROOT_SESSION_ID then Inr st2
         else abort_on_error (link_parents parents session_id st2))"

definition create_session ::
  "string \<Rightarrow> string \<Rightarrow> string list \<Rightarrow> string \<Rightarrow> state \<Rightarrow> state res" where
  "create_session session_id unit_id0 parent_ids created_by st =
     (let unit_id = py_strip unit_id0;
          parents = (if parent_ids = [] then [ROOT_SESSION_ID] else parent_ids)
      in bindR (abort_on_error (admit_unit_activation unit_id ''manual'' created_by st)) (\<lambda>st1.
         bindR (new_session_checks session_id unit_id parents created_by st1) (\<lambda>_.
         bindR (open_session session_id unit_id parents st1) save)))"

subsection \<open>Starting a session with a goal\<close>

definition add_goal :: "string \<Rightarrow> string \<Rightarrow> string \<Rightarrow> string \<Rightarrow> state \<Rightarrow> string \<times> state" where
  "add_goal session_id body created_by created_at st =
     (let (gid, st1) = new_id ''goal'' st
      in (gid, st1\<lparr>st_goals := AList.update gid (new_goal gid session_id body created_by created_at)
                               (st_goals st1)\<rparr>))"

text \<open>\<open>_set_goal_completion_state(state, goal, "incomplete", reason=..., actor=...)\<close>.\<close>

definition reopen_goal :: "string \<Rightarrow> string \<Rightarrow> string \<Rightarrow> state \<Rightarrow> state res" where
  "reopen_goal gid reason actor st =
     bindR (set_goal_completion_state gid Incomplete reason actor [] [] False st) (\<lambda>(_, st1). Inr st1)"

text \<open>The parents of a singleton's session that exist are linked again.\<close>

definition relink_parents :: "string list \<Rightarrow> string \<Rightarrow> state \<Rightarrow> state st_res" where
  "relink_parents parents session_id st =
     link_parents (filter (\<lambda>p. get_session st p \<noteq> None \<and> p \<noteq> session_id) parents) session_id st"

definition or_text :: "string \<Rightarrow> string \<Rightarrow> string" where
  "or_text a b = (if a = [] then b else a)"

definition set_activated_goal :: "string \<Rightarrow> string \<Rightarrow> string \<Rightarrow> string \<Rightarrow> string \<Rightarrow> state \<Rightarrow> string \<times> state" where
  "set_activated_goal session_id unit_id goal_body created_by created_at st =
     (case current_goal_for_session st session_id of
        Some g \<Rightarrow>
          (g_goal_id g,
           if goal_body = [] then st
           else upd_goal (g_goal_id g) (\<lambda>g. g\<lparr>g_body := goal_body, g_updated_at := created_at\<rparr>) st)
      | None \<Rightarrow>
          add_goal session_id (or_text goal_body (''Run Unit '' @ unit_id @ ''.'')) created_by created_at st)"

definition wake_singleton_session :: "string \<Rightarrow> unit_rec \<Rightarrow> string \<Rightarrow> string \<Rightarrow> string \<Rightarrow> state \<Rightarrow> state" where
  "wake_singleton_session unit_key u session_id label created_at st =
     (let unit_id = un_unit_id u;
          st1 = (if get_session st session_id \<noteq> None then st
                 else upd_unit unit_key (\<lambda>u. u\<lparr>un_singleton_session_id := session_id\<rparr>)
                   (insert_session (new_session session_id unit_id created_at
                      (or_text (py_strip (or_text label unit_id)) unit_id) True) st))
      in upd_session session_id (\<lambda>s. s\<lparr>s_active := True, s_updated_at := created_at\<rparr>) st1)"

definition activation_reason :: "string \<Rightarrow> string \<Rightarrow> string" where
  "activation_reason unit_id trigger =
     ''Singleton Unit '' @ unit_id @ '' activated by '' @ trigger @ '' trigger.''"

definition log_unit_activated :: "string \<Rightarrow> string \<Rightarrow> string \<Rightarrow> string \<Rightarrow> state \<Rightarrow> state" where
  "log_unit_activated session_id unit_id trigger created_at st =
     snd (log_system_signal session_id ''UnitActivated''
       (''Unit '' @ unit_id @ '' activated by '' @ trigger @ '' trigger.'') [GoalManager]
       ''system'' [] [(''unit_id'', JStr unit_id), (''activation_trigger'', JStr trigger)] created_at st)"

definition finish_activation ::
  "string \<Rightarrow> string \<Rightarrow> string \<Rightarrow> string \<Rightarrow> string \<Rightarrow> string \<Rightarrow> state \<Rightarrow> (string \<times> string \<times> state) st_res" where
  "finish_activation session_id unit_id goal_body created_by created_at trigger st =
     (let (gid, st1) = set_activated_goal session_id unit_id goal_body created_by created_at st;
          st2 = log_unit_activated session_id unit_id trigger created_at st1
      in bindR (raise_in st2 (reopen_goal gid (activation_reason unit_id trigger) ''system'' st2))
           (\<lambda>st3. Inr (session_id, gid, st3)))"

definition activate_singleton_unit_session_in_state ::
  "string \<Rightarrow> string list \<Rightarrow> string \<Rightarrow> string \<Rightarrow> string \<Rightarrow> string \<Rightarrow> string \<Rightarrow> state
     \<Rightarrow> (string \<times> string \<times> state) st_res" where
  "activate_singleton_unit_session_in_state unit_key parent_ids label body created_by created_at trigger st =
     (case map_of (st_units st) unit_key of
        None \<Rightarrow> Inl (KeyError unit_key, st)
      | Some u \<Rightarrow>
          let unit_id = un_unit_id u;
              session_id = or_text (un_singleton_session_id u) unit_id;
              parents = (if parent_ids = [] then [ROOT_SESSION_ID] else parent_ids);
              goal_body = or_text (py_strip body)
                            (py_strip (or_text (un_goal_text u) (or_text label unit_id)))
          in bindR (relink_parents parents session_id
                      (wake_singleton_session unit_key u session_id label created_at st))
               (finish_activation session_id unit_id goal_body created_by created_at trigger))"

definition open_goal_session ::
  "string \<Rightarrow> string \<Rightarrow> string list \<Rightarrow> string \<Rightarrow> string \<Rightarrow> string \<Rightarrow> string \<Rightarrow> state
     \<Rightarrow> (string \<times> string \<times> state) st_res" where
  "open_goal_session session_id unit_id parents title goal_body created_by created_at st =
     bindR (link_parents parents session_id (add_unit_session session_id unit_id created_at title st)) (\<lambda>st1.
       let (gid, st2) = add_goal session_id goal_body created_by created_at st1
       in bindR (raise_in st2 (reopen_goal gid ''Goal session created.'' ''system'' st2))
            (\<lambda>st3. Inr (session_id, gid, st3)))"

definition start_goal_session_in_state ::
  "string \<Rightarrow> string \<Rightarrow> string list \<Rightarrow> string \<Rightarrow> string \<Rightarrow> string \<Rightarrow> string \<Rightarrow> string \<Rightarrow> state
     \<Rightarrow> (string \<times> string \<times> state) st_res" where
  "start_goal_session_in_state session_id unit_id0 parent_ids label body created_by created_at trigger st =
     (let session_title = py_strip label;
          goal_body = or_text (py_strip body) session_title;
          unit_id = py_strip unit_id0;
          parents = (if parent_ids = [] then [ROOT_SESSION_ID] else parent_ids)
      in if session_title = [] then Inl (StoreError ''session label is required'', st)
         else
           bindR (admit_unit_activation unit_id trigger created_by st) (\<lambda>st1.
             if get_session st1 session_id \<noteq> None then
               Inl (StoreError (''session already exists: '' @ session_id), st1)
             else if singleton_session st1 unit_id \<noteq> None then
               activate_singleton_unit_session_in_state unit_id parent_ids session_title goal_body
                 created_by created_at trigger st1
             else
               bindR (raise_in st1 (known_parents parents st1)) (\<lambda>_.
                 open_goal_session session_id unit_id parents session_title goal_body created_by created_at st1)))"

definition start_goal_session ::
  "string \<Rightarrow> string \<Rightarrow> string list \<Rightarrow> string \<Rightarrow> string \<Rightarrow> string \<Rightarrow> state \<Rightarrow> (string \<times> string \<times> state) res" where
  "start_goal_session session_id unit_id parent_ids label body created_by st =
     (let session_title = py_strip label;
          goal_body = or_text (py_strip body) session_title
      in if session_title = [] then Inl (StoreError ''session label is required'')
         else if map_of (st_users st) created_by = None then
           Inl (StoreError (''unknown account: '' @ created_by))
         else
           let (now, st1) = utc_now st in
           bindR (abort_on_error (start_goal_session_in_state session_id unit_id parent_ids
                    session_title goal_body created_by now ''manual'' st1)) (\<lambda>(sid, gid, st2).
           bindR (save st2) (\<lambda>st3. Inr (sid, gid, st3))))"

subsection \<open>Replacing the goal and linking sessions\<close>

definition set_goal_body ::
  "string \<Rightarrow> string \<Rightarrow> string \<Rightarrow> string \<Rightarrow> state \<Rightarrow> (string \<times> string \<times> state) res" where
  "set_goal_body session_id body created_by now st =
     (case current_goal_for_session st session_id of
        Some g \<Rightarrow>
          bindR (log_goal_body_update session_id (g_goal_id g) (g_body g) body created_by now
                   (upd_goal (g_goal_id g) (\<lambda>g. g\<lparr>g_body := body, g_created_by := created_by,
                                                 g_updated_at := now\<rparr>) st))
            (\<lambda>st1. Inr (g_goal_id g, ''SessionGoal updated.'', st1))
      | None \<Rightarrow>
          let (gid, st1) = add_goal session_id body created_by now st
          in Inr (gid, ''SessionGoal created.'', st1))"

definition update_goal :: "string \<Rightarrow> string \<Rightarrow> string \<Rightarrow> state \<Rightarrow> (string \<times> state) res" where
  "update_goal session_id body created_by st =
     (let normalized_body = py_strip body in
      if normalized_body = [] then Inl (StoreError ''goal body is required'')
      else if get_session st session_id = None then Inl (StoreError (''unknown session: '' @ session_id))
      else if map_of (st_users st) created_by = None then
        Inl (StoreError (''unknown account: '' @ created_by))
      else
        let (now, st1) = utc_now st in
        bindR (set_goal_body session_id normalized_body created_by now st1) (\<lambda>(gid, reason, st2).
        bindR (reopen_goal gid reason ''system'' (upd_session session_id (\<lambda>s. s\<lparr>s_updated_at := now\<rparr>) st2))
          (\<lambda>st3. bindR (save st3) (\<lambda>st4. Inr (gid, st4)))))"

definition link_sessions :: "string \<Rightarrow> string \<Rightarrow> state \<Rightarrow> (edge \<times> state) res" where
  "link_sessions parent_session_id child_session_id st =
     bindR (link_sessions_in_state parent_session_id child_session_id st) (\<lambda>(e, st1).
     bindR (save st1) (\<lambda>st2. Inr (e, st2)))"

end
