(* ===== verification/Launch.thy ===== *)
theory Launch
  imports Sessions
begin

section \<open>Launching Units: schedules and startup\<close>

text \<open>
  \<open>run_scheduled_units\<close> and \<open>run_startup_units\<close> of src/src/goal/sessions.py with the session
  identifier they search for and the identity a Unit is launched under. Every active Unit whose
  trigger is enabled (and whose schedule is due) starts its session; a \<open>StoreError\<close> of the start
  is reported for the Unit and the loop goes on with the state it left, any other error aborts
  the operation.
\<close>

subsection \<open>A free session identifier\<close>

lemma suffix_inject [simp]: "base @ CHR ''-'' # dec i = base @ CHR ''-'' # dec j \<longleftrightarrow> i = j"
  by simp

lemma suffixes_finite: "finite {k. i \<le> k \<and> base @ CHR ''-'' # dec k \<in> set taken}"
proof (rule finite_subset)
  show "{k. i \<le> k \<and> base @ CHR ''-'' # dec k \<in> set taken}
      \<subseteq> (\<lambda>k. base @ CHR ''-'' # dec k) -` set taken" by auto
  show "finite ((\<lambda>k. base @ CHR ''-'' # dec k) -` set taken)"
    by (rule finite_vimageI) (simp_all add: inj_def)
qed

function free_suffix :: "string list \<Rightarrow> string \<Rightarrow> nat \<Rightarrow> string" where
  "free_suffix taken base i =
     (if base @ CHR ''-'' # dec i \<in> set taken then free_suffix taken base (Suc i)
      else base @ CHR ''-'' # dec i)"
  by pat_completeness auto

termination
proof (relation "measure (\<lambda>(taken, base, i). card {k. i \<le> k \<and> base @ CHR ''-'' # dec k \<in> set taken})")
  fix taken base and i :: nat
  assume used: "base @ CHR ''-'' # dec i \<in> set taken"
  have "{k. Suc i \<le> k \<and> base @ CHR ''-'' # dec k \<in> set taken}
      \<subset> {k. i \<le> k \<and> base @ CHR ''-'' # dec k \<in> set taken}"
  proof
    show "{k. Suc i \<le> k \<and> base @ CHR ''-'' # dec k \<in> set taken}
        \<subseteq> {k. i \<le> k \<and> base @ CHR ''-'' # dec k \<in> set taken}" by auto
    have "i \<in> {k. i \<le> k \<and> base @ CHR ''-'' # dec k \<in> set taken}" using used by simp
    moreover have "i \<notin> {k. Suc i \<le> k \<and> base @ CHR ''-'' # dec k \<in> set taken}" by simp
    ultimately show "{k. Suc i \<le> k \<and> base @ CHR ''-'' # dec k \<in> set taken}
        \<noteq> {k. i \<le> k \<and> base @ CHR ''-'' # dec k \<in> set taken}" by metis
  qed
  then show "((taken, base, Suc i), taken, base, i)
      \<in> measure (\<lambda>(taken, base, i). card {k. i \<le> k \<and> base @ CHR ''-'' # dec k \<in> set taken})"
    by (simp add: psubset_card_mono suffixes_finite)
qed simp

declare free_suffix.simps [simp del]

lemma free_suffix_fresh: "free_suffix taken base i \<notin> set taken"
  by (induction taken base i rule: free_suffix.induct) (subst free_suffix.simps, simp)

text \<open>Every suffix that was passed over is taken.\<close>

lemma free_suffix_least:
  "\<exists>k \<ge> i. free_suffix taken base i = base @ CHR ''-'' # dec k
      \<and> (\<forall>j. i \<le> j \<and> j < k \<longrightarrow> base @ CHR ''-'' # dec j \<in> set taken)"
proof (induction taken base i rule: free_suffix.induct)
  case (1 taken base i)
  show ?case
  proof (cases "base @ CHR ''-'' # dec i \<in> set taken")
    case True
    with 1 obtain k where k: "Suc i \<le> k" "free_suffix taken base (Suc i) = base @ CHR ''-'' # dec k"
      "\<forall>j. Suc i \<le> j \<and> j < k \<longrightarrow> base @ CHR ''-'' # dec j \<in> set taken" by blast
    have "\<forall>j. i \<le> j \<and> j < k \<longrightarrow> base @ CHR ''-'' # dec j \<in> set taken"
      using k(3) True by (metis Suc_leI le_neq_implies_less)
    with k True show ?thesis by (subst free_suffix.simps) (auto intro!: exI [of _ k])
  next
    case False
    then show ?thesis by (subst free_suffix.simps) auto
  qed
qed

definition dash_other :: "char \<Rightarrow> char" where
  "dash_other c = (if py_isalnum c then c else CHR ''-'')"

definition strip_dashes :: "string \<Rightarrow> string" where
  "strip_dashes s = strip_by (\<lambda>c. c = CHR ''-'') s"

definition triggered_stem :: "string \<Rightarrow> string \<Rightarrow> string \<Rightarrow> state \<Rightarrow> string \<times> state" where
  "triggered_stem unit_id trigger now_text st =
     (let safe_unit_id = strip_dashes (map dash_other (py_lower unit_id));
          safe_time = filter py_isalnum (py_lower now_text);
          safe_trigger0 = strip_dashes (map dash_other (py_lower trigger));
          safe_trigger = (if safe_trigger0 = [] then ''trigger'' else safe_trigger0);
          (stamp, st1) = (if safe_time = [] then new_id safe_trigger st else (safe_time, st))
      in (safe_unit_id @ ''-'' @ safe_trigger @ ''-'' @ stamp, st1))"

definition triggered_session_id :: "string \<Rightarrow> string \<Rightarrow> string \<Rightarrow> state \<Rightarrow> string \<times> state" where
  "triggered_session_id unit_id trigger now_text st =
     (let (base, st1) = triggered_stem unit_id trigger now_text st;
          taken = dict_keys (st_sessions st)
      in (if base \<in> set taken then free_suffix taken base 2 else base, st1))"

definition scheduled_session_id :: "string \<Rightarrow> string \<Rightarrow> state \<Rightarrow> string \<times> state" where
  "scheduled_session_id unit_id now_text st = triggered_session_id unit_id ''scheduled'' now_text st"

subsection \<open>Who launches a Unit\<close>

definition unit_launch_identity ::
  "state \<Rightarrow> unit_rec \<Rightarrow> string \<Rightarrow> string \<Rightarrow> (string \<times> string) res" where
  "unit_launch_identity st u fallback_parent_session_id fallback_created_by =
     (let owner_account = py_strip (un_owner_account u) in
      case map_of (st_users st) owner_account of
        None \<Rightarrow> Inr (fallback_parent_session_id, fallback_created_by)
      | Some owner \<Rightarrow>
          let home_session_id = py_strip (u_home_session_id owner) in
          if get_session st home_session_id = None then
            Inl (StoreError (''owner user has no home session: '' @ owner_account))
          else Inr (home_session_id, owner_account))"

subsection \<open>The launch of one Unit\<close>

datatype launch = Started string string | Skipped string string

text \<open>
  The message object is also the one in the session log, so a key added to its payload after
  it was logged shows in the entry that the transaction saves.
\<close>

definition annotate_message :: "string \<Rightarrow> (string \<times> jval) list \<Rightarrow> log_entry \<Rightarrow> log_entry" where
  "annotate_message mid extra e =
     (if has_message_id mid e then
        (case le_item e of
           LMessage m \<Rightarrow> e\<lparr>le_item := LMessage (m\<lparr>m_payload := (m_payload m)
                             \<lparr>pl_extra := pl_extra (m_payload m) @ extra\<rparr>\<rparr>)\<rparr>
         | _ \<Rightarrow> e)
      else e)"

definition annotate_logged_message :: "string \<Rightarrow> string \<Rightarrow> (string \<times> jval) list \<Rightarrow> state \<Rightarrow> state" where
  "annotate_logged_message session_id mid extra st =
     st\<lparr>st_session_logs := AList.map_entry session_id (map (annotate_message mid extra)) (st_session_logs st)\<rparr>"

definition reprocess_keys :: "string \<Rightarrow> string \<Rightarrow> (string \<times> jval) list" where
  "reprocess_keys gid now = [(''reprocess_goal_id'', JStr gid), (''reprocess_recorded_at'', JStr now)]"

text \<open>The initial prompt of a Unit: a user message of the launching account that reopens the goal.\<close>

definition send_initial_prompt ::
  "string \<Rightarrow> string \<Rightarrow> string \<Rightarrow> string \<Rightarrow> string \<Rightarrow> string \<Rightarrow> string \<Rightarrow> string \<Rightarrow> state \<Rightarrow> state res" where
  "send_initial_prompt session_id gid initial_prompt created_by unit_key unit_id kind now_text st =
     (if initial_prompt = [] then Inr st
      else
        bindR (append_session_message_locked session_id (user_endpoint created_by) (session_endpoint session_id)
                 (empty_payload\<lparr>pl_body := initial_prompt, pl_user_input := True,
                                pl_extra := [(unit_key, JStr unit_id)]\<rparr>) now_text st) (\<lambda>(m, st1).
        bindR (reopen_goal gid (kind @ '' Unit initial prompt '' @ m_message_id m @ '' requires Session processing.'')
                 created_by st1) (\<lambda>st2.
          Inr (annotate_logged_message session_id (m_message_id m) (reprocess_keys gid now_text) st2))))"

text \<open>\<open>try: payload = ... except StoreError as exc: ... continue\<close>.\<close>

definition after_start ::
  "launch list \<Rightarrow> string \<Rightarrow> (string \<Rightarrow> string \<Rightarrow> state \<Rightarrow> (launch list \<times> state) res)
     \<Rightarrow> (string \<times> string \<times> state) st_res \<Rightarrow> (launch list \<times> state) res" where
  "after_start started unit_id finish r =
     (case r of
        Inr (session_id, gid, st) \<Rightarrow> finish session_id gid st
      | Inl (StoreError reason, st) \<Rightarrow> Inr (started @ [Skipped unit_id reason], st)
      | Inl (e, st) \<Rightarrow> Inl e)"

definition sorted_unit_keys :: "state \<Rightarrow> string list" where
  "sorted_unit_keys st = map fst (sort_key (\<lambda>(k, u). un_unit_id u) (st_units st))"

definition record_scheduled_run :: "string \<Rightarrow> string \<Rightarrow> unit_rec \<Rightarrow> unit_rec" where
  "record_scheduled_run now_text session_id u =
     u\<lparr>un_last_scheduled_at := now_text, un_updated_at := now_text,
       un_scheduled_run_count := un_scheduled_run_count u + 1,
       un_schedule := map_option (\<lambda>sch. sch\<lparr>sch_last_run_at := Some now_text, sch_next_run_at := [],
                                           sch_next_run_required_by := Some session_id\<rparr>) (un_schedule u)\<rparr>"

definition record_startup_run :: "string \<Rightarrow> unit_rec \<Rightarrow> unit_rec" where
  "record_startup_run now_text u =
     u\<lparr>un_last_startup_at := now_text, un_updated_at := now_text,
       un_startup_run_count := un_startup_run_count u + 1\<rparr>"

text \<open>
  What follows the start: \<open>session_id\<close> is the identifier that was searched for, \<open>sid\<close> the session
  that was started, which for a singleton that has a session is that session.
\<close>

definition finish_scheduled_launch ::
  "string \<Rightarrow> unit_rec \<Rightarrow> string \<Rightarrow> string \<Rightarrow> string \<Rightarrow> launch list \<Rightarrow> string \<Rightarrow> string \<Rightarrow> state
     \<Rightarrow> (launch list \<times> state) res" where
  "finish_scheduled_launch key u session_id created_by now_text started sid gid st =
     (let scheduled_for = (case un_schedule u of None \<Rightarrow> [] | Some sch \<Rightarrow> sch_next_run_at sch) in
      if get_session st session_id = None then Inl (KeyError session_id)
      else
        bindR (send_initial_prompt session_id gid (py_strip (un_initial_prompt u)) created_by
                 ''scheduled_unit_id'' (un_unit_id u) ''Scheduled'' now_text
                 (upd_session session_id (\<lambda>s. s\<lparr>s_schedule_timing :=
                    Some (empty_timing\<lparr>tm_scheduled_for := scheduled_for\<rparr>)\<rparr>) st)) (\<lambda>st1.
          Inr (started @ [Started sid gid], upd_unit key (record_scheduled_run now_text session_id) st1)))"

definition finish_startup_launch ::
  "string \<Rightarrow> unit_rec \<Rightarrow> string \<Rightarrow> string \<Rightarrow> launch list \<Rightarrow> string \<Rightarrow> string \<Rightarrow> state
     \<Rightarrow> (launch list \<times> state) res" where
  "finish_startup_launch key u created_by now_text started sid gid st =
     bindR (send_initial_prompt sid gid (py_strip (un_initial_prompt u)) created_by
              ''startup_unit_id'' (un_unit_id u) ''Startup'' now_text st) (\<lambda>st1.
       Inr (started @ [Started sid gid], upd_unit key (record_startup_run now_text) st1))"

text \<open>The loop body past the guards, for the Unit \<open>u\<close> stored under \<open>key\<close>.\<close>

definition launch_unit ::
  "string \<Rightarrow> unit_rec \<Rightarrow> string \<Rightarrow> string \<Rightarrow> string \<Rightarrow> string \<Rightarrow> state \<Rightarrow> (string \<times> string \<times> state) st_res" where
  "launch_unit session_id u unit_parent unit_created_by now_text trigger st =
     (let label = py_strip (or_text (un_display_name u) (un_unit_id u));
          goal_body = py_strip (or_text (un_goal_text u) label)
      in start_goal_session_in_state session_id (un_unit_id u) [unit_parent] label goal_body unit_created_by
           now_text trigger st)"

definition launch_scheduled_unit ::
  "string \<Rightarrow> string \<Rightarrow> string \<Rightarrow> string \<Rightarrow> unit_rec \<Rightarrow> launch list \<Rightarrow> state \<Rightarrow> (launch list \<times> state) res" where
  "launch_scheduled_unit parent_session_id created_by now_text key u started st =
     bindR (unit_launch_identity st u parent_session_id created_by) (\<lambda>(unit_parent, unit_created_by).
       let (session_id, st1) = scheduled_session_id (un_unit_id u) now_text st
       in after_start started (un_unit_id u)
            (finish_scheduled_launch key u session_id unit_created_by now_text started)
            (launch_unit session_id u unit_parent unit_created_by now_text ''scheduled'' st1))"

definition launch_startup_unit ::
  "string \<Rightarrow> string \<Rightarrow> string \<Rightarrow> string \<Rightarrow> unit_rec \<Rightarrow> launch list \<Rightarrow> state \<Rightarrow> (launch list \<times> state) res" where
  "launch_startup_unit parent_session_id created_by now_text key u started st =
     bindR (unit_launch_identity st u parent_session_id created_by) (\<lambda>(unit_parent, unit_created_by).
       let (session_id, st1) = triggered_session_id (un_unit_id u) ''startup'' now_text st
       in after_start started (un_unit_id u)
            (finish_startup_launch key u unit_created_by now_text started)
            (launch_unit session_id u unit_parent unit_created_by now_text ''startup'' st1))"

definition scheduled_unit_step ::
  "string \<Rightarrow> string \<Rightarrow> string \<Rightarrow> instant \<Rightarrow> string \<Rightarrow> launch list \<times> state \<Rightarrow> (launch list \<times> state) res" where
  "scheduled_unit_step parent_session_id created_by now_text now_dt key acc =
     (case acc of (started, st) \<Rightarrow>
        case map_of (st_units st) key of
          None \<Rightarrow> Inr acc
        | Some u \<Rightarrow>
            if un_status u \<noteq> ''active'' then Inr acc
            else bindR (unit_activation_trigger_enabled key ''scheduled'' st) (\<lambda>(enabled, st1).
              if \<not> enabled then Inr (started, st1)
              else bindR (unit_schedule_due st1 u now_dt) (\<lambda>due.
                if \<not> due \<or> un_unit_id u = [] then Inr (started, st1)
                else launch_scheduled_unit parent_session_id created_by now_text key u started st1)))"

definition startup_unit_step ::
  "string \<Rightarrow> string \<Rightarrow> string \<Rightarrow> string \<Rightarrow> launch list \<times> state \<Rightarrow> (launch list \<times> state) res" where
  "startup_unit_step parent_session_id created_by now_text key acc =
     (case acc of (started, st) \<Rightarrow>
        case map_of (st_units st) key of
          None \<Rightarrow> Inr acc
        | Some u \<Rightarrow>
            if un_status u \<noteq> ''active'' then Inr acc
            else bindR (unit_activation_trigger_enabled key ''startup'' st) (\<lambda>(enabled, st1).
              if \<not> enabled \<or> un_unit_id u = [] then Inr (started, st1)
              else launch_startup_unit parent_session_id created_by now_text key u started st1))"

definition check_launch :: "string \<Rightarrow> string \<Rightarrow> state \<Rightarrow> unit res" where
  "check_launch parent_session_id created_by st =
     (if get_session st parent_session_id = None then
        Inl (StoreError (''unknown parent session: '' @ parent_session_id))
      else if map_of (st_users st) created_by = None then
        Inl (StoreError (''unknown account: '' @ created_by))
      else Inr ())"

text \<open>An empty \<open>now\<close> is \<open>None\<close>.\<close>

definition run_scheduled_units ::
  "string \<Rightarrow> string \<Rightarrow> string \<Rightarrow> state \<Rightarrow> (launch list \<times> state) res" where
  "run_scheduled_units parent_session_id created_by now st =
     bindR (check_launch parent_session_id created_by st) (\<lambda>_.
       let (now_text, st1) = clock_or now st in
       bindR (parse_utc st1 now_text) (\<lambda>now_dt.
       bindR (foldR (scheduled_unit_step parent_session_id created_by now_text now_dt)
                (sorted_unit_keys st1) ([], st1)) (\<lambda>(started, st2).
       bindR (save st2) (\<lambda>st3. Inr (started, st3)))))"

definition run_startup_units ::
  "string \<Rightarrow> string \<Rightarrow> string \<Rightarrow> state \<Rightarrow> (launch list \<times> state) res" where
  "run_startup_units parent_session_id created_by now st =
     bindR (check_launch parent_session_id created_by st) (\<lambda>_.
       let (now_text, st1) = clock_or now st in
       bindR (foldR (startup_unit_step parent_session_id created_by now_text)
                (sorted_unit_keys st1) ([], st1)) (\<lambda>(started, st2).
       bindR (save st2) (\<lambda>st3. Inr (started, st3))))"

end
