(* ===== verification/Agents.thy ===== *)
theory Agents
  imports Model
begin

section \<open>Running an agent\<close>

text \<open>
  src/src/goal/agents.py. What lies outside the program is a parameter: \<open>external_enabled\<close> (the
  environment variable), \<open>which\<close> (the executable a name resolves to, if any) and \<open>execute\<close> (what the
  operating system answers to a command). The local and remote providers and a disabled external
  provider answer without running anything.
\<close>

record agent_result =
  ar_provider :: string
  ar_output :: string
  ar_resume_token :: string
  ar_provider_thread_id :: string

definition external_agents_enabled :: "string option \<Rightarrow> bool" where
  "external_agents_enabled variable =
     (py_lower (py_strip (case variable of None \<Rightarrow> ''true'' | Some v \<Rightarrow> v))
        \<notin> {''0'', ''false'', ''no'', ''off''})"

definition provider_is_available :: "bool \<Rightarrow> (string \<Rightarrow> string option) \<Rightarrow> string \<Rightarrow> bool" where
  "provider_is_available external_enabled which provider =
     (let normalized = py_lower (py_strip provider) in
      if normalized \<in> {[], ''local'', ''remote-aize''} then True
      else if \<not> external_enabled then True
      else which normalized \<noteq> None)"

definition newline :: string where
  "newline = [CHR 0x0A]"

definition quoted :: "string \<Rightarrow> string" where
  "quoted s = CHR 0x22 # s @ [CHR 0x22]"

definition aize_output :: "string \<Rightarrow> string \<Rightarrow> string \<Rightarrow> string" where
  "aize_output role provider text =
     ''<aize-output role='' @ quoted role @ '' provider='' @ quoted provider @ ''>'' @ newline @ text @ newline
     @ ''</aize-output>''"

definition run_local :: "string \<Rightarrow> string \<Rightarrow> string \<Rightarrow> string" where
  "run_local role prompt resume_token =
     aize_output role ''local''
       (role @ '' handled prompt locally.''
        @ (if resume_token = [] then [] else newline @ ''Thread: '' @ resume_token)
        @ newline @ newline @ prompt)"

text \<open>What \<open>subprocess.run\<close> may do: raise \<open>TimeoutExpired\<close> or \<open>OSError\<close>, or complete.\<close>

datatype process_outcome =
    Timed_out
  | Os_failure string
  | Completed int string string

definition external_command :: "string \<Rightarrow> string \<Rightarrow> string \<Rightarrow> string list" where
  "external_command provider executable resumed_prompt =
     (if provider = ''codex'' then
        [executable, ''exec'', ''--skip-git-repo-check'', ''--sandbox'', ''danger-full-access'',
         ''--dangerously-bypass-approvals-and-sandbox'', resumed_prompt]
      else [executable, ''-p'', resumed_prompt])"

definition run_external ::
  "(string \<Rightarrow> string option) \<Rightarrow> (string list \<Rightarrow> process_outcome) \<Rightarrow> string \<Rightarrow> string \<Rightarrow> string \<Rightarrow> string res" where
  "run_external which execute provider prompt resume_token =
     (case which provider of
        None \<Rightarrow> Inl (AgentError (provider @ '' executable not found''))
      | Some executable \<Rightarrow>
          let resumed_prompt = (if resume_token = [] then prompt
                else ''Resume durable AIze agent thread: '' @ resume_token @ newline @ newline @ prompt)
          in case execute (external_command provider executable resumed_prompt) of
               Timed_out \<Rightarrow> Inl (AgentError (provider @ '' exceeded the 600-second execution limit''))
             | Os_failure e \<Rightarrow> Inl (AgentError (provider @ '' could not be executed: '' @ e))
             | Completed code stdout stderr \<Rightarrow>
                 let output = py_strip stdout; err = py_strip stderr in
                 if code \<noteq> 0 then
                   Inl (AgentError (provider @ '' failed with exit code '' @ dec_int code @ '': '' @ err))
                 else if err \<noteq> [] then
                   Inr (py_strip (output @ newline @ newline @ ''stderr:'' @ newline @ err))
                 else Inr output)"

definition agent_run ::
  "bool \<Rightarrow> (string \<Rightarrow> string option) \<Rightarrow> (string list \<Rightarrow> process_outcome) \<Rightarrow> string \<Rightarrow> role \<Rightarrow> string \<Rightarrow> string
     \<Rightarrow> agent_result res" where
  "agent_run external_enabled which execute provider role prompt resume_token =
     (let normalized = py_lower (py_strip provider);
          answer = (\<lambda>output. \<lparr>ar_provider = normalized, ar_output = output, ar_resume_token = resume_token,
                              ar_provider_thread_id = []\<rparr>)
      in if normalized = ''local'' then Inr (answer (run_local (role_name role) prompt resume_token))
         else if normalized = ''remote-aize'' then
           (if role \<noteq> WorkerAgent then Inl (AgentError ''remote-aize provider is only allowed for WorkerAgent'')
            else Inr (answer (aize_output ''WorkerAgent'' ''remote-aize''
                   (''WorkerAgent handoff queued for remote AIze via message passing. ''
                    @ ''No local filesystem exchange was performed directly.'' @ newline @ newline @ prompt))))
         else if normalized = ''codex'' \<or> normalized = ''claude'' then
           (if \<not> external_enabled then
              Inr (answer (aize_output (role_name role) normalized
                   (normalized @ '' provider is assigned but external execution is disabled. ''
                    @ ''The session agent thread was still resumed in durable state.'' @ newline @ newline @ prompt)))
            else bindR (run_external which execute normalized prompt resume_token) (\<lambda>output. Inr (answer output)))
         else Inl (AgentError (''unsupported agent provider: '' @ provider)))"

lemma run_external_error:
  "run_external which execute provider prompt resume_token = Inl e \<Longrightarrow> \<exists>text. e = AgentError text"
  unfolding run_external_def Let_def
  by (simp only: split: option.splits process_outcome.splits if_splits) (blast dest: sym)+

text \<open>Running an agent fails in one way only: whatever the environment does, the result is an answer or
  an \<open>AgentError\<close>, the error that a dispatch turns into a failed run; and the local provider always
  answers.\<close>

theorem agent_run_raises_agent_errors:
  "case agent_run external_enabled which execute provider role prompt resume_token of
     Inl e \<Rightarrow> (\<exists>text. e = AgentError text) \<and> py_lower (py_strip provider) \<noteq> ''local''
   | Inr r \<Rightarrow> ar_provider r = py_lower (py_strip provider) \<and> ar_resume_token r = resume_token"
proof (cases "py_lower (py_strip provider) = ''local''")
  case True
  then show ?thesis unfolding agent_run_def Let_def True by (simp only: simp_thms if_True sum.case agent_result.simps)
next
  case False
  show ?thesis
    using run_external_error [of which execute "py_lower (py_strip provider)" prompt resume_token] False
    unfolding agent_run_def Let_def
    by (cases "run_external which execute (py_lower (py_strip provider)) prompt resume_token")
       (simp_all only: if_False bindR.simps sum.case agent_result.simps split: if_split, blast+)
qed

end
