(* ===== verification/Dispatch.thy ===== *)
theory Dispatch
  imports Readiness Schedules Agents
begin

section \<open>Dispatch: appointing an agent and acquiring a lease\<close>

text \<open>
  The first half of src/src/goal/dispatch.py: which account acts, which agent thread it resumes,
  what the agent is shown, and \<open>_acquire_dispatch_lease_locked\<close>, the transaction that turns the
  chosen ready entry into an acquired run. \<open>available\<close> is \<open>provider_is_available\<close> in the machine's
  environment. An agent thread is identified by its key in \<open>agent_threads\<close>.
\<close>

subsection \<open>Accounts and threads\<close>

definition eligible_account :: "state \<Rightarrow> role \<Rightarrow> string \<Rightarrow> string \<Rightarrow> (string \<times> string) option" where
  "eligible_account st role profile_provider name =
     (case map_of (st_users st) name of
        None \<Rightarrow> None
      | Some u \<Rightarrow>
          if u_status u \<noteq> ''active'' \<and> u_status u \<noteq> ''service'' then None
          else if slot_group role \<notin> set (u_groups u) then None
          else Some (u_username u,
                     if u_provider u \<noteq> [] then u_provider u
                     else if profile_provider \<noteq> [] then profile_provider else DEFAULT_AGENT_PROVIDER))"

definition select_dispatch_account ::
  "(string \<Rightarrow> bool) \<Rightarrow> state \<Rightarrow> role \<Rightarrow> string list \<Rightarrow> string \<Rightarrow> (string \<times> string) option" where
  "select_dispatch_account available st role accounts profile_provider =
     (let requested = filter (\<lambda>n. n \<noteq> []) (map py_strip accounts);
          eligible = List.map_filter (eligible_account st role profile_provider) requested
      in case List.find (\<lambda>(user, provider). available provider) eligible of
           Some a \<Rightarrow> Some a
         | None \<Rightarrow> (case eligible of [] \<Rightarrow> None | a # _ \<Rightarrow> Some a))"

definition new_thread :: "string \<Rightarrow> string \<Rightarrow> role \<Rightarrow> string \<Rightarrow> string \<Rightarrow> string \<Rightarrow> agent_thread" where
  "new_thread key session_id role account agent_id now =
     \<lparr>th_thread_id = key, th_session_id = session_id, th_role = role, th_group = slot_group role,
      th_account = account, th_resume_token = ''thread-'' @ agent_id, th_created_at = now,
      th_updated_at = now, th_turns = [], th_provider_threads = []\<rparr>"

text \<open>Without an account the thread of the role is used; with one, its own thread, which may take over
  the role's thread when no other provider has continued it.\<close>

definition adoptable :: "agent_thread \<Rightarrow> string \<Rightarrow> bool" where
  "adoptable legacy provider \<longleftrightarrow>
     py_strip (th_account legacy) = [] \<and> list_all (\<lambda>k. k = provider) (dict_keys (th_provider_threads legacy))"

definition ensure_agent_thread :: "string \<Rightarrow> role \<Rightarrow> string \<Rightarrow> string \<Rightarrow> state \<Rightarrow> string \<times> state" where
  "ensure_agent_thread session_id role account provider st =
     (let (now, st0) = utc_now st;
          legacy_key = session_id @ '':'' @ role_name role;
          account_name = py_strip account;
          key = (if account_name = [] then legacy_key else legacy_key @ '':'' @ account_name)
      in if map_of (st_agent_threads st0) key \<noteq> None then (key, st0)
         else case (if account_name = [] then None else map_of (st_agent_threads st0) legacy_key) of
           Some legacy \<Rightarrow>
             if adoptable legacy provider then
               (key, st0\<lparr>st_agent_threads := AList.update key
                  (legacy\<lparr>th_thread_id := key, th_account := account_name, th_group := slot_group role\<rparr>)
                  (AList.delete legacy_key (st_agent_threads st0))\<rparr>)
             else
               let (agent_id, st1) = new_id ''agent'' st0
               in (key, st1\<lparr>st_agent_threads := AList.update key
                     (new_thread key session_id role account_name agent_id now) (st_agent_threads st1)\<rparr>)
         | None \<Rightarrow>
             let (agent_id, st1) = new_id ''agent'' st0
             in (key, st1\<lparr>st_agent_threads := AList.update key
                   (new_thread key session_id role account_name agent_id now) (st_agent_threads st1)\<rparr>))"

definition record_agent_turn :: "string \<Rightarrow> string \<Rightarrow> agent_result \<Rightarrow> state \<Rightarrow> state" where
  "record_agent_turn key prompt result st =
     (let (now, st1) = utc_now st in
      st1\<lparr>st_agent_threads := AList.map_entry key
        (\<lambda>t. t\<lparr>th_updated_at := now,
               th_turns := th_turns t @ [\<lparr>at_created_at = now, at_prompt = prompt, at_result = ar_output result\<rparr>],
               th_provider_threads :=
                 (if ar_provider result \<noteq> [] \<and> ar_provider_thread_id result \<noteq> []
                  then AList.update (ar_provider result) (ar_provider_thread_id result) (th_provider_threads t)
                  else th_provider_threads t)\<rparr>) (st_agent_threads st1)\<rparr>)"

subsection \<open>What the agent is shown\<close>

definition session_messages_for_dispatch :: "string \<Rightarrow> state \<Rightarrow> message list \<times> state" where
  "session_messages_for_dispatch session_id st = session_messages session_id st"

definition dispatch_messages_for_readiness :: "string \<Rightarrow> readiness \<Rightarrow> state \<Rightarrow> message list \<times> state" where
  "dispatch_messages_for_readiness session_id e st =
     (let (entries, st1) = session_log_entries session_id st in
      (List.map_filter message_for_log_entry
         (filter (\<lambda>x. rd_from_log_seq e \<le> le_seq x \<and> le_seq x \<le> rd_observed_to_seq e) entries), st1))"

definition dispatch_signals_for_readiness ::
  "state \<Rightarrow> string \<Rightarrow> role \<Rightarrow> readiness \<Rightarrow> (system_signal \<times> string \<times> nat) list" where
  "dispatch_signals_for_readiness st session_id role e =
     system_signals_for_log_range st session_id (rd_from_log_seq e) (rd_observed_to_seq e) (Some role)"

subsection \<open>Acquiring the lease\<close>

record lease =
  l_goal :: goal
  l_session :: session
  l_unit :: "unit_rec option"
  l_run :: run
  l_readiness_id :: string
  l_session_messages :: "message list"
  l_dispatch_messages :: "message list"
  l_dispatch_signals :: "(system_signal \<times> string \<times> nat) list"
  l_role :: role
  l_provider :: string
  l_agent_user :: string
  l_thread_key :: string
  l_resume_token :: string
  l_recovery_context :: string

definition acquired_entry :: "string \<Rightarrow> readiness \<Rightarrow> readiness" where
  "acquired_entry now e = e\<lparr>rd_status := Acquired, rd_acquired_at := Some now\<rparr>"

text \<open>The timing of a scheduled session: when it was queued and when its first run started.\<close>

definition start_timing :: "readiness \<Rightarrow> string \<Rightarrow> session \<Rightarrow> session" where
  "start_timing e now s =
     (case s_schedule_timing s of
        None \<Rightarrow> s
      | Some tm \<Rightarrow>
          let queued = (if rd_first_ready_at e = [] then now else rd_first_ready_at e)
          in s\<lparr>s_schedule_timing := Some (tm\<lparr>
               tm_queued_at := (if tm_queued_at tm = [] then queued else tm_queued_at tm),
               tm_started_at := (if tm_started_at tm = [] then now else tm_started_at tm)\<rparr>)\<rparr>)"

definition profile_of :: "state \<Rightarrow> role \<Rightarrow> agent_profile" where
  "profile_of st role =
     (case map_of (st_agent_profiles st) (role_name role) of
        Some p \<Rightarrow> p
      | None \<Rightarrow> \<lparr>ap_role = role, ap_provider = DEFAULT_AGENT_PROVIDER, ap_accounts = [],
                 ap_status = [], ap_default_assignment = False, ap_created_at = [], ap_updated_at = []\<rparr>)"

definition new_run ::
  "string \<Rightarrow> goal \<Rightarrow> string \<Rightarrow> readiness \<Rightarrow> int \<Rightarrow> string \<Rightarrow> string \<Rightarrow> string list \<Rightarrow> string \<Rightarrow> string
     \<Rightarrow> nat option \<Rightarrow> string \<Rightarrow> run" where
  "new_run run_id g unit_id e score reason now message_ids agent_user provider lot recovery_context =
     \<lparr>r_run_id = run_id, r_goal_id = g_goal_id g, r_session_id = g_session_id g, r_role = rd_role e,
      r_unit_id = unit_id, r_lease_state = LeaseAcquired, r_readiness_id = rd_readiness_id e,
      r_scheduling_score = score, r_scheduling_reason = reason, r_created_at = now,
      r_lease_acquired_at = now, r_lease_released_at = [], r_interrupted_at = [],
      r_interrupted_reason = [], r_steps = [], r_session_message_ids = message_ids,
      r_current_phase = Some (rd_role e), r_agent_group = slot_group (rd_role e),
      r_agent_user = agent_user, r_agent_provider = provider, r_observed_goal_body = g_body g,
      r_from_log_seq = rd_from_log_seq e, r_observed_to_seq = rd_observed_to_seq e,
      r_wake_reasons = rd_wake_reasons e, r_dispatch_lot_id = lot, r_recovery_context = recovery_context,
      r_completion_state = None, r_goal_manager_status = [], r_declared_outcome = None, r_outcome = None,
      r_stale_results = [], r_stale_result_at = [], r_failed_at = [], r_error = []\<rparr>"

definition dispatched_goal :: "string \<Rightarrow> string \<Rightarrow> goal \<Rightarrow> goal" where
  "dispatched_goal now unit_id g =
     g\<lparr>g_dispatched_at := now,
       g_dispatched_unit_id := (if unit_id = [] then g_dispatched_unit_id g else unit_id)\<rparr>"

text \<open>The guards between the choice of the entry and the first change.\<close>

definition dispatchable ::
  "readiness \<Rightarrow> state \<Rightarrow> (goal \<times> session \<times> unit_rec option) res" where
  "dispatchable e st =
     (case get_goal st (rd_goal_id e) of
        None \<Rightarrow> Inl (KeyError (rd_goal_id e))
      | Some g \<Rightarrow>
          (case get_session st (g_session_id g) of
             None \<Rightarrow> Inl (StoreError (''goal references unknown session: '' @ g_session_id g))
           | Some session \<Rightarrow>
               if \<not> s_active session then Inl (StoreError (''goal session is inactive: '' @ g_session_id g))
               else
                 let unit_id = py_strip (s_unit_id session);
                     unit = (if unit_id = [] then None else map_of (st_units st) unit_id)
                 in if unit_id \<noteq> [] \<and> unit = None then
                      Inl (StoreError (''session references unknown unit: '' @ unit_id))
                    else (case unit of
                      Some u \<Rightarrow> if un_status u \<noteq> ''active'' then
                                  Inl (StoreError (''session unit is not active: '' @ unit_id))
                                else Inr (g, session, unit)
                    | None \<Rightarrow> Inr (g, session, unit))))"

text \<open>The account that acts and the provider it acts through; without an appointed account the profile's
  provider.\<close>

definition appoint_agent :: "(string \<Rightarrow> bool) \<Rightarrow> state \<Rightarrow> role \<Rightarrow> string \<times> string" where
  "appoint_agent available st role =
     (let profile = profile_of st role;
          default = (if ap_provider profile \<noteq> [] then ap_provider profile else DEFAULT_AGENT_PROVIDER)
      in case select_dispatch_account available st role (ap_accounts profile) (ap_provider profile) of
           Some (user, p) \<Rightarrow> (user, if p \<noteq> [] then p else default)
         | None \<Rightarrow> ([], default))"

text \<open>The rest of the transaction once the entry at position \<open>i\<close> is chosen.\<close>

definition grant_lease ::
  "(string \<Rightarrow> bool) \<Rightarrow> nat \<Rightarrow> int \<Rightarrow> string \<Rightarrow> string \<Rightarrow> nat option \<Rightarrow> goal \<Rightarrow> session \<Rightarrow> unit_rec option
     \<Rightarrow> state \<Rightarrow> lease \<times> state" where
  "grant_lease available i score reason recovery_context lot g session unit st =
     (let sid = g_session_id g;
          unit_id = py_strip (s_unit_id session);
          (now, st1) = utc_now st;
          e = acquired_entry now (st_dispatch_readiness st1 ! i);
          st2 = st1\<lparr>st_dispatch_readiness := (st_dispatch_readiness st1)[i := e]\<rparr>;
          st3 = upd_session sid (start_timing e now) st2;
          role = rd_role e;
          (agent_user, provider) = appoint_agent available st3 role;
          (key, st4) = ensure_agent_thread sid role agent_user provider st3;
          (messages, st5) = session_messages_for_dispatch sid st4;
          (window, st6) = dispatch_messages_for_readiness sid e st5;
          signals = dispatch_signals_for_readiness st6 sid role e;
          (run_id, st7) = new_id ''run'' st6;
          r = new_run run_id g unit_id e score reason now (map m_message_id messages) agent_user provider
                lot recovery_context;
          st8 = st7\<lparr>st_dispatch_runs := AList.update run_id r (st_dispatch_runs st7)\<rparr>;
          st9 = upd_goal (g_goal_id g) (dispatched_goal now unit_id) st8
      in (\<lparr>l_goal = dispatched_goal now unit_id g, l_session = start_timing e now session, l_unit = unit, l_run = r, l_readiness_id = rd_readiness_id e,
           l_session_messages = messages, l_dispatch_messages = window, l_dispatch_signals = signals,
           l_role = role, l_provider = provider, l_agent_user = agent_user, l_thread_key = key,
           l_resume_token = (case map_of (st_agent_threads st9) key of None \<Rightarrow> [] | Some t \<Rightarrow> th_resume_token t),
           l_recovery_context = recovery_context\<rparr>, st9))"

text \<open>
  A call that finds nothing to dispatch saves only when the liveness pass changed something; the
  changes of \<open>_next_dispatch_readiness_entry\<close> alone are dropped with the loaded state
  (the clock and the identifiers it used stay used).
\<close>

definition acquire_dispatch_lease_locked ::
  "(string \<Rightarrow> bool) \<Rightarrow> string \<Rightarrow> string \<Rightarrow> nat option \<Rightarrow> state \<Rightarrow> (lease option \<times> state) res" where
  "acquire_dispatch_lease_locked available session_id recovery_context lot st =
     (if session_id \<noteq> [] \<and> get_session st session_id = None then
        Inl (StoreError (''unknown session: '' @ session_id))
      else
        bindR (reconcile_dispatch_liveness st) (\<lambda>(liveness_changed, st1).
        bindR (next_dispatch_readiness_entry session_id st1) (\<lambda>(choice, st2).
          case choice of
            None \<Rightarrow>
              if liveness_changed then bindR (save st2) (\<lambda>st3. Inr (None, st3))
              else Inr (None, st\<lparr>st_ticks := st_ticks st2, st_uid := st_uid st2\<rparr>)
          | Some (i, score, reason) \<Rightarrow>
              bindR (dispatchable (st_dispatch_readiness st2 ! i) st2) (\<lambda>(g, session, unit).
                let (lease, st3) = grant_lease available i score reason recovery_context lot g session unit st2
                in bindR (save st3) (\<lambda>st4. Inr (Some lease, st4))))))"

end
