(* ===== verification/Dispatch_Commit.thy ===== *)
theory Dispatch_Commit
  imports Dispatch
begin

section \<open>Dispatch: committing what the agent returned\<close>

text \<open>
  The second half of src/src/goal/dispatch.py. When the agent returns, a transaction first decides
  whether its result may still count (\<open>stale_dispatch_fence\<close>); a fenced result is only kept as
  evidence, any other result is committed by role, and an agent failure by
  \<open>commit_dispatch_error_locked\<close>. The dictionaries that these operations return are reports of what
  they stored; of them the model keeps the goal transition and the implicit worker message.
\<close>

record dispatch_report =
  dr_transition :: "transition option"
  dr_message :: "message option"

definition no_report :: dispatch_report where
  "no_report = \<lparr>dr_transition = None, dr_message = None\<rparr>"

subsection \<open>The fence\<close>

fun lease_state_name :: "lease_state \<Rightarrow> string" where
  "lease_state_name LeaseAcquired = ''acquired''"
| "lease_state_name LeaseReleased = ''released''"
| "lease_state_name LeaseInterrupted = ''interrupted''"

text \<open>What one entry past the observation window means for the run: nothing, or a conflict. The events
  of a goal body update and of a completed child carry no run identifier of their own.\<close>

definition entry_conflict :: "string \<Rightarrow> log_entry \<Rightarrow> string option" where
  "entry_conflict run_id e =
     (case le_item e of
        LGoalBodyUpdated _ _ _ _ _ \<Rightarrow>
          if run_id = [] then None
          else Some ''a SessionGoal body revision arrived after the run's observation window''
      | LMessage _ \<Rightarrow>
          (case message_for_log_entry e of
             Some m \<Rightarrow> if pl_run_id (m_payload m) = run_id then None
                       else Some ''a newer Session message arrived after the run's observation window''
           | None \<Rightarrow> Some ''a newer Session message arrived after the run's observation window'')
      | LGoalStateChanged t \<Rightarrow>
          if t_run_id t = run_id then None
          else Some ''a newer SessionGoal state change arrived after the run's observation window''
      | LChildGoalCompleted _ \<Rightarrow> Some ''a child SessionGoal completed after the run's observation window''
      | LSessionActiveChanged _ _ _ _ \<Rightarrow> None
      | LSystemSignal _ \<Rightarrow> None)"

definition new_requirement_conflicts_after_window :: "state \<Rightarrow> string \<Rightarrow> string \<Rightarrow> nat \<Rightarrow> string option" where
  "new_requirement_conflicts_after_window st session_id run_id observed_to_seq =
     (if latest_session_log_seq st session_id \<le> observed_to_seq then None
      else case List.map_filter (entry_conflict run_id) (session_log_after_cursor st session_id observed_to_seq) of
        [] \<Rightarrow> None | c # _ \<Rightarrow> Some c)"

definition stale_dispatch_fence :: "state \<Rightarrow> run \<Rightarrow> role \<Rightarrow> string option" where
  "stale_dispatch_fence st r role =
     (if r_role r \<noteq> role then Some (''dispatch run belongs to another role: '' @ role_name (r_role r))
      else if r_lease_state r \<noteq> LeaseAcquired then
        Some (''dispatch run is no longer acquired: lease_state='' @ lease_state_name (r_lease_state r))
      else case get_goal st (r_goal_id r) of
        None \<Rightarrow> Some ''dispatch run references a missing SessionGoal''
      | Some g \<Rightarrow>
          if g_body g \<noteq> r_observed_goal_body r then
            Some ''the observed SessionGoal was updated during the dispatch run''
          else new_requirement_conflicts_after_window st (r_session_id r) (r_run_id r) (r_observed_to_seq r))"

definition release_run :: "string \<Rightarrow> run \<Rightarrow> run" where
  "release_run now r =
     r\<lparr>r_lease_state := LeaseReleased, r_lease_released_at := now, r_current_phase := None\<rparr>"

definition upd_entry_by_id :: "string \<Rightarrow> (readiness \<Rightarrow> readiness) \<Rightarrow> state \<Rightarrow> state" where
  "upd_entry_by_id rid f st =
     st\<lparr>st_dispatch_readiness := update_first (\<lambda>e. rd_readiness_id e = rid) f (st_dispatch_readiness st)\<rparr>"

definition end_entry :: "readiness_status \<Rightarrow> string \<Rightarrow> readiness \<Rightarrow> readiness" where
  "end_entry status now e = e\<lparr>rd_status := status, rd_ended_at := now\<rparr>"

text \<open>The readiness entry of a discarded run goes stale and the role's cursor passes the window, if the
  run still held its lease.\<close>

definition release_discarded :: "run \<Rightarrow> role \<Rightarrow> string \<Rightarrow> string \<Rightarrow> state \<Rightarrow> state" where
  "release_discarded r role fence_reason now st =
     (if r_lease_state r \<noteq> LeaseAcquired then st
      else set_role_cursor (r_session_id r) role (r_observed_to_seq r)
             (upd_entry_by_id (r_readiness_id r)
                (\<lambda>e. if rd_status e = Acquired
                     then stale_entry now (''dispatch result discarded: '' @ fence_reason) e else e)
                (upd_run (r_run_id r) (release_run now) st)))"

definition discard_stale_dispatch_result ::
  "run \<Rightarrow> role \<Rightarrow> string \<Rightarrow> string \<Rightarrow> state \<Rightarrow> (dispatch_report \<times> state) res" where
  "discard_stale_dispatch_result r role fence_reason output st =
     (let (now, st1) = utc_now st;
          st2 = upd_run (r_run_id r)
                  (\<lambda>r. r\<lparr>r_stale_results := r_stale_results r @
                           [\<lparr>sr_created_at = now, sr_role = role, sr_fence_reason = fence_reason, sr_output = output\<rparr>],
                         r_stale_result_at := now\<rparr>) st1;
          st3 = release_discarded r role fence_reason now st2;
          (_, st4) = log_system_signal (r_session_id r) ''StaleDispatchResultDiscarded''
            (''Dispatch run '' @ r_run_id r @ '' returned after it lost its dispatch ownership or its observed ''
             @ ''requirement changed: '' @ fence_reason @ ''. The returned output was kept as run evidence without ''
             @ ''advancing the SessionGoal.'')
            [GoalManager] ''dispatcher'' (r_run_id r)
            [(''role'', JStr (role_name role)), (''stale_output_chars'', JInt (int (length output))),
             (''fence_reason'', JStr fence_reason)] now st3
      in bindR (save st4) (\<lambda>st5. Inr (no_report, st5)))"

text \<open>A run that is gone from the state gives its entry back to the queue.\<close>

definition recover_missing_lease_run :: "lease \<Rightarrow> state \<Rightarrow> (dispatch_report \<times> state) res" where
  "recover_missing_lease_run lease st =
     (let run_id = r_run_id (l_run lease);
          session_id = s_session_id (l_session lease);
          (now, st1) = utc_now st;
          st2 = upd_entry_by_id (l_readiness_id lease)
                  (\<lambda>e. if rd_status e = Acquired
                       then e\<lparr>rd_status := Ready, rd_recovered_at := now, rd_acquired_at := None\<rparr> else e) st1;
          st3 = (if get_session st2 session_id = None then st2
                 else snd (log_system_signal session_id ''DispatchRunRecovered''
                   (''Dispatch run '' @ run_id @ '' was missing when its Agent result returned. ''
                    @ ''The request was returned to the dispatch queue.'')
                   [GoalManager] ''dispatcher'' run_id
                   [(''readiness_id'', JStr (l_readiness_id lease)), (''role'', JStr (role_name (l_role lease)))] now st2))
      in bindR (save st3) (\<lambda>st4. Inr (no_report, st4)))"

subsection \<open>Steps, messages and outcomes of a turn\<close>

definition append_dispatch_step_message ::
  "string \<Rightarrow> string \<Rightarrow> string \<Rightarrow> string \<Rightarrow> string \<Rightarrow> string \<Rightarrow> string \<Rightarrow> state \<Rightarrow> state res" where
  "append_dispatch_step_message run_id session_id sender recipient body provider phase st =
     (let (now, st1) = utc_now st in
      bindR (normalize_endpoint sender session_id) (\<lambda>from_ep.
      bindR (normalize_endpoint recipient session_id) (\<lambda>to_ep.
        Inr (upd_run run_id (\<lambda>r. r\<lparr>r_steps := r_steps r @
               [\<lparr>sp_phase = phase, sp_provider = provider, sp_from = from_ep, sp_to = to_ep, sp_message_id = [],
                 sp_created_at = now, sp_output = body\<rparr>]\<rparr>) st1))))"

definition role_turn_session_messages ::
  "string \<Rightarrow> run \<Rightarrow> role \<Rightarrow> state \<Rightarrow> (message list \<times> state) res" where
  "role_turn_session_messages session_id r role st =
     bindR (normalize_endpoint SESSION_RECIPIENT session_id) (\<lambda>recipient.
       let (messages, st1) = session_messages session_id st in
       Inr (filter (\<lambda>m. pl_run_id (m_payload m) = r_run_id r
                        \<and> m_from m = agent_sender_endpoint role (r_agent_user r) \<and> m_to m = recipient) messages,
            st1))"

definition record_role_turn_outcome ::
  "run \<Rightarrow> string \<Rightarrow> role \<Rightarrow> outcome option \<Rightarrow> log_entry option \<Rightarrow> state \<Rightarrow> state res" where
  "record_role_turn_outcome r session_id role goal_decision protocol_signal st =
     bindR (role_turn_session_messages session_id r role st) (\<lambda>(messages, st1).
       let signal = Option.bind protocol_signal (\<lambda>e. item_signal (le_item e)) in
       Inr (upd_run (r_run_id r) (\<lambda>r. r\<lparr>r_outcome := Some
         \<lparr>to_role = role,
          to_required_output = (if role = GoalManager then ''goal_completion_state'' else ''session_message''),
          to_valid = (if role = GoalManager then goal_decision \<noteq> None else messages \<noteq> []),
          to_session_message_ids = map m_message_id messages,
          to_goal_decision = goal_decision,
          to_protocol_signal_id = (case signal of None \<Rightarrow> [] | Some s \<Rightarrow> sg_signal_id s),
          to_protocol_signal_log_id = (case protocol_signal of None \<Rightarrow> [] | Some e \<Rightarrow> le_log_id e)\<rparr>\<rparr>) st1))"

definition role_turn_retry_at :: "state \<Rightarrow> string \<times> state" where
  "role_turn_retry_at st = (let (now, st1) = now_instant st in (iso_utc (now + 30 * 1000000), st1))"

definition mark_session_messages_delivered :: "message list \<Rightarrow> state \<Rightarrow> state" where
  "mark_session_messages_delivered messages st =
     (case List.find (\<lambda>m. starts_with ''session:'' (m_to m)) messages of
        None \<Rightarrow> st
      | Some m \<Rightarrow> advance_endpoint_cursor (m_to m) messages st)"

definition messages_for_run :: "string \<Rightarrow> string \<Rightarrow> state \<Rightarrow> message list \<times> state" where
  "messages_for_run session_id run_id st =
     (let (messages, st1) = session_messages session_id st
      in (filter (\<lambda>m. pl_run_id (m_payload m) = run_id) messages, st1))"

definition has_worker_request_for_run :: "string \<Rightarrow> string \<Rightarrow> state \<Rightarrow> bool \<times> state" where
  "has_worker_request_for_run session_id run_id st =
     (let (messages, st1) = session_messages session_id st
      in (list_ex (\<lambda>m. pl_run_id (m_payload m) = run_id \<and> pl_worker_request (m_payload m)) messages, st1))"

definition implicit_worker_request_body :: "goal \<Rightarrow> string \<Rightarrow> string" where
  "implicit_worker_request_body g reason =
     (let normalized = (if py_strip reason = [] then ''Work toward the incomplete SessionGoal.'' else py_strip reason)
      in py_join (newline @ newline)
           [''GoalManager marked the SessionGoal incomplete. Treat this as WorkerAgent work.'',
            ''SessionGoal:'' @ newline @ py_strip (g_body g),
            ''GoalManager incomplete instruction:'' @ newline @ normalized,
            ''Work toward the SessionGoal, report progress/results to Session, and do not decide goal completion.''])"

definition append_implicit_worker_request ::
  "goal \<Rightarrow> string \<Rightarrow> run \<Rightarrow> string \<Rightarrow> string \<Rightarrow> state \<Rightarrow> (message \<times> state) res" where
  "append_implicit_worker_request g session_id r reason created_at st =
     bindR (normalize_endpoint SESSION_RECIPIENT session_id) (\<lambda>to_ep.
       append_session_message_locked session_id (agent_sender_endpoint GoalManager (r_agent_user r)) to_ep
         (empty_payload\<lparr>pl_body := implicit_worker_request_body g reason, pl_worker_request := True,
            pl_agent_role := Some GoalManager, pl_agent_user := r_agent_user r, pl_run_id := r_run_id r,
            pl_implicit_worker_request := True, pl_extra := [(''worker_role'', JStr (role_name WorkerAgent))]\<rparr>)
         created_at st)"

definition append_remote_aize_handoff_message ::
  "run \<Rightarrow> string \<Rightarrow> goal \<Rightarrow> string \<Rightarrow> state \<Rightarrow> state res" where
  "append_remote_aize_handoff_message r session_id g worker_prompt st =
     (let (now, st1) = utc_now st in
      bindR (append_session_message_locked session_id ''dispatcher'' (node_endpoint ''remote-aize'')
               (empty_payload\<lparr>pl_body := ''WorkerAgent work item for remote AIze. All exchange data is carried as message payload.'',
                  pl_run_id := r_run_id r,
                  pl_extra := [(''goal_id'', JStr (g_goal_id g)), (''session_id'', JStr session_id),
                    (''remote_aize_worker_handoff'', JObj [(''worker_prompt'', JStr worker_prompt)]),
                    (''provider'', JStr ''remote-aize''), (''dispatch_step'', JStr ''RemoteAIzeWorkerHandoff'')]\<rparr>)
               now st1) (\<lambda>(m, st2).
        Inr (upd_run (r_run_id r) (\<lambda>r. r\<lparr>r_steps := r_steps r @
              [\<lparr>sp_phase = ''RemoteAIzeWorkerHandoff'', sp_provider = ''remote-aize'', sp_from = [], sp_to = [],
                sp_message_id = m_message_id m, sp_created_at = m_created_at m, sp_output = []\<rparr>]\<rparr>) st2)))"

definition resolve_goal_manager_readiness_for_goal :: "string \<Rightarrow> string \<Rightarrow> state \<Rightarrow> state" where
  "resolve_goal_manager_readiness_for_goal goal_id resolved_at st =
     upd_readiness (\<lambda>e. rd_goal_id e = goal_id \<and> rd_role e = GoalManager \<and> live_status (rd_status e))
       (end_entry Resolved resolved_at) st"

definition declared_goal_outcome_for_run :: "state \<Rightarrow> string \<Rightarrow> outcome option" where
  "declared_goal_outcome_for_run st run_id =
     (case get_run st run_id of None \<Rightarrow> None | Some r \<Rightarrow> r_declared_outcome r)"

subsection \<open>Completing the session of a scheduled Unit\<close>

definition resolver_hint :: string where
  "resolver_hint = ''Call set_goal_completion_state(..., schedule_parameters={...}) so the Unit schedule resolver can calculate it.''"

definition enabled_schedule :: "state \<Rightarrow> session \<Rightarrow> schedule option" where
  "enabled_schedule st session =
     (if s_unit_id session = [] then None
      else case map_of (st_units st) (s_unit_id session) of
        None \<Rightarrow> None
      | Some u \<Rightarrow> (case un_schedule u of
          None \<Rightarrow> None
        | Some sch \<Rightarrow> if sch_enabled sch then Some sch else None))"

text \<open>The reason why the session may not complete; no reason is the empty text. Only a \<open>StoreError\<close> of
  the timestamps is caught.\<close>

definition scheduled_unit_completion_blocker :: "state \<Rightarrow> session \<Rightarrow> string \<Rightarrow> string res" where
  "scheduled_unit_completion_blocker st session completed_at =
     (case enabled_schedule st session of
        None \<Rightarrow> Inr []
      | Some sch \<Rightarrow>
          let next_run_at = py_strip (sch_next_run_at sch) in
          if next_run_at = [] then
            Inr (''Scheduled Unit completion requires a future next_run_at. '' @ resolver_hint)
          else case bindR (parse_utc st next_run_at) (\<lambda>n. bindR (parse_utc st completed_at) (\<lambda>c. Inr (n, c))) of
            Inl (StoreError _) \<Rightarrow>
              Inr (''Scheduled Unit completion requires a valid future Unit next_run_at. '' @ resolver_hint)
          | Inl e \<Rightarrow> Inl e
          | Inr (next_dt, completed_dt) \<Rightarrow>
              if next_dt \<le> completed_dt then
                Inr (''Scheduled Unit next_run_at '' @ next_run_at @ '' is not in the future. '' @ resolver_hint)
              else Inr [])"

definition must_resolve_next :: "state \<Rightarrow> schedule \<Rightarrow> string \<Rightarrow> bool res" where
  "must_resolve_next st sch completed_at =
     (let next_run_at = py_strip (sch_next_run_at sch);
          resolver = (if sch_resolver sch = [] then ''explicit'' else sch_resolver sch)
      in if resolver \<noteq> ''explicit'' \<or> next_run_at = [] then Inr True
         else case bindR (parse_utc st next_run_at) (\<lambda>n. bindR (parse_utc st completed_at) (\<lambda>c. Inr (n \<le> c))) of
           Inl (StoreError _) \<Rightarrow> Inr True
         | res \<Rightarrow> res)"

definition decision_parameters :: "outcome \<Rightarrow> jobject" where
  "decision_parameters d =
     (case d of Declared_completion _ _ params _ _ \<Rightarrow> params | Declared_waiting _ _ _ _ _ \<Rightarrow> [])"

text \<open>The failed resolution leaves nothing behind: it raises before it changes the state.\<close>

definition prepare_scheduled_unit_completion ::
  "session \<Rightarrow> run \<Rightarrow> outcome \<Rightarrow> string \<Rightarrow> state \<Rightarrow> (string \<times> state) res" where
  "prepare_scheduled_unit_completion session r decision completed_at st =
     (case enabled_schedule st session of
        None \<Rightarrow> Inr ([], st)
      | Some sch \<Rightarrow>
          bindR (must_resolve_next st sch completed_at) (\<lambda>resolve_next.
            case (if resolve_next then
                    map_sum id snd (schedule_next_unit_run_locked (s_session_id session) (decision_parameters decision)
                      (role_name GoalManager) (r_run_id r) completed_at False st)
                  else Inr st) of
              Inl (StoreError e) \<Rightarrow> Inr (''Scheduled Unit next run resolution failed: '' @ e, st)
            | Inl e \<Rightarrow> Inl e
            | Inr st1 \<Rightarrow> bindR (scheduled_unit_completion_blocker st1 session completed_at)
                          (\<lambda>blocker. Inr (blocker, st1))))"

subsection \<open>The GoalManager's decision\<close>

text \<open>\<open>_set_goal_completion_state\<close> of the run's goal, keeping the transition for the report.\<close>

definition decide ::
  "string \<Rightarrow> completion_state \<Rightarrow> string \<Rightarrow> string \<Rightarrow> string \<Rightarrow> string \<Rightarrow> state \<Rightarrow> (dispatch_report \<times> state) res" where
  "decide goal_id cs reason actor run_id occurred_at st =
     bindR (set_goal_completion_state goal_id cs reason actor run_id occurred_at False st)
       (\<lambda>(t, st1). Inr (\<lparr>dr_transition = Some t, dr_message = None\<rparr>, st1))"

definition mark_run :: "string \<Rightarrow> completion_state \<Rightarrow> string \<Rightarrow> state \<Rightarrow> state" where
  "mark_run run_id cs status st =
     upd_run run_id (\<lambda>r. r\<lparr>r_completion_state := Some cs,
       r_goal_manager_status := (if status = [] then r_goal_manager_status r else status)\<rparr>) st"

definition decide_waiting :: "goal \<Rightarrow> run \<Rightarrow> wait_spec \<Rightarrow> nat \<Rightarrow> string \<Rightarrow> string \<Rightarrow> state \<Rightarrow> state" where
  "decide_waiting g r spec wake_log_seq reason now st =
     (let w = \<lparr>w_spec = spec, w_wake_log_seq = wake_log_seq, w_reason = reason, w_declared_at = now,
               w_declared_run_id = r_run_id r\<rparr>;
          t = \<lparr>t_previous_state = None, t_completion_state = Waiting, t_reason = reason,
               t_actor = role_name GoalManager, t_run_id = r_run_id r, t_created_at = now,
               t_defer_goal_manager = False\<rparr>
      in mark_run (r_run_id r) Incomplete ''waiting''
           (resolve_goal_manager_readiness_for_goal (g_goal_id g) now
             (log_goal_state_transition g t (upd_goal (g_goal_id g) (\<lambda>g. g\<lparr>g_waiting := Some w\<rparr>) st))))"

definition decide_complete ::
  "goal \<Rightarrow> session \<Rightarrow> run \<Rightarrow> outcome \<Rightarrow> string \<Rightarrow> string \<Rightarrow> state \<Rightarrow> (dispatch_report \<times> state) res" where
  "decide_complete g session r decision reason now st =
     bindR (prepare_scheduled_unit_completion session r decision now st) (\<lambda>(blocker, st1).
       if blocker \<noteq> [] then
         let (_, st2) = log_system_signal (s_session_id session) ''GoalCompletionRejected'' blocker [GoalManager]
               ''scheduler'' (r_run_id r)
               [(''goal_id'', JStr (g_goal_id g)), (''unit_id'', JStr (s_unit_id session)),
                (''rejected_completion_state'', JStr ''complete'')] now st1
         in bindR (decide (g_goal_id g) Incomplete blocker ''scheduler'' (r_run_id r) [] st2) (\<lambda>(d, st3).
              Inr (d, mark_run (r_run_id r) Incomplete ''schedule_next_run_required'' st3))
       else
         bindR (decide (g_goal_id g) Complete reason (role_name GoalManager) (r_run_id r) now st1) (\<lambda>(d, st2).
           Inr (d, mark_run (r_run_id r) Complete []
             (upd_session (s_session_id session) (upd_timing (\<lambda>tm. tm\<lparr>tm_completed_at := now\<rparr>)) st2))))"

definition decide_incomplete ::
  "goal \<Rightarrow> string \<Rightarrow> run \<Rightarrow> bool \<Rightarrow> string \<Rightarrow> string \<Rightarrow> state \<Rightarrow> (dispatch_report \<times> state) res" where
  "decide_incomplete g session_id r worker_requested reason now st =
     bindR (decide (g_goal_id g) Incomplete reason (role_name GoalManager) (r_run_id r) [] st) (\<lambda>(d, st1).
     bindR (if worker_requested then Inr (None, st1)
            else bindR (append_implicit_worker_request g session_id r reason now st1)
                   (\<lambda>(m, st2). Inr (Some m, st2))) (\<lambda>(m, st2).
       Inr (d\<lparr>dr_message := m\<rparr>,
            mark_run (r_run_id r) Incomplete ''incomplete''
              (resolve_goal_manager_readiness_for_goal (g_goal_id g) now st2))))"

definition apply_decision ::
  "goal \<Rightarrow> session \<Rightarrow> run \<Rightarrow> outcome \<Rightarrow> string \<Rightarrow> state \<Rightarrow> (dispatch_report \<times> state) res" where
  "apply_decision g session r decision now st =
     (let (worker_requested, st1) =
            (if has_live_worker_readiness_for_goal st (g_goal_id g) then (True, st)
             else has_worker_request_for_run (s_session_id session) (r_run_id r) st)
      in case decision of
           Declared_waiting spec wake_log_seq reason _ _ \<Rightarrow>
             Inr (no_report, decide_waiting g r spec wake_log_seq reason now st1)
         | Declared_completion cs reason _ _ _ \<Rightarrow>
             if cs = Complete then decide_complete g session r decision reason now st1
             else decide_incomplete g (s_session_id session) r worker_requested reason now st1)"

text \<open>The agent returned without a decision.\<close>

definition missing_decision :: "session \<Rightarrow> run \<Rightarrow> string \<Rightarrow> string \<Rightarrow> state \<Rightarrow> state res" where
  "missing_decision session r readiness_id now st =
     (let sid = s_session_id session;
          st1 = set_role_cursor sid GoalManager (r_observed_to_seq r)
                  (upd_entry_by_id readiness_id (end_entry Resolved now) st);
          st2 = mark_run (r_run_id r) Incomplete ''missing_completion_decision'' st1;
          (retry_at, st3) = role_turn_retry_at st2;
          (signal, st4) = log_system_signal sid ''GoalManagerTurnProtocolViolation''
            (''GoalManager returned without declaring the SessionGoal complete or incomplete. ''
             @ ''Review the unchanged SessionGoal and produce the required completion decision.'')
            [GoalManager] ''dispatcher'' (r_run_id r)
            [(''required_output'', JStr ''goal_completion_state''), (''available_after'', JStr retry_at)] now st3
      in record_role_turn_outcome r sid GoalManager None (Some signal) st4)"

definition decided :: "session \<Rightarrow> run \<Rightarrow> string \<Rightarrow> outcome \<Rightarrow> string \<Rightarrow> state \<Rightarrow> state res" where
  "decided session r readiness_id decision now st =
     bindR (record_role_turn_outcome r (s_session_id session) GoalManager (Some decision) None st) (\<lambda>st1.
       let r1 = (case get_run st1 (r_run_id r) of None \<Rightarrow> r | Some r' \<Rightarrow> r');
           st2 = (if r_completion_state r1 = Some Complete
                     \<or> r_goal_manager_status r1 = ''schedule_next_run_required'' \<or> r_goal_manager_status r1 = ''waiting''
                  then upd_entry_by_id readiness_id (end_entry Resolved now) st1 else st1)
       in Inr (set_role_cursor (s_session_id session) GoalManager (r_observed_to_seq r) st2))"

text \<open>The end of every GoalManager turn: the lease is released, the messages the agent was shown count
  as delivered.\<close>

definition finish_goal_manager_turn :: "lease \<Rightarrow> string \<Rightarrow> string \<Rightarrow> string \<Rightarrow> state \<Rightarrow> state res" where
  "finish_goal_manager_turn lease session_id run_id now st =
     save (upd_session session_id (\<lambda>s. s\<lparr>s_updated_at := now\<rparr>)
       (mark_session_messages_delivered (l_session_messages lease) (upd_run run_id (release_run now) st)))"

definition record_turn :: "lease \<Rightarrow> run \<Rightarrow> role \<Rightarrow> string \<Rightarrow> string \<Rightarrow> agent_result \<Rightarrow> state \<Rightarrow> state res" where
  "record_turn lease r role phase prompt result st =
     (let sid = s_session_id (l_session lease);
          (key, st1) = ensure_agent_thread sid role (r_agent_user r) (r_agent_provider r) st;
          st2 = record_agent_turn key prompt result st1
      in append_dispatch_step_message (r_run_id r) sid (role_name role) SESSION_RECIPIENT (ar_output result)
           (ar_provider result) phase st2)"

text \<open>The objects a commit works on: the stored run, goal and session of the lease.\<close>

definition leased_objects :: "lease \<Rightarrow> run \<Rightarrow> state \<Rightarrow> (goal \<times> session) res" where
  "leased_objects lease r st =
     (case get_goal st (g_goal_id (l_goal lease)) of
        None \<Rightarrow> Inl (KeyError (g_goal_id (l_goal lease)))
      | Some g \<Rightarrow> (case get_session st (s_session_id (l_session lease)) of
          None \<Rightarrow> Inl (KeyError (s_session_id (l_session lease)))
        | Some session \<Rightarrow> Inr (g, session)))"

definition commit_goal_manager_run_locked ::
  "lease \<Rightarrow> string \<Rightarrow> agent_result \<Rightarrow> state \<Rightarrow> (dispatch_report \<times> state) res" where
  "commit_goal_manager_run_locked lease prompt result st =
     (case get_run st (r_run_id (l_run lease)) of
        None \<Rightarrow> recover_missing_lease_run lease st
      | Some r \<Rightarrow>
          bindR (leased_objects lease r st) (\<lambda>(g, session).
          case stale_dispatch_fence st r GoalManager of
            Some fence_reason \<Rightarrow> discard_stale_dispatch_result r GoalManager fence_reason (ar_output result) st
          | None \<Rightarrow>
              bindR (record_turn lease r GoalManager ''GoalManagerReview'' prompt result st) (\<lambda>st1.
                let (now, st2) = utc_now st1 in
                case declared_goal_outcome_for_run st2 (r_run_id r) of
                  None \<Rightarrow>
                    bindR (missing_decision session r (l_readiness_id lease) now st2) (\<lambda>st3.
                    bindR (finish_goal_manager_turn lease (s_session_id session) (r_run_id r) now st3) (\<lambda>st4.
                      Inr (no_report, st4)))
                | Some decision \<Rightarrow>
                    bindR (apply_decision g session r decision now st2) (\<lambda>(d, st3).
                    bindR (decided session r (l_readiness_id lease) decision now st3) (\<lambda>st4.
                    bindR (finish_goal_manager_turn lease (s_session_id session) (r_run_id r) now st4) (\<lambda>st5.
                      Inr (d, st5)))))))"

subsection \<open>The WorkerAgent's turn and agent failures\<close>

definition worker_protocol_signal :: "session \<Rightarrow> run \<Rightarrow> bool \<Rightarrow> string \<Rightarrow> state \<Rightarrow> log_entry option \<times> state" where
  "worker_protocol_signal session r reported now st =
     (if reported then (None, st)
      else
        let (retry_at, st1) = role_turn_retry_at st;
            (signal, st2) = log_system_signal (s_session_id session) ''WorkerTurnProtocolViolation''
              (''WorkerAgent returned without reporting work results to Session. ''
               @ ''GoalManager must review the failed Worker turn and decide whether to request the work again.'')
              [GoalManager] ''dispatcher'' (r_run_id r)
              [(''required_output'', JStr ''session_message''), (''available_after'', JStr retry_at)] now st1
        in (Some signal, st2))"

definition finish_worker_turn :: "session \<Rightarrow> run \<Rightarrow> string \<Rightarrow> string \<Rightarrow> state \<Rightarrow> state res" where
  "finish_worker_turn session r readiness_id now st =
     (let sid = s_session_id session;
          st1 = set_role_cursor sid WorkerAgent (r_observed_to_seq r)
                  (upd_entry_by_id readiness_id (end_entry Resolved now) st);
          st2 = upd_run (r_run_id r) (\<lambda>r. release_run now (r\<lparr>r_completion_state := Some Complete\<rparr>)) st1
      in save (upd_session sid (\<lambda>s. s\<lparr>s_updated_at := now\<rparr>) st2))"

definition commit_worker_run_locked ::
  "lease \<Rightarrow> string \<Rightarrow> agent_result \<Rightarrow> state \<Rightarrow> (dispatch_report \<times> state) res" where
  "commit_worker_run_locked lease prompt result st =
     (case get_run st (r_run_id (l_run lease)) of
        None \<Rightarrow> recover_missing_lease_run lease st
      | Some r \<Rightarrow>
          bindR (leased_objects lease r st) (\<lambda>(g, session).
          case stale_dispatch_fence st r WorkerAgent of
            Some fence_reason \<Rightarrow> discard_stale_dispatch_result r WorkerAgent fence_reason (ar_output result) st
          | None \<Rightarrow>
              bindR (record_turn lease r WorkerAgent ''WorkerWork'' prompt result st) (\<lambda>st1.
              bindR (if ar_provider result = ''remote-aize''
                     then append_remote_aize_handoff_message r (s_session_id session) g prompt st1
                     else Inr st1) (\<lambda>st2.
                let (now, st3) = utc_now st2 in
                bindR (role_turn_session_messages (s_session_id session) r WorkerAgent st3) (\<lambda>(reports, st4).
                let (signal, st5) = worker_protocol_signal session r (reports \<noteq> []) now st4 in
                bindR (record_role_turn_outcome r (s_session_id session) WorkerAgent None signal st5) (\<lambda>st6.
                bindR (finish_worker_turn session r (l_readiness_id lease) now st6) (\<lambda>st7.
                  Inr (no_report, st7))))))))"

definition fail_run :: "string \<Rightarrow> string \<Rightarrow> run \<Rightarrow> run" where
  "fail_run now text r =
     (release_run now r)\<lparr>r_completion_state := Some Incomplete, r_failed_at := now, r_error := text\<rparr>"

definition commit_dispatch_error_locked ::
  "lease \<Rightarrow> string \<Rightarrow> state \<Rightarrow> (dispatch_report \<times> state) res" where
  "commit_dispatch_error_locked lease text st =
     (case get_run st (r_run_id (l_run lease)) of
        None \<Rightarrow> recover_missing_lease_run lease st
      | Some r \<Rightarrow>
          bindR (leased_objects lease r st) (\<lambda>(g, session).
          case stale_dispatch_fence st r (r_role r) of
            Some fence_reason \<Rightarrow> discard_stale_dispatch_result r (r_role r) fence_reason [] st
          | None \<Rightarrow>
              let (now, st1) = utc_now st in
              bindR (decide (g_goal_id g) Incomplete (''Dispatch failed: '' @ text) ''dispatcher'' (r_run_id r) [] st1)
                (\<lambda>(d, st2).
                let st3 = upd_goal (g_goal_id g) (\<lambda>g. g\<lparr>g_failed_at := now\<rparr>) st2;
                    st4 = upd_run (r_run_id r) (fail_run now text) st3;
                    st5 = upd_entry_by_id (l_readiness_id lease) (end_entry Failed now) st4;
                    st6 = set_role_cursor (s_session_id session) (r_role r) (r_observed_to_seq r) st5;
                    st7 = mark_session_messages_delivered (l_session_messages lease) st6
                in bindR (append_dispatch_step_message (r_run_id r) (s_session_id session) ''dispatcher''
                            (if g_created_by g = [] then ROOT_USERNAME else g_created_by g)
                            (''Dispatch failed: '' @ text) ''local'' ''DispatchError'' st7) (\<lambda>st8.
                   bindR (save (upd_session (s_session_id session) (\<lambda>s. s\<lparr>s_updated_at := now\<rparr>) st8)) (\<lambda>st9.
                     Inr (d, st9))))))"

end
