(* ===== verification/Goal_Messages.thy ===== *)
theory Goal_Messages
  imports Launch Dispatch_Commit
begin

section \<open>Messages of agents and users\<close>

text \<open>
  src/src/goal/messages.py: who may send a message from an agent run and to whom, the user's
  input (which reopens the session's goal and is forwarded to a worker that is at work) and the
  receiver's cursor.
\<close>

subsection \<open>Messages of an agent run\<close>

definition claimed_slot_role :: "string \<Rightarrow> string list \<Rightarrow> string \<Rightarrow> role res" where
  "claimed_slot_role raw user_groups claimed =
     (if claimed \<noteq> [] then
        (case map_of SLOT_ROLE_BY_GROUP claimed of
           None \<Rightarrow> Inl (StoreError (''unknown slot group for agent runtime sender: '' @ claimed))
         | Some r \<Rightarrow>
             if claimed \<notin> set user_groups then
               Inl (StoreError (''agent runtime sender '' @ raw @ '' is not a member of group: '' @ claimed))
             else Inr r)
      else case List.map_filter (map_of SLOT_ROLE_BY_GROUP) user_groups of
        [r] \<Rightarrow> Inr r
      | _ \<Rightarrow> Inl (StoreError (''agent runtime sender '' @ raw @ '' must claim a slot group: ''
                             @ py_join '', '' (sort (dict_keys SLOT_ROLE_BY_GROUP)))))"

definition resolve_runtime_sender :: "state \<Rightarrow> string \<Rightarrow> string \<Rightarrow> (role \<times> string) res" where
  "resolve_runtime_sender st sender claimed_group =
     (let raw = py_strip sender in
      if raw = [] then Inl (StoreError ''agent runtime sender is required'')
      else
        let user_role =
          (case map_of (st_users st) raw of
             None \<Rightarrow> Inl (StoreError (''agent runtime sender is not allowed: '' @ raw))
           | Some u \<Rightarrow> bindR (claimed_slot_role raw (u_groups u) (py_strip claimed_group))
                        (\<lambda>r. Inr (r, user_endpoint raw)))
        in case agent_role_of (normalize_agent_role raw) of
             None \<Rightarrow> user_role
           | Some r \<Rightarrow>
               if agent_role_of raw \<noteq> None \<or> map_of ROLE_ALIASES (py_lower raw) \<noteq> None
               then Inr (r, agent_endpoint r) else user_role)"

definition check_runtime_run_binding :: "state \<Rightarrow> string \<Rightarrow> string \<Rightarrow> unit res" where
  "check_runtime_run_binding st sender run_id =
     (if run_id = [] then Inr ()
      else case get_run st run_id of
        None \<Rightarrow> Inr ()
      | Some r \<Rightarrow>
          let run_user = py_strip (r_agent_user r) in
          if run_user \<noteq> [] \<and> run_user \<noteq> sender then
            Inl (StoreError ''dispatch run belongs to a different service identity'')
          else Inr ())"

definition request_fields :: "role \<Rightarrow> string \<Rightarrow> bool \<Rightarrow> payload \<Rightarrow> payload res" where
  "request_fields role recipient worker_request p =
     (if \<not> worker_request then Inr p
      else if role \<noteq> GoalManager \<or> recipient \<noteq> SESSION_RECIPIENT then
        Inl (StoreError ''worker requests must be GoalManager Messages to Session'')
      else Inr (p\<lparr>pl_worker_request := True,
                 pl_extra := pl_extra p @ [(''worker_role'', JStr (role_name WorkerAgent))]\<rparr>))"

definition wake_fields :: "string \<Rightarrow> payload \<Rightarrow> payload res" where
  "wake_fields wake_event p =
     (if wake_event = [] then Inr p
      else
        let normalized = py_strip wake_event in
        if normalized = [] then Inl (StoreError ''wake_event must be a non-empty name'')
        else Inr (p\<lparr>pl_wake_events := [normalized]\<rparr>))"

definition runtime_recipient_endpoint ::
  "string \<Rightarrow> string \<Rightarrow> string \<Rightarrow> state \<Rightarrow> (string \<times> state) res" where
  "runtime_recipient_endpoint session_id recipient recipient_endpoint_id st =
     (if recipient = USER_CONSOLE_RECIPIENT then
        let given = py_strip recipient_endpoint_id;
            (endpoint, st1) = (if given = [] then latest_reply_endpoint_for_session session_id st else (given, st))
        in if endpoint = [] then Inl (StoreError ''UserConsole messages require a reply endpoint'')
           else Inr (console_endpoint endpoint, st1)
      else bindR (normalize_endpoint recipient session_id) (\<lambda>e. Inr (e, st)))"

definition runtime_payload ::
  "role \<Rightarrow> string \<Rightarrow> string \<Rightarrow> string \<Rightarrow> string \<Rightarrow> string \<Rightarrow> jobject list \<Rightarrow> payload" where
  "runtime_payload role from_endpoint sender body provider run_id files =
     empty_payload\<lparr>pl_body := body, pl_agent_role := Some role,
       pl_agent_user := (if starts_with ''agent:'' from_endpoint then [] else py_strip sender),
       pl_files := files, pl_run_id := run_id,
       pl_extra := (if provider = [] then [] else [(''provider'', JStr provider)])\<rparr>"

text \<open>\<open>append_runtime_message\<close> once the sender may write to the recipient.\<close>

definition send_runtime_message ::
  "string \<Rightarrow> role \<Rightarrow> string \<Rightarrow> string \<Rightarrow> string \<Rightarrow> bool \<Rightarrow> string \<Rightarrow> payload \<Rightarrow> state
     \<Rightarrow> (message \<times> state) res" where
  "send_runtime_message session_id role from_endpoint recipient recipient_endpoint_id worker_request wake_event p st =
     bindR (request_fields role recipient worker_request p) (\<lambda>p1.
     bindR (wake_fields wake_event p1) (\<lambda>p2.
     bindR (runtime_recipient_endpoint session_id recipient recipient_endpoint_id st) (\<lambda>(to_endpoint, st1).
     bindR (append_session_message_locked session_id from_endpoint to_endpoint p2 [] st1) (\<lambda>(m, st2).
     bindR (save st2) (\<lambda>st3. Inr (m, st3))))))"

definition append_runtime_message ::
  "string \<Rightarrow> string \<Rightarrow> string \<Rightarrow> string \<Rightarrow> string \<Rightarrow> string \<Rightarrow> string \<Rightarrow> string \<Rightarrow> jobject list \<Rightarrow> bool
     \<Rightarrow> string \<Rightarrow> state \<Rightarrow> (message \<times> state) res" where
  "append_runtime_message session_id sender recipient body claimed_group provider run_id recipient_endpoint_id
       files worker_request wake_event st =
     (if get_session st session_id = None then Inl (StoreError (''unknown session: '' @ session_id))
      else
        let normalized_recipient = py_strip recipient in
        bindR (resolve_runtime_sender st sender claimed_group) (\<lambda>(role, from_endpoint).
        bindR (check_runtime_run_binding st (py_strip sender) run_id) (\<lambda>_.
          if normalized_recipient \<notin> set (role_message_recipients role) then
            Inl (StoreError (''agent runtime recipient is not allowed: '' @ role_name role @ '' -> ''
                             @ normalized_recipient))
          else send_runtime_message session_id role from_endpoint normalized_recipient recipient_endpoint_id
                 worker_request wake_event
                 (runtime_payload role from_endpoint sender body provider run_id files) st)))"

subsection \<open>User input\<close>

definition user_input_payload :: "string \<Rightarrow> string \<Rightarrow> bool \<Rightarrow> payload" where
  "user_input_payload body reply_to worker_active =
     empty_payload\<lparr>pl_body := body, pl_user_input := True, pl_worker_followup := worker_active,
       pl_defer_goal_manager := worker_active, pl_reply_to := reply_to\<rparr>"

definition forwarded_payload :: "string \<Rightarrow> string \<Rightarrow> string \<Rightarrow> string \<Rightarrow> payload" where
  "forwarded_payload body reply_to message_id run_id =
     empty_payload\<lparr>pl_body := body, pl_user_input := True, pl_worker_followup := True, pl_run_id := run_id,
       pl_worker_request := True, pl_reply_to := reply_to,
       pl_extra := [(''forwarded_from'', JStr message_id), (''worker_role'', JStr (role_name WorkerAgent))]\<rparr>"

definition forward_to_worker ::
  "string \<Rightarrow> string \<Rightarrow> string \<Rightarrow> string \<Rightarrow> string \<Rightarrow> string \<Rightarrow> run option \<Rightarrow> state \<Rightarrow> state res" where
  "forward_to_worker session_id sender body reply_to message_id now active st =
     (case active of
        None \<Rightarrow> Inr st
      | Some r \<Rightarrow>
          bindR (append_session_message_locked session_id (user_endpoint sender) (session_endpoint session_id)
                   (forwarded_payload body reply_to message_id (r_run_id r)) now st) (\<lambda>(_, st1). Inr st1))"

text \<open>\<open>_append_user_input_locked\<close> past its checks.\<close>

definition deliver_user_input :: "string \<Rightarrow> string \<Rightarrow> string \<Rightarrow> string \<Rightarrow> state \<Rightarrow> (message \<times> state) res" where
  "deliver_user_input session_id sender body reply_to st =
     (let (now, st1) = utc_now st;
          active = active_worker_run_for_session st1 session_id
      in bindR (append_session_message_locked session_id (user_endpoint sender) (session_endpoint session_id)
                  (user_input_payload body reply_to (active \<noteq> None)) now st1) (\<lambda>(m, st2).
         bindR (mark_session_reprocess_needed session_id sender
                  (''UserInput message '' @ m_message_id m @ '' requires Session processing.'') now
                  (active \<noteq> None) st2) (\<lambda>(gid, st3).
         let st4 = annotate_logged_message session_id (m_message_id m) (reprocess_keys gid now) st3;
             m1 = m\<lparr>m_payload := (m_payload m)\<lparr>pl_extra := pl_extra (m_payload m) @ reprocess_keys gid now\<rparr>\<rparr>
         in bindR (forward_to_worker session_id sender body reply_to (m_message_id m) now active st4) (\<lambda>st5.
            bindR (save st5) (\<lambda>st6. Inr (m1, st6))))))"

definition append_user_input ::
  "string \<Rightarrow> string \<Rightarrow> string \<Rightarrow> string \<Rightarrow> state \<Rightarrow> (message \<times> state) res" where
  "append_user_input session_id sender body reply_to st =
     (if get_session st session_id = None then Inl (StoreError (''unknown session: '' @ session_id))
      else if map_of (st_users st) sender = None then Inl (StoreError (''unknown user: '' @ sender))
      else deliver_user_input session_id sender body (py_strip reply_to) st)"

subsection \<open>Receiving\<close>

text \<open>The first unread message of the endpoint; an empty \<open>session_id\<close> is \<open>None\<close>.\<close>

definition receive_message :: "string \<Rightarrow> string \<Rightarrow> state \<Rightarrow> (message option \<times> state) res" where
  "receive_message recipient session_id st =
     (let normalized_recipient = py_strip recipient in
      if normalized_recipient = [] then Inl (StoreError ''recipient is required'')
      else
        bindR (normalize_endpoint normalized_recipient session_id) (\<lambda>endpoint.
          let (messages, st1) = messages_after_cursor endpoint st in
          case List.find (\<lambda>m. session_id = [] \<or> m_to m = session_endpoint session_id) messages of
            None \<Rightarrow> Inr (None, st)
          | Some m \<Rightarrow> bindR (save (advance_endpoint_cursor endpoint [m] st1)) (\<lambda>st2. Inr (Some m, st2))))"

end
