(* ===== verification/Runtime.thy ===== *)
theory Runtime
  imports Dispatch_Commit
begin

section \<open>Decisions a GoalManager declares while its run is active\<close>

text \<open>
  \<open>set_goal_completion_state_from_runtime\<close>, \<open>set_goal_waiting_from_runtime\<close> and the waiting
  specification of src/src/goal/sessions.py: what an agent process calls during its turn. A
  declaration is only recorded on the run; the commit of the turn applies it.
\<close>

text \<open>The spec of a wait as the caller sends it: the values of its keys, [] when absent.\<close>

record wait_request =
  wq_kind :: string
  wq_wait_until :: string
  wq_event_name :: string
  wq_child_session_id :: string

definition future_deadline :: "string \<Rightarrow> state \<Rightarrow> state res" where
  "future_deadline wait_until st =
     (case parse_utc st wait_until of
        Inl (StoreError e) \<Rightarrow> Inl (StoreError (''deadline waiting requires a valid UTC wait_until: '' @ e))
      | Inl e \<Rightarrow> Inl e
      | Inr deadline \<Rightarrow>
          let (now, st1) = utc_now st in
          bindR (parse_utc st1 now) (\<lambda>now_dt.
            if deadline \<le> now_dt then Inl (StoreError ''deadline waiting requires wait_until in the future'')
            else Inr st1))"

definition normalize_goal_waiting_spec_locked ::
  "string \<Rightarrow> wait_request \<Rightarrow> state \<Rightarrow> (wait_spec \<times> nat \<times> state) res" where
  "normalize_goal_waiting_spec_locked session_id spec st =
     (let kind = py_lower (py_strip (wq_kind spec));
          wake_log_seq = latest_session_log_seq st session_id
      in if kind = ''deadline'' then
           let wait_until = py_strip (wq_wait_until spec) in
           if wait_until = [] then Inl (StoreError ''deadline waiting requires wait_until'')
           else bindR (future_deadline wait_until st) (\<lambda>st1. Inr (Wait_deadline wait_until, wake_log_seq, st1))
         else if kind = ''event'' then
           let event_name = py_strip (wq_event_name spec) in
           if event_name = [] then Inl (StoreError ''event waiting requires event_name'')
           else Inr (Wait_event event_name, wake_log_seq, st)
         else if kind = ''child'' then
           let child = py_strip (wq_child_session_id spec) in
           if child = [] then Inl (StoreError ''child waiting requires child_session_id'')
           else if get_session st child = None then
             Inl (StoreError (''child waiting references an unknown Session: '' @ child))
           else Inr (Wait_child child, wake_log_seq, st)
         else Inl (StoreError ''waiting spec requires kind deadline, event, or child''))"

text \<open>The checks both declarations make: the run, its actor, its lease, its goal, and that nothing was declared.\<close>

definition declaring_run :: "string \<Rightarrow> string \<Rightarrow> string \<Rightarrow> string \<Rightarrow> string \<Rightarrow> state \<Rightarrow> (run \<times> goal) res" where
  "declaring_run session_id actor run_id who what st =
     (case get_run st run_id of
        None \<Rightarrow> Inl (StoreError (''unknown dispatch run: '' @ run_id))
      | Some r \<Rightarrow>
          if \<not> runtime_actor_allowed st actor run_id GoalManager then Inl (StoreError who)
          else if r_session_id r \<noteq> session_id \<or> r_role r \<noteq> GoalManager \<or> r_lease_state r \<noteq> LeaseAcquired then
            Inl (StoreError (what @ '' requires its acquired dispatch lease''))
          else case current_goal_for_session st session_id of
            None \<Rightarrow> Inl (StoreError ''dispatch run no longer owns the current SessionGoal'')
          | Some g \<Rightarrow>
              if g_goal_id g \<noteq> r_goal_id r then
                Inl (StoreError ''dispatch run no longer owns the current SessionGoal'')
              else if r_declared_outcome r \<noteq> None then
                Inl (StoreError ''GoalManager dispatch run already declared its completion outcome'')
              else Inr (r, g))"

definition declared_completion_of :: "string \<Rightarrow> completion_state res" where
  "declared_completion_of cs =
     (if cs = ''complete'' then Inr Complete
      else if cs = ''incomplete'' then Inr Incomplete
      else Inl (StoreError (''unsupported goal completion state: '' @ cs)))"

definition or_default :: "string \<Rightarrow> string \<Rightarrow> string" where
  "or_default s d = (let t = py_strip s in if t = [] then d else t)"

definition declare_outcome :: "string \<Rightarrow> outcome \<Rightarrow> state \<Rightarrow> state" where
  "declare_outcome run_id oc st = upd_run run_id (\<lambda>r. r\<lparr>r_declared_outcome := Some oc\<rparr>) st"

definition set_goal_completion_state_from_runtime ::
  "string \<Rightarrow> string \<Rightarrow> string \<Rightarrow> string \<Rightarrow> string \<Rightarrow> jobject \<Rightarrow> state \<Rightarrow> (outcome \<times> state) res" where
  "set_goal_completion_state_from_runtime session_id completion_state reason actor run_id schedule_parameters st =
     bindR (declared_completion_of completion_state) (\<lambda>cs.
       if run_id = [] then
         Inl (StoreError ''GoalManager completion state requires an active dispatch run'')
       else
         bindR (declaring_run session_id actor run_id
                  ''only GoalManager may set a SessionGoal completion state''
                  ''GoalManager completion state'' st) (\<lambda>(r, g).
           if g_body g \<noteq> r_observed_goal_body r then
             Inl (StoreError (''the observed SessionGoal changed during the dispatch run; ''
                              @ ''complete a fresh review before declaring''))
           else case new_requirement_conflicts_after_window st session_id run_id (r_observed_to_seq r) of
             Some conflict \<Rightarrow>
               Inl (StoreError (''the observed Session requirement changed during the dispatch run: ''
                                @ conflict @ ''; complete a fresh review before declaring''))
           | None \<Rightarrow>
               let (now, st1) = utc_now st;
                   oc = Declared_completion cs
                          (or_default reason ''GoalManager recorded a completion decision.'')
                          schedule_parameters (or_default actor ''GoalManager'') now
               in bindR (save (declare_outcome run_id oc st1)) (\<lambda>st2. Inr (oc, st2))))"

definition set_goal_waiting_from_runtime ::
  "string \<Rightarrow> wait_request \<Rightarrow> string \<Rightarrow> string \<Rightarrow> string \<Rightarrow> state \<Rightarrow> (outcome \<times> state) res" where
  "set_goal_waiting_from_runtime session_id wait actor run_id reason st =
     (if run_id = [] then
        Inl (StoreError ''GoalManager waiting decision requires an active dispatch run'')
      else
        bindR (declaring_run session_id actor run_id ''only GoalManager may declare a SessionGoal waiting''
                 ''GoalManager waiting decision'' st) (\<lambda>_.
        bindR (normalize_goal_waiting_spec_locked session_id wait st) (\<lambda>(spec, wake_log_seq, st1).
          let (now, st2) = utc_now st1;
              oc = Declared_waiting spec wake_log_seq
                     (or_default reason ''GoalManager recorded a waiting decision.'')
                     (or_default actor ''GoalManager'') now
          in bindR (save (declare_outcome run_id oc st2)) (\<lambda>st3. Inr (oc, st3)))))"

end
