(* ===== verification/Operation_Facts.thy ===== *)
theory Operation_Facts
  imports Goal_Messages Runtime
begin

section \<open>The operations of users, Units and sessions evolve the state\<close>

text \<open>
  The operations of Units, Sessions, Launch, Runtime and Goal\_Messages keep the invariants of
  the store: each is a composition of steps that evolve the state. A message that is annotated
  after it was logged is the one case that needs its own argument: the entry it changes is not
  older than the transaction.
\<close>

subsection \<open>Collections the invariants do not mention\<close>

lemma evolves_units [evolve_intros]: "evolves st (st\<lparr>st_units := d\<rparr>)"
  by (rule evolves_frame) (auto intro: log_grows_frame)

lemma evolves_users [evolve_intros]: "evolves st (st\<lparr>st_users := d\<rparr>)"
  by (rule evolves_frame) (auto intro: log_grows_frame)

lemma evolves_profiles [evolve_intros]: "evolves st (st\<lparr>st_agent_profiles := d\<rparr>)"
  by (rule evolves_frame) (auto intro: log_grows_frame)

lemma evolves_insert_session [evolve_intros]: "evolves st (insert_session s st)"
  by (rule evolves_frame) (auto simp: insert_session_def intro: log_grows_frame)

lemma evolves_save_after: "evolves st st1 \<Longrightarrow> save st1 = Inr st2 \<Longrightarrow> evolves st st2"
  by (rule evolves_trans [OF _ evolves_save])

lemma evolves_trigger_enabled [evolve_intros]:
  "unit_activation_trigger_enabled u t st = Inr (b, st') \<Longrightarrow> evolves st st'"
  by (auto simp: unit_activation_trigger_enabled_def bindR_Inr_iff split: if_splits option.splits
      intro: evolves_upd_unit)

subsection \<open>Units, profiles and settings\<close>

lemma set_unit_spawn_groups_evolves: "set_unit_spawn_groups u gs st = Inr st' \<Longrightarrow> evolves st st'"
  by (auto simp: set_unit_spawn_groups_def split: if_splits
      intro: evolves_save_after [OF evolves_upd_unit])

lemma set_unit_active_evolves: "set_unit_active u b st = Inr st' \<Longrightarrow> evolves st st'"
  by (auto simp: set_unit_active_def split: if_splits intro: evolves_save_after [OF evolves_upd_unit])

lemma create_unit_evolves:
  "create_unit u ip dn ds gt pr sch eh tr sg ow st = Inr st' \<Longrightarrow> evolves st st'"
  unfolding create_unit_def Let_def case_prod_beta
  by (auto simp: bindR_Inr_iff split: if_splits
      intro: evolves_save_after [OF evolves_trans [OF evolves_utc_now evolves_units]])

lemma evolves_update_profile [evolve_intros]: "evolves st (update_profile r f st)"
  unfolding update_profile_def Let_def case_prod_beta
  by (intro evolves_trans [OF _ evolves_profiles] evolves_trans [OF evolves_utc_now evolves_utc_now])

lemma evolves_ensure_account [evolve_intros]:
  "ensure_provider_service_account p st = Inr (u, st') \<Longrightarrow> evolves st st'"
  by (auto simp: ensure_provider_service_account_def Let_def case_prod_beta split: option.splits
      intro: evolves_trans [OF evolves_utc_now evolves_users])

lemma set_agent_provider_evolves: "set_agent_provider role p st = Inr st' \<Longrightarrow> evolves st st'"
  unfolding set_agent_provider_def Let_def
  by (auto simp: bindR_Inr_iff split: if_splits
      intro: evolves_save_after [OF evolves_update_profile]
        evolves_save_after [OF evolves_trans [OF evolves_ensure_account evolves_update_profile]])

lemma set_agent_accounts_evolves: "set_agent_accounts role accs st = Inr st' \<Longrightarrow> evolves st st'"
  by (auto simp: set_agent_accounts_def bindR_Inr_iff intro: evolves_save_after [OF evolves_update_profile])

lemma set_session_policy_evolves: "set_session_scheduling_policy sid c b st = Inr st' \<Longrightarrow> evolves st st'"
  unfolding set_session_scheduling_policy_def Let_def case_prod_beta
  by (auto split: if_splits intro: evolves_save_after [OF evolves_trans [OF evolves_utc_now evolves_upd_session]])

lemma set_session_active_evolves: "set_session_active sid b st = Inr st' \<Longrightarrow> evolves st st'"
  unfolding set_session_active_def Let_def case_prod_beta
  by (auto simp: bindR_Inr_iff split: option.splits
      intro: evolves_save_after evolves_trans [OF evolves_utc_now evolves_trans [OF evolves_upd_session evolves_log_active]])

subsection \<open>Sessions and goals\<close>

lemma evolves_admit [evolve_intros]: "admit_unit_activation u t c st = Inr st' \<Longrightarrow> evolves st st'"
  by (auto simp: admit_unit_activation_def bindR_Inr_iff split: if_splits intro: evolves_trigger_enabled)

lemma evolves_admit_error: "admit_unit_activation u t c st = Inl (e, st') \<Longrightarrow> evolves st st'"
  by (auto simp: admit_unit_activation_def bindR_Inl_iff bindR_Inr_iff split: if_splits
      intro: evolves_trigger_enabled)

lemma evolves_add_unit_session [evolve_intros]: "evolves st (add_unit_session sid u now t st)"
  unfolding add_unit_session_def Let_def
  by (auto intro: evolves_insert_session
      evolves_trans [OF evolves_trans [OF evolves_insert_session evolves_upd_unit] evolves_upd_session])

lemma evolves_link_parents [evolve_intros]:
  assumes "link_parents ps sid st = Inr st'"
  shows "evolves st st'"
  using assms unfolding link_parents_def
  by (rule evolves_foldR) (auto simp: bindR_Inr_iff intro: evolves_link)

lemma evolves_link_parents_error: "link_parents ps sid st = Inl (e, st') \<Longrightarrow> evolves st st'"
proof (induction ps arbitrary: st)
  case Nil
  then show ?case by (simp add: link_parents_def)
next
  case (Cons p ps)
  then consider "link_sessions_in_state p sid st = Inl e" "st' = st"
    | edge st1 where "link_sessions_in_state p sid st = Inr (edge, st1)" "link_parents ps sid st1 = Inl (e, st')"
    by (auto simp: link_parents_def bindR_Inl_iff bindR_Inr_iff)
  then show ?case using Cons.IH by cases (auto intro: evolves_trans [OF evolves_link])
qed

lemma evolves_open_session [evolve_intros]:
  assumes "open_session sid u ps st = Inr st'"
  shows "evolves st st'"
proof -
  let ?st = "add_unit_session sid u (fst (utc_now st)) sid (snd (utc_now st))"
  have "evolves st ?st" by (rule evolves_trans [OF evolves_utc_now evolves_add_unit_session])
  also have "evolves ?st st'"
    using assms
    by (auto simp: open_session_def Let_def case_prod_beta split: if_splits intro: evolves_link_parents)
  finally show ?thesis .
qed

lemma create_session_evolves: "create_session sid u ps c st = Inr st' \<Longrightarrow> evolves st st'"
  unfolding create_session_def Let_def
  by (simp only: bindR_Inr_iff abort_on_error_simps)
     (elim exE conjE, rule evolves_trans [OF evolves_admit evolves_save_after [OF evolves_open_session]])

lemma evolves_add_goal_op [evolve_intros]: "evolves st (snd (add_goal sid b c t st))"
  by (auto simp: add_goal_def new_id_def Let_def intro!: evolves_add_goal) (simp add: new_goal_def)

lemma evolves_reopen_goal [evolve_intros]: "reopen_goal gid r a st = Inr st' \<Longrightarrow> evolves st st'"
  by (auto simp: reopen_goal_def bindR_Inr_iff intro: evolves_set_goal_completion)

lemma evolves_set_activated [evolve_intros]: "evolves st (snd (set_activated_goal sid u b c t st))"
  by (auto simp: set_activated_goal_def split: option.splits intro: evolves_upd_goal evolves_add_goal_op)

lemma evolves_wake_singleton [evolve_intros]: "evolves st (wake_singleton_session k u sid l c st)"
  unfolding wake_singleton_session_def Let_def
  by (auto intro: evolves_upd_session
      evolves_trans [OF evolves_trans [OF evolves_insert_session evolves_upd_unit] evolves_upd_session])

lemma evolves_relink [evolve_intros]: "relink_parents ps sid st = Inr st' \<Longrightarrow> evolves st st'"
  unfolding relink_parents_def by (rule evolves_link_parents)

lemma evolves_relink_error: "relink_parents ps sid st = Inl (e, st') \<Longrightarrow> evolves st st'"
  unfolding relink_parents_def by (rule evolves_link_parents_error)

lemma evolves_before_reopen:
  "evolves st (log_unit_activated sid u tr c (snd (set_activated_goal sid u gb cb c st)))"
  unfolding log_unit_activated_def by (rule evolves_trans [OF evolves_set_activated evolves_log_signal])

lemma evolves_finish_activation [evolve_intros]:
  "finish_activation sid u gb cb c t st = Inr (sid', gid, st') \<Longrightarrow> evolves st st'"
  unfolding finish_activation_def Let_def case_prod_beta
  by (auto simp: bindR_Inr_iff intro: evolves_trans [OF evolves_before_reopen evolves_reopen_goal])

lemma evolves_finish_activation_error:
  "finish_activation sid u gb cb c t st = Inl (e, st') \<Longrightarrow> evolves st st'"
  unfolding finish_activation_def Let_def case_prod_beta
  by (auto simp: bindR_Inl_iff intro: evolves_before_reopen)

lemma evolves_activate [evolve_intros]:
  "activate_singleton_unit_session_in_state k ps l b c t tr st = Inr (sid, gid, st') \<Longrightarrow> evolves st st'"
  unfolding activate_singleton_unit_session_in_state_def Let_def
  by (auto simp: bindR_Inr_iff split: option.splits
      intro: evolves_trans [OF evolves_wake_singleton evolves_trans [OF evolves_relink evolves_finish_activation]])

lemma evolves_activate_error:
  "activate_singleton_unit_session_in_state k ps l b c t tr st = Inl (e, st') \<Longrightarrow> evolves st st'"
  unfolding activate_singleton_unit_session_in_state_def Let_def
  by (auto simp: bindR_Inl_iff split: option.splits
      intro: evolves_trans [OF evolves_wake_singleton evolves_relink_error]
        evolves_trans [OF evolves_wake_singleton evolves_trans [OF evolves_relink evolves_finish_activation_error]])

lemma evolves_open_goal [evolve_intros]:
  "open_goal_session sid u ps ti gb cb c st = Inr (sid', gid, st') \<Longrightarrow> evolves st st'"
  unfolding open_goal_session_def Let_def case_prod_beta
  by (auto simp: bindR_Inr_iff
      intro: evolves_trans [OF evolves_add_unit_session evolves_trans [OF evolves_link_parents
          evolves_trans [OF evolves_add_goal_op evolves_reopen_goal]]])

lemma evolves_open_goal_error:
  "open_goal_session sid u ps ti gb cb c st = Inl (e, st') \<Longrightarrow> evolves st st'"
  unfolding open_goal_session_def Let_def case_prod_beta
  by (auto simp: bindR_Inl_iff
      intro: evolves_trans [OF evolves_add_unit_session evolves_link_parents_error]
        evolves_trans [OF evolves_add_unit_session evolves_trans [OF evolves_link_parents evolves_add_goal_op]])

lemma evolves_start_in_state [evolve_intros]:
  "start_goal_session_in_state sid u ps l b cb c tr st = Inr (sid', gid, st') \<Longrightarrow> evolves st st'"
  unfolding start_goal_session_in_state_def Let_def
  by (auto simp: bindR_Inr_iff split: if_splits
      intro: evolves_trans [OF evolves_admit evolves_activate] evolves_trans [OF evolves_admit evolves_open_goal])

lemma evolves_start_in_state_error:
  "start_goal_session_in_state sid u ps l b cb c tr st = Inl (e, st') \<Longrightarrow> evolves st st'"
  unfolding start_goal_session_in_state_def Let_def
  by (auto simp: bindR_Inl_iff split: if_splits
      intro: evolves_admit evolves_admit_error evolves_trans [OF evolves_admit evolves_activate_error]
        evolves_trans [OF evolves_admit evolves_open_goal_error])

lemma start_goal_session_evolves:
  "start_goal_session sid u ps l b cb st = Inr (sid', gid, st') \<Longrightarrow> evolves st st'"
  unfolding start_goal_session_def Let_def case_prod_beta
  by (auto simp: bindR_Inr_iff split: if_splits
      intro: evolves_trans [OF evolves_utc_now evolves_save_after [OF evolves_start_in_state]])

lemma evolves_rewrite_goal:
  "log_goal_body_update sid gid' p b cb now (upd_goal gid (\<lambda>g. g\<lparr>g_body := b, g_created_by := cb, g_updated_at := now\<rparr>) st)
     = Inr st' \<Longrightarrow> evolves st st'"
  by (rule evolves_trans [OF evolves_upd_goal evolves_log_body]) simp_all

lemma evolves_set_goal_body [evolve_intros]:
  "set_goal_body sid b cb now st = Inr (gid, reason, st') \<Longrightarrow> evolves st st'"
  unfolding set_goal_body_def case_prod_beta
  by (auto simp: bindR_Inr_iff Let_def case_prod_beta split: option.splits
      intro: evolves_add_goal_op evolves_rewrite_goal)

lemma update_goal_evolves: "update_goal sid b cb st = Inr (gid, st') \<Longrightarrow> evolves st st'"
  unfolding update_goal_def Let_def case_prod_beta
  by (auto simp: bindR_Inr_iff split: if_splits
      intro: evolves_trans [OF evolves_utc_now evolves_trans [OF evolves_set_goal_body
          evolves_trans [OF evolves_upd_session evolves_save_after [OF evolves_reopen_goal]]]])

lemma link_sessions_evolves: "link_sessions p c st = Inr (e, st') \<Longrightarrow> evolves st st'"
  by (auto simp: link_sessions_def bindR_Inr_iff intro: evolves_save_after [OF evolves_link])

subsection \<open>A message that is annotated after it was logged\<close>

lemma annotate_fields [simp]:
  "le_seq (annotate_message mid x e) = le_seq e" "le_session_id (annotate_message mid x e) = le_session_id e"
  "le_event_key (annotate_message mid x e) = le_event_key e"
  by (cases "le_item e"; simp add: annotate_message_def)+

lemma seq_from_annotate [simp]: "seq_from k (map (annotate_message mid x) es) = seq_from k es"
  by (simp add: seq_from_def comp_def)

lemma annotate_other: "\<not> has_message_id mid e \<Longrightarrow> annotate_message mid x e = e"
  by (simp add: annotate_message_def)

lemma annotate_fresh [simp]:
  "entry_fresh u (le_item (annotate_message mid x e)) k = entry_fresh u (le_item e) k"
  by (cases "le_item e"; simp add: annotate_message_def entry_fresh_def)

lemma fresh_no_message:
  assumes "log_ok st" "e \<in> set (log_view st sid)" "st_uid st \<le> n"
  shows "\<not> has_message_id (id_of ''msg'' n) e"
proof -
  have "entry_fresh (st_uid st) (le_item e) (le_event_key e)"
    using assms(1,2) by (auto simp: log_ok_def log_fresh_def)
  then show ?thesis using assms(3) by (auto simp: entry_fresh_def has_message_id_def split: option.splits)
qed

text \<open>Appending in a transaction leaves the durable entries alone, so they are as fresh as before.\<close>

lemma annotate_view:
  fixes x :: jobject
  assumes ok: "log_ok st" and grows: "log_grows st st'" and disk: "st_disk_logs st' = st_disk_logs st"
    and n: "st_uid st \<le> n"
  defines "f \<equiv> annotate_message (id_of ''msg'' n) x"
  shows "map f (disk_log st' s) = disk_log st' s"
    "log_view (annotate_logged_message sid (id_of ''msg'' n) x st') s
      = (if s = sid then map f (log_view st' s) else log_view st' s)"
proof -
  have "set (disk_log st s) \<subseteq> set (log_view st s)" for s
    using log_view_split [OF log_ok_inv [OF ok], of s] by (metis set_take_subset)
  then show d: "map f (disk_log st' s) = disk_log st' s" for s
    using fresh_no_message [OF ok _ n] unfolding disk_log_def disk f_def
    by (intro map_idI annotate_other) (metis disk_log_def subsetD)
  have "pending_log (annotate_logged_message sid (id_of ''msg'' n) x st') s
      = (if s = sid then map f (pending_log st' s) else pending_log st' s)"
    by (auto simp: pending_log_def dict_get_def annotate_logged_message_def f_def split: option.splits)
  then show "log_view (annotate_logged_message sid (id_of ''msg'' n) x st') s
      = (if s = sid then map f (log_view st' s) else log_view st' s)"
    using d [of s] by (auto simp: log_view_def annotate_logged_message_def disk_log_def)
qed

lemma annotate_grows:
  assumes grows: "log_grows st st'" and disk: "st_disk_logs st' = st_disk_logs st" and n: "st_uid st \<le> n"
  shows "log_grows st (annotate_logged_message sid (id_of ''msg'' n) x st')"
proof -
  let ?st = "annotate_logged_message sid (id_of ''msg'' n) x st'"
  let ?f = "annotate_message (id_of ''msg'' n) x"
  have frame: "st_uid ?st = st_uid st'" "st_log_full_ids ?st = st_log_full_ids st'"
    "disk_log ?st = disk_log st'" "dict_keys (st_session_logs ?st) = dict_keys (st_session_logs st')"
    by (simp_all add: annotate_logged_message_def fun_eq_iff disk_log_def)
  have "log_ok ?st \<and> (\<forall>s. prefix (log_view st s) (log_view ?st s))" if ok: "log_ok st"
  proof -
    note view = annotate_view [OF ok grows disk n, where x = x]
    note ok' = log_growsD [OF grows ok]
    have "log_inv st'" using ok'(1) by (rule log_ok_inv)
    have full: "take (length (disk_log st' s)) (pending_log ?st s) = disk_log st' s"
      if "s \<in> set (st_log_full_ids st')" for s
    proof -
      have "pending_log ?st s = log_view ?st s" using that frame by (simp add: log_view_def)
      then show ?thesis
        using view(2) [where s = s and sid = sid] log_view_split [OF \<open>log_inv st'\<close>, of s] view(1) [where s = s]
        by (cases "s = sid") (simp_all add: take_map)
    qed
    have "log_inv ?st"
      using \<open>log_inv st'\<close> full unfolding log_inv_def frame view(2)
      by auto
    moreover have "log_fresh ?st"
      using ok'(1) unfolding log_ok_def log_fresh_def frame view(2) by auto
    moreover have "prefix (log_view st s) (log_view ?st s)" for s
    proof -
      have "map ?f (log_view st s) = log_view st s"
        using fresh_no_message [OF ok _ n] by (auto simp: annotate_other intro!: map_idI)
      then show ?thesis using ok'(2) [of s] view(2) [where s = s and sid = sid] by (metis map_mono_prefix)
    qed
    ultimately show ?thesis by (simp add: log_ok_def)
  qed
  moreover have "st_uid st \<le> st_uid ?st" using grows by (simp add: log_grows_def frame)
  ultimately show ?thesis by (simp add: log_grows_def)
qed

lemma evolves_annotate:
  assumes e: "evolves st st'" and disk: "st_disk_logs st' = st_disk_logs st" and n: "st_uid st \<le> n"
  shows "evolves st (annotate_logged_message sid (id_of ''msg'' n) x st')"
proof -
  let ?st = "annotate_logged_message sid (id_of ''msg'' n) x st'"
  have "log_grows st ?st"
    using e disk n by (intro annotate_grows) (auto simp: evolves_def)
  moreover have frame: "st_goals ?st = st_goals st'" "st_sessions ?st = st_sessions st'"
    "st_dispatch_runs ?st = st_dispatch_runs st'" "st_dispatch_readiness ?st = st_dispatch_readiness st'"
    "st_session_edges ?st = st_session_edges st'" "st_uid ?st = st_uid st'"
    by (simp_all add: annotate_logged_message_def)
  ultimately show ?thesis
    using e unfolding evolves_def goals_evolve_def goals_ok_def runs_evolve_def readiness_evolve_def
      sessions_evolve_def entry_matches_goal_def frame by blast
qed

lemma append_message_disk:
  assumes "append_session_message_locked sid f t p c st = Inr (m, st')"
  shows "st_disk_logs st' = st_disk_logs st" "m_message_id m = id_of ''msg'' (st_uid st)"
  using append_session_message_frame [OF assms] make_message_facts(1) [of f t p c st]
  by (simp_all add: Let_def upd_session_def make_message_def new_id_def utc_now_def)

lemma log_transition_disk [simp]: "st_disk_logs (log_goal_state_transition g t st) = st_disk_logs st"
  by (auto simp: log_goal_state_transition_def Let_def case_prod_beta utc_now_def sync_session_current_state_def
      upd_session_def split: option.splits)

lemma enter_incomplete_disk:
  assumes "enter_completion_state gid Incomplete reason actor run_id oc d st = Inr (t, st')"
  shows "st_disk_logs st' = st_disk_logs st"
  using assms
proof (cases rule: enter_completion_cases)
  case (1 g now st1)
  have "st_disk_logs st1 = st_disk_logs st" using clock_or_fields(14) [of oc st] 1(3) by simp
  then show ?thesis using 1(10) by (simp add: upd_defs)
qed

lemma reopen_goal_disk: "reopen_goal gid r a st = Inr st' \<Longrightarrow> st_disk_logs st' = st_disk_logs st"
  by (auto simp: reopen_goal_def set_goal_completion_state_def bindR_Inr_iff split: option.splits
      dest: enter_incomplete_disk)

lemma mark_reprocess_disk:
  assumes "mark_session_reprocess_needed sid actor reason c d st = Inr (gid, st')"
  shows "st_disk_logs st' = st_disk_logs st"
proof -
  let ?st1 = "snd (reprocess_target sid actor c st)"
  let ?st2 = "cancel_goal_waiting sid (fst (reprocess_target sid actor c st)) actor reason c ?st1"
  have 1: "st_disk_logs ?st1 = st_disk_logs st"
    by (auto simp: reprocess_target_def new_id_def Let_def split: option.splits)
  have "st_disk_logs ?st2 = st_disk_logs ?st1"
    by (auto simp: cancel_goal_waiting_def log_system_signal_def Let_def case_prod_beta new_id_def utc_now_def
        upd_goal_def)
  moreover have "st_disk_logs st' = st_disk_logs ?st2"
    using assms
    by (auto simp: mark_session_reprocess_needed_def Let_def case_prod_beta bindR_Inr_iff
        set_goal_completion_state_def split: option.splits dest: enter_incomplete_disk)
  ultimately show ?thesis using 1 by simp
qed

subsection \<open>Messages of users and agents\<close>

lemma evolves_forward [evolve_intros]:
  "forward_to_worker sid sender b rt mid now active st = Inr st' \<Longrightarrow> evolves st st'"
  by (auto simp: forward_to_worker_def bindR_Inr_iff split: option.splits intro: evolves_append_message)

text \<open>A message, the reopened goal and the annotation of the message.\<close>

lemma evolves_announce:
  assumes m: "append_session_message_locked sid f t p c st = Inr (m, st1)"
    and e: "evolves st1 st2" and d: "st_disk_logs st2 = st_disk_logs st1"
  shows "evolves st (annotate_logged_message sid (m_message_id m) x st2)"
proof -
  have "evolves st st2" using evolves_append_message [OF m] e by (rule evolves_trans)
  then show ?thesis
    using append_message_disk [OF m] d by (auto intro: evolves_annotate)
qed

lemma deliver_user_input_cases:
  assumes "deliver_user_input sid sender b rt st = Inr (m, st')"
  obtains m0 :: message and gid :: string and st2 st3 st5 st1 :: state and active now where
    "utc_now st = (now, st1)" "active = active_worker_run_for_session st1 sid"
    "append_session_message_locked sid (user_endpoint sender) (session_endpoint sid)
       (user_input_payload b rt (active \<noteq> None)) now st1 = Inr (m0, st2)"
    "mark_session_reprocess_needed sid sender
       (''UserInput message '' @ m_message_id m0 @ '' requires Session processing.'') now (active \<noteq> None) st2
       = Inr (gid, st3)"
    "forward_to_worker sid sender b rt (m_message_id m0) now active
       (annotate_logged_message sid (m_message_id m0) (reprocess_keys gid now) st3) = Inr st5"
    "save st5 = Inr st'"
    "m = m0\<lparr>m_payload := (m_payload m0)\<lparr>pl_extra := pl_extra (m_payload m0) @ reprocess_keys gid now\<rparr>\<rparr>"
proof -
  obtain now st1 where n: "utc_now st = (now, st1)" by (cases "utc_now st")
  show ?thesis
    using assms unfolding deliver_user_input_def n
    by (simp only: Let_def prod.case bindR_pairs)
       (elim exE conjE, simp only: bindR_Inr_iff, elim exE conjE, rule that [OF n refl], assumption+, simp only: sum.inject prod.inject, simp only: sum.inject prod.inject)
qed

lemma append_user_input_evolves:
  "append_user_input sid sender b rt st = Inr (m, st') \<Longrightarrow> evolves st st'"
proof -
  assume "append_user_input sid sender b rt st = Inr (m, st')"
  then have "deliver_user_input sid sender b (py_strip rt) st = Inr (m, st')"
    by (auto simp: append_user_input_def split: if_splits)
  then show ?thesis
  proof (cases rule: deliver_user_input_cases)
    case (1 m0 gid st2 st3 st5 st1 active now)
    have "evolves st st1" using evolves_utc_now [of st] 1(1) by simp
    also have "evolves st1 (annotate_logged_message sid (m_message_id m0) (reprocess_keys gid now) st3)"
      using 1(3) evolves_mark_reprocess [OF 1(4)] mark_reprocess_disk [OF 1(4)] by (rule evolves_announce)
    also have "evolves \<dots> st5" using 1(5) by (rule evolves_forward)
    also have "evolves st5 st'" using 1(6) by (rule evolves_save)
    finally show ?thesis .
  qed
qed

lemma fold_entries_evolves:
  "evolves st (snd (fold (\<lambda>sid (acc, st). let (entries, st') = session_log_entries sid st
                              in (h sid entries acc, st')) sids (acc, st)))"
proof (induction sids arbitrary: acc st)
  case (Cons sid sids)
  show ?case
    using evolves_trans [OF evolves_entries Cons.IH] by (simp add: Let_def case_prod_beta)
qed simp

lemma evolves_all_messages [evolve_intros]: "evolves st (snd (all_messages st))"
  using fold_entries_evolves [where h = "\<lambda>sid es acc. fold (index_message sid) es acc"]
  by (simp add: all_messages_def Let_def case_prod_beta)

lemma evolves_messages_after_cursor [evolve_intros]: "evolves st (snd (messages_after_cursor ep st))"
  using evolves_all_messages [of st] by (simp add: messages_after_cursor_def Let_def case_prod_beta)

lemma evolves_advance [evolve_intros]: "evolves st (advance_endpoint_cursor ep ms st)"
  by (auto simp: advance_endpoint_cursor_def Let_def split: option.splits intro: evolves_cursors)

lemma receive_message_evolves: "receive_message r sid st = Inr (mo, st') \<Longrightarrow> evolves st st'"
  unfolding receive_message_def Let_def case_prod_beta
  by (auto simp: bindR_Inr_iff split: if_splits option.splits
      intro: evolves_trans [OF evolves_messages_after_cursor evolves_save_after [OF evolves_advance]])

lemma evolves_reply_endpoint [evolve_intros]: "evolves st (snd (latest_reply_endpoint_for_session sid st))"
  by (simp add: evolves_entries)

lemma evolves_recipient [evolve_intros]:
  "runtime_recipient_endpoint sid r ep st = Inr (e, st') \<Longrightarrow> evolves st st'"
  using evolves_reply_endpoint [of st sid]
  by (auto simp: runtime_recipient_endpoint_def Let_def bindR_Inr_iff case_prod_beta split: if_splits)

lemma append_runtime_message_evolves:
  "append_runtime_message sid sender r b g pr rid ep fs wr we st = Inr (m, st') \<Longrightarrow> evolves st st'"
  unfolding append_runtime_message_def send_runtime_message_def Let_def
  by (auto simp: bindR_Inr_iff split: if_splits
      intro: evolves_trans [OF evolves_recipient evolves_save_after [OF evolves_append_message]])

subsection \<open>Declarations of a run\<close>

lemma evolves_declare [evolve_intros]: "evolves st (declare_outcome rid oc st)"
  unfolding declare_outcome_def by (rule evolves_upd_run) simp_all

lemma evolves_waiting_spec [evolve_intros]:
  "normalize_goal_waiting_spec_locked sid w st = Inr (spec, n, st') \<Longrightarrow> evolves st st'"
  using evolves_utc_now [of st]
  by (auto simp: normalize_goal_waiting_spec_locked_def future_deadline_def Let_def bindR_Inr_iff case_prod_beta
      split: if_splits sum.splits error.splits)

lemma declare_completion_evolves:
  "set_goal_completion_state_from_runtime sid cs r a rid ps st = Inr (oc, st') \<Longrightarrow> evolves st st'"
  unfolding set_goal_completion_state_from_runtime_def Let_def case_prod_beta
  by (auto simp: bindR_Inr_iff split: if_splits option.splits
      intro: evolves_trans [OF evolves_utc_now evolves_save_after [OF evolves_declare]])

lemma declare_waiting_evolves:
  "set_goal_waiting_from_runtime sid w a rid r st = Inr (oc, st') \<Longrightarrow> evolves st st'"
  unfolding set_goal_waiting_from_runtime_def Let_def case_prod_beta
  by (auto simp: bindR_Inr_iff split: if_splits
      intro: evolves_trans [OF evolves_waiting_spec evolves_trans [OF evolves_utc_now evolves_save_after [OF evolves_declare]]])

subsection \<open>Launching Units\<close>

lemma evolves_triggered_id [evolve_intros]: "evolves st (snd (triggered_session_id u t now st))"
  by (auto simp: triggered_session_id_def triggered_stem_def Let_def case_prod_beta intro: evolves_new_id)

lemma evolves_send_prompt [evolve_intros]:
  assumes "send_initial_prompt sid gid p c uk u k now st = Inr st'"
  shows "evolves st st'"
proof (cases "p = []")
  case True
  then show ?thesis using assms by (simp add: send_initial_prompt_def)
next
  case False
  from assms [unfolded send_initial_prompt_def if_not_P [OF False] bindR_pairs] obtain m st1 where
    m: "append_session_message_locked sid (user_endpoint c) (session_endpoint sid)
      (empty_payload\<lparr>pl_body := p, pl_user_input := True, pl_extra := [(uk, JStr u)]\<rparr>) now st = Inr (m, st1)"
    and r: "bindR (reopen_goal gid (k @ '' Unit initial prompt '' @ m_message_id m @ '' requires Session processing.'')
        c st1) (\<lambda>st2. Inr (annotate_logged_message sid (m_message_id m) (reprocess_keys gid now) st2)) = Inr st'"
    by blast
  from r obtain st2 where r: "reopen_goal gid (k @ '' Unit initial prompt '' @ m_message_id m @ '' requires Session processing.'')
        c st1 = Inr st2" and st': "st' = annotate_logged_message sid (m_message_id m) (reprocess_keys gid now) st2"
    unfolding bindR_Inr_iff by (elim exE conjE) (rule that, assumption, simp only: sum.inject)
  show ?thesis
    unfolding st' using m evolves_reopen_goal [OF r] reopen_goal_disk [OF r] by (rule evolves_announce)
qed

lemma evolves_launch_unit:
  "launch_unit sid u p c now tr st = Inr (sid', gid, st') \<Longrightarrow> evolves st st'"
  "launch_unit sid u p c now tr st = Inl (e, st') \<Longrightarrow> evolves st st'"
  unfolding launch_unit_def Let_def by (rule evolves_start_in_state evolves_start_in_state_error; assumption)+

lemma evolves_after_start:
  assumes "after_start started uid fin (launch_unit sid u p c now tr st) = Inr (l, st')"
    "\<And>sid gid s. fin sid gid s = Inr (l, st') \<Longrightarrow> evolves s st'"
  shows "evolves st st'"
proof (cases "launch_unit sid u p c now tr st")
  case (Inl q)
  then show ?thesis
    using assms(1) evolves_launch_unit(2) [of sid u p c now tr st]
    by (cases q) (auto simp: after_start_def split: error.splits)
next
  case (Inr q)
  obtain sid' gid s where q: "q = (sid', gid, s)" by (cases q) auto
  have "evolves st s" using Inr unfolding q by (rule evolves_launch_unit(1))
  also have "evolves s st'" using assms(1) Inr q by (intro assms(2) [of sid' gid]) (simp add: after_start_def)
  finally show ?thesis .
qed

lemma evolves_finish_scheduled:
  "finish_scheduled_launch key u sid c now started sid' gid st = Inr (l, st') \<Longrightarrow> evolves st st'"
  unfolding finish_scheduled_launch_def Let_def
  by (auto simp: bindR_Inr_iff split: if_splits
      intro: evolves_trans [OF evolves_upd_session evolves_trans [OF evolves_send_prompt evolves_upd_unit]])

lemma evolves_finish_startup:
  "finish_startup_launch key u c now started sid gid st = Inr (l, st') \<Longrightarrow> evolves st st'"
  unfolding finish_startup_launch_def
  by (auto simp: bindR_Inr_iff intro: evolves_trans [OF evolves_send_prompt evolves_upd_unit])

lemma evolves_launch_scheduled:
  assumes "launch_scheduled_unit p c now key u started st = Inr (l, st')"
  shows "evolves st st'"
proof -
  let ?id = "scheduled_session_id (un_unit_id u) now st"
  obtain up uc where "after_start started (un_unit_id u)
      (finish_scheduled_launch key u (fst ?id) uc now started)
      (launch_unit (fst ?id) u up uc now ''scheduled'' (snd ?id)) = Inr (l, st')"
    using assms unfolding launch_scheduled_unit_def bindR_pairs by (auto simp: case_prod_beta)
  then have "evolves (snd ?id) st'" by (rule evolves_after_start) (rule evolves_finish_scheduled)
  then show ?thesis
    unfolding scheduled_session_id_def by (rule evolves_trans [OF evolves_triggered_id])
qed

lemma evolves_launch_startup:
  assumes "launch_startup_unit p c now key u started st = Inr (l, st')"
  shows "evolves st st'"
proof -
  let ?id = "triggered_session_id (un_unit_id u) ''startup'' now st"
  obtain up uc where "after_start started (un_unit_id u) (finish_startup_launch key u uc now started)
      (launch_unit (fst ?id) u up uc now ''startup'' (snd ?id)) = Inr (l, st')"
    using assms unfolding launch_startup_unit_def bindR_pairs by (auto simp: case_prod_beta)
  then have "evolves (snd ?id) st'" by (rule evolves_after_start) (rule evolves_finish_startup)
  then show ?thesis by (rule evolves_trans [OF evolves_triggered_id])
qed

lemma evolves_scheduled_step:
  "scheduled_unit_step p c now dt key (started, st) = Inr (l, st') \<Longrightarrow> evolves st st'"
  by (auto simp: scheduled_unit_step_def bindR_Inr_iff split: option.splits if_splits
      intro: evolves_trigger_enabled evolves_trans [OF evolves_trigger_enabled evolves_launch_scheduled])

lemma evolves_startup_step:
  "startup_unit_step p c now key (started, st) = Inr (l, st') \<Longrightarrow> evolves st st'"
  by (auto simp: startup_unit_step_def bindR_Inr_iff split: option.splits if_splits
      intro: evolves_trigger_enabled evolves_trans [OF evolves_trigger_enabled evolves_launch_startup])

lemma evolves_foldR_snd:
  assumes "foldR f xs (l, s) = Inr (l', t)"
    "\<And>x l s l' t. f x (l, s) = Inr (l', t) \<Longrightarrow> evolves s t"
  shows "evolves s t"
  using assms(1)
proof (induction xs arbitrary: l s)
  case (Cons x xs)
  then obtain l1 s1 where "f x (l, s) = Inr (l1, s1)" "foldR f xs (l1, s1) = Inr (l', t)"
    by (auto simp: bindR_Inr_iff)
  then show ?case using Cons.IH assms(2) by (blast intro: evolves_trans)
qed simp

lemma run_scheduled_units_evolves:
  assumes "run_scheduled_units p c now st = Inr (l, st')"
  shows "evolves st st'"
proof -
  obtain dt st2 where
    r: "foldR (scheduled_unit_step p c (fst (clock_or now st)) dt) (sorted_unit_keys (snd (clock_or now st)))
      ([], snd (clock_or now st)) = Inr (l, st2)" and s: "save st2 = Inr st'"
    using assms unfolding run_scheduled_units_def Let_def case_prod_beta by (auto simp: bindR_Inr_iff)
  have "evolves st (snd (clock_or now st))" by (rule evolves_clock_or)
  also have "evolves \<dots> st2" using r by (rule evolves_foldR_snd) (rule evolves_scheduled_step)
  also have "evolves st2 st'" using s by (rule evolves_save)
  finally show ?thesis .
qed

lemma run_startup_units_evolves:
  assumes "run_startup_units p c now st = Inr (l, st')"
  shows "evolves st st'"
proof -
  obtain st2 where
    r: "foldR (startup_unit_step p c (fst (clock_or now st))) (sorted_unit_keys (snd (clock_or now st)))
      ([], snd (clock_or now st)) = Inr (l, st2)" and s: "save st2 = Inr st'"
    using assms unfolding run_startup_units_def Let_def case_prod_beta by (auto simp: bindR_Inr_iff)
  have "evolves st (snd (clock_or now st))" by (rule evolves_clock_or)
  also have "evolves \<dots> st2" using r by (rule evolves_foldR_snd) (rule evolves_startup_step)
  also have "evolves st2 st'" using s by (rule evolves_save)
  finally show ?thesis .
qed

end
