(* ===== verification/Session_Rules.thy ===== *)
theory Session_Rules
  imports Operation_Facts
begin

section \<open>What starting a session guarantees\<close>

text \<open>
  The rules of Sessions and Launch: a session identifier that is searched for is free, a Unit
  only starts sessions for members of its spawn groups while it is active and allows the
  trigger, a singleton keeps its one session, and a started session has an incomplete goal and
  its parents. The schedule of a singleton that has its session never starts it.
\<close>

subsection \<open>What the steps leave alone\<close>

lemma log_transition_sessions [simp]:
  "dict_keys (st_sessions (log_goal_state_transition g t st)) = dict_keys (st_sessions st)"
  "st_units (log_goal_state_transition g t st) = st_units st"
  "st_users (log_goal_state_transition g t st) = st_users st"
  by (auto simp: log_goal_state_transition_def Let_def case_prod_beta utc_now_def sync_session_current_state_def
      upd_session_def split: option.splits)

lemma reopen_goal_facts:
  assumes "reopen_goal gid r a st = Inr st'"
  obtains g now where "get_goal st gid = Some g"
    "st_goals st' = AList.map_entry gid (completion_fields Incomplete r now) (st_goals st)"
    "st_session_edges st' = st_session_edges st" "dict_keys (st_sessions st') = dict_keys (st_sessions st)"
    "st_units st' = st_units st" "st_users st' = st_users st"
proof -
  from assms obtain t where e: "enter_completion_state gid Incomplete r a [] [] False st = Inr (t, st')"
    by (auto simp: reopen_goal_def set_goal_completion_state_def bindR_Inr_iff split: option.splits)
  show ?thesis
    using e
  proof (cases rule: enter_completion_cases)
    case (1 g now st1)
    have same: "st_goals st1 = st_goals st" "st_session_edges st1 = st_session_edges st"
      "st_sessions st1 = st_sessions st" "st_units st1 = st_units st" "st_users st1 = st_users st"
      using clock_or_fields [of "[]" st] 1(3) by simp_all
    show ?thesis by (rule that [OF 1(1), of now]) (simp_all add: 1(10) upd_defs same)
  qed
qed

lemma link_parents_facts:
  assumes "link_parents ps sid st = Inr st'"
  shows "st_sessions st' = st_sessions st \<and> st_goals st' = st_goals st \<and> st_units st' = st_units st
    \<and> st_users st' = st_users st \<and> graph st' = graph st \<union> {(p, sid) | p. p \<in> set ps}"
  using assms
proof (induction ps arbitrary: st)
  case Nil
  then show ?case by (simp add: link_parents_def)
next
  case (Cons p ps)
  then obtain e st1 where l: "link_sessions_in_state p sid st = Inr (e, st1)" and r: "link_parents ps sid st1 = Inr st'"
    by (auto simp: link_parents_def bindR_Inr_iff)
  obtain es n where "st1 = st\<lparr>st_session_edges := es, st_ticks := n\<rparr>" using link_sessions_frame [OF l] by blast
  then have "st_sessions st1 = st_sessions st" "st_goals st1 = st_goals st" "st_units st1 = st_units st"
    "st_users st1 = st_users st" by simp_all
  moreover have "graph st1 = insert (p, sid) (graph st)" by (rule session_graph.link_adds [OF l])
  ultimately show ?case using Cons.IH [OF r] by auto
qed

subsection \<open>Free identifiers\<close>

lemma in_keys: "k \<in> set (dict_keys d) \<longleftrightarrow> map_of d k \<noteq> None"
  by (simp add: map_of_eq_None_iff)

lemma triggered_session_id_state:
  "st_sessions (snd (triggered_session_id u t now st)) = st_sessions st"
  "st_units (snd (triggered_session_id u t now st)) = st_units st"
  "st_users (snd (triggered_session_id u t now st)) = st_users st"
  by (auto simp: triggered_session_id_def triggered_stem_def Let_def case_prod_beta new_id_def)

lemma triggered_session_id_fst:
  "fst (triggered_session_id u t now st) =
     (let stem = fst (triggered_stem u t now st); taken = dict_keys (st_sessions st)
      in if stem \<in> set taken then free_suffix taken stem 2 else stem)"
  by (simp add: triggered_session_id_def Let_def case_prod_beta)

lemma triggered_session_id_free: "get_session st (fst (triggered_session_id u t now st)) = None"
  using free_suffix_fresh [of "dict_keys (st_sessions st)" "fst (triggered_stem u t now st)" 2]
  unfolding triggered_session_id_fst Let_def in_keys by (auto simp del: not_None_eq split: if_splits)

text \<open>C20: The search for a session identifier ends with one that is free: it is the stem built from the
  Unit, the trigger and the time when that is free, and otherwise the stem with the least number
  from 2 on that no session has.\<close>

theorem triggered_session_id_is_free:
  "let stem = fst (triggered_stem u t now st); found = fst (triggered_session_id u t now st) in
   get_session st found = None \<and>
   (found = stem
    \<or> get_session st stem \<noteq> None \<and>
      (\<exists>k \<ge> 2. found = stem @ CHR ''-'' # dec k
         \<and> {j. 2 \<le> j \<and> j < k} \<subseteq> {j. get_session st (stem @ CHR ''-'' # dec j) \<noteq> None}))"
  using triggered_session_id_free [of st u t now]
    free_suffix_least [of 2 "dict_keys (st_sessions st)" "fst (triggered_stem u t now st)"]
  unfolding triggered_session_id_fst Let_def in_keys by (auto simp del: not_None_eq)

subsection \<open>Who may activate a Unit\<close>

definition default_triggers :: "unit_rec \<Rightarrow> triggers" where
  "default_triggers u = \<lparr>tr_manual = True, tr_scheduled = schedule_enabled (un_schedule u), tr_startup = False\<rparr>"

lemma normalize_default_triggers:
  "normalize_unit_activation_triggers [] (un_schedule u) = Inr (default_triggers u)"
  by (simp add: normalize_unit_activation_triggers_def default_triggers_def)

definition trigger_allowed :: "unit_rec \<Rightarrow> string \<Rightarrow> bool" where
  "trigger_allowed u trigger =
     trigger_value (case un_activation_triggers u of Some t \<Rightarrow> t | None \<Rightarrow> default_triggers u) trigger"

text \<open>
  The Unit exists, allows the trigger, is not paused, and the user is in one of its spawn
  groups when it has any.
\<close>

definition may_activate :: "state \<Rightarrow> string \<Rightarrow> string \<Rightarrow> string \<Rightarrow> bool" where
  "may_activate st unit_id trigger username \<longleftrightarrow>
     (case map_of (st_units st) unit_id of
        None \<Rightarrow> False
      | Some u \<Rightarrow>
          \<not> unit_paused (Some u) \<and> trigger_allowed u trigger
          \<and> (un_spawn_groups u = [] \<or> (\<exists>g \<in> set (un_spawn_groups u). g \<in> set (memberships st username))))"

lemma trigger_enabled_facts:
  assumes "unit_activation_trigger_enabled k tr st = Inr (b, st')"
  obtains u ts where "map_of (st_units st) k = Some u"
    "map_of (st_units st') k = Some (u\<lparr>un_activation_triggers := ts\<rparr>)"
    "st' = st\<lparr>st_units := st_units st'\<rparr>" "b = trigger_allowed u tr"
proof -
  have tr: "\<not> tr \<notin> {''manual'', ''scheduled'', ''startup''}"
    by (rule ccontr) (use assms in \<open>simp only: unit_activation_trigger_enabled_def if_True not_not, simp\<close>)
  note a = assms [unfolded unit_activation_trigger_enabled_def if_not_P [OF tr]]
  from a obtain u where u: "map_of (st_units st) k = Some u" by (cases "map_of (st_units st) k") auto
  show ?thesis
  proof (cases "un_activation_triggers u")
    case None
    from a [unfolded u option.case None normalize_default_triggers bindR.simps]
    have "b = trigger_value (default_triggers u) tr"
      and st': "st' = upd_unit k (\<lambda>u. u\<lparr>un_activation_triggers := Some (default_triggers u)\<rparr>) st
        \<or> st' = upd_unit k (\<lambda>x. x\<lparr>un_activation_triggers := Some (default_triggers u)\<rparr>) st" by auto
    then show ?thesis
      using u None by (intro that [OF u, of "Some (default_triggers u)"]) (auto simp: upd_unit_def trigger_allowed_def)
  next
    case (Some t)
    from a [unfolded u option.case Some] have "b = trigger_value t tr" "st' = st" by auto
    then show ?thesis using u Some by (intro that [OF u, of "Some t"]) (simp_all add: trigger_allowed_def)
  qed
qed

lemma admit_facts:
  assumes "admit_unit_activation u t c st = Inr st1"
  shows "st1 = st\<lparr>st_units := st_units st1\<rparr>" "u = [] \<or> may_activate st u t c"
    "singleton_session st1 u = singleton_session st u"
    "is_singleton_unit st1 u = is_singleton_unit st u"
proof -
  have "st1 = st\<lparr>st_units := st_units st1\<rparr> \<and> (u = [] \<or> may_activate st u t c)
    \<and> singleton_session st1 u = singleton_session st u \<and> is_singleton_unit st1 u = is_singleton_unit st u"
  proof (cases "u = []")
    case True
    then show ?thesis using assms by (simp add: admit_unit_activation_def)
  next
    case False
    from assms [unfolded admit_unit_activation_def if_not_P [OF False]] obtain b where
      e: "unit_activation_trigger_enabled u t st = Inr (b, st1)" and b: "b"
      and p: "\<not> unit_paused (map_of (st_units st1) u)"
      and m: "check_unit_spawn_membership st1 (map_of (st_units st1) u) c = Inr ()"
      by (auto simp: bindR_Inr_iff split: if_splits)
    from e obtain r ts where r: "map_of (st_units st) u = Some r"
      "map_of (st_units st1) u = Some (r\<lparr>un_activation_triggers := ts\<rparr>)" "st1 = st\<lparr>st_units := st_units st1\<rparr>"
      "b = trigger_allowed r t"
      by (rule trigger_enabled_facts)
    have st1: "st_users st1 = st_users st" "st_sessions st1 = st_sessions st" by (subst r(3), simp)+
    have "un_spawn_groups r = [] \<or> (\<exists>g \<in> set (un_spawn_groups r). g \<in> set (memberships st c))"
      using m r(2) by (auto simp: check_unit_spawn_membership_def unit_spawn_groups_def memberships_def st1
          list_ex_iff Let_def split: if_splits)
    then have "may_activate st u t c"
      using r p b by (auto simp: may_activate_def unit_paused_def)
    then show ?thesis
      using r(1-3) by (simp add: singleton_session_def is_singleton_unit_def st1)
  qed
  then show "st1 = st\<lparr>st_units := st_units st1\<rparr>" "u = [] \<or> may_activate st u t c"
    "singleton_session st1 u = singleton_session st u"
    "is_singleton_unit st1 u = is_singleton_unit st u" by auto
qed

lemma create_session_facts:
  assumes "create_session sid u ps c st = Inr st'"
  obtains st1 where "admit_unit_activation (py_strip u) ''manual'' c st = Inr st1"
    "new_session_checks sid (py_strip u) (if ps = [] then [ROOT_SESSION_ID] else ps) c st1 = Inr ()"
  using assms unfolding create_session_def Let_def by (auto simp: bindR_Inr_iff)

lemma new_session_checks_facts:
  assumes "new_session_checks sid u ps c st = Inr ()"
  shows "get_session st sid = None" "singleton_session st u = None"
  using assms by (auto simp: new_session_checks_def bindR_Inr_iff split: if_splits option.splits)

lemma start_facts:
  assumes "start_goal_session sid u ps l b c st = Inr (sid', gid, st')"
  obtains st1 where "start_goal_session_in_state sid u ps (py_strip l) (or_text (py_strip b) (py_strip l)) c
      (fst (utc_now st)) ''manual'' (snd (utc_now st)) = Inr (sid', gid, st1)" "save st1 = Inr st'"
  using assms unfolding start_goal_session_def Let_def case_prod_beta
  by (auto simp: bindR_Inr_iff split: if_splits)

lemma start_in_state_admitted:
  assumes "start_goal_session_in_state sid u ps l b c t tr st = Inr r"
  obtains st1 where "admit_unit_activation (py_strip u) tr c st = Inr st1"
  using assms unfolding start_goal_session_in_state_def Let_def by (auto simp: bindR_Inr_iff split: if_splits)

text \<open>C18: Only those who may activate a Unit start sessions in it: when creating a session or starting one
  with a goal returns for a Unit, that Unit exists, is not paused, allows manual activation and the
  creator is in one of its spawn groups if it has any; and creating refuses a singleton that has
  its session.\<close>

theorem session_start_authorised:
  assumes "create_session sid u ps c st = Inr st' \<or> start_goal_session sid u ps l b c st = Inr (sid', gid, st')"
    "py_strip u \<noteq> []"
  shows "may_activate st (py_strip u) ''manual'' c
    \<and> (create_session sid u ps c st = Inr st' \<longrightarrow>
         get_session st sid = None \<and> singleton_session st (py_strip u) = None)"
proof -
  have a: "may_activate st (py_strip u) ''manual'' c \<and> get_session st sid = None
      \<and> singleton_session st (py_strip u) = None" if create: "create_session sid u ps c st = Inr st'"
  proof -
    obtain st1 where ad: "admit_unit_activation (py_strip u) ''manual'' c st = Inr st1"
      and ch: "new_session_checks sid (py_strip u) (if ps = [] then [ROOT_SESSION_ID] else ps) c st1 = Inr ()"
      by (rule create_session_facts [OF create])
    have "st_sessions st1 = st_sessions st" by (subst admit_facts(1) [OF ad]) simp
    then show ?thesis
      using admit_facts(2,3) [OF ad] new_session_checks_facts [OF ch] assms(2) by auto
  qed
  have s: "may_activate st (py_strip u) ''manual'' c"
    if start: "start_goal_session sid u ps l b c st = Inr (sid', gid, st')"
  proof -
    from start obtain st2 where "start_goal_session_in_state sid u ps (py_strip l) (or_text (py_strip b) (py_strip l)) c
      (fst (utc_now st)) ''manual'' (snd (utc_now st)) = Inr (sid', gid, st2)" by (rule start_facts)
    then obtain st1 where "admit_unit_activation (py_strip u) ''manual'' c (snd (utc_now st)) = Inr st1"
      by (rule start_in_state_admitted)
    then have "may_activate (snd (utc_now st)) (py_strip u) ''manual'' c" using admit_facts(2) assms(2) by blast
    moreover have "memberships (snd (utc_now st)) c = memberships st c" "st_units (snd (utc_now st)) = st_units st"
      by (simp_all add: memberships_def utc_now_def)
    ultimately show ?thesis by (simp only: may_activate_def)
  qed
  from assms(1) a s show ?thesis by blast
qed

subsection \<open>The goal and the parents of a started session\<close>

lemma log_transition_active [simp]:
  "map_option s_active (get_session (log_goal_state_transition g t st) k) = map_option s_active (get_session st k)"
  by (auto simp: log_goal_state_transition_def Let_def case_prod_beta utc_now_def sync_session_current_state_def
      upd_session_def split: option.splits)

lemma reopen_goal_active:
  assumes "reopen_goal gid r a st = Inr st'"
  shows "map_option s_active (get_session st' k) = map_option s_active (get_session st k)"
proof -
  from assms obtain t where e: "enter_completion_state gid Incomplete r a [] [] False st = Inr (t, st')"
    by (auto simp: reopen_goal_def set_goal_completion_state_def bindR_Inr_iff split: option.splits)
  then show ?thesis
  proof (cases rule: enter_completion_cases)
    case (1 g now st1)
    have "st_sessions st1 = st_sessions st" using clock_or_fields(3) [of "[]" st] 1(3) by simp
    then show ?thesis by (simp add: 1(10) upd_defs option.map_comp comp_def)
  qed
qed

lemma reopen_goal_current:
  assumes "reopen_goal gid r a st = Inr st'" "goals_ok st" "current_goal_for_session st sid = Some g" "g_goal_id g = gid"
  shows "\<exists>g'. current_goal_for_session st' sid = Some g' \<and> g_goal_id g' = gid \<and> g_body g' = g_body g
    \<and> g_completion_state g' = Incomplete \<and> g_waiting g' = g_waiting g"
proof -
  obtain now where "st_goals st' = AList.map_entry gid (completion_fields Incomplete r now) (st_goals st)"
    using reopen_goal_facts [OF assms(1)] by metis
  then have "current_goal_for_session st' sid
      = map_option (\<lambda>g. if g_goal_id g = gid then completion_fields Incomplete r now g else g)
          (current_goal_for_session st sid)"
    by (rule current_goal_map_entry [OF assms(2)]) simp_all
  then show ?thesis using assms(3,4) by simp
qed

lemma add_goal_current:
  assumes "goals_ok st" "current_goal_for_session st sid = None"
  shows "current_goal_for_session (snd (add_goal sid b c t st)) sid
    = Some (new_goal (fst (add_goal sid b c t st)) sid b c t)"
proof -
  let ?gid = "id_of ''goal'' (st_uid st)"
  let ?g = "new_goal ?gid sid b c t"
  have fresh: "get_goal st ?gid = None" using assms(1) by (simp add: goals_ok_def)
  have "AList.update k v d = d @ [(k, v)]" if "map_of d k = None" for k and v :: goal and d
    using that by (induction d) (auto split: if_splits)
  from this [OF fresh] have "dict_values (st_goals (snd (add_goal sid b c t st))) = dict_values (st_goals st) @ [?g]"
    by (simp add: add_goal_def new_id_def)
  moreover have "filter (\<lambda>g. g_session_id g = sid \<and> g_archived_at g = []) (dict_values (st_goals st)) = []"
    using assms(2) by (simp add: current_goal_for_session_def)
  moreover have "g_session_id ?g = sid" "g_archived_at ?g = []" by (simp_all add: new_goal_def)
  ultimately show ?thesis by (simp add: current_goal_for_session_def add_goal_def new_id_def last_opt_def)
qed

lemma new_goal_fields [simp]:
  "g_goal_id (new_goal gid sid b c t) = gid" "g_body (new_goal gid sid b c t) = b"
  "g_waiting (new_goal gid sid b c t) = None" "g_session_id (new_goal gid sid b c t) = sid"
  by (simp_all add: new_goal_def)

lemma add_goal_frame:
  "st_sessions (snd (add_goal sid b c t st)) = st_sessions st"
  "st_session_edges (snd (add_goal sid b c t st)) = st_session_edges st"
  "st_units (snd (add_goal sid b c t st)) = st_units st"
  by (simp_all add: add_goal_def new_id_def)

text \<open>
  What the start promises of the session it returns: it is active, its current goal is the one
  returned, incomplete and with the body asked for, and every parent that was named is linked.
\<close>

definition session_opened :: "string \<Rightarrow> string \<Rightarrow> string \<Rightarrow> string list \<Rightarrow> state \<Rightarrow> bool" where
  "session_opened sid gid body parents st \<longleftrightarrow>
     (\<exists>s. get_session st sid = Some s \<and> s_active s)
     \<and> (\<exists>g. current_goal_for_session st sid = Some g \<and> g_goal_id g = gid \<and> g_body g = body
            \<and> g_completion_state g = Incomplete)
     \<and> (\<forall>p \<in> set parents. get_session st p \<noteq> None \<longrightarrow> p = sid \<or> (p, sid) \<in> graph st)"

lemma active_iff: "(\<exists>s. get_session st k = Some s \<and> s_active s) \<longleftrightarrow> map_option s_active (get_session st k) = Some True"
  by auto

lemma add_unit_session_frame:
  "st_goals (add_unit_session sid u now t st) = st_goals st"
  "set (dict_keys (st_sessions (add_unit_session sid u now t st))) = insert sid (set (dict_keys (st_sessions st)))"
  "map_option s_active (get_session (add_unit_session sid u now t st) sid) = Some True"
  by (simp_all add: add_unit_session_def insert_session_def upd_defs new_session_def Let_def dom_update
      del: set_map) (simp add: dom_update)

lemma open_goal_session_facts:
  assumes "open_goal_session sid u ps ti gb c t st = Inr (sid', gid, st')" "goals_ok st"
    "current_goal_for_session st sid = None"
  shows "sid' = sid" "session_opened sid gid gb ps st'"
proof -
  let ?st0 = "add_unit_session sid u t ti st"
  from assms(1) obtain st1 where l: "link_parents ps sid ?st0 = Inr st1"
    and gid: "gid = fst (add_goal sid gb c t st1)" and sid: "sid' = sid"
    and r: "reopen_goal gid ''Goal session created.'' ''system'' (snd (add_goal sid gb c t st1)) = Inr st'"
    unfolding open_goal_session_def Let_def case_prod_beta by (auto simp: bindR_Inr_iff)
  note lf = link_parents_facts [OF l]
  have ok1: "goals_ok st1"
    using assms(2) evolves_add_unit_session evolves_link_parents [OF l] goals_ok_evolves by blast
  have "current_goal_for_session st1 = current_goal_for_session st"
    by (rule current_goal_cong) (simp add: lf add_unit_session_frame)
  then have cur: "current_goal_for_session (snd (add_goal sid gb c t st1)) sid = Some (new_goal gid sid gb c t)"
    using add_goal_current [OF ok1] assms(3) by (simp add: gid)
  have goal: "\<exists>g'. current_goal_for_session st' sid = Some g' \<and> g_goal_id g' = gid \<and> g_body g' = gb
      \<and> g_completion_state g' = Incomplete"
    using reopen_goal_current [OF r goals_ok_evolves [OF evolves_add_goal_op ok1] cur] by auto
  have "map_option s_active (get_session st' sid) = Some True"
    using reopen_goal_active [OF r, of sid] by (simp add: add_goal_frame lf add_unit_session_frame)
  moreover have "st_session_edges st' = st_session_edges (snd (add_goal sid gb c t st1))"
    by (rule reopen_goal_facts [OF r])
  then have "(p, sid) \<in> graph st'" if "p \<in> set ps" for p
    using that lf by (simp add: add_goal_frame)
  ultimately show "session_opened sid gid gb ps st'"
    using goal unfolding session_opened_def active_iff by blast
  show "sid' = sid" by (rule sid)
qed

text \<open>The activation of a singleton's session.\<close>

lemma wake_singleton_facts:
  assumes "get_session st sid \<noteq> None"
  shows "st_goals (wake_singleton_session k u sid l t st) = st_goals st"
    "dict_keys (st_sessions (wake_singleton_session k u sid l t st)) = dict_keys (st_sessions st)"
    "map_option s_active (get_session (wake_singleton_session k u sid l t st) sid) = Some True"
  using assms by (auto simp: wake_singleton_session_def upd_session_def)

lemma log_unit_activated_frame:
  "st_goals (log_unit_activated sid u tr t st) = st_goals st"
  "st_sessions (log_unit_activated sid u tr t st) = st_sessions st"
  "st_session_edges (log_unit_activated sid u tr t st) = st_session_edges st"
  by (auto simp: log_unit_activated_def log_system_signal_def Let_def case_prod_beta new_id_def utc_now_def)

lemma set_activated_frame:
  "st_sessions (snd (set_activated_goal sid u gb c t st)) = st_sessions st"
  "st_session_edges (snd (set_activated_goal sid u gb c t st)) = st_session_edges st"
  by (simp_all add: set_activated_goal_def add_goal_frame upd_goal_def split: option.split)

lemma set_activated_current:
  assumes "goals_ok st" "gb \<noteq> []"
  shows "\<exists>g. current_goal_for_session (snd (set_activated_goal sid u gb c t st)) sid = Some g
    \<and> g_goal_id g = fst (set_activated_goal sid u gb c t st) \<and> g_body g = gb"
proof (cases "current_goal_for_session st sid")
  case None
  then show ?thesis
    using add_goal_current [OF assms(1) None] assms(2) by (simp add: set_activated_goal_def or_text_def)
next
  case (Some g)
  let ?f = "\<lambda>g. g\<lparr>g_body := gb, g_updated_at := t\<rparr>"
  have "current_goal_for_session (upd_goal (g_goal_id g) ?f st) sid
      = map_option (\<lambda>h. if g_goal_id h = g_goal_id g then ?f h else h) (current_goal_for_session st sid)"
    by (rule current_goal_map_entry [OF assms(1)]) (simp_all add: upd_goal_def)
  then show ?thesis using Some assms(2) by (simp add: set_activated_goal_def)
qed

lemma finish_activation_facts:
  assumes "finish_activation sid u gb c t tr st = Inr (sid', gid, st')" "goals_ok st" "gb \<noteq> []"
  shows "sid' = sid \<and> dict_keys (st_sessions st') = dict_keys (st_sessions st)
    \<and> st_session_edges st' = st_session_edges st
    \<and> map_option s_active (get_session st' k) = map_option s_active (get_session st k)
    \<and> (\<exists>g. current_goal_for_session st' sid = Some g \<and> g_goal_id g = gid \<and> g_body g = gb
          \<and> g_completion_state g = Incomplete)"
proof -
  let ?a = "set_activated_goal sid u gb c t st"
  define st2 where "st2 = log_unit_activated sid u tr t (snd ?a)"
  from assms(1) have r: "reopen_goal gid (activation_reason u tr) ''system'' st2 = Inr st'"
    and s: "sid' = sid" and gid: "gid = fst ?a"
    unfolding finish_activation_def Let_def case_prod_beta st2_def by (auto simp: bindR_Inr_iff)
  have ok: "goals_ok st2"
    unfolding st2_def by (rule goals_ok_evolves [OF evolves_before_reopen assms(2)])
  have "current_goal_for_session st2 = current_goal_for_session (snd ?a)"
    by (rule current_goal_cong) (simp only: st2_def log_unit_activated_frame)
  then obtain g where g: "current_goal_for_session st2 sid = Some g" "g_goal_id g = gid" "g_body g = gb"
    using set_activated_current [OF assms(2,3), of sid u c t] gid by auto
  have frame: "st_sessions st2 = st_sessions st" "st_session_edges st2 = st_session_edges st"
    by (simp_all only: st2_def log_unit_activated_frame set_activated_frame)
  have "dict_keys (st_sessions st') = dict_keys (st_sessions st2)" "st_session_edges st' = st_session_edges st2"
    by (rule reopen_goal_facts [OF r], assumption)+
  then show ?thesis
    using s reopen_goal_current [OF r ok g(1,2)] reopen_goal_active [OF r, of k] g(3) frame by auto
qed

lemma singleton_session_Some:
  assumes "singleton_session st u = Some s"
  obtains r where "map_of (st_units st) u = Some r" "un_singleton_session_id r = s" "s \<noteq> []"
    "get_session st s \<noteq> None" "un_instance_policy r = ''singleton''"
  using assms unfolding singleton_session_def by (auto split: option.splits if_splits)

lemma or_text_nonempty: "or_text a b = [] \<longleftrightarrow> a = [] \<and> b = []"
  by (simp add: or_text_def)

lemma activate_facts:
  assumes "activate_singleton_unit_session_in_state k ps l b c t tr st = Inr (sid', gid, st')"
    "singleton_session st k = Some s" "goals_ok st" "py_strip b \<noteq> []"
  shows "sid' = s \<and> dict_keys (st_sessions st') = dict_keys (st_sessions st)
    \<and> session_opened s gid (py_strip b) (if ps = [] then [ROOT_SESSION_ID] else ps) st'"
proof -
  from assms(2) obtain r where r: "map_of (st_units st) k = Some r" "un_singleton_session_id r = s" "s \<noteq> []"
    "get_session st s \<noteq> None" by (rule singleton_session_Some)
  let ?ps = "if ps = [] then [ROOT_SESSION_ID] else ps"
  let ?st2 = "wake_singleton_session k r s l t st"
  from assms(1) obtain st3 where l: "relink_parents ?ps s ?st2 = Inr st3"
    and f: "finish_activation s (un_unit_id r) (py_strip b) c t tr st3 = Inr (sid', gid, st')"
    using r(1-3) assms(4)
    unfolding activate_singleton_unit_session_in_state_def Let_def
    by (auto simp: bindR_Inr_iff or_text_def split: if_splits)
  note lf = link_parents_facts [OF l [unfolded relink_parents_def]]
  note w = wake_singleton_facts [OF r(4), of k r l t]
  have ok3: "goals_ok st3"
    using assms(3) evolves_wake_singleton evolves_relink [OF l] goals_ok_evolves by blast
  note fa = finish_activation_facts [OF f ok3 assms(4), of s]
  have keys: "dict_keys (st_sessions st') = dict_keys (st_sessions st)" using fa lf w(2) by simp
  then have "get_session st' p \<noteq> None \<longleftrightarrow> get_session ?st2 p \<noteq> None" for p
    using w(2) by (metis in_keys)
  then have "\<forall>p \<in> set ?ps. get_session st' p \<noteq> None \<longrightarrow> p = s \<or> (p, s) \<in> graph st'"
    using lf fa by auto
  then show ?thesis
    using fa lf w(3) keys unfolding session_opened_def active_iff by simp
qed

lemma start_in_state_cases:
  assumes "start_goal_session_in_state sid u ps l b c t tr st = Inr (sid', gid, st')"
  obtains (singleton) st1 s where "admit_unit_activation (py_strip u) tr c st = Inr st1"
      "singleton_session st1 (py_strip u) = Some s"
      "activate_singleton_unit_session_in_state (py_strip u) ps (py_strip l)
         (or_text (py_strip b) (py_strip l)) c t tr st1 = Inr (sid', gid, st')" "py_strip l \<noteq> []"
  | (opened) st1 where "admit_unit_activation (py_strip u) tr c st = Inr st1"
      "singleton_session st1 (py_strip u) = None" "get_session st1 sid = None"
      "open_goal_session sid (py_strip u) (if ps = [] then [ROOT_SESSION_ID] else ps) (py_strip l)
         (or_text (py_strip b) (py_strip l)) c t st1 = Inr (sid', gid, st')"
proof -
  have l: "py_strip l \<noteq> []"
    using assms by (auto simp: start_goal_session_in_state_def)
  let ?ps = "if ps = [] then [ROOT_SESSION_ID] else ps"
  from assms [unfolded start_goal_session_in_state_def Let_def if_not_P [OF l] bindR_Inr_iff]
  obtain st1 where a: "admit_unit_activation (py_strip u) tr c st = Inr st1"
    and m: "(if get_session st1 sid \<noteq> None then Inl (StoreError (''session already exists: '' @ sid), st1)
             else if singleton_session st1 (py_strip u) \<noteq> None then
               activate_singleton_unit_session_in_state (py_strip u) ps (py_strip l)
                 (or_text (py_strip b) (py_strip l)) c t tr st1
             else bindR (raise_in st1 (known_parents ?ps st1)) (\<lambda>_.
                 open_goal_session sid (py_strip u) ?ps (py_strip l)
                   (or_text (py_strip b) (py_strip l)) c t st1)) = Inr (sid', gid, st')"
    by (elim exE conjE) (rule that, assumption)
  have n: "get_session st1 sid = None" by (rule ccontr) (use m in simp)
  note rest = m [unfolded n not_not simp_thms if_False]
  show ?thesis
  proof (cases "singleton_session st1 (py_strip u)")
    case None
    with rest show ?thesis by (intro opened [OF a None n]) (simp add: bindR_Inr_iff)
  next
    case (Some s)
    with rest show ?thesis by (intro singleton [OF a Some _ l]) simp
  qed
qed

lemma goals_ok_admit: "admit_unit_activation u tr c st = Inr st1 \<Longrightarrow> goals_ok st \<Longrightarrow> goals_ok st1"
  using evolves_admit goals_ok_evolves by blast

lemma start_in_state_opens:
  assumes "start_goal_session_in_state sid u ps l b c t tr st = Inr (sid', gid, st')" "goals_ok st"
    "get_session st sid = None \<longrightarrow> current_goal_for_session st sid = None"
  shows "session_opened sid' gid (py_strip (or_text (py_strip b) (py_strip l)))
      (if ps = [] then [ROOT_SESSION_ID] else ps) st'
    \<and> (case singleton_session st (py_strip u) of
         Some s \<Rightarrow> sid' = s \<and> dict_keys (st_sessions st') = dict_keys (st_sessions st)
       | None \<Rightarrow> sid' = sid \<and> get_session st sid = None)"
proof -
  have body: "py_strip (or_text (py_strip b) (py_strip l)) = or_text (py_strip b) (py_strip l)"
    by (simp add: or_text_def)
  show ?thesis
    using assms(1)
  proof (cases rule: start_in_state_cases)
    case (singleton st1 s)
    have st1: "st_sessions st1 = st_sessions st" by (subst admit_facts(1) [OF singleton(1)]) simp
    have "py_strip (or_text (py_strip b) (py_strip l)) \<noteq> []" using singleton(4) by (simp add: or_text_def)
    from activate_facts [OF singleton(3,2) goals_ok_admit [OF singleton(1) assms(2)] this]
    show ?thesis using singleton(2) admit_facts(3) [OF singleton(1)] st1 by simp
  next
    case (opened st1)
    have st1: "st_sessions st1 = st_sessions st" by (subst admit_facts(1) [OF opened(1)]) simp
    have "st_goals st1 = st_goals st" by (subst admit_facts(1) [OF opened(1)]) simp
    then have "current_goal_for_session st1 sid = None"
      using assms(3) opened(3) st1 current_goal_cong by metis
    from open_goal_session_facts [OF opened(4) goals_ok_admit [OF opened(1) assms(2)] this]
    show ?thesis using opened(2,3) admit_facts(3) [OF opened(1)] st1 body by simp
  qed
qed

lemma session_opened_save:
  assumes "session_opened sid gid b ps st" "save st = Inr st'"
  shows "session_opened sid gid b ps st'"
proof -
  from save_frame [OF assms(2)] have same: "st_goals st' = st_goals st" "st_sessions st' = st_sessions st"
    "st_session_edges st' = st_session_edges st" by auto
  then show ?thesis
    using assms(1) current_goal_cong [OF same(1)] unfolding session_opened_def same by simp
qed


text \<open>A singleton that has its session is activated, so the identifier searched for stays unused.\<close>

lemma launch_singleton_keys:
  assumes "launch_unit sid u p c t tr st = Inr (sid', gid, st')" "goals_ok st" "get_session st sid = None"
    "singleton_session st (py_strip (un_unit_id u)) \<noteq> None"
  shows "get_session st' sid = None"
  using assms(1) unfolding launch_unit_def Let_def
proof (cases rule: start_in_state_cases)
  case (singleton st1 s)
  have st1: "st_sessions st1 = st_sessions st" by (subst admit_facts(1) [OF singleton(1)]) simp
  from activate_facts [OF singleton(3,2) goals_ok_admit [OF singleton(1) assms(2)]] singleton(4)
  have "dict_keys (st_sessions st') = dict_keys (st_sessions st)" by (simp add: or_text_def st1)
  then show ?thesis using assms(3) by (metis in_keys)
next
  case (opened st1)
  then show ?thesis using admit_facts(3) [OF opened(1)] assms(4) by simp
qed

text \<open>C21: The schedule of a singleton Unit that has its session never starts it: the launch looks its
  session up under the identifier it had searched for a new one, which the activation does not
  create, so the operation raises, unless the start itself was refused and is reported as skipped.\<close>

theorem scheduled_singleton_never_starts:
  assumes "singleton_session st (py_strip (un_unit_id u)) \<noteq> None" "goals_ok st"
    "launch_scheduled_unit p c now key u started st = Inr (l, st')"
  shows "\<exists>why. l = started @ [Skipped (un_unit_id u) why]"
proof -
  let ?id = "scheduled_session_id (un_unit_id u) now st"
  obtain up uc where
    r: "after_start started (un_unit_id u) (finish_scheduled_launch key u (fst ?id) uc now started)
      (launch_unit (fst ?id) u up uc now ''scheduled'' (snd ?id)) = Inr (l, st')"
    using assms(3) unfolding launch_scheduled_unit_def bindR_pairs by (auto simp: case_prod_beta)
  have frame: "st_sessions (snd ?id) = st_sessions st" "st_units (snd ?id) = st_units st"
    unfolding scheduled_session_id_def by (simp_all only: triggered_session_id_state)
  have ok: "goals_ok (snd ?id)"
    unfolding scheduled_session_id_def by (rule goals_ok_evolves [OF evolves_triggered_id assms(2)])
  have free: "get_session (snd ?id) (fst ?id) = None"
    unfolding frame unfolding scheduled_session_id_def by (rule triggered_session_id_free)
  have single: "singleton_session (snd ?id) (py_strip (un_unit_id u)) \<noteq> None"
    using assms(1) unfolding singleton_session_def frame .
  show ?thesis
  proof (cases "launch_unit (fst ?id) u up uc now ''scheduled'' (snd ?id)")
    case (Inl q)
    then show ?thesis using r by (cases q) (auto simp: after_start_def split: error.splits)
  next
    case (Inr q)
    obtain sid' gid s where q: "q = (sid', gid, s)" by (cases q) auto
    have "get_session s (fst ?id) = None" by (rule launch_singleton_keys [OF Inr [unfolded q] ok free single])
    then show ?thesis using r Inr q by (simp add: after_start_def finish_scheduled_launch_def)
  qed
qed

end
