(* ===== verification/Session_Example.thy ===== *)
theory Session_Example
  imports Session_Rules
begin

section \<open>A small store\<close>

text \<open>
  A store with a root session, one user and one singleton Unit that only members of a group may
  start, and the operations of Sessions and Launch on it.
\<close>

definition guarded_unit :: unit_rec where
  "guarded_unit = (new_unit ''u'' ''T0'' ''singleton'')\<lparr>un_spawn_groups := [''ops''], un_activation_triggers :=
     Some \<lparr>tr_manual = True, tr_scheduled = False, tr_startup = False\<rparr>\<rparr>"

definition small_store :: state where
  "small_store = (blank_state (\<lambda>_. 86400000000) (\<lambda>i. i))
     \<lparr>st_sessions := [(''root'', new_session ''root'' [] ''T0'' ''root'' True)],
      st_users := [(''ann'', new_user ''ann'' [] [] [''ops''] ''T0'' ''active'' [])],
      st_units := [(''u'', guarded_unit)]\<rparr>"

lemma small_store_ok: "goals_ok small_store" "log_ok small_store" "current_goal_for_session small_store sid = None"
  by (auto simp: small_store_def blank_state_def log_ok_def log_inv_def log_view_def pending_log_def
      disk_log_def seq_from_def dict_get_def log_fresh_def goals_ok_def current_goal_for_session_def)

lemma small_store_starts:
  obtains st' gid where "start_goal_session ''s'' ''u'' [] ''L'' [] ''ann'' small_store = Inr (''s'', gid, st')"
proof -
  have "case start_goal_session ''s'' ''u'' [] ''L'' [] ''ann'' small_store of Inr (s, g, st') \<Rightarrow> s = ''s'' | Inl _ \<Rightarrow> False"
    by code_simp
  then show ?thesis
    by (cases "start_goal_session ''s'' ''u'' [] ''L'' [] ''ann'' small_store") (auto intro: that)
qed

lemma stripped_names: "py_strip ''u'' = ''u''" "py_strip ''L'' = ''L''"
  by code_simp+

theorem session_start_authorised_witness:
  "\<exists>gid st'. start_goal_session ''s'' ''u'' [] ''L'' [] ''ann'' small_store = Inr (''s'', gid, st')
     \<and> may_activate small_store ''u'' ''manual'' ''ann''"
proof -
  obtain st' gid where s: "start_goal_session ''s'' ''u'' [] ''L'' [] ''ann'' small_store = Inr (''s'', gid, st')"
    by (rule small_store_starts)
  with session_start_authorised [of "''s''" "''u''" "[]" "''ann''" small_store st' "''L''" "[]" "''s''" gid]
  show ?thesis unfolding stripped_names by blast
qed


text \<open>The same Unit once it has its session: its schedule is refused, as the trigger is off.\<close>

definition settled_unit :: unit_rec where
  "settled_unit = guarded_unit\<lparr>un_singleton_session_id := ''root''\<rparr>"

definition settled_store :: state where
  "settled_store = small_store\<lparr>st_units := [(''u'', settled_unit)]\<rparr>"

theorem scheduled_singleton_never_starts_witness:
  "\<exists>why st'. launch_scheduled_unit ''root'' ''ann'' ''T1'' ''u'' settled_unit [] settled_store
     = Inr ([Skipped ''u'' why], st')"
proof -
  have u: "un_unit_id settled_unit = ''u''" by code_simp
  have "singleton_session settled_store (py_strip (un_unit_id settled_unit)) \<noteq> None"
    unfolding u stripped_names by code_simp
  moreover have "goals_ok settled_store"
    using small_store_ok(1) by (simp add: goals_ok_def settled_store_def)
  moreover have "case launch_scheduled_unit ''root'' ''ann'' ''T1'' ''u'' settled_unit [] settled_store of
      Inr (l, st') \<Rightarrow> True | Inl _ \<Rightarrow> False" by code_simp
  then obtain l st' where l: "launch_scheduled_unit ''root'' ''ann'' ''T1'' ''u'' settled_unit [] settled_store
      = Inr (l, st')"
    by (cases "launch_scheduled_unit ''root'' ''ann'' ''T1'' ''u'' settled_unit [] settled_store") auto
  ultimately have "\<exists>why. l = [] @ [Skipped (un_unit_id settled_unit) why]"
    by (rule scheduled_singleton_never_starts)
  with l show ?thesis unfolding u by auto
qed

end
