(* ===== verification/Runtime_Rules.thy ===== *)
theory Runtime_Rules
  imports Operation_Facts
begin

section \<open>What agents and users can do to a session\<close>

text \<open>
  The rules of Runtime and Goal\_Messages: a run declares one outcome and only while it holds
  its lease, a waiting deadline lies ahead, an agent speaks only as its role to the recipients of
  that role, and a user's input reopens the session's goal and reaches the worker at work.
\<close>

subsection \<open>Declarations\<close>

lemma declaring_run_facts:
  assumes "declaring_run sid a rid who what st = Inr (r, g)"
  shows "get_run st rid = Some r" "r_role r = GoalManager" "r_lease_state r = LeaseAcquired"
    "r_session_id r = sid" "r_declared_outcome r = None" "current_goal_for_session st sid = Some g"
    "g_goal_id g = r_goal_id r"
  using assms by (auto simp: declaring_run_def split: option.splits if_splits)

lemma declaring_run_once:
  "get_run st rid = Some r \<Longrightarrow> r_declared_outcome r \<noteq> None \<Longrightarrow> declaring_run sid a rid who what st \<noteq> Inr x"
  by (auto simp: declaring_run_def split: option.splits if_splits)

lemma declare_completion_cases:
  assumes "set_goal_completion_state_from_runtime sid cs why a rid ps st = Inr (oc, st')"
  obtains r g who what n where "declaring_run sid a rid who what st = Inr (r, g)" "g_body g = r_observed_goal_body r"
    "new_requirement_conflicts_after_window st sid rid (r_observed_to_seq r) = None"
    "save (declare_outcome rid oc (st\<lparr>st_ticks := n\<rparr>)) = Inr st'"
  using assms unfolding set_goal_completion_state_from_runtime_def Let_def
  by (auto simp: bindR_Inr_iff utc_now_def split: if_splits option.splits)

lemma waiting_spec_state:
  "normalize_goal_waiting_spec_locked sid w st = Inr (spec, n, st1) \<Longrightarrow> \<exists>t. st1 = st\<lparr>st_ticks := t\<rparr>"
  by (auto simp: normalize_goal_waiting_spec_locked_def future_deadline_def Let_def bindR_Inr_iff utc_now_def
      split: if_splits sum.splits error.splits intro: exI [of _ "st_ticks st"])

lemma declare_waiting_cases:
  assumes "set_goal_waiting_from_runtime sid w a rid why st = Inr (oc, st')"
  obtains r g who what spec k n reason by' at where "declaring_run sid a rid who what st = Inr (r, g)"
    "\<exists>st1. normalize_goal_waiting_spec_locked sid w st = Inr (spec, k, st1)"
    "oc = Declared_waiting spec k reason by' at" "save (declare_outcome rid oc (st\<lparr>st_ticks := n\<rparr>)) = Inr st'"
proof -
  from assms obtain r g spec k st1 who what now where d: "declaring_run sid a rid who what st = Inr (r, g)"
    and n: "normalize_goal_waiting_spec_locked sid w st = Inr (spec, k, st1)"
    and oc: "oc = Declared_waiting spec k (or_default why ''GoalManager recorded a waiting decision.'')
        (or_default a ''GoalManager'') now"
    and s: "save (declare_outcome rid oc (snd (utc_now st1))) = Inr st'"
    unfolding set_goal_waiting_from_runtime_def Let_def case_prod_beta
    by (auto simp: bindR_Inr_iff split: if_splits)
  obtain t where "st1 = st\<lparr>st_ticks := t\<rparr>" using waiting_spec_state [OF n] by blast
  then have "snd (utc_now st1) = st\<lparr>st_ticks := Suc t\<rparr>" by (simp add: utc_now_def)
  with s n show ?thesis by (intro that [OF d _ oc]) auto
qed

lemma declared_state:
  assumes "save (declare_outcome rid oc (st\<lparr>st_ticks := n\<rparr>)) = Inr st'" "get_run st rid = Some r"
  shows "get_run st' rid = Some (r\<lparr>r_declared_outcome := Some oc\<rparr>)" "st_goals st' = st_goals st"
  using save_frame [OF assms(1)] assms(2) by (auto simp: declare_outcome_def upd_run_def)

text \<open>C16: A run declares at most one outcome, and only as the acquired GoalManager run of the session's
  current goal: when a completion or a waiting decision is accepted, the run was such a run and
  had declared nothing, the outcome is now stored on it, no goal has changed, and every further
  declaration for the run is refused. A completion also needs the goal's body and the session's
  requirements to be those the run observed.\<close>

theorem outcome_declared_once:
  assumes "set_goal_completion_state_from_runtime sid cs why a rid ps st = Inr (oc, st')
    \<or> set_goal_waiting_from_runtime sid w a rid why st = Inr (oc, st')"
  shows "\<exists>r g. get_run st rid = Some r \<and> r_role r = GoalManager \<and> r_lease_state r = LeaseAcquired
      \<and> r_session_id r = sid \<and> r_declared_outcome r = None
      \<and> current_goal_for_session st sid = Some g \<and> g_goal_id g = r_goal_id r
      \<and> get_run st' rid = Some (r\<lparr>r_declared_outcome := Some oc\<rparr>) \<and> st_goals st' = st_goals st
      \<and> (set_goal_completion_state_from_runtime sid cs why a rid ps st = Inr (oc, st') \<longrightarrow>
           g_body g = r_observed_goal_body r
           \<and> new_requirement_conflicts_after_window st sid rid (r_observed_to_seq r) = None)
      \<and> (\<forall>sid2 cs2 why2 a2 ps2 x. set_goal_completion_state_from_runtime sid2 cs2 why2 a2 rid ps2 st' \<noteq> Inr x)
      \<and> (\<forall>sid2 w2 a2 why2 x. set_goal_waiting_from_runtime sid2 w2 a2 rid why2 st' \<noteq> Inr x)"
proof -
  obtain r g who what n where d: "declaring_run sid a rid who what st = Inr (r, g)"
    and s: "save (declare_outcome rid oc (st\<lparr>st_ticks := n\<rparr>)) = Inr st'"
    and c: "set_goal_completion_state_from_runtime sid cs why a rid ps st = Inr (oc, st') \<longrightarrow>
           g_body g = r_observed_goal_body r
           \<and> new_requirement_conflicts_after_window st sid rid (r_observed_to_seq r) = None"
  proof (cases "set_goal_completion_state_from_runtime sid cs why a rid ps st = Inr (oc, st')")
    case True
    then show ?thesis by (rule declare_completion_cases) (intro that; blast)
  next
    case False
    with assms have "set_goal_waiting_from_runtime sid w a rid why st = Inr (oc, st')" by blast
    then show ?thesis by (rule declare_waiting_cases) (intro that; use False in blast)
  qed
  note f = declaring_run_facts [OF d]
  note t = declared_state [OF s f(1)]
  have once: "declaring_run s2 a2 rid w1 w2 st' \<noteq> Inr x" for s2 a2 w1 w2 x
    by (rule declaring_run_once [OF t(1)]) simp
  have "set_goal_completion_state_from_runtime sid2 cs2 why2 a2 rid ps2 st' \<noteq> Inr x" for sid2 cs2 why2 a2 ps2 x
    using once by (cases x) (metis declare_completion_cases)
  moreover have "set_goal_waiting_from_runtime sid2 w2 a2 rid why2 st' \<noteq> Inr x" for sid2 w2 a2 why2 x
    using once by (cases x) (metis declare_waiting_cases)
  ultimately show ?thesis using f t c by blast
qed

text \<open>C22: A waiting deadline lies ahead of the clock: an accepted deadline is a timestamp strictly after the
  second in which it was declared, whatever the clock reads within the years a \<open>datetime\<close> holds,
  and the wait watches the log from its last entry on.\<close>

theorem waiting_deadline_ahead:
  assumes "set_goal_waiting_from_runtime sid w a rid why st = Inr (Declared_waiting (Wait_deadline t) k reason by' at, st')"
    "min_instant \<le> st_clock st (st_ticks st)" "st_clock st (st_ticks st) \<le> max_instant"
  shows "\<exists>deadline. parse_utc st t = Inr deadline
    \<and> st_clock st (st_ticks st) div 1000000 * 1000000 < deadline \<and> k = latest_session_log_seq st sid"
proof -
  from assms(1) obtain st1 where "normalize_goal_waiting_spec_locked sid w st = Inr (Wait_deadline t, k, st1)"
    by (rule declare_waiting_cases) auto
  then have f: "future_deadline t st = Inr st1" and k: "k = latest_session_log_seq st sid"
    by (auto simp: normalize_goal_waiting_spec_locked_def Let_def bindR_Inr_iff split: if_splits)
  from f obtain deadline now where d: "parse_utc st t = Inr deadline"
    and now: "parse_utc (snd (utc_now st)) (fst (utc_now st)) = Inr now" and lt: "now < deadline"
    by (auto simp: future_deadline_def bindR_Inr_iff case_prod_beta split: sum.splits error.splits if_splits)
  have "now = st_clock st (st_ticks st) div 1000000 * 1000000"
    using now fromisoformat_iso_utc [OF assms(2,3)] assms(2,3)
    by (auto simp: parse_utc_def utc_now_def astimezone_utc_def Let_def split: if_splits)
  with d lt k show ?thesis by blast
qed

subsection \<open>What a message adds to the logs\<close>

lemma append_message_view:
  assumes "append_session_message_locked sid f t p c st = Inr (m, st')" "log_ok st"
  obtains e where "log_view st' sid = log_view st sid @ [e]" "le_item e = LMessage m" "m_payload m = p"
    "m_to m = t" "m_from m = f" "\<And>s. s \<noteq> sid \<Longrightarrow> log_view st' s = log_view st s"
proof -
  let ?mk = "make_message f t p c st"
  let ?st1 = "snd ?mk"
  have ok1: "log_ok ?st1"
    using evolves_make_message [of st f t p c] assms(2) by (auto simp: evolves_def dest: log_growsD(1))
  have v1: "log_view ?st1 s = log_view st s" for s by (subst make_message_facts(5)) simp
  note fr = append_session_message_frame [OF assms(1)]
  have nd: "\<not> duplicate_entry (pending_log ?st1 sid) (LMessage m) []"
    using make_message_fresh [OF assms(2)] fr(2) by simp
  let ?r = "append_session_log_entry sid (LMessage m) (m_created_at m) [] ?st1"
  have "log_view st' s = log_view (snd ?r) s" for s
    by (simp add: fr(1) Let_def upd_session_def log_message_new [OF nd])
  moreover have "log_view (snd ?r) s = (if s = sid then log_view st s @ [fst ?r] else log_view st s)" for s
    using append_log_view [OF log_ok_inv [OF ok1], of sid "LMessage m" "m_created_at m" "[]" s] nd v1 by simp
  ultimately have v: "log_view st' s = (if s = sid then log_view st s @ [fst ?r] else log_view st s)" for s by simp
  show ?thesis
    by (rule that [of "fst ?r"]) (use v append_new(2) [OF nd] fr(2) make_message_facts(2-4) in simp_all)
qed

lemma save_keeps_view: "save st = Inr st' \<Longrightarrow> log_ok st \<Longrightarrow> log_view st' s = log_view st s"
  using save_view(1) [OF _ log_ok_inv] by simp

lemma resolve_sender_facts:
  assumes "resolve_runtime_sender st sender grp = Inr (role, from)"
  shows "from = agent_endpoint role \<and> normalize_agent_role (py_strip sender) = role_name role
    \<or> from = user_endpoint (py_strip sender) \<and>
      (\<exists>u. map_of (st_users st) (py_strip sender) = Some u \<and> slot_group role \<in> set (u_groups u))"
proof -
  have slot: "map_of SLOT_ROLE_BY_GROUP g = Some r \<longleftrightarrow> g = slot_group r" for g r
    by (cases r) (auto simp: SLOT_ROLE_BY_GROUP_def)
  have claimed: "claimed_slot_role raw gs g = Inr r \<Longrightarrow> slot_group r \<in> set gs" for raw gs g r
  proof -
    assume a: "claimed_slot_role raw gs g = Inr r"
    show "slot_group r \<in> set gs"
    proof (cases "g = []")
      case True
      with a have "List.map_filter (map_of SLOT_ROLE_BY_GROUP) gs = [r]"
        by (auto simp: claimed_slot_role_def split: list.splits)
      then have "r \<in> set (List.map_filter (map_of SLOT_ROLE_BY_GROUP) gs)" by simp
      then show ?thesis by (auto simp: set_map_filter slot)
    next
      case False
      with a show ?thesis by (auto simp: claimed_slot_role_def slot split: option.splits if_splits)
    qed
  qed
  show ?thesis
    using assms claimed
    by (auto simp: resolve_runtime_sender_def Let_def bindR_Inr_iff agent_role_of_Some split: if_splits option.splits)
qed

lemma append_runtime_cases:
  assumes "append_runtime_message sid sender rcpt b grp prov rid ep files wr we st = Inr (m, st')"
  obtains role snder where "resolve_runtime_sender st sender grp = Inr (role, snder)"
    "check_runtime_run_binding st (py_strip sender) rid = Inr ()"
    "py_strip rcpt \<in> set (role_message_recipients role)"
    "send_runtime_message sid role snder (py_strip rcpt) ep wr we
       (runtime_payload role snder sender b prov rid files) st = Inr (m, st')"
  using assms unfolding append_runtime_message_def Let_def
  by (auto simp: bindR_Inr_iff split: if_splits)

lemma request_fields_facts:
  assumes "request_fields role rcpt wr p = Inr p1" "\<not> pl_worker_request p"
  shows "pl_body p1 = pl_body p" "pl_agent_role p1 = pl_agent_role p" "pl_worker_request p1 = wr"
    "wr \<Longrightarrow> role = GoalManager \<and> rcpt = SESSION_RECIPIENT"
  using assms by (auto simp: request_fields_def split: if_splits)

lemma wake_fields_facts:
  assumes "wake_fields we p = Inr p1"
  shows "pl_body p1 = pl_body p" "pl_agent_role p1 = pl_agent_role p" "pl_worker_request p1 = pl_worker_request p"
  using assms by (auto simp: wake_fields_def Let_def split: if_splits)

lemma recipient_view:
  assumes "runtime_recipient_endpoint sid r ep st = Inr (e, st')" "log_ok st"
  shows "log_ok st'" "log_view st' s = log_view st s"
proof -
  show "log_ok st'" using evolves_recipient [OF assms(1)] assms(2) by (auto simp: evolves_def dest: log_growsD(1))
  have "st' = st \<or> st' = snd (latest_reply_endpoint_for_session sid st)"
    using assms(1) by (auto simp: runtime_recipient_endpoint_def Let_def case_prod_beta bindR_Inr_iff split: if_splits)
  then show "log_view st' s = log_view st s"
    using session_log_entries_log_view [OF log_ok_inv [OF assms(2)]] by auto
qed

text \<open>The session's log has grown by this message and no other log has changed.\<close>

definition only_message_added :: "state \<Rightarrow> state \<Rightarrow> string \<Rightarrow> message \<Rightarrow> bool" where
  "only_message_added st st' sid m \<longleftrightarrow>
     (\<exists>e. le_item e = LMessage m \<and> log_view st' sid = log_view st sid @ [e])
     \<and> (\<forall>s. s \<noteq> sid \<longrightarrow> log_view st' s = log_view st s)"

lemma send_runtime_facts:
  assumes "send_runtime_message sid role snder rcpt ep wr we p st = Inr (m, st')" "\<not> pl_worker_request p" "log_ok st"
  shows "only_message_added st st' sid m" "m_from m = snder"
    "pl_body (m_payload m) = pl_body p" "pl_agent_role (m_payload m) = pl_agent_role p"
    "pl_worker_request (m_payload m) = wr" "wr \<Longrightarrow> role = GoalManager \<and> rcpt = SESSION_RECIPIENT"
proof -
  from assms(1) obtain p1 p2 dest st1 st2 where r: "request_fields role rcpt wr p = Inr p1"
    and w: "wake_fields we p1 = Inr p2" and d: "runtime_recipient_endpoint sid rcpt ep st = Inr (dest, st1)"
    and a: "append_session_message_locked sid snder dest p2 [] st1 = Inr (m, st2)" and s: "save st2 = Inr st'"
    unfolding send_runtime_message_def by (auto simp: bindR_Inr_iff)
  note v = recipient_view [OF d assms(3)]
  obtain e where e: "log_view st2 sid = log_view st1 sid @ [e]" "le_item e = LMessage m" "m_payload m = p2"
    "m_from m = snder" "\<And>s. s \<noteq> sid \<Longrightarrow> log_view st2 s = log_view st1 s"
    using append_message_view [OF a v(1)] by metis
  have ok2: "log_ok st2" using evolves_append_message [OF a] v(1) by (auto simp: evolves_def dest: log_growsD(1))
  show "only_message_added st st' sid m"
    unfolding only_message_added_def save_keeps_view [OF s ok2] using e(1,2,5) v(2) by auto
  show "m_from m = snder" by (rule e(4))
  show "pl_body (m_payload m) = pl_body p" "pl_agent_role (m_payload m) = pl_agent_role p"
    "pl_worker_request (m_payload m) = wr" "wr \<Longrightarrow> role = GoalManager \<and> rcpt = SESSION_RECIPIENT"
    using request_fields_facts [OF r assms(2)] wake_fields_facts [OF w] e(3) by auto
qed

lemma bound_run_user:
  assumes "check_runtime_run_binding st sender rid = Inr ()" "rid \<noteq> []" "get_run st rid = Some r"
  shows "py_strip (r_agent_user r) = [] \<or> py_strip (r_agent_user r) = sender"
  using assms by (auto simp: check_runtime_run_binding_def Let_def split: if_splits)


end
