(* ===== verification/Liveness.thy ===== *)
theory Liveness
  imports Readiness
begin

section \<open>Readiness is sound and complete\<close>

text \<open>
  What the refresh of the ready entries and the liveness reconciliation promise: the ready
  entries are unique per session and role, and an active incomplete goal that is not waiting
  always has a ready entry, an acquired entry or a running lease.
\<close>

subsection \<open>The current goals\<close>

lemma last_opt_Cons: "last_opt (g # xs) = (case last_opt xs of None \<Rightarrow> Some g | Some h \<Rightarrow> Some h)"
  by (simp add: last_opt_def)

lemma by_session_map:
  fixes gs :: "goal list"
  shows "map_of (fold (\<lambda>g d. if g_session_id g \<noteq> [] then AList.update (g_session_id g) g d else d) gs d) sid
     = (if sid = [] then map_of d sid
        else case last_opt (filter (\<lambda>g. g_session_id g = sid) gs) of None \<Rightarrow> map_of d sid | Some g \<Rightarrow> Some g)"
proof (induction gs arbitrary: d)
  case Nil
  then show ?case by simp
next
  case (Cons g gs)
  show ?case using Cons.IH by (auto simp: last_opt_Cons split: option.splits)
qed

lemma by_session_keys:
  "distinct (map fst d) \<Longrightarrow>
   distinct (map fst (fold (\<lambda>g d. if g_session_id g \<noteq> [] then AList.update (g_session_id g) g d else d) gs d))"
  by (induction gs arbitrary: d) auto

lemma current_goals_iff:
  "g \<in> set (current_goals st) \<longleftrightarrow> g_session_id g \<noteq> [] \<and> current_goal_for_session st (g_session_id g) = Some g"
proof -
  let ?gs = "sort_key goal_order (filter (\<lambda>g. g_archived_at g = []) (dict_values (st_goals st)))"
  let ?d = "fold (\<lambda>g d. if g_session_id g \<noteq> [] then AList.update (g_session_id g) g d else d) ?gs []"
  have m: "map_of ?d sid = (if sid = [] then None else current_goal_for_session st sid)" for sid
    unfolding by_session_map current_goal_for_session_def
    by (simp add: filter_sort conj_commute split: option.splits)
  have cur: "current_goal_for_session st sid = Some h \<Longrightarrow> g_session_id h = sid" for sid h
    by (auto simp: current_goal_for_session_def dest!: last_opt_mem)
  have dk: "distinct (map fst ?d)" by (rule by_session_keys) simp
  have "g \<in> set (current_goals st) \<longleftrightarrow> (\<exists>sid. (sid, g) \<in> set ?d)"
    unfolding current_goals_def Let_def by force
  also have "\<dots> \<longleftrightarrow> (\<exists>sid. map_of ?d sid = Some g)" using dk by (auto intro: map_of_is_SomeI dest: map_of_SomeD)
  also have "\<dots> \<longleftrightarrow> g_session_id g \<noteq> [] \<and> current_goal_for_session st (g_session_id g) = Some g"
    unfolding m using cur by (auto split: if_splits)
  finally show ?thesis .
qed

lemma current_goals_mem:
  assumes "g \<in> set (current_goals st)" "goals_ok st"
  shows "get_goal st (g_goal_id g) = Some g" "g_session_id g \<noteq> []" "g_archived_at g = []"
  using assms current_goal_mem [of st "g_session_id g" g] by (auto simp: current_goals_iff)

lemma current_goals_sessions:
  "g \<in> set (current_goals st) \<Longrightarrow> h \<in> set (current_goals st) \<Longrightarrow> g_session_id g = g_session_id h \<Longrightarrow> g = h"
  by (auto simp: current_goals_iff)

lemma current_goals_cong: "st_goals st' = st_goals st \<Longrightarrow> current_goals st' = current_goals st"
  by (simp add: current_goals_def)

subsection \<open>Signals reach the role they target\<close>

lemma log_system_signal_frame [simp]:
  "st_users (snd (log_system_signal sid ty b ro a r d c st)) = st_users st"
  "st_units (snd (log_system_signal sid ty b ro a r d c st)) = st_units st"
  "st_sessions (snd (log_system_signal sid ty b ro a r d c st)) = st_sessions st"
  "st_session_edges (snd (log_system_signal sid ty b ro a r d c st)) = st_session_edges st"
  "st_goals (snd (log_system_signal sid ty b ro a r d c st)) = st_goals st"
  "st_agent_profiles (snd (log_system_signal sid ty b ro a r d c st)) = st_agent_profiles st"
  "st_agent_threads (snd (log_system_signal sid ty b ro a r d c st)) = st_agent_threads st"
  "st_dispatch_runs (snd (log_system_signal sid ty b ro a r d c st)) = st_dispatch_runs st"
  "st_dispatch_readiness (snd (log_system_signal sid ty b ro a r d c st)) = st_dispatch_readiness st"
  "st_dispatch_lot_size (snd (log_system_signal sid ty b ro a r d c st)) = st_dispatch_lot_size st"
  "st_endpoint_cursors (snd (log_system_signal sid ty b ro a r d c st)) = st_endpoint_cursors st"
  by (simp_all add: log_system_signal_def Let_def case_prod_beta new_id_def utc_now_def)

definition targets :: "role \<Rightarrow> log_entry \<Rightarrow> bool" where
  "targets role e \<longleftrightarrow> (\<exists>s. le_item e = LSystemSignal s \<and> role \<in> set (sg_target_roles s))"

lemma log_system_signal_view:
  assumes "log_ok st"
  shows "log_view (snd (log_system_signal sid ty b ro a r d c st)) sid' =
    (if sid' = sid then log_view st sid @ [fst (log_system_signal sid ty b ro a r d c st)] else log_view st sid')"
    "ro \<noteq> [] \<Longrightarrow> role \<in> set ro \<Longrightarrow> targets role (fst (log_system_signal sid ty b ro a r d c st))"
proof -
  let ?st1 = "snd (clock_or c st)"
  let ?st2 = "snd (new_id ''sig'' ?st1)"
  define stype where "stype = py_strip (if ty = [] then ''system'' else ty)"
  define s where "s = \<lparr>sg_signal_id = id_of ''sig'' (st_uid st),
     sg_signal_type = (if stype = [] then ''system'' else stype), sg_body = py_strip b,
     sg_target_roles = (if ro = [] then [GoalManager] else ro), sg_actor = actor_endpoint a sid,
     sg_run_id = r, sg_created_at = fst (clock_or c st), sg_data = d\<rparr>"
  have id: "fst (new_id ''sig'' ?st1) = id_of ''sig'' (st_uid st)" by (simp add: new_id_def)
  have s: "log_system_signal sid ty b ro a r d c st
      = append_session_log_entry sid (LSystemSignal s) (fst (clock_or c st)) (signal_key (st_uid st)) ?st2"
    "sg_target_roles s = (if ro = [] then [GoalManager] else ro)"
    unfolding log_system_signal_def Let_def case_prod_beta clock_or_def [symmetric] id s_def
      stype_def [symmetric] signal_key_def by simp_all
  have ok1: "log_ok ?st1" by (rule log_ok_evolves [OF evolves_clock_or assms])
  have p: "pending_log ?st2 sid = pending_log st sid" "log_view ?st2 = log_view st"
    by (simp_all add: new_id_def pending_log_def log_view_def disk_log_def fun_eq_iff)
  have nd: "\<not> duplicate_entry (pending_log ?st2 sid) (LSystemSignal s) (signal_key (st_uid st))"
    unfolding p(1) by (rule fresh_not_duplicate(1) [OF assms]) simp_all
  have inv2: "log_inv ?st2" using log_ok_evolves [OF evolves_new_id ok1] by (simp add: log_ok_def)
  show "log_view (snd (log_system_signal sid ty b ro a r d c st)) sid' =
    (if sid' = sid then log_view st sid @ [fst (log_system_signal sid ty b ro a r d c st)] else log_view st sid')"
    unfolding s(1) append_log_view [OF inv2] using nd p(2) by simp
  show "ro \<noteq> [] \<Longrightarrow> role \<in> set ro \<Longrightarrow> targets role (fst (log_system_signal sid ty b ro a r d c st))"
    unfolding s(1) targets_def using append_new(2) [OF nd] s(2) by simp
qed

lemma targets_wake: "targets role e \<Longrightarrow> wake_reason_of role sid aw e \<noteq> None"
  by (auto simp: targets_def wake_reason_of_def goal_manager_wake_reason_def worker_wake_reason_def
      system_signal_reason_def split: role.splits)

text \<open>Something the role has to act on lies past its cursor.\<close>

definition unread_work :: "state \<Rightarrow> string \<Rightarrow> role \<Rightarrow> bool" where
  "unread_work st sid role \<longleftrightarrow> readiness_fields_from_session_log st sid role \<noteq> None"

definition role_cursor :: "state \<Rightarrow> string \<Rightarrow> role \<Rightarrow> nat" where
  "role_cursor st sid role = (case get_session st sid of None \<Rightarrow> 0 | Some s \<Rightarrow> s_role_cursors s role)"

lemma unread_work_iff:
  assumes "log_inv st"
  shows "unread_work st sid role \<longleftrightarrow>
    (\<exists>e \<in> set (drop (role_cursor st sid role) (log_view st sid)).
       wake_reason_of role sid (active_worker_run_for_session st sid \<noteq> None) e \<noteq> None)"
  unfolding unread_work_def readiness_fields_from_session_log_def derive_None_iff
    session_log_entries_after_cursor_def role_cursor_def [symmetric]
  by (simp only: session_log_after_cursor_view [OF assms]) simp

lemma active_worker_cong:
  "st_dispatch_runs st' = st_dispatch_runs st \<Longrightarrow> active_worker_run_for_session st' = active_worker_run_for_session st"
  by (simp add: fun_eq_iff active_worker_run_for_session_def)

lemma unread_work_mono:
  assumes "unread_work st sid role" "log_ok st" "evolves st st'" "st_dispatch_runs st' = st_dispatch_runs st"
    "role_cursor st' sid role = role_cursor st sid role"
  shows "unread_work st' sid role"
proof -
  have ok: "log_inv st" "log_inv st'" using assms(2) log_ok_evolves [OF assms(3,2)] by (simp_all add: log_ok_def)
  obtain zs where "log_view st' sid = log_view st sid @ zs"
    using assms(2,3) log_growsD(2) [of st st' sid] by (auto simp: evolves_def prefix_def)
  then show ?thesis
    using assms(1) unfolding unread_work_iff [OF ok(1)] unread_work_iff [OF ok(2)] assms(5)
      active_worker_cong [OF assms(4)] by auto
qed

lemma unread_signal:
  assumes "log_ok st" "e \<in> set (log_view st sid)" "targets role e" "role_cursor st sid role < le_seq e"
  shows "unread_work st sid role"
proof -
  have inv: "log_inv st" using assms(1) by (simp add: log_ok_def)
  have "e \<in> set (filter (\<lambda>e. role_cursor st sid role < le_seq e) (log_view st sid))" using assms by simp
  also have "filter (\<lambda>e. role_cursor st sid role < le_seq e) (log_view st sid)
      = drop (role_cursor st sid role) (log_view st sid)"
    using filter_after_seq [OF log_invD(1) [OF inv, of sid], of "role_cursor st sid role"] by simp
  finally show ?thesis using targets_wake [OF assms(3)] unfolding unread_work_iff [OF inv] by blast
qed

subsection \<open>Waking the waiting goals\<close>

text \<open>
  \<open>woken st st'\<close>: what expiring the waiting goals may do. Apart from the logs and the clock, only
  the waiting record of a goal goes away, and then its GoalManager has a new signal.
\<close>

definition signalled :: "state \<Rightarrow> state \<Rightarrow> string \<Rightarrow> bool" where
  "signalled st st' sid \<longleftrightarrow>
     (\<exists>e \<in> set (log_view st' sid). length (log_view st sid) < le_seq e \<and> targets GoalManager e)"

definition same_work :: "state \<Rightarrow> state \<Rightarrow> bool" where
  "same_work st st' \<longleftrightarrow>
     st_sessions st' = st_sessions st \<and> st_units st' = st_units st \<and> st_dispatch_runs st' = st_dispatch_runs st"

definition woken :: "state \<Rightarrow> state \<Rightarrow> bool" where
  "woken st st' \<longleftrightarrow>
     evolves st st' \<and> same_work st st' \<and> st_dispatch_readiness st' = st_dispatch_readiness st
     \<and> (\<forall>g' \<in> set (current_goals st'). \<exists>g \<in> set (current_goals st).
          g' = g \<or> g' = g\<lparr>g_waiting := None\<rparr> \<and> signalled st st' (g_session_id g))"

lemma same_work_refl [simp]: "same_work st st" and
  same_work_trans: "same_work s t \<Longrightarrow> same_work t u \<Longrightarrow> same_work s u"
  by (simp_all add: same_work_def)

lemma signalled_later: 
  assumes "evolves s t" "evolves t u" "log_ok s"
  shows "signalled s t sid \<Longrightarrow> signalled s u sid" "signalled t u sid \<Longrightarrow> signalled s u sid"
proof -
  have ok: "log_ok t" by (rule log_ok_evolves [OF assms(1,3)])
  show "signalled s t sid \<Longrightarrow> signalled s u sid"
    using log_view_evolves [OF assms(2) ok, of sid] by (auto simp: signalled_def)
  have "length (log_view s sid) \<le> length (log_view t sid)"
    using assms(1,3) log_growsD(2) [of s t sid] by (auto simp: evolves_def intro: prefix_length_le)
  then show "signalled t u sid \<Longrightarrow> signalled s u sid"
    unfolding signalled_def by (meson order.strict_trans1)
qed

lemma woken_refl: "woken st st"
  by (auto simp: woken_def)

lemma woken_trans:
  assumes "woken s t" "woken t u" "log_ok s"
  shows "woken s u"
proof -
  have ev: "evolves s t" "evolves t u" using assms by (simp_all add: woken_def)
  have "\<exists>g \<in> set (current_goals s). g' = g \<or> g' = g\<lparr>g_waiting := None\<rparr> \<and> signalled s u (g_session_id g)"
    if "g' \<in> set (current_goals u)" for g'
  proof -
    from that assms(2) obtain h where h: "h \<in> set (current_goals t)"
        "g' = h \<or> g' = h\<lparr>g_waiting := None\<rparr> \<and> signalled t u (g_session_id h)" unfolding woken_def by blast
    from h(1) assms(1) obtain g where g: "g \<in> set (current_goals s)"
        "h = g \<or> h = g\<lparr>g_waiting := None\<rparr> \<and> signalled s t (g_session_id g)" unfolding woken_def by blast
    from h(2) g signalled_later [OF ev assms(3)] show ?thesis by (intro bexI [of _ g]) auto
  qed
  then show ?thesis
    using assms(1,2) ev by (auto simp: woken_def intro: evolves_trans same_work_trans)
qed

lemma woken_signal:
  assumes "goals_ok st" "log_ok st" "g \<in> set (current_goals st)"
  shows "woken st (snd (log_system_signal (g_session_id g) ty b [GoalManager] a r d c
    (upd_goal (g_goal_id g) (\<lambda>g. g\<lparr>g_waiting := None\<rparr>) st)))" (is "woken st ?st'")
proof -
  let ?u = "upd_goal (g_goal_id g) (\<lambda>g. g\<lparr>g_waiting := None\<rparr>) st"
  have evu: "evolves st ?u" by (rule evolves_upd_goal) simp_all
  have oku: "log_ok ?u" by (rule log_ok_evolves [OF evu assms(2)])
  have ev: "evolves st ?st'" by (rule evolves_trans [OF evu evolves_log_signal])
  have vu: "log_view ?u = log_view st" by (simp add: fun_eq_iff upd_goal_def)
  let ?e = "fst (log_system_signal (g_session_id g) ty b [GoalManager] a r d c ?u)"
  have view: "log_view ?st' (g_session_id g) = log_view st (g_session_id g) @ [?e]"
    using log_system_signal_view(1) [OF oku] vu by simp
  have "seq_from 1 (log_view ?st' (g_session_id g))"
    using log_ok_evolves [OF ev assms(2)] log_invD(1) by (simp add: log_ok_def)
  then have "le_seq ?e = Suc (length (log_view st (g_session_id g)))" unfolding view by (simp add: seq_from_append)
  then have sig: "signalled st ?st' (g_session_id g)"
    using log_system_signal_view(2) [OF oku] view by (auto simp: signalled_def)
  have cur: "\<exists>h \<in> set (current_goals st). g' = h \<or> g' = h\<lparr>g_waiting := None\<rparr> \<and> signalled st ?st' (g_session_id h)"
    if g': "g' \<in> set (current_goals ?st')" for g'
  proof -
    have "current_goal_for_session ?st' sid = map_option (\<lambda>h. if g_goal_id h = g_goal_id g
        then h\<lparr>g_waiting := None\<rparr> else h) (current_goal_for_session st sid)" for sid
      by (rule current_goal_map_entry [OF assms(1), where f = "\<lambda>h. h\<lparr>g_waiting := None\<rparr>"]) (simp_all add: upd_goal_def)
    with g' obtain h where h: "current_goal_for_session st (g_session_id g') = Some h"
        "g' = (if g_goal_id h = g_goal_id g then h\<lparr>g_waiting := None\<rparr> else h)"
      by (auto simp: current_goals_iff)
    have ses: "g_session_id h = g_session_id g'" by (rule current_goal_mem(2) [OF h(1) assms(1)])
    have "g_session_id g' \<noteq> []" using g' by (simp add: current_goals_iff)
    with h(1) ses have hs: "h \<in> set (current_goals st)" unfolding current_goals_iff by simp
    show ?thesis
    proof (cases "g_goal_id h = g_goal_id g")
      case True
      then have "h = g"
        using current_goals_mem(1) [OF hs assms(1)] current_goals_mem(1) [OF assms(3,1)]
        by (metis option.inject)
      with h(2) have "g' = g\<lparr>g_waiting := None\<rparr>" by simp
      with sig assms(3) show ?thesis by blast
    next
      case False
      with h(2) have "g' = h" by simp
      with hs show ?thesis by blast
    qed
  qed
  have "same_work st ?st'" "st_dispatch_readiness ?st' = st_dispatch_readiness st"
    by (simp_all add: same_work_def upd_goal_def)
  then show ?thesis unfolding woken_def by (intro conjI ballI ev cur)
qed

lemma expire_goal_woken:
  assumes "expire_goal now g (b, st) = Inr (b', st')" "goals_ok st" "log_ok st"
    "g_waiting g = None \<or> g \<in> set (current_goals st)"
  shows "woken st st'"
  using assms
  by (auto simp: expire_goal_def bindR_Inr_iff Let_def case_prod_beta split: option.splits if_splits
      intro: woken_refl woken_signal)

lemma expire_goal_keeps:
  assumes "expire_goal now g (b, st) = Inr (b', st')" "goals_ok st"
    "g_waiting g = None \<or> g \<in> set (current_goals st)" "h \<in> set (current_goals st)" "g_session_id h \<noteq> g_session_id g"
  shows "h \<in> set (current_goals st')"
proof (cases "st' = st")
  case False
  with assms(1) obtain b2 ty a r d c where
    st': "st' = snd (log_system_signal (g_session_id g) ty b2 [GoalManager] a r d c
      (upd_goal (g_goal_id g) (\<lambda>g. g\<lparr>g_waiting := None\<rparr>) st))" and w: "g_waiting g \<noteq> None"
    by (auto simp: expire_goal_def bindR_Inr_iff Let_def case_prod_beta split: option.splits if_splits)
  have "g_goal_id h \<noteq> g_goal_id g"
  proof
    assume eq: "g_goal_id h = g_goal_id g"
    from assms(3) w have "g \<in> set (current_goals st)" by simp
    then have "get_goal st (g_goal_id g) = Some g" by (rule current_goals_mem(1) [OF _ assms(2)])
    moreover have "get_goal st (g_goal_id h) = Some h" by (rule current_goals_mem(1) [OF assms(4,2)])
    ultimately show False using eq assms(5) by simp
  qed
  moreover have "current_goal_for_session st' sid = map_option (\<lambda>h. if g_goal_id h = g_goal_id g
        then h\<lparr>g_waiting := None\<rparr> else h) (current_goal_for_session st sid)" for sid
    by (rule current_goal_map_entry [OF assms(2), where f = "\<lambda>h. h\<lparr>g_waiting := None\<rparr>"])
       (simp_all add: st' upd_goal_def)
  ultimately show ?thesis using assms(4) unfolding current_goals_iff by simp
qed (use assms in simp)

lemma expire_fold_woken:
  assumes "foldR (expire_goal now) gs (b, st) = Inr (b', st')" "goals_ok st" "log_ok st"
    "set gs \<subseteq> set (current_goals st)" "distinct (map g_session_id gs)"
  shows "woken st st'"
  using assms
proof (induction gs arbitrary: b st)
  case Nil
  then show ?case by (simp add: woken_refl)
next
  case (Cons g gs)
  then obtain b1 st1 where g: "expire_goal now g (b, st) = Inr (b1, st1)"
      and rest: "foldR (expire_goal now) gs (b1, st1) = Inr (b', st')"
    by (auto simp: bindR_Inr_iff)
  have w: "woken st st1" using expire_goal_woken [OF g Cons.prems(2,3)] Cons.prems(4) by simp
  then have ev: "evolves st st1" by (simp add: woken_def)
  have "h \<in> set (current_goals st1)" if h: "h \<in> set gs" for h
  proof (rule expire_goal_keeps [OF g Cons.prems(2)])
    show "g_session_id h \<noteq> g_session_id g" using h Cons.prems(5) by (metis distinct.simps(2) image_eqI list.map(2) list.set_map)
  qed (use h Cons.prems(4) in auto)
  then have "set gs \<subseteq> set (current_goals st1)" by blast
  then have "woken st1 st'"
    using Cons.IH [OF rest goals_ok_evolves [OF ev Cons.prems(2)] log_ok_evolves [OF ev Cons.prems(3)]]
      Cons.prems(5) by simp
  with w show ?case by (rule woken_trans [OF _ _ Cons.prems(3)])
qed

lemma by_session_ids:
  fixes gs :: "goal list"
  shows "\<forall>(k, g) \<in> set d. g_session_id g = k \<Longrightarrow>
    \<forall>(k, g) \<in> set (fold (\<lambda>g d. if g_session_id g \<noteq> [] then AList.update (g_session_id g) g d else d) gs d).
      g_session_id g = k"
proof (induction gs arbitrary: d)
  case (Cons g gs)
  have "\<forall>(k, h) \<in> set (if g_session_id g \<noteq> [] then AList.update (g_session_id g) g d else d).
      g_session_id h = k"
    using Cons.prems by (auto dest!: mem_update split: if_splits)
  from Cons.IH [OF this] show ?case by simp
qed simp

lemma current_goals_distinct: "distinct (map g_session_id (current_goals st))"
proof -
  let ?gs = "sort_key goal_order (filter (\<lambda>g. g_archived_at g = []) (dict_values (st_goals st)))"
  let ?d = "fold (\<lambda>g d. if g_session_id g \<noteq> [] then AList.update (g_session_id g) g d else d) ?gs []"
  have k: "\<forall>(k, g) \<in> set ?d. g_session_id g = k" by (rule by_session_ids) simp
  have "map g_session_id (map snd (sort_key fst ?d)) = map fst (sort_key fst ?d)"
    using k by (auto intro!: map_cong simp: o_def)
  moreover have "distinct (map fst (sort_key fst ?d))"
    using by_session_keys [of "[]" ?gs] by (simp add: distinct_map)
  ultimately show ?thesis by (simp only: current_goals_def Let_def)
qed

lemma expire_goal_waiting_woken:
  assumes "expire_goal_waiting st = Inr (b, st')" "goals_ok st" "log_ok st"
  shows "woken st st'"
proof -
  let ?st1 = "snd (utc_now st)"
  have ev: "evolves st ?st1" by (rule evolves_utc_now)
  have "woken st ?st1"
  proof -
    have g: "st_goals ?st1 = st_goals st" by (simp add: utc_now_def)
    have "same_work st ?st1" "st_dispatch_readiness ?st1 = st_dispatch_readiness st"
      by (simp_all add: same_work_def utc_now_def)
    then show ?thesis using ev unfolding woken_def current_goals_cong [OF g] by blast
  qed
  moreover have "woken ?st1 st'"
    using assms(1) unfolding expire_goal_waiting_def Let_def case_prod_beta
    by (rule expire_fold_woken)
       (simp_all add: goals_ok_evolves [OF ev assms(2)] log_ok_evolves [OF ev assms(3)] current_goals_distinct)
  ultimately show ?thesis by (rule woken_trans [OF _ _ assms(3)])
qed

subsection \<open>Settling a slot\<close>

definition not_ready :: "readiness list \<Rightarrow> readiness list" where
  "not_ready es = filter (\<lambda>e. rd_status e \<noteq> Ready) es"

definition settles :: "state \<Rightarrow> state \<Rightarrow> bool" where
  "settles st st' \<longleftrightarrow>
     evolves st st' \<and> same_work st st' \<and> st_goals st' = st_goals st \<and> log_view st' = log_view st
     \<and> not_ready (st_dispatch_readiness st') = not_ready (st_dispatch_readiness st)
     \<and> (ready_unique st \<longrightarrow> ready_unique st')"

lemma settles_refl: "settles st st"
  by (simp add: settles_def)

lemma settles_trans: "settles s t \<Longrightarrow> settles t u \<Longrightarrow> settles s u"
  unfolding settles_def by (metis evolves_trans same_work_trans)

definition goal_known :: "state \<Rightarrow> goal \<Rightarrow> bool" where
  "goal_known st g \<longleftrightarrow> get_goal st (g_goal_id g) = Some g"

definition slot_busy :: "state \<Rightarrow> string \<Rightarrow> role \<Rightarrow> bool" where
  "slot_busy st sid role \<longleftrightarrow>
     has_acquired_role_run st sid role \<or> acquired_readiness_for_role st sid role \<noteq> None"

definition slot_ready :: "state \<Rightarrow> string \<Rightarrow> role \<Rightarrow> string \<Rightarrow> bool" where
  "slot_ready st sid role gid \<longleftrightarrow>
     (\<exists>e \<in> set (st_dispatch_readiness st). ready_for sid role e \<and> rd_goal_id e = gid)"

definition slot_settled :: "state \<Rightarrow> goal \<Rightarrow> role \<Rightarrow> bool" where
  "slot_settled st g role \<longleftrightarrow>
     slot_busy st (g_session_id g) role
     \<or> unread_work st (g_session_id g) role \<and> slot_ready st (g_session_id g) role (g_goal_id g)
     \<or> \<not> unread_work st (g_session_id g) role
        \<and> (\<forall>e \<in> set (st_dispatch_readiness st). \<not> ready_for (g_session_id g) role e)"

lemma not_ready_simps [simp]:
  "not_ready [] = []"
  "not_ready (xs @ ys) = not_ready xs @ not_ready ys"
  "not_ready (e # es) = (if rd_status e = Ready then not_ready es else e # not_ready es)"
  by (simp_all add: not_ready_def)

lemma mem_remove_first: "x \<in> set (remove_first q xs) \<Longrightarrow> x \<in> set xs"
  by (rule subsetD [OF set_remove_first_subset])

lemma not_ready_remove: "(\<And>x. q x \<Longrightarrow> rd_status x = Ready) \<Longrightarrow> not_ready (remove_first q es) = not_ready es"
  by (induction es) auto

lemma not_ready_update:
  "(\<And>x. q x \<Longrightarrow> rd_status x = Ready) \<Longrightarrow> (\<And>x. rd_status (h x) = rd_status x) \<Longrightarrow>
   not_ready (update_first q h es) = not_ready es"
  by (induction es) auto

lemma find_not_ready: "(\<And>x. q x \<Longrightarrow> rd_status x \<noteq> Ready) \<Longrightarrow> List.find q es = List.find q (not_ready es)"
  by (induction es) auto

lemma slot_busy_cong:
  assumes "st_dispatch_runs st' = st_dispatch_runs st"
    "not_ready (st_dispatch_readiness st') = not_ready (st_dispatch_readiness st)"
  shows "slot_busy st' = slot_busy st"
proof -
  have "acquired_readiness_for_role s sid role
      = List.find (\<lambda>e. rd_status e = Acquired \<and> rd_session_id e = sid \<and> rd_role e = role)
          (not_ready (st_dispatch_readiness s))" for s sid role
    unfolding acquired_readiness_for_role_def by (rule find_not_ready) simp
  then show ?thesis using assms by (simp add: fun_eq_iff slot_busy_def has_acquired_role_run_def)
qed

lemma unread_work_cong:
  assumes "log_view st' = log_view st" "same_work st st'" "log_inv st" "log_inv st'"
  shows "unread_work st' = unread_work st"
proof -
  have "role_cursor st' = role_cursor st" using assms(2) by (simp add: fun_eq_iff role_cursor_def same_work_def)
  moreover have "active_worker_run_for_session st' = active_worker_run_for_session st"
    using assms(2) by (intro active_worker_cong) (simp add: same_work_def)
  ultimately show ?thesis
    unfolding fun_eq_iff unread_work_iff [OF assms(3)] unread_work_iff [OF assms(4)]
    by (intro allI) (simp only: assms(1))
qed

lemma reconcile_settles:
  assumes "goals_ok st" "goal_known st g"
  shows "settles st (reconcile_ready_entry g role derived st)"
proof (cases rule: reconcile_ready_entry_cases [where g = g and role = role and derived = derived and st = st])
  case (removed q)
  have "evolves st (st\<lparr>st_dispatch_readiness := remove_first q (st_dispatch_readiness st)\<rparr>)"
    by (rule evolves_readiness) (blast dest: mem_remove_first)
  moreover have "not_ready (remove_first q es) = not_ready es" for es
    using removed(3) by (intro not_ready_remove) (simp add: ready_for_def)
  ultimately show ?thesis
    unfolding removed(2)
    by (auto simp: settles_def same_work_def ready_unique_def ready_slots_remove_first fun_eq_iff)
next
  case (added f n u e)
  let ?st1 = "st\<lparr>st_ticks := n, st_uid := u\<rparr>"
  have st1: "evolves st ?st1" by (rule evolves_frame) (use added(9) in \<open>auto intro: log_grows_frame\<close>)
  have "entry_matches_goal ?st1 e" using assms(2) added by (simp add: entry_matches_goal_def goal_known_def)
  then have "evolves ?st1 (?st1\<lparr>st_dispatch_readiness := st_dispatch_readiness st @ [e]\<rparr>)"
    by (intro evolves_readiness) auto
  with st1 have ev: "evolves st (reconcile_ready_entry g role derived st)"
    unfolding added(11) by (rule evolves_trans)
  have "entry_slot e = (g_session_id g, role)" using added by (simp add: entry_slot_def)
  then show ?thesis
    using ev added(2,10) unfolding added(11)
    by (simp add: settles_def same_work_def ready_unique_def fun_eq_iff)
next
  case (updated f n h)
  let ?p = "ready_for (g_session_id g) role"
  have "evolves (st\<lparr>st_ticks := n\<rparr>) (st\<lparr>st_ticks := n, st_dispatch_readiness := update_first ?p h (st_dispatch_readiness st)\<rparr>)"
  proof (rule evolves_readiness)
    fix e
    assume "e \<in> set (update_first ?p h (st_dispatch_readiness st))"
    then consider "e \<in> set (st_dispatch_readiness st)" | x where "?p x" "e = h x"
      using set_update_first by fastforce
    then show "entry_matches_goal (st\<lparr>st_ticks := n\<rparr>) e \<or> (\<exists>e' \<in> set (st_dispatch_readiness (st\<lparr>st_ticks := n\<rparr>)).
        rd_goal_id e = rd_goal_id e' \<and> rd_session_id e = rd_session_id e')"
    proof cases
      case 2
      then have "rd_session_id e = g_session_id g" "rd_goal_id e = g_goal_id g"
        using updated(3) [of x] updated(4) [of x] by (auto simp: entry_slot_def ready_for_def)
      then show ?thesis using assms(2) by (simp add: entry_matches_goal_def goal_known_def)
    qed auto
  qed
  with evolves_ticks have ev: "evolves st (reconcile_ready_entry g role derived st)"
    unfolding updated(7) by (rule evolves_trans)
  have "not_ready (update_first ?p h es) = not_ready es" for es
    by (rule not_ready_update) (simp_all add: ready_for_def updated(2))
  moreover have "ready_slots (update_first ?p h es) = ready_slots es" for es
    by (rule update_first_slots) (simp_all add: updated(2,3))
  ultimately show ?thesis
    using ev unfolding updated(7) by (simp add: settles_def same_work_def ready_unique_def fun_eq_iff)
qed

lemma refresh_role_settles: "goals_ok st \<Longrightarrow> goal_known st g \<Longrightarrow> settles st (refresh_role g role st)"
  by (simp add: refresh_role_def settles_refl reconcile_settles)

lemma slot_settled_cong:
  assumes "settles st st'" "log_ok st" "slot_settled st g role"
    "\<And>e. e \<in> set (st_dispatch_readiness st) \<Longrightarrow> ready_for (g_session_id g) role e \<Longrightarrow>
       e \<in> set (st_dispatch_readiness st')"
    "\<And>e. e \<in> set (st_dispatch_readiness st') \<Longrightarrow> ready_for (g_session_id g) role e \<Longrightarrow>
       e \<in> set (st_dispatch_readiness st)"
  shows "slot_settled st' g role"
proof -
  have ok: "log_inv st" "log_inv st'"
    using assms(1,2) log_ok_evolves [of st st'] by (auto simp: settles_def log_ok_def)
  have "slot_busy st' = slot_busy st" "unread_work st' = unread_work st"
    using assms(1) ok by (auto simp: settles_def same_work_def intro: slot_busy_cong unread_work_cong)
  then show ?thesis using assms(3,4,5) unfolding slot_settled_def slot_ready_def by metis
qed

lemma settlesD:
  assumes "settles st st'"
  shows "evolves st st'" "same_work st st'" "st_goals st' = st_goals st" "log_view st' = log_view st"
    "ready_unique st \<Longrightarrow> ready_unique st'"
  using assms by (simp_all add: settles_def)

lemma goal_known_settles: "settles st st' \<Longrightarrow> goal_known st g \<Longrightarrow> goal_known st' g"
  by (simp add: goal_known_def settles_def)

text \<open>Refreshing a slot leaves the ready entries of every other slot alone.\<close>

lemma reconcile_other_slot:
  assumes "entry_slot e \<noteq> (g_session_id g, role)"
  shows "e \<in> set (st_dispatch_readiness (reconcile_ready_entry g role derived st))
    \<longleftrightarrow> e \<in> set (st_dispatch_readiness st)"
proof (cases rule: reconcile_ready_entry_cases [where g = g and role = role and derived = derived and st = st])
  case (removed q)
  have "\<not> q e" using assms removed(3) by (auto simp: ready_for_slot)
  then show ?thesis unfolding removed(2) by (auto intro: remove_first_keeps dest: mem_remove_first)
next
  case (added f n u e')
  have "entry_slot e' = (g_session_id g, role)" using added by (simp add: entry_slot_def)
  with assms have "e \<noteq> e'" by auto
  then show ?thesis unfolding added(11) by simp
next
  case (updated f n h)
  have "\<not> ready_for (g_session_id g) role e" using assms by (simp add: ready_for_slot)
  moreover have "e = h x \<Longrightarrow> ready_for (g_session_id g) role x \<Longrightarrow> False" for x
    using assms updated(3) [of x] by (auto simp: ready_for_slot)
  ultimately show ?thesis unfolding updated(7)
    by (auto intro: update_first_mem dest: set_update_first)
qed

lemma refresh_other_slot:
  "entry_slot e \<noteq> (g_session_id g, role) \<Longrightarrow>
   e \<in> set (st_dispatch_readiness (refresh_role g role st)) \<longleftrightarrow> e \<in> set (st_dispatch_readiness st)"
  by (simp add: refresh_role_def reconcile_other_slot)

lemma refresh_role_keeps_settled:
  assumes "goals_ok st" "log_ok st" "goal_known st h" "slot_settled st g role"
    "(g_session_id h, role') \<noteq> (g_session_id g, role)"
  shows "slot_settled (refresh_role h role' st) g role"
proof (rule slot_settled_cong [OF refresh_role_settles [OF assms(1,3)] assms(2,4)])
  fix e
  assume "ready_for (g_session_id g) role e"
  then have ne: "entry_slot e \<noteq> (g_session_id h, role')" using assms(5) by (auto simp: ready_for_slot)
  show "e \<in> set (st_dispatch_readiness st) \<Longrightarrow> e \<in> set (st_dispatch_readiness (refresh_role h role' st))"
    "e \<in> set (st_dispatch_readiness (refresh_role h role' st)) \<Longrightarrow> e \<in> set (st_dispatch_readiness st)"
    using refresh_other_slot [OF ne] by simp_all
qed

lemma remove_first_unique:
  assumes "distinct (ready_slots es)" "c \<in> set es" "rd_status c = Ready" "entry_slot c = k"
    "e \<in> set (remove_first (\<lambda>x. x = c) es)"
  shows "\<not> (rd_status e = Ready \<and> entry_slot e = k)"
proof -
  obtain as bs where sp: "es = as @ c # bs" "remove_first (\<lambda>x. x = c) es = as @ bs"
    using ready_slots_remove_first_split [OF assms(2)] by blast
  have "k \<notin> set (ready_slots (as @ bs))" using assms(1,3,4) sp(1) by (simp add: sp(1))
  with assms(5) sp(2) show ?thesis unfolding mem_ready_slots by auto
qed

lemma refresh_role_settled:
  assumes "goals_ok st" "log_ok st" "goal_known st g" "ready_unique st"
  shows "slot_settled (refresh_role g role st) g role"
proof (cases "slot_busy st (g_session_id g) role")
  case True
  then have "refresh_role g role st = st" by (auto simp: refresh_role_def slot_busy_def)
  with True show ?thesis by (simp add: slot_settled_def)
next
  case False
  define derived where "derived = readiness_fields_from_session_log st (g_session_id g) role"
  have st': "refresh_role g role st = reconcile_ready_entry g role derived st"
    using False by (auto simp: refresh_role_def slot_busy_def derived_def)
  have se: "settles st (refresh_role g role st)" by (rule refresh_role_settles [OF assms(1,3)])
  have "log_inv st" "log_inv (refresh_role g role st)"
    using assms(2) log_ok_evolves [OF settlesD(1) [OF se] assms(2)] by (simp_all add: log_ok_def)
  then have work: "unread_work (refresh_role g role st) = unread_work st"
    using settlesD(2,4) [OF se] by (intro unread_work_cong)
  show ?thesis
  proof (cases derived)
    case None
    have "\<not> ready_for (g_session_id g) role e"
      if "e \<in> set (st_dispatch_readiness (refresh_role g role st))" for e
    proof (cases "List.find (ready_for (g_session_id g) role) (st_dispatch_readiness st)")
      case N: None
      with None that show ?thesis by (auto simp: st' reconcile_ready_entry_def find_None_iff)
    next
      case (Some c)
      then have c: "c \<in> set (st_dispatch_readiness st)" "rd_status c = Ready" "entry_slot c = (g_session_id g, role)"
        by (auto dest: find_Some_mem simp: ready_for_slot)
      from None Some that have "e \<in> set (remove_first (\<lambda>x. x = c) (st_dispatch_readiness st))"
        by (simp add: st' reconcile_ready_entry_def)
      from remove_first_unique [OF _ c this] assms(4) show ?thesis by (simp add: ready_unique_def ready_for_slot)
    qed
    with None show ?thesis by (simp add: slot_settled_def work) (simp add: unread_work_def derived_def)
  next
    case (Some f)
    have "slot_ready (refresh_role g role st) (g_session_id g) role (g_goal_id g)"
      unfolding st' slot_ready_def
    proof (cases rule: reconcile_ready_entry_cases [where g = g and role = role and derived = derived and st = st])
      case (added f n u e)
      then show "\<exists>e \<in> set (st_dispatch_readiness (reconcile_ready_entry g role derived st)).
          ready_for (g_session_id g) role e \<and> rd_goal_id e = g_goal_id g"
        by (intro bexI [of _ e]) (auto simp: ready_for_def)
    next
      case (updated f n h)
      from update_first_hits [OF updated(6), of h] obtain x where
        "ready_for (g_session_id g) role x"
        "h x \<in> set (update_first (ready_for (g_session_id g) role) h (st_dispatch_readiness st))" by blast
      then show "\<exists>e \<in> set (st_dispatch_readiness (reconcile_ready_entry g role derived st)).
          ready_for (g_session_id g) role e \<and> rd_goal_id e = g_goal_id g"
        using updated(2,3,4) unfolding updated(7) by (intro bexI [of _ "h x"]) (auto simp: ready_for_slot)
    qed (use Some in simp)
    with Some show ?thesis by (simp add: slot_settled_def work) (simp add: unread_work_def derived_def)
  qed
qed

end
