(* ===== verification/Liveness_Pass.thy ===== *)
theory Liveness_Pass
  imports Liveness
begin

section \<open>The liveness pass leaves no Session behind\<close>

text \<open>
  \<open>_reconcile_dispatch_liveness\<close> of src/src/goal/readiness.py promises that every active Session
  with an incomplete goal has ready, running or bounded-waiting work. Here the facts about one slot
  (theory Liveness) are put together: first for one refresh, then for the whole pass.
\<close>

subsection \<open>One refresh settles every slot\<close>

definition refreshable :: "state \<Rightarrow> goal \<Rightarrow> bool" where
  "refreshable st g \<longleftrightarrow>
     g_archived_at g = [] \<and> g_completion_state g = Incomplete \<and> g_waiting g = None
     \<and> session_is_active st (g_session_id g)"

lemma refresh_goal_alt:
  "refresh_goal g st =
     (if refreshable st g then refresh_role g WorkerAgent (refresh_role g GoalManager st) else st)"
  by (auto simp: refresh_goal_def refreshable_def)

lemma refresh_goal_settles:
  assumes "goals_ok st" "goal_known st g"
  shows "settles st (refresh_goal g st)"
proof -
  have s: "settles st (refresh_role g GoalManager st)" by (rule refresh_role_settles [OF assms])
  have "settles (refresh_role g GoalManager st) (refresh_role g WorkerAgent (refresh_role g GoalManager st))"
    using goals_ok_evolves [OF settlesD(1) [OF s] assms(1)] goal_known_settles [OF s assms(2)]
    by (rule refresh_role_settles)
  with s show ?thesis by (auto simp: refresh_goal_alt settles_refl intro: settles_trans)
qed

lemma refresh_fold_settles:
  assumes "goals_ok st" "\<And>g. g \<in> set gs \<Longrightarrow> goal_known st g"
  shows "settles st (fold refresh_goal gs st)"
  using assms
proof (induction gs arbitrary: st)
  case (Cons g gs)
  have s: "settles st (refresh_goal g st)" by (rule refresh_goal_settles) (use Cons.prems in auto)
  have "settles (refresh_goal g st) (fold refresh_goal gs (refresh_goal g st))"
    using goals_ok_evolves [OF settlesD(1) [OF s] Cons.prems(1)] Cons.prems(2) goal_known_settles [OF s]
    by (intro Cons.IH) auto
  with s show ?case by (auto intro: settles_trans)
qed (simp add: settles_refl)

lemma refreshable_cong: "same_work st st' \<Longrightarrow> refreshable st' g = refreshable st g"
  by (simp add: refreshable_def session_is_active_def same_work_def)

lemma refresh_goal_keeps_settled:
  assumes "goals_ok st" "log_ok st" "goal_known st h" "slot_settled st g role" "g_session_id h \<noteq> g_session_id g"
  shows "slot_settled (refresh_goal h st) g role"
proof -
  let ?u = "refresh_role h GoalManager st"
  have s: "settles st ?u" by (rule refresh_role_settles [OF assms(1,3)])
  have "slot_settled ?u g role" by (rule refresh_role_keeps_settled [OF assms(1-4)]) (use assms(5) in simp)
  then have "slot_settled (refresh_role h WorkerAgent ?u) g role"
    using assms(5)
    by (intro refresh_role_keeps_settled [OF goals_ok_evolves [OF settlesD(1) [OF s] assms(1)]
          log_ok_evolves [OF settlesD(1) [OF s] assms(2)] goal_known_settles [OF s assms(3)]]) simp_all
  with assms(4) show ?thesis by (simp add: refresh_goal_alt)
qed

lemma refresh_goal_settled:
  assumes "goals_ok st" "log_ok st" "goal_known st g" "ready_unique st" "refreshable st g"
  shows "slot_settled (refresh_goal g st) g role"
proof -
  let ?u = "refresh_role g GoalManager st"
  have s: "settles st ?u" by (rule refresh_role_settles [OF assms(1,3)])
  note u = goals_ok_evolves [OF settlesD(1) [OF s] assms(1)] log_ok_evolves [OF settlesD(1) [OF s] assms(2)]
    goal_known_settles [OF s assms(3)] settlesD(5) [OF s assms(4)]
  have "slot_settled ?u g GoalManager" by (rule refresh_role_settled [OF assms(1-4)])
  then have "slot_settled (refresh_role g WorkerAgent ?u) g GoalManager"
    by (rule refresh_role_keeps_settled [OF u(1-3)]) simp
  moreover have "slot_settled (refresh_role g WorkerAgent ?u) g WorkerAgent"
    by (rule refresh_role_settled [OF u])
  ultimately show ?thesis using assms(5) by (cases role) (simp_all add: refresh_goal_alt)
qed

lemma refresh_fold_settled:
  assumes "goals_ok st" "log_ok st" "ready_unique st" "\<And>h. h \<in> set gs \<Longrightarrow> goal_known st h"
    "distinct (map g_session_id gs)" "g \<in> set gs \<or> goal_known st g \<and> slot_settled st g role
       \<and> g_session_id g \<notin> g_session_id ` set gs" "refreshable st g"
  shows "slot_settled (fold refresh_goal gs st) g role"
  using assms
proof (induction gs arbitrary: st)
  case (Cons h gs)
  let ?u = "refresh_goal h st"
  have kh: "goal_known st h" using Cons.prems(4) by simp
  have s: "settles st ?u" by (rule refresh_goal_settles [OF Cons.prems(1) kh])
  note u = goals_ok_evolves [OF settlesD(1) [OF s] Cons.prems(1)] log_ok_evolves [OF settlesD(1) [OF s] Cons.prems(2)]
    settlesD(5) [OF s Cons.prems(3)]
  have r: "refreshable ?u g" using Cons.prems(7) refreshable_cong [OF settlesD(2) [OF s]] by simp
  have "g \<in> set gs \<or> goal_known ?u g \<and> slot_settled ?u g role \<and> g_session_id g \<notin> g_session_id ` set gs"
  proof (cases "g \<in> set gs")
    case False
    have kg: "goal_known st g" and out: "g_session_id g \<notin> g_session_id ` set gs"
      using Cons.prems(4-6) False by auto
    have "slot_settled ?u g role"
    proof (cases "h = g")
      case True
      then show ?thesis using refresh_goal_settled [OF Cons.prems(1,2) kg Cons.prems(3,7)] by simp
    next
      case False
      then have "slot_settled st g role" "g_session_id h \<noteq> g_session_id g"
        using Cons.prems(6) \<open>g \<notin> set gs\<close> by auto
      then show ?thesis by (rule refresh_goal_keeps_settled [OF Cons.prems(1,2) kh])
    qed
    then show ?thesis using kg out goal_known_settles [OF s] by blast
  qed simp
  then have "slot_settled (fold refresh_goal gs ?u) g role"
    using Cons.prems(4,5) goal_known_settles [OF s] r
    by (intro Cons.IH u) auto
  then show ?case by simp
qed simp

lemma current_goals_known: "goals_ok st \<Longrightarrow> g \<in> set (current_goals st) \<Longrightarrow> goal_known st g"
  by (simp add: goal_known_def current_goals_mem(1))

subsection \<open>A whole refresh\<close>

definition acquired_entries :: "state \<Rightarrow> readiness list" where
  "acquired_entries st = filter (\<lambda>e. rd_status e = Acquired) (st_dispatch_readiness st)"

lemma not_ready_live:
  "not_ready (deduplicate_ready_entries (filter (\<lambda>e. live_status (rd_status e)) es))
    = filter (\<lambda>e. rd_status e = Acquired) es"
proof -
  have "not_ready (filter (\<lambda>e. live_status (rd_status e)) es) = filter (\<lambda>e. rd_status e = Acquired) es"
    by (auto simp: not_ready_def live_status_def intro!: filter_cong)
  then show ?thesis using deduplicate_facts(3) by (simp add: not_ready_def)
qed

text \<open>What a refresh does: \<open>st1\<close> is the state after the expiry of bounded waiting.\<close>

lemma refresh_facts:
  assumes "refresh_dispatch_readiness st = Inr (b, st')" "goals_ok st" "log_ok st"
  obtains st1 where "woken st st1" "evolves st st'" "same_work st st'" "st_goals st' = st_goals st1"
    "log_view st' = log_view st1" "ready_unique st'"
    "not_ready (st_dispatch_readiness st') = acquired_entries st"
    "\<And>g role. g \<in> set (current_goals st') \<Longrightarrow> refreshable st' g \<Longrightarrow> slot_settled st' g role"
proof -
  from assms(1) obtain w st1 where w: "expire_goal_waiting st = Inr (w, st1)"
    and st': "st' = fold refresh_goal (current_goals st1)
      (st1\<lparr>st_dispatch_readiness := deduplicate_ready_entries
         (filter (\<lambda>e. live_status (rd_status e)) (st_dispatch_readiness st1))\<rparr>)"
    by (auto simp: refresh_dispatch_readiness_def bindR_Inr_iff Let_def current_goals_def)
  have wk: "woken st st1" by (rule expire_goal_waiting_woken [OF w assms(2,3)])
  then have ev1: "evolves st st1" and sw1: "same_work st st1"
    and rd1: "st_dispatch_readiness st1 = st_dispatch_readiness st" by (simp_all add: woken_def)
  define st2 where "st2 = st1\<lparr>st_dispatch_readiness := deduplicate_ready_entries
         (filter (\<lambda>e. live_status (rd_status e)) (st_dispatch_readiness st1))\<rparr>"
  have ev2: "evolves st1 st2" unfolding st2_def
    by (rule evolves_readiness) (use deduplicate_facts(1) in fastforce)
  have ok2: "goals_ok st2" "log_ok st2"
    using goals_ok_evolves [OF ev2] log_ok_evolves [OF ev2] goals_ok_evolves [OF ev1 assms(2)]
      log_ok_evolves [OF ev1 assms(3)] by blast+
  have cg: "current_goals st1 = current_goals st2" by (rule current_goals_cong [symmetric]) (simp add: st2_def)
  have uq: "ready_unique st2" by (simp add: ready_unique_def st2_def deduplicate_facts(2))
  have known: "\<And>g. g \<in> set (current_goals st2) \<Longrightarrow> goal_known st2 g" by (rule current_goals_known [OF ok2(1)])
  have s: "settles st2 st'" unfolding st' cg st2_def [symmetric] by (rule refresh_fold_settles [OF ok2(1) known])
  have sw2: "same_work st1 st2" by (simp add: same_work_def st2_def)
  have cg': "current_goals st' = current_goals st2" by (rule current_goals_cong [OF settlesD(3) [OF s]])
  show thesis
  proof (rule that [OF wk])
    show "evolves st st'" using ev1 ev2 settlesD(1) [OF s] by (meson evolves_trans)
    show "same_work st st'" using sw1 sw2 settlesD(2) [OF s] by (meson same_work_trans)
    show "st_goals st' = st_goals st1" using settlesD(3) [OF s] by (simp add: st2_def)
    show "log_view st' = log_view st1" using settlesD(4) [OF s] by (simp add: st2_def fun_eq_iff)
    show "ready_unique st'" by (rule settlesD(5) [OF s uq])
    show "not_ready (st_dispatch_readiness st') = acquired_entries st"
      using s by (simp add: settles_def st2_def not_ready_live acquired_entries_def rd1)
    show "slot_settled st' g role" if "g \<in> set (current_goals st')" "refreshable st' g" for g role
      unfolding st' cg st2_def [symmetric]
      using that refreshable_cong [OF settlesD(2) [OF s]]
      by (intro refresh_fold_settled ok2 uq known current_goals_distinct) (auto simp: cg')
  qed
qed

subsection \<open>The steps around the refreshes\<close>

definition must_be_live :: "state \<Rightarrow> goal \<Rightarrow> bool" where
  "must_be_live st g \<longleftrightarrow>
     g_goal_id g \<noteq> [] \<and> g_archived_at g = [] \<and> g_completion_state g = Incomplete \<and> g_waiting g = None
     \<and> (case get_session st (g_session_id g) of
          None \<Rightarrow> False
        | Some s \<Rightarrow> s_active s \<and> \<not> unit_paused (map_of (st_units st) (s_unit_id s)))"

lemma needs_liveness_signal_alt:
  "needs_liveness_signal st live g \<longleftrightarrow> must_be_live st g \<and> g_goal_id g \<notin> set live"
  by (auto simp: needs_liveness_signal_def must_be_live_def)

lemma must_be_live_cong: "same_work st st' \<Longrightarrow> must_be_live st' g = must_be_live st g"
  by (simp add: must_be_live_def same_work_def split: option.split)

lemma must_be_live_refreshable: "must_be_live st g \<Longrightarrow> refreshable st g"
  by (auto simp: must_be_live_def refreshable_def session_is_active_def split: option.splits)

text \<open>A step that touches neither goals nor sessions nor Units, and acquires nothing.\<close>

definition housekeeping :: "state \<Rightarrow> state \<Rightarrow> bool" where
  "housekeeping st st' \<longleftrightarrow>
     evolves st st' \<and> st_goals st' = st_goals st \<and> st_sessions st' = st_sessions st \<and> st_units st' = st_units st
     \<and> dict_keys (st_dispatch_runs st') = dict_keys (st_dispatch_runs st)
     \<and> set (acquired_entries st') \<subseteq> set (acquired_entries st)"

lemma housekeeping_refl: "housekeeping st st"
  by (simp add: housekeeping_def)

lemma housekeeping_trans: "housekeeping s t \<Longrightarrow> housekeeping t u \<Longrightarrow> housekeeping s u"
  unfolding housekeeping_def by (metis evolves_trans subset_trans)

lemma housekeeping_tick: "housekeeping st (snd (utc_now st))"
  using evolves_utc_now [of st] by (simp add: housekeeping_def utc_now_def acquired_entries_def)

lemma housekeeping_interrupt: "housekeeping st (upd_run rid (interrupt_run now why) st)"
proof -
  have "evolves st (upd_run rid (interrupt_run now why) st)" by (rule evolves_upd_run) (simp_all add: interrupt_run_def)
  then show ?thesis by (simp add: housekeeping_def upd_run_def acquired_entries_def)
qed

lemma housekeeping_stale: "housekeeping st (upd_readiness p (stale_entry now why) st)"
proof -
  have "evolves st (upd_readiness p (stale_entry now why) st)"
    by (rule evolves_upd_readiness) (simp_all add: stale_entry_def)
  then show ?thesis by (auto simp: housekeeping_def upd_readiness_def acquired_entries_def stale_entry_def)
qed

lemma housekeeping_signal: "housekeeping st (snd (log_system_signal sid ty b ro a r d c st))"
  using evolves_log_signal [of st sid ty b ro a r d c] by (simp add: housekeeping_def acquired_entries_def)

lemma expire_leases_housekeeping:
  "foldR (expire_lease now) rs (d, st) = Inr (d', st') \<Longrightarrow> housekeeping st st'"
proof (induction rs arbitrary: d st)
  case (Cons r rs)
  from Cons.prems obtain d1 st1 where s: "expire_lease now r (d, st) = Inr (d1, st1)"
    and rest: "foldR (expire_lease now) rs (d1, st1) = Inr (d', st')" by (auto simp: bindR_Inr_iff)
  from s have "st1 = st \<or> st1 = upd_run (r_run_id r)
      (interrupt_run now ''dispatch lease exceeded the Agent execution limit'') st"
    by (auto simp: expire_lease_def bindR_Inr_iff split: if_splits)
  then have "housekeeping st st1" using housekeeping_refl housekeeping_interrupt by auto
  then show ?case using Cons.IH [OF rest] by (rule housekeeping_trans)
qed (simp add: housekeeping_refl)

lemma signal_repairs_housekeeping: "housekeeping st (snd (fold (signal_repair now) ds (b, st)))"
proof (induction ds arbitrary: b st)
  case (Cons d ds)
  obtain b' st1 where s: "signal_repair now d (b, st) = (b', st1)" by fastforce
  have "housekeeping st st1"
    using s housekeeping_signal housekeeping_refl by (auto simp: signal_repair_def split: prod.splits if_splits)
  then show ?case using Cons.IH [where b = b' and st = st1] s by (auto intro: housekeeping_trans)
qed (simp add: housekeeping_refl)

lemma signalled_signal:
  assumes "log_ok st"
  shows "signalled st (snd (log_system_signal sid ty b [GoalManager] a r d c st)) sid"
proof -
  let ?st' = "snd (log_system_signal sid ty b [GoalManager] a r d c st)"
  let ?e = "fst (log_system_signal sid ty b [GoalManager] a r d c st)"
  have view: "log_view ?st' sid = log_view st sid @ [?e]" using log_system_signal_view(1) [OF assms] by simp
  have "seq_from 1 (log_view ?st' sid)"
    using log_ok_evolves [OF evolves_log_signal assms] log_invD(1) by (simp add: log_ok_def)
  then have "le_seq ?e = Suc (length (log_view st sid))" unfolding view by (simp add: seq_from_append)
  then show ?thesis using log_system_signal_view(2) [OF assms] view by (auto simp: signalled_def)
qed

lemma signal_liveness_step:
  assumes "signal_liveness now g (live, added, st) = (live', added', st')" "log_ok st"
  shows "housekeeping st st'" "st_dispatch_runs st' = st_dispatch_runs st"
    "st_dispatch_readiness st' = st_dispatch_readiness st" "\<not> added' \<Longrightarrow> st' = st \<and> \<not> added \<and> live' = live"
    "must_be_live st g \<Longrightarrow> g_goal_id g \<in> set live \<or> signalled st st' (g_session_id g)"
    "set live' \<subseteq> insert (g_goal_id g) (set live)" "g_goal_id g \<in> set live' - set live \<Longrightarrow> must_be_live st g"
proof -
  define u where "u = snd (log_system_signal (g_session_id g) ''SessionLivenessRecovery''
                (''This Session is Active and its SessionGoal is incomplete, but no GoalManager or ''
                 @ ''WorkerAgent is ready or running. GoalManager must choose the next action.'')
                [GoalManager] ''dispatcher'' [] [(''goal_id'', JStr (g_goal_id g))] now st)"
  consider "\<not> needs_liveness_signal st live g" "live' = live" "added' = added" "st' = st"
    | "needs_liveness_signal st live g" "live' = g_goal_id g # live" "added'" "st' = u"
  proof (cases "needs_liveness_signal st live g")
    case True
    then have "(g_goal_id g # live, True, u) = (live', added', st')"
      using assms(1) unfolding signal_liveness_def prod.case Let_def case_prod_beta u_def
      by (simp only: fst_conv snd_conv simp_thms if_False)
    with True that(2) show thesis by simp
  next
    case False
    with assms(1) have "(live, added, st) = (live', added', st')" by (simp only: signal_liveness_def prod.case not_False_eq_True if_True)
    with False that(1) show thesis by simp
  qed
  note c = this
  have ru: "st_dispatch_runs u = st_dispatch_runs st" "st_dispatch_readiness u = st_dispatch_readiness st"
    unfolding u_def by simp_all
  have hu: "housekeeping st u" unfolding u_def by (rule housekeeping_signal)
  have sg: "signalled st u (g_session_id g)" unfolding u_def by (rule signalled_signal [OF assms(2)])
  show "housekeeping st st'" using c hu housekeeping_refl [of st] by metis
  show "st_dispatch_runs st' = st_dispatch_runs st" using c ru(1) by metis
  show "st_dispatch_readiness st' = st_dispatch_readiness st" using c ru(2) by metis
  show "\<not> added' \<Longrightarrow> st' = st \<and> \<not> added \<and> live' = live" using c by metis
  show "must_be_live st g \<Longrightarrow> g_goal_id g \<in> set live \<or> signalled st st' (g_session_id g)"
    using c sg needs_liveness_signal_alt [of st live g] by metis
  show "set live' \<subseteq> insert (g_goal_id g) (set live)" by (rule c) auto
  show "g_goal_id g \<in> set live' - set live \<Longrightarrow> must_be_live st g"
    using c needs_liveness_signal_alt [of st live g] by (metis DiffE)
qed

lemma signal_fold:
  assumes "fold (signal_liveness now) gs (live, added, st) = (live', added', st')" "log_ok st"
  shows "housekeeping st st' \<and> st_dispatch_runs st' = st_dispatch_runs st
    \<and> st_dispatch_readiness st' = st_dispatch_readiness st
    \<and> (\<not> added' \<longrightarrow> st' = st \<and> \<not> added \<and> live' = live)
    \<and> (\<forall>g \<in> set gs. must_be_live st g \<longrightarrow> g_goal_id g \<in> set live
          \<or> (\<exists>h \<in> set gs. g_goal_id h = g_goal_id g \<and> signalled st st' (g_session_id h)))"
  using assms
proof (induction gs arbitrary: live added st)
  case Nil
  then show ?case by (simp add: housekeeping_refl)
next
  case (Cons g gs)
  obtain l1 a1 st1 where s: "signal_liveness now g (live, added, st) = (l1, a1, st1)" by (metis prod_cases3)
  note step = signal_liveness_step [OF s Cons.prems(2)]
  have ev: "evolves st st1" using step(1) by (simp add: housekeeping_def)
  have ok: "log_ok st1" by (rule log_ok_evolves [OF ev Cons.prems(2)])
  have rest: "fold (signal_liveness now) gs (l1, a1, st1) = (live', added', st')" using Cons.prems(1) s by simp
  note IH = Cons.IH [OF rest ok]
  have ev': "evolves st1 st'" using IH by (simp add: housekeeping_def)
  have sw: "same_work st st1" using step(1,2) by (simp add: housekeeping_def same_work_def)
  note later = signalled_later [OF ev ev' Cons.prems(2)]
  have "g_goal_id h \<in> set live
      \<or> (\<exists>k \<in> set (g # gs). g_goal_id k = g_goal_id h \<and> signalled st st' (g_session_id k))"
    if h: "h \<in> set (g # gs)" "must_be_live st h" for h
  proof (cases "h = g")
    case True
    then show ?thesis using step(5) h(2) later(1) by auto
  next
    case False
    then have "h \<in> set gs" "must_be_live st1 h" using h must_be_live_cong [OF sw] by auto
    then consider "g_goal_id h \<in> set l1"
      | k where "k \<in> set gs" "g_goal_id k = g_goal_id h" "signalled st1 st' (g_session_id k)" using IH by blast
    then show ?thesis
    proof cases
      case 1
      then show ?thesis using step(5,6,7) later(1) by fastforce
    next
      case 2
      then show ?thesis using later(2) by auto
    qed
  qed
  moreover have "housekeeping st st'" using step(1) IH housekeeping_trans by blast
  ultimately show ?case using step(2,3,4) IH by auto
qed

subsection \<open>The pass\<close>

text \<open>A Session has one goal, and dispatch work belongs to the Session of its goal.\<close>

definition owners_ok :: "state \<Rightarrow> bool" where
  "owners_ok st \<longleftrightarrow>
     (\<forall>k g k' g'. get_goal st k = Some g \<longrightarrow> get_goal st k' = Some g' \<longrightarrow> g_session_id g = g_session_id g' \<longrightarrow> k = k')
     \<and> (\<forall>k r. get_run st k = Some r \<longrightarrow> r_lease_state r = LeaseAcquired \<longrightarrow>
          (\<exists>g. get_goal st (r_goal_id r) = Some g \<and> g_session_id g = r_session_id r))
     \<and> (\<forall>e \<in> set (st_dispatch_readiness st). entry_matches_goal st e)
     \<and> distinct (dict_keys (st_dispatch_runs st))"

text \<open>No role has read further than its Session's log goes.\<close>

definition cursors_ok :: "state \<Rightarrow> bool" where
  "cursors_ok st \<longleftrightarrow> (\<forall>sid role. role_cursor st sid role \<le> length (log_view st sid))"

definition tracks :: "state \<Rightarrow> state \<Rightarrow> bool" where
  "tracks st st' \<longleftrightarrow>
     evolves st st' \<and> st_sessions st' = st_sessions st \<and> st_units st' = st_units st
     \<and> dict_keys (st_dispatch_runs st') = dict_keys (st_dispatch_runs st)
     \<and> set (acquired_entries st') \<subseteq> set (acquired_entries st)
     \<and> (\<forall>g' \<in> set (current_goals st'). \<exists>g \<in> set (current_goals st).
          g_goal_id g' = g_goal_id g \<and> g_session_id g' = g_session_id g)"

lemma tracks_trans:
  assumes "tracks s t" "tracks t u"
  shows "tracks s u"
  using assms evolves_trans unfolding tracks_def by (metis subset_trans)

lemma housekeeping_tracks: "housekeeping st st' \<Longrightarrow> tracks st st'"
  using current_goals_cong [of st' st] by (auto simp: housekeeping_def tracks_def)

lemma refresh_tracks:
  assumes "refresh_dispatch_readiness st = Inr (b, st')" "goals_ok st" "log_ok st"
  shows "tracks st st'"
proof -
  obtain st1 where f: "woken st st1" "evolves st st'" "same_work st st'" "st_goals st' = st_goals st1"
    "not_ready (st_dispatch_readiness st') = acquired_entries st"
    by (rule refresh_facts [OF assms]) blast
  have "set (acquired_entries st') \<subseteq> set (not_ready (st_dispatch_readiness st'))"
    by (auto simp: acquired_entries_def not_ready_def)
  moreover have "\<exists>g \<in> set (current_goals st). g_goal_id g' = g_goal_id g \<and> g_session_id g' = g_session_id g"
    if "g' \<in> set (current_goals st')" for g'
    using f(1) that current_goals_cong [OF f(4)] by (fastforce simp: woken_def)
  ultimately show ?thesis using f(2,3,5) by (auto simp: tracks_def same_work_def)
qed

lemma not_ready_acquired:
  assumes "not_ready (st_dispatch_readiness st') = acquired_entries st"
  shows "not_ready (st_dispatch_readiness st') = acquired_entries st'"
proof -
  have "\<forall>e \<in> set (not_ready (st_dispatch_readiness st')). rd_status e = Acquired"
    unfolding assms by (simp add: acquired_entries_def)
  then show ?thesis by (auto simp: not_ready_def acquired_entries_def intro!: filter_cong)
qed

lemma acquired_mem: "e \<in> set (st_dispatch_readiness st) \<Longrightarrow> rd_status e = Acquired \<Longrightarrow> e \<in> set (acquired_entries st)"
  by (simp add: acquired_entries_def)

lemma busy_is_live:
  assumes "tracks st st'" "owners_ok st" "goals_ok st" "distinct (dict_keys (st_dispatch_runs st'))"
    "g' \<in> set (current_goals st')" "slot_busy st' (g_session_id g') role"
  shows "g_goal_id g' \<in> set (live_goal_ids st')"
proof -
  obtain g where g: "g \<in> set (current_goals st)" "g_goal_id g' = g_goal_id g" "g_session_id g' = g_session_id g"
    using assms(1,5) by (auto simp: tracks_def)
  note gg = current_goals_mem(1) [OF g(1) assms(3)]
  have same: "k = g_goal_id g'" if "get_goal st k = Some h" "g_session_id h = g_session_id g'" for k h
    using assms(2) that gg g(2,3) by (metis owners_ok_def)
  show ?thesis
  proof (cases "has_acquired_role_run st' (g_session_id g') role")
    case True
    then obtain r where r: "r \<in> set (dict_values (st_dispatch_runs st'))" "r_session_id r = g_session_id g'"
        "r_lease_state r = LeaseAcquired" by (auto simp: has_acquired_role_run_def list_ex_iff)
    then obtain k where "get_run st' k = Some r" using values_map_of [OF assms(4) r(1)] by blast
    with r(3) assms(1) obtain r0 where "get_run st k = Some r0" "r_lease_state r0 = LeaseAcquired"
        "r_session_id r = r_session_id r0" "r_goal_id r = r_goal_id r0"
      by (force simp: tracks_def evolves_def runs_evolve_def)
    then have "r_goal_id r = g_goal_id g'" using assms(2) same r(2) by (metis owners_ok_def)
    then have "g_goal_id g' \<in> r_goal_id ` {x \<in> set (dict_values (st_dispatch_runs st')). r_lease_state x = LeaseAcquired}"
      using r(1,3) by (metis (mono_tags, lifting) image_eqI mem_Collect_eq)
    then show ?thesis unfolding live_goal_ids_def by auto
  next
    case False
    then obtain e where "acquired_readiness_for_role st' (g_session_id g') role = Some e"
      using assms(6) by (auto simp: slot_busy_def)
    then have e: "e \<in> set (st_dispatch_readiness st')" "rd_status e = Acquired" "rd_session_id e = g_session_id g'"
      by (auto simp: acquired_readiness_for_role_def dest: find_Some_mem)
    then have "e \<in> set (st_dispatch_readiness st)"
      using assms(1) acquired_mem [OF e(1,2)] by (auto simp: tracks_def acquired_entries_def)
    then have "rd_goal_id e = g_goal_id g'"
      using assms(2) same e(3) by (metis owners_ok_def entry_matches_goal_def)
    then show ?thesis using e(1,2) by (auto simp: live_goal_ids_def live_status_def intro!: image_eqI)
  qed
qed

subsection \<open>The whole pass\<close>

lemma signalled_unread:
  assumes "signalled st st' sid" "cursors_ok st" "log_ok st'" "st_sessions st' = st_sessions st"
  shows "unread_work st' sid GoalManager"
proof -
  obtain e where e: "e \<in> set (log_view st' sid)" "length (log_view st sid) < le_seq e" "targets GoalManager e"
    using assms(1) by (auto simp: signalled_def)
  have "role_cursor st' sid GoalManager \<le> length (log_view st sid)"
    using assms(2,4) by (simp add: cursors_ok_def role_cursor_def)
  with e(2) have "role_cursor st' sid GoalManager < le_seq e" by simp
  then show ?thesis by (rule unread_signal [OF assms(3) e(1,3)])
qed

lemma not_signalled_refl: "log_ok st \<Longrightarrow> signalled st st sid \<Longrightarrow> False"
proof -
  assume ok: "log_ok st" and "signalled st st sid"
  then obtain e where e: "e \<in> set (log_view st sid)" "length (log_view st sid) < le_seq e"
    by (auto simp: signalled_def)
  have "seq_from 1 (log_view st sid)" using ok log_invD(1) by (simp add: log_ok_def)
  with seq_from_mem(2) [OF this e(1)] e(2) show False by simp
qed

lemma ready_is_live: "slot_ready st sid role gid \<Longrightarrow> gid \<in> set (live_goal_ids st)"
  by (auto simp: slot_ready_def ready_for_def live_goal_ids_def live_status_def)

lemma owners_entries:
  assumes "owners_ok st" "goals_ok st" "evolves st st'" "e \<in> set (st_dispatch_readiness st')"
  shows "entry_matches_goal st' e"
proof -
  have ge: "goals_evolve st st'" and re: "readiness_evolve st st'" using assms(2,3) by (simp_all add: evolves_def)
  from re assms(4) consider "entry_matches_goal st' e"
    | d where "d \<in> set (st_dispatch_readiness st)" "rd_goal_id e = rd_goal_id d" "rd_session_id e = rd_session_id d"
    unfolding readiness_evolve_def by blast
  then show ?thesis
  proof cases
    case 2
    with assms(1) have "entry_matches_goal st d" by (simp add: owners_ok_def)
    then show ?thesis using entry_matches_evolves [OF ge _ 2(2,3)] by blast
  qed
qed

lemma live_goal_ids_iff:
  "gid \<in> set (live_goal_ids st) \<longleftrightarrow>
     (\<exists>e \<in> set (st_dispatch_readiness st). (rd_status e = Ready \<or> rd_status e = Acquired) \<and> rd_goal_id e = gid)
     \<or> (\<exists>r \<in> set (dict_values (st_dispatch_runs st)). r_lease_state r = LeaseAcquired \<and> r_goal_id r = gid)"
  unfolding live_goal_ids_def live_status_def set_append Un_iff set_map image_iff set_filter by blast

text \<open>The state the second refresh starts from, and what it leaves.\<close>

lemma second_refresh_live:
  assumes st: "owners_ok st" "cursors_ok st" "goals_ok st"
    and t5: "tracks st st5" "goals_ok st5" "log_ok st5"
    and settled: "\<And>g role. g \<in> set (current_goals st5) \<Longrightarrow> refreshable st5 g \<Longrightarrow> slot_settled st5 g role"
    and ac5: "not_ready (st_dispatch_readiness st5) = acquired_entries st5"
    and sg: "housekeeping st5 st6" "st_dispatch_runs st6 = st_dispatch_runs st5"
      "st_dispatch_readiness st6 = st_dispatch_readiness st5"
      "\<And>g. g \<in> set (current_goals st5) \<Longrightarrow> must_be_live st5 g \<Longrightarrow>
         g_goal_id g \<in> set (live_goal_ids st5) \<or> signalled st5 st6 (g_session_id g)"
    and rf: "refresh_dispatch_readiness st6 = Inr (b, st7)"
    and log: "log_ok st"
    and g': "g' \<in> set (current_goals st7)" "must_be_live st7 g'"
  shows "g_goal_id g' \<in> set (live_goal_ids st7)"
proof -
  let ?sid = "g_session_id g'"
  have ev56: "evolves st5 st6" and ss: "st_sessions st6 = st_sessions st5" "st_units st6 = st_units st5"
    "st_goals st6 = st_goals st5" using sg(1) by (simp_all add: housekeeping_def)
  have ok6: "goals_ok st6" "log_ok st6" by (rule goals_ok_evolves [OF ev56 t5(2)]) (rule log_ok_evolves [OF ev56 t5(3)])
  obtain st1 where f: "woken st6 st1" "evolves st6 st7" "same_work st6 st7" "st_goals st7 = st_goals st1"
    "log_view st7 = log_view st1" "not_ready (st_dispatch_readiness st7) = acquired_entries st6"
    "\<And>g role. g \<in> set (current_goals st7) \<Longrightarrow> refreshable st7 g \<Longrightarrow> slot_settled st7 g role"
    by (rule refresh_facts [OF rf ok6]) blast
  have ok7: "log_ok st7" by (rule log_ok_evolves [OF f(2) ok6(2)])
  have tr: "tracks st st7"
    using tracks_trans [OF t5(1) housekeeping_tracks [OF sg(1)]] refresh_tracks [OF rf ok6] by (rule tracks_trans)
  have ev05: "evolves st st5" and ss7: "st_sessions st7 = st_sessions st" "dict_keys (st_dispatch_runs st7) = dict_keys (st_dispatch_runs st)"
    using t5(1) tr by (simp_all add: tracks_def)
  have dk: "distinct (dict_keys (st_dispatch_runs st7))" using st(1) ss7(2) by (simp add: owners_ok_def)
  have runs: "st_dispatch_runs st7 = st_dispatch_runs st5" using f(3) sg(2) by (simp add: same_work_def)
  have busy: "g_goal_id g' \<in> set (live_goal_ids st7)" if "slot_busy st7 ?sid role" for role
    by (rule busy_is_live [OF tr st(1,3) dk g'(1) that])
  have work: "g_goal_id g' \<in> set (live_goal_ids st7)" if "unread_work st7 ?sid role" for role
    using f(7) [OF g'(1) must_be_live_refreshable [OF g'(2)], of role] that busy ready_is_live
    unfolding slot_settled_def by blast
  have told: "g_goal_id g' \<in> set (live_goal_ids st7)" if "signalled st st7 ?sid"
    by (rule work [OF signalled_unread [OF that st(2) ok7 ss7(1)]])
  have ev07: "evolves st st6" "evolves st5 st7" by (meson ev05 ev56 f(2) evolves_trans)+
  have "g' \<in> set (current_goals st1)" using g'(1) current_goals_cong [OF f(4)] by (simp only:)
  with f(1) obtain g where g: "g \<in> set (current_goals st6)"
      "g' = g \<or> g' = g\<lparr>g_waiting := None\<rparr> \<and> signalled st6 st1 (g_session_id g)"
    unfolding woken_def by (elim conjE) (drule (1) bspec, elim bexE, rule that)
  show ?thesis
  proof (cases "g' = g")
    case False
    with g(2) have "signalled st6 st7 ?sid" using f(5) by (auto simp: signalled_def)
    then show ?thesis using told signalled_later(2) [OF ev07(1) f(2) log] by blast
  next
    case True
    have c5: "g' \<in> set (current_goals st5)" using g(1) True current_goals_cong [OF ss(3)] by simp
    have sw57: "same_work st5 st7" using f(3) sg(2) ss by (simp add: same_work_def)
    have m5: "must_be_live st5 g'" using g'(2) must_be_live_cong [OF sw57] by simp
    from sg(4) [OF c5 m5] show ?thesis
    proof
      assume "signalled st5 st6 ?sid"
      then have "signalled st5 st7 ?sid" by (rule signalled_later(1) [OF ev56 f(2) t5(3)])
      then show ?thesis using told signalled_later(2) [OF ev05 ev07(2) log] by blast
    next
      assume "g_goal_id g' \<in> set (live_goal_ids st5)"
      then consider e where "e \<in> set (st_dispatch_readiness st5)" "rd_status e = Acquired" "rd_goal_id e = g_goal_id g'"
        | e where "e \<in> set (st_dispatch_readiness st5)" "rd_status e = Ready" "rd_goal_id e = g_goal_id g'"
        | r where "r \<in> set (dict_values (st_dispatch_runs st5))" "r_lease_state r = LeaseAcquired" "r_goal_id r = g_goal_id g'"
        unfolding live_goal_ids_iff by blast
      then show ?thesis
      proof cases
        case 1
        then have "e \<in> set (not_ready (st_dispatch_readiness st7))"
          unfolding f(6) acquired_entries_def sg(3) by simp
        then have "e \<in> set (st_dispatch_readiness st7)" by (simp add: not_ready_def)
        with 1 show ?thesis unfolding live_goal_ids_iff by blast
      next
        case 2
        have "entry_matches_goal st5 e" by (rule owners_entries [OF st(1,3) ev05 2(1)])
        then have sid: "rd_session_id e = ?sid"
          using 2(3) current_goals_mem(1) [OF c5 t5(2)] by (auto simp: entry_matches_goal_def)
        from settled [OF c5 must_be_live_refreshable [OF m5], of "rd_role e"]
        consider "slot_busy st5 ?sid (rd_role e)" | "unread_work st5 ?sid (rd_role e)"
          using 2(1,2) sid unfolding slot_settled_def ready_for_def by blast
        then show ?thesis
        proof cases
          case 1
          have "not_ready (st_dispatch_readiness st7) = not_ready (st_dispatch_readiness st5)"
            unfolding f(6) ac5 acquired_entries_def sg(3) ..
          with 1 show ?thesis using busy slot_busy_cong [OF runs] by simp
        next
          case u: 2
          have "role_cursor st7 ?sid (rd_role e) = role_cursor st5 ?sid (rd_role e)"
            using sw57 by (simp add: role_cursor_def same_work_def)
          then show ?thesis using work unread_work_mono [OF u t5(3) ev07(2) runs] by blast
        qed
      next
        case 3
        then show ?thesis unfolding live_goal_ids_iff runs by blast
      qed
    qed
  qed
qed

lemma repair_dispatch_housekeeping:
  assumes "repair_dispatch now st = Inr (c, st')"
  shows "housekeeping st st'"
proof -
  let ?runs = "filter (\<lambda>r. r_lease_state r = LeaseAcquired) (dict_values (st_dispatch_runs st))"
  from assms obtain d1 st1 where ex: "foldR (expire_lease now) ?runs ([], st) = Inr (d1, st1)"
    and r: "fold (signal_repair now) (fst (drop_dead_leases now ?runs d1 st1))
      (fst (drop_dead_leases now ?runs d1 st1) \<noteq> [], snd (drop_dead_leases now ?runs d1 st1)) = (c, st')"
    by (auto simp: repair_dispatch_def bindR_Inr_iff Let_def case_prod_beta)
  have "housekeeping st1 (snd (drop_dead_leases now ?runs d1 st1))"
    by (simp add: drop_dead_leases_def Let_def housekeeping_stale)
  moreover have "housekeeping (snd (drop_dead_leases now ?runs d1 st1)) st'"
    using signal_repairs_housekeeping r by (metis snd_conv)
  ultimately show ?thesis using expire_leases_housekeeping [OF ex] by (meson housekeeping_trans)
qed

lemma settle_dispatch_live:
  assumes "settle_dispatch now c st4 = Inr (changed, st')" "housekeeping st st4"
    "goals_ok st" "log_ok st" "owners_ok st" "cursors_ok st"
    "g \<in> set (current_goals st')" "must_be_live st' g"
  shows "g_goal_id g \<in> set (live_goal_ids st')"
proof -
  from assms(1) obtain p where "refresh_dispatch_readiness st4 = Inr p"
    unfolding settle_dispatch_def bindR_Inr_iff by (elim exE conjE) (rule that)
  then obtain c5 st5 where rf: "refresh_dispatch_readiness st4 = Inr (c5, st5)" by (cases p) simp
  note r = assms(1) [unfolded settle_dispatch_def rf bindR.simps prod.case]
  obtain live added st6 where sl: "fold (signal_liveness now) (current_goals st5) (live_goal_ids st5, False, st5)
      = (live, added, st6)" by (metis prod_cases3)
  have ev4: "evolves st st4" using assms(2) by (simp add: housekeeping_def)
  have ok4: "goals_ok st4" "log_ok st4"
    by (rule goals_ok_evolves [OF ev4 assms(3)]) (rule log_ok_evolves [OF ev4 assms(4)])
  have t5: "tracks st st5" using housekeeping_tracks [OF assms(2)] refresh_tracks [OF rf ok4] by (rule tracks_trans)
  have ev5: "evolves st st5" using t5 by (simp add: tracks_def)
  have ok5: "goals_ok st5" "log_ok st5"
    by (rule goals_ok_evolves [OF ev5 assms(3)]) (rule log_ok_evolves [OF ev5 assms(4)])
  obtain w where f: "not_ready (st_dispatch_readiness st5) = acquired_entries st4"
    "\<And>g role. g \<in> set (current_goals st5) \<Longrightarrow> refreshable st5 g \<Longrightarrow> slot_settled st5 g role"
    by (rule refresh_facts [OF rf ok4]) blast
  have ac: "not_ready (st_dispatch_readiness st5) = acquired_entries st5"
    using f(1) by (rule not_ready_acquired)
  note sf = signal_fold [OF sl ok5(2)]
  have told: "g_goal_id g \<in> set (live_goal_ids st5) \<or> signalled st5 st6 (g_session_id g)"
    if g: "g \<in> set (current_goals st5)" "must_be_live st5 g" for g
  proof -
    have "g_goal_id g \<in> set (live_goal_ids st5)
      \<or> (\<exists>h \<in> set (current_goals st5). g_goal_id h = g_goal_id g \<and> signalled st5 st6 (g_session_id h))"
      using sf g by blast
    moreover have "h = g" if "h \<in> set (current_goals st5)" "g_goal_id h = g_goal_id g" for h
      using current_goals_mem(1) [OF that(1) ok5(1)] current_goals_mem(1) [OF g(1) ok5(1)] that(2)
      by (metis option.inject)
    ultimately show ?thesis by blast
  qed
  show ?thesis
  proof (cases added)
    case True
    note r' = r [unfolded sl Let_def prod.case if_P [OF True] bindR_Inr_iff]
    from r' obtain p where p: "refresh_dispatch_readiness st6 = Inr p"
        "(case p of (_, st7) \<Rightarrow> Inr (True, st7)) = (Inr (changed, st') :: (bool \<times> state) res)"
      by (elim exE conjE) (rule that)
    have "p = (fst p, st')" using p(2) by (cases p) simp
    with p(1) have rf': "refresh_dispatch_readiness st6 = Inr (fst p, st')" by simp
    have s6: "housekeeping st5 st6" "st_dispatch_runs st6 = st_dispatch_runs st5"
      "st_dispatch_readiness st6 = st_dispatch_readiness st5" using sf by simp_all
    show ?thesis
      by (rule second_refresh_live [OF assms(5,6,3) t5 ok5 f(2) ac s6 told rf' assms(4,7,8)])
  next
    case False
    have "st' = st6" using r [unfolded sl Let_def prod.case if_not_P [OF False]] by simp
    moreover have same: "st6 = st5" using sf False by simp
    ultimately show ?thesis
      using told [of g] assms(7,8) not_signalled_refl [OF ok5(2)] unfolding same by blast
  qed
qed

lemma liveness_pass_live:
  assumes "reconcile_dispatch_liveness st = Inr (changed, st')"
    "goals_ok st" "log_ok st" "owners_ok st" "cursors_ok st"
    "g \<in> set (current_goals st')" "must_be_live st' g"
  shows "g_goal_id g \<in> set (live_goal_ids st')"
proof -
  from assms(1) obtain c st4 where r: "repair_dispatch (fst (utc_now st)) (snd (utc_now st)) = Inr (c, st4)"
      "settle_dispatch (fst (utc_now st)) c st4 = Inr (changed, st')"
    by (auto simp: reconcile_dispatch_liveness_def Let_def case_prod_beta bindR_Inr_iff)
  have "housekeeping st st4"
    by (rule housekeeping_trans [OF housekeeping_tick repair_dispatch_housekeeping [OF r(1)]])
  then show ?thesis by (rule settle_dispatch_live [OF r(2) _ assms(2-7)])
qed


subsection \<open>When nothing waits and nothing runs, the pass cannot fail\<close>

definition nothing_waits :: "state \<Rightarrow> bool" where
  "nothing_waits st \<longleftrightarrow> (\<forall>g \<in> set (current_goals st). g_waiting g = None)"

lemma nothing_waits_cong: "st_goals st' = st_goals st \<Longrightarrow> nothing_waits st' = nothing_waits st"
  by (simp only: nothing_waits_def current_goals_cong [of st' st])

lemma expire_fold_quiet: "\<forall>g \<in> set gs. g_waiting g = None \<Longrightarrow> foldR (expire_goal now) gs acc = Inr acc"
proof (induction gs)
  case (Cons g gs)
  obtain b st where "acc = (b, st)" by fastforce
  with Cons.prems have "expire_goal now g acc = Inr acc" by (simp add: expire_goal_def)
  then show ?case using Cons by simp
qed simp

lemma refresh_goal_goals: "st_goals (refresh_goal g st) = st_goals st"
proof -
  have "st_goals (reconcile_ready_entry g role d s) = st_goals s" for role d s
    by (auto simp: reconcile_ready_entry_def Let_def case_prod_beta utc_now_def new_id_def split: option.split)
  then show ?thesis by (simp add: refresh_goal_def refresh_role_def)
qed

lemma refresh_quiet:
  assumes "nothing_waits st" "goals_ok st" "log_ok st"
  shows "\<exists>b st'. refresh_dispatch_readiness st = Inr (b, st') \<and> st_goals st' = st_goals st \<and> same_work st st' \<and> evolves st st'"
proof -
  have e: "expire_goal_waiting st = Inr (False, snd (utc_now st))"
    using assms(1) expire_fold_quiet
    by (simp add: expire_goal_waiting_def case_prod_beta nothing_waits_def utc_now_def current_goals_def)
  obtain b st' where r: "refresh_dispatch_readiness st = Inr (b, st')"
    by (simp add: refresh_dispatch_readiness_def e Let_def)
  have "st_goals (fold refresh_goal gs s) = st_goals s" for gs s
    by (rule fold_preserves) (rule refresh_goal_goals)
  then have "st_goals st' = st_goals st"
    using r by (auto simp: refresh_dispatch_readiness_def e Let_def utc_now_def)
  moreover have "same_work st st'" "evolves st st'" by (rule refresh_facts [OF r assms(2,3)], assumption)+
  ultimately show ?thesis using r by blast
qed

lemma settle_quiet:
  assumes "nothing_waits st" "goals_ok st" "log_ok st"
  shows "\<exists>b st'. settle_dispatch now c st = Inr (b, st') \<and> st_goals st' = st_goals st \<and> same_work st st'"
proof -
  obtain b1 st1 where r: "refresh_dispatch_readiness st = Inr (b1, st1)" "st_goals st1 = st_goals st"
      "same_work st st1" "evolves st st1" using refresh_quiet [OF assms] by blast
  have ok1: "goals_ok st1" "log_ok st1"
    by (rule goals_ok_evolves [OF r(4) assms(2)]) (rule log_ok_evolves [OF r(4) assms(3)])
  obtain live added st2 where sl: "fold (signal_liveness now) (current_goals st1) (live_goal_ids st1, False, st1)
      = (live, added, st2)" by (metis prod_cases3)
  from signal_fold [OF sl ok1(2)] have h: "st_goals st2 = st_goals st1" "same_work st1 st2" "evolves st1 st2"
    by (simp_all add: housekeeping_def same_work_def)
  have ok2: "goals_ok st2" "log_ok st2"
    by (rule goals_ok_evolves [OF h(3) ok1(1)]) (rule log_ok_evolves [OF h(3) ok1(2)])
  have "nothing_waits st2" using assms(1) nothing_waits_cong [of st2 st] h(1) r(2) by simp
  from refresh_quiet [OF this ok2] obtain b3 st3 where r3: "refresh_dispatch_readiness st2 = Inr (b3, st3)"
      "st_goals st3 = st_goals st2" "same_work st2 st3" by blast
  have "settle_dispatch now c st = (if added then Inr (True, st3) else Inr (c \<or> b1, st2))"
    by (simp add: settle_dispatch_def r(1) sl r3(1))
  moreover have "same_work st st2" "same_work st st3" by (meson r(3) h(2) r3(3) same_work_trans)+
  moreover have "st_goals st2 = st_goals st" "st_goals st3 = st_goals st" by (simp_all only: h(1) r3(2) r(2))
  ultimately show ?thesis by (cases added) (simp only: if_True if_False, blast)+
qed

lemma reconcile_quiet:
  assumes "nothing_waits st" "goals_ok st" "log_ok st" "st_dispatch_runs st = []" "st_dispatch_readiness st = []"
  shows "\<exists>b st'. reconcile_dispatch_liveness st = Inr (b, st') \<and> st_goals st' = st_goals st \<and> same_work st st'"
proof -
  let ?st1 = "snd (utc_now st)"
  have u: "st_goals ?st1 = st_goals st" "same_work st ?st1" "st_dispatch_runs ?st1 = []" "st_dispatch_readiness ?st1 = []"
    using assms(4,5) by (simp_all add: utc_now_def same_work_def)
  have rep: "repair_dispatch (fst (utc_now st)) ?st1 = Inr (False, ?st1)"
    using u by (simp add: repair_dispatch_def drop_dead_leases_def upd_readiness_def)
  have ok1: "nothing_waits ?st1" "goals_ok ?st1" "log_ok ?st1"
    using assms(1) nothing_waits_cong [OF u(1)] goals_ok_evolves [OF evolves_utc_now assms(2)]
      log_ok_evolves [OF evolves_utc_now assms(3)] by auto
  from settle_quiet [OF ok1] u(1,2) same_work_trans show ?thesis
    by (simp add: reconcile_dispatch_liveness_def case_prod_beta rep) blast
qed

text \<open>An active Session with an incomplete goal that nobody is working on.\<close>

definition neglected :: state where
  "neglected = (blank_state (\<lambda>_. 0) (\<lambda>_. 0))
     \<lparr>st_sessions := [(''s'', new_session ''s'' [] [] ''S'' False)],
      st_goals := [(''g'', new_goal ''g'' ''s'' ''work'' ''root'' ''t0'')]\<rparr>"

lemma neglected_ok: "goals_ok neglected" "log_ok neglected" "owners_ok neglected" "cursors_ok neglected"
  by (auto simp: neglected_def blank_state_def log_ok_def log_inv_def log_view_def pending_log_def
      disk_log_def seq_from_def dict_get_def log_fresh_def goals_ok_def new_goal_def id_of_def owners_ok_def
      cursors_ok_def role_cursor_def new_session_def split: if_splits role.split)

lemma neglected_goal: "current_goals neglected = [new_goal ''g'' ''s'' ''work'' ''root'' ''t0'']"
  by (simp add: neglected_def current_goals_def new_goal_def)


end
