(* ===== verification/Dispatch_Facts.thy ===== *)
theory Dispatch_Facts
  imports Dispatch_Commit Liveness_Pass
begin

section \<open>What the dispatch transactions do\<close>

text \<open>
  Every commit evolves the state; what a commit may do to goals, runs and entries depends on the
  fence, the role and the declared decision. The acquisition of a lease is the only dispatch
  transaction that makes a run acquired.
\<close>

subsection \<open>The parts of a commit evolve the state\<close>

lemma evolves_upd_entry_by_id [evolve_intros]:
  assumes "\<And>e. rd_goal_id (f e) = rd_goal_id e" "\<And>e. rd_session_id (f e) = rd_session_id e"
  shows "evolves st (upd_entry_by_id rid f st)"
  unfolding upd_entry_by_id_def
proof (rule evolves_readiness)
  fix e
  assume "e \<in> set (update_first (\<lambda>e. rd_readiness_id e = rid) f (st_dispatch_readiness st))"
  from set_update_first [OF this]
  show "entry_matches_goal st e \<or> (\<exists>x \<in> set (st_dispatch_readiness st).
      rd_goal_id e = rd_goal_id x \<and> rd_session_id e = rd_session_id x)"
    using assms by auto
qed

lemma evolves_end_entry [evolve_intros]: "evolves st (upd_entry_by_id rid (end_entry s now) st)"
  by (rule evolves_upd_entry_by_id) (simp_all add: end_entry_def)

lemma evolves_release_run [evolve_intros]: "evolves st (upd_run rid (release_run now) st)"
  by (rule evolves_upd_run) (simp_all add: release_run_def)

lemma evolves_mark_run [evolve_intros]: "evolves st (mark_run rid cs s st)"
  unfolding mark_run_def by (rule evolves_upd_run) simp_all

lemma evolves_delivered [evolve_intros]: "evolves st (mark_session_messages_delivered ms st)"
  by (auto simp: mark_session_messages_delivered_def advance_endpoint_cursor_def Let_def
      intro: evolves_cursors split: option.split)

lemma evolves_resolve_gm [evolve_intros]: "evolves st (resolve_goal_manager_readiness_for_goal gid now st)"
  unfolding resolve_goal_manager_readiness_for_goal_def
  by (rule evolves_upd_readiness) (simp_all add: end_entry_def)

lemma evolves_ensure_thread [evolve_intros]: "evolves st (snd (ensure_agent_thread sid role acc prov st))"
  unfolding ensure_agent_thread_def Let_def case_prod_beta
  by (auto intro: evolves_utc_now evolves_trans [OF evolves_utc_now evolves_threads]
      evolves_trans [OF evolves_utc_now evolves_trans [OF evolves_new_id evolves_threads]] split: option.split)

lemma evolves_record_turn [evolve_intros]: "evolves st (record_agent_turn key p res st)"
  unfolding record_agent_turn_def Let_def case_prod_beta
  by (rule evolves_trans [OF evolves_utc_now evolves_threads])

lemma evolves_step_message [evolve_intros]:
  assumes "append_dispatch_step_message rid sid f t b p ph st = Inr st'"
  shows "evolves st st'"
proof -
  from assms obtain g where st': "st' = upd_run rid g (snd (utc_now st))"
    "\<And>r. r_lease_state (g r) = r_lease_state r" "\<And>r. r_run_id (g r) = r_run_id r" "\<And>r. r_session_id (g r) = r_session_id r"
    "\<And>r. r_role (g r) = r_role r" "\<And>r. r_goal_id (g r) = r_goal_id r"
    by (force simp: append_dispatch_step_message_def bindR_Inr_iff Let_def case_prod_beta)
  show ?thesis unfolding st'(1)
    by (rule evolves_trans [OF evolves_utc_now evolves_upd_run]) (simp_all add: st')
qed

lemma evolves_session_messages [evolve_intros]: "evolves st (snd (session_messages sid st))"
  by (simp add: evolves_entries)

lemma role_turn_messages_state:
  "role_turn_session_messages sid r role st = Inr (ms, st') \<Longrightarrow> st' = snd (session_log_entries sid st)"
  by (auto simp: role_turn_session_messages_def bindR_Inr_iff Let_def case_prod_beta)

lemma evolves_turn_outcome [evolve_intros]:
  assumes "record_role_turn_outcome r sid role d s st = Inr st'"
  shows "evolves st st'"
proof -
  from assms obtain g where st': "st' = upd_run (r_run_id r) g (snd (session_log_entries sid st))"
    "\<And>r. r_lease_state (g r) = r_lease_state r" "\<And>r. r_run_id (g r) = r_run_id r" "\<And>r. r_session_id (g r) = r_session_id r"
    "\<And>r. r_role (g r) = r_role r" "\<And>r. r_goal_id (g r) = r_goal_id r"
    by (force simp: record_role_turn_outcome_def bindR_Inr_iff Let_def case_prod_beta
        dest: role_turn_messages_state)
  show ?thesis unfolding st'(1)
    by (rule evolves_trans [OF evolves_entries evolves_upd_run]) (simp_all add: st')
qed

lemma evolves_retry_at [evolve_intros]: "evolves st (snd (role_turn_retry_at st))"
  by (simp add: role_turn_retry_at_def now_instant_def Let_def case_prod_beta evolves_ticks)

lemma evolves_stale_result:
  "evolves st (upd_run rid (\<lambda>r. r\<lparr>r_stale_results := r_stale_results r @ x, r_stale_result_at := now\<rparr>) st)"
  by (rule evolves_upd_run) simp_all

lemma evolves_release_discarded [evolve_intros]: "evolves st (release_discarded r role why now st)"
  unfolding release_discarded_def
  by (auto simp: stale_entry_def
      intro!: evolves_trans [OF evolves_release_run evolves_trans [OF evolves_upd_entry_by_id evolves_set_role_cursor]])

lemma evolves_discard [evolve_intros]:
  assumes "discard_stale_dispatch_result r role why out st = Inr (d, st')"
  shows "evolves st st'"
  using assms unfolding discard_stale_dispatch_result_def Let_def case_prod_beta
  by (auto simp: bindR_Inr_iff
      intro!: evolves_trans [OF evolves_utc_now evolves_trans [OF evolves_stale_result
        evolves_trans [OF evolves_release_discarded evolves_trans [OF evolves_log_signal evolves_save]]]])

lemma evolves_recover [evolve_intros]:
  assumes "recover_missing_lease_run lease st = Inr (d, st')"
  shows "evolves st st'"
proof -
  let ?f = "\<lambda>e. if rd_status e = Acquired
      then e\<lparr>rd_status := Ready, rd_recovered_at := fst (utc_now st), rd_acquired_at := None\<rparr> else e"
  let ?st2 = "upd_entry_by_id (l_readiness_id lease) ?f (snd (utc_now st))"
  have "evolves st ?st2"
    by (rule evolves_trans [OF evolves_utc_now evolves_upd_entry_by_id]) simp_all
  with assms show ?thesis
    unfolding recover_missing_lease_run_def Let_def case_prod_beta
    by (auto simp: bindR_Inr_iff split: if_splits
        intro: evolves_trans [OF _ evolves_save] evolves_trans [OF _ evolves_trans [OF evolves_log_signal evolves_save]])
qed

lemma evolves_implicit_request [evolve_intros]:
  "append_implicit_worker_request g sid r reason c st = Inr (m, st') \<Longrightarrow> evolves st st'"
  by (auto simp: append_implicit_worker_request_def bindR_Inr_iff intro: evolves_append_message)

lemma evolves_handoff [evolve_intros]:
  assumes "append_remote_aize_handoff_message r sid g p st = Inr st'"
  shows "evolves st st'"
  using assms unfolding append_remote_aize_handoff_message_def Let_def case_prod_beta
  by (auto simp: bindR_Inr_iff
      intro!: evolves_trans [OF evolves_utc_now evolves_trans [OF evolves_append_message evolves_upd_run]])

lemma evolves_prepare [evolve_intros]:
  assumes "prepare_scheduled_unit_completion session r d c st = Inr (b, st')"
  shows "evolves st st'"
  using assms
  by (auto simp: prepare_scheduled_unit_completion_def bindR_Inr_iff map_sum_def
      split: option.splits if_splits sum.splits error.splits dest: evolves_schedule_next)

lemma evolves_decide [evolve_intros]:
  "decide gid cs reason actor rid oc st = Inr (d, st') \<Longrightarrow> evolves st st'"
  by (auto simp: decide_def bindR_Inr_iff intro: evolves_set_goal_completion)

lemma evolves_decide_waiting [evolve_intros]: "evolves st (decide_waiting g r spec seq reason now st)"
  unfolding decide_waiting_def Let_def
  by (intro evolves_trans [OF evolves_upd_goal evolves_trans [OF evolves_log_transition
        evolves_trans [OF evolves_resolve_gm evolves_mark_run]]]) simp_all

lemma bindR_pair:
  "bindR m (\<lambda>(d, s). Inr (d, h s)) = Inr (d, st') \<longleftrightarrow> (\<exists>s. m = Inr (d, s) \<and> st' = h s)"
  "bindR m (\<lambda>p. Inr (fst p, h (snd p))) = Inr (d, st') \<longleftrightarrow> (\<exists>s. m = Inr (d, s) \<and> st' = h s)"
  by (cases m; auto)+

lemma decide_complete_cases:
  assumes "decide_complete g session r decision reason now st = Inr (d, st')"
  obtains (rejected) blocker st1 ty body act dat st3 where
      "prepare_scheduled_unit_completion session r decision now st = Inr (blocker, st1)" "blocker \<noteq> []"
      "decide (g_goal_id g) Incomplete blocker ''scheduler'' (r_run_id r) []
         (snd (log_system_signal (s_session_id session) ty body [GoalManager] act (r_run_id r) dat now st1)) = Inr (d, st3)"
      "st' = mark_run (r_run_id r) Incomplete ''schedule_next_run_required'' st3"
    | (completed) st1 st2 where
      "prepare_scheduled_unit_completion session r decision now st = Inr ([], st1)"
      "decide (g_goal_id g) Complete reason (role_name GoalManager) (r_run_id r) now st1 = Inr (d, st2)"
      "st' = mark_run (r_run_id r) Complete []
         (upd_session (s_session_id session) (upd_timing (\<lambda>tm. tm\<lparr>tm_completed_at := now\<rparr>)) st2)"
proof -
  from assms obtain x where x: "prepare_scheduled_unit_completion session r decision now st = Inr x"
    unfolding decide_complete_def bindR_Inr_iff by (elim exE conjE) (rule that)
  then obtain blocker st1 where p: "prepare_scheduled_unit_completion session r decision now st = Inr (blocker, st1)"
    by (cases x) simp
  note r = assms [unfolded decide_complete_def p bindR.simps prod.case]
  show thesis
  proof (cases "blocker = []")
    case True
    from r [unfolded True not_not if_not_P simp_thms if_False bindR_pair(1)]
    show thesis by (elim exE conjE) (rule completed [OF p [unfolded True]])
  next
    case False
    from r [unfolded if_P [OF False] Let_def case_prod_beta bindR_pair(2)]
    show thesis by (elim exE conjE) (rule rejected [OF p False])
  qed
qed

lemma evolves_decide_complete [evolve_intros]:
  assumes "decide_complete g session r decision reason now st = Inr (d, st')"
  shows "evolves st st'"
  using assms
proof (cases rule: decide_complete_cases)
  case (rejected blocker st1 ty body act dat st3)
  then show ?thesis
    by (meson evolves_trans evolves_prepare evolves_log_signal evolves_decide evolves_mark_run)
next
  case (completed st1 st2)
  then show ?thesis
    by (meson evolves_trans evolves_prepare evolves_decide evolves_upd_session evolves_mark_run)
qed

lemma evolves_decide_incomplete [evolve_intros]:
  "decide_incomplete g sid r w reason now st = Inr (d, st') \<Longrightarrow> evolves st st'"
  unfolding decide_incomplete_def
  by (auto simp: bindR_Inr_iff split: if_splits
      intro: evolves_trans [OF evolves_decide evolves_trans [OF evolves_resolve_gm evolves_mark_run]]
        evolves_trans [OF evolves_decide evolves_trans [OF evolves_implicit_request
          evolves_trans [OF evolves_resolve_gm evolves_mark_run]]])

lemma worker_requested_state:
  "snd (if has_live_worker_readiness_for_goal st gid then (True, st) else has_worker_request_for_run sid rid st)
     = (if has_live_worker_readiness_for_goal st gid then st else snd (session_log_entries sid st))"
  by (simp add: has_worker_request_for_run_def case_prod_beta)

lemma evolves_apply_decision [evolve_intros]:
  assumes "apply_decision g session r decision now st = Inr (d, st')"
  shows "evolves st st'"
proof -
  let ?st1 = "if has_live_worker_readiness_for_goal st (g_goal_id g) then st
    else snd (session_log_entries (s_session_id session) st)"
  have "evolves st ?st1" by (simp add: evolves_entries)
  moreover have "evolves ?st1 st'"
    using assms unfolding apply_decision_def Let_def case_prod_beta worker_requested_state
    by (auto split: outcome.splits if_splits intro: evolves_decide_waiting evolves_decide_complete evolves_decide_incomplete)
  ultimately show ?thesis by (rule evolves_trans)
qed

subsection \<open>The branches of a commit\<close>

lemma record_turn_evolves [evolve_intros]: "record_turn lease r role ph p res st = Inr st' \<Longrightarrow> evolves st st'"
  unfolding record_turn_def Let_def case_prod_beta
  by (blast intro: evolves_trans evolves_ensure_thread evolves_record_turn evolves_step_message)

lemma missing_decision_evolves [evolve_intros]:
  "missing_decision session r rid now st = Inr st' \<Longrightarrow> evolves st st'"
  unfolding missing_decision_def Let_def case_prod_beta
  by (blast intro: evolves_trans [OF evolves_end_entry evolves_trans [OF evolves_set_role_cursor
        evolves_trans [OF evolves_mark_run evolves_trans [OF evolves_retry_at
        evolves_trans [OF evolves_log_signal evolves_turn_outcome]]]]])

lemma decided_evolves [evolve_intros]: "decided session r rid decision now st = Inr st' \<Longrightarrow> evolves st st'"
  by (auto simp: decided_def bindR_Inr_iff Let_def
      intro: evolves_trans [OF evolves_turn_outcome evolves_set_role_cursor]
        evolves_trans [OF evolves_turn_outcome evolves_trans [OF evolves_end_entry evolves_set_role_cursor]])

lemma finish_gm_evolves [evolve_intros]:
  "finish_goal_manager_turn lease sid rid now st = Inr st' \<Longrightarrow> evolves st st'"
  unfolding finish_goal_manager_turn_def
  by (blast intro: evolves_trans [OF evolves_release_run evolves_trans [OF evolves_delivered
        evolves_trans [OF evolves_upd_session evolves_save]]])

lemma commit_goal_manager_cases:
  assumes "commit_goal_manager_run_locked lease prompt result st = Inr (d, st')"
  obtains (gone) "get_run st (r_run_id (l_run lease)) = None" "recover_missing_lease_run lease st = Inr (d, st')"
    | (fenced) r why where "get_run st (r_run_id (l_run lease)) = Some r"
        "stale_dispatch_fence st r GoalManager = Some why"
        "discard_stale_dispatch_result r GoalManager why (ar_output result) st = Inr (d, st')"
    | (undecided) r g session st1 st3 where "get_run st (r_run_id (l_run lease)) = Some r"
        "stale_dispatch_fence st r GoalManager = None" "leased_objects lease r st = Inr (g, session)"
        "record_turn lease r GoalManager ''GoalManagerReview'' prompt result st = Inr st1"
        "declared_goal_outcome_for_run (snd (utc_now st1)) (r_run_id r) = None"
        "missing_decision session r (l_readiness_id lease) (fst (utc_now st1)) (snd (utc_now st1)) = Inr st3"
        "finish_goal_manager_turn lease (s_session_id session) (r_run_id r) (fst (utc_now st1)) st3 = Inr st'"
        "d = no_report"
    | (decided) r g session st1 decision st3 st4 where "get_run st (r_run_id (l_run lease)) = Some r"
        "stale_dispatch_fence st r GoalManager = None" "leased_objects lease r st = Inr (g, session)"
        "record_turn lease r GoalManager ''GoalManagerReview'' prompt result st = Inr st1"
        "declared_goal_outcome_for_run (snd (utc_now st1)) (r_run_id r) = Some decision"
        "apply_decision g session r decision (fst (utc_now st1)) (snd (utc_now st1)) = Inr (d, st3)"
        "Dispatch_Commit.decided session r (l_readiness_id lease) decision (fst (utc_now st1)) st3 = Inr st4"
        "finish_goal_manager_turn lease (s_session_id session) (r_run_id r) (fst (utc_now st1)) st4 = Inr st'"
proof (cases "get_run st (r_run_id (l_run lease))")
  case None
  with assms show thesis by (intro gone) (simp_all add: commit_goal_manager_run_locked_def)
next
  case (Some r)
  note a = assms [unfolded commit_goal_manager_run_locked_def Some option.case bindR_Inr_iff]
  from a obtain g session where lo: "leased_objects lease r st = Inr (g, session)" by auto
  show thesis
  proof (cases "stale_dispatch_fence st r GoalManager")
    case f: (Some why)
    with a Some show thesis by (intro fenced [OF Some f]) auto
  next
    case f: None
    from a lo f obtain st1 where t: "record_turn lease r GoalManager ''GoalManagerReview'' prompt result st = Inr st1"
      by (auto simp: bindR_Inr_iff)
    note b = assms [unfolded commit_goal_manager_run_locked_def Some option.case lo bindR.simps prod.case f t Let_def case_prod_beta]
    show thesis
    proof (cases "declared_goal_outcome_for_run (snd (utc_now st1)) (r_run_id r)")
      case c: None
      from b [unfolded c option.case bindR_Inr_iff]
      show thesis by (elim exE conjE) (rule undecided [OF Some f lo t c], simp_all)
    next
      case c: (Some decision)
      from b [unfolded c option.case bindR_Inr_iff]
      show thesis by (elim exE conjE) (rule decided [OF Some f lo t c], auto)
    qed
  qed
qed

lemma evolves_commit_goal_manager [evolve_intros]:
  assumes "commit_goal_manager_run_locked lease prompt result st = Inr (d, st')"
  shows "evolves st st'"
  using assms
proof (cases rule: commit_goal_manager_cases)
  case (undecided r g session st1 st3)
  then show ?thesis
    by (meson evolves_trans evolves_utc_now record_turn_evolves missing_decision_evolves finish_gm_evolves)
next
  case (decided r g session st1 decision st3 st4)
  then show ?thesis
    by (meson evolves_trans evolves_utc_now record_turn_evolves evolves_apply_decision decided_evolves finish_gm_evolves)
qed (auto intro: evolves_recover evolves_discard)

lemma worker_signal_evolves [evolve_intros]: "evolves st (snd (worker_protocol_signal session r b now st))"
  unfolding worker_protocol_signal_def Let_def case_prod_beta
  by (auto intro: evolves_trans [OF evolves_retry_at evolves_log_signal])

lemma finish_worker_evolves [evolve_intros]:
  assumes "finish_worker_turn session r rid now st = Inr st'"
  shows "evolves st st'"
proof -
  have u: "evolves s (upd_run (r_run_id r) (\<lambda>r. release_run now (r\<lparr>r_completion_state := Some Complete\<rparr>)) s)" for s
    by (rule evolves_upd_run) (simp_all add: release_run_def)
  show ?thesis
    by (rule evolves_trans [OF evolves_end_entry evolves_trans [OF evolves_set_role_cursor
          evolves_trans [OF u evolves_trans [OF evolves_upd_session
            evolves_save [OF assms [unfolded finish_worker_turn_def Let_def]]]]]])
qed

lemma commit_worker_cases:
  assumes "commit_worker_run_locked lease prompt result st = Inr (d, st')"
  obtains (gone) "get_run st (r_run_id (l_run lease)) = None" "recover_missing_lease_run lease st = Inr (d, st')"
    | (fenced) r why where "get_run st (r_run_id (l_run lease)) = Some r"
        "stale_dispatch_fence st r WorkerAgent = Some why"
        "discard_stale_dispatch_result r WorkerAgent why (ar_output result) st = Inr (d, st')"
    | (reported) r g session st1 st2 ms st4 signal st5 st6 where "get_run st (r_run_id (l_run lease)) = Some r"
        "stale_dispatch_fence st r WorkerAgent = None" "leased_objects lease r st = Inr (g, session)"
        "record_turn lease r WorkerAgent ''WorkerWork'' prompt result st = Inr st1"
        "st2 = st1 \<or> append_remote_aize_handoff_message r (s_session_id session) g prompt st1 = Inr st2"
        "role_turn_session_messages (s_session_id session) r WorkerAgent (snd (utc_now st2)) = Inr (ms, st4)"
        "worker_protocol_signal session r (ms \<noteq> []) (fst (utc_now st2)) st4 = (signal, st5)"
        "record_role_turn_outcome r (s_session_id session) WorkerAgent None signal st5 = Inr st6"
        "finish_worker_turn session r (l_readiness_id lease) (fst (utc_now st2)) st6 = Inr st'"
        "d = no_report"
proof (cases "get_run st (r_run_id (l_run lease))")
  case None
  with assms show thesis by (intro gone) (simp_all add: commit_worker_run_locked_def)
next
  case (Some r)
  note a = assms [unfolded commit_worker_run_locked_def Some option.case bindR_Inr_iff]
  from a obtain g session where lo: "leased_objects lease r st = Inr (g, session)" by auto
  show thesis
  proof (cases "stale_dispatch_fence st r WorkerAgent")
    case f: (Some why)
    with a Some show thesis by (intro fenced [OF Some f]) auto
  next
    case f: None
    note b = assms [unfolded commit_worker_run_locked_def Some option.case lo bindR.simps prod.case f Let_def case_prod_beta
        bindR_Inr_iff]
    let ?sid = "s_session_id session"
    from b obtain x xa xb xc xd where c: "record_turn lease r WorkerAgent ''WorkerWork'' prompt result st = Inr x"
        "(if ar_provider result = ''remote-aize'' then append_remote_aize_handoff_message r ?sid g prompt x else Inr x)
           = Inr xa"
        "role_turn_session_messages ?sid r WorkerAgent (snd (utc_now xa)) = Inr xb"
        "record_role_turn_outcome r ?sid WorkerAgent None
           (fst (worker_protocol_signal session r (fst xb \<noteq> []) (fst (utc_now xa)) (snd xb)))
           (snd (worker_protocol_signal session r (fst xb \<noteq> []) (fst (utc_now xa)) (snd xb))) = Inr xc"
        "finish_worker_turn session r (l_readiness_id lease) (fst (utc_now xa)) xc = Inr xd"
        "Inr (no_report, xd) = (Inr (d, st') :: (dispatch_report \<times> state) res)"
      unfolding fst_conv snd_conv by (elim exE conjE) (rule that)
    obtain ms st4 where xb: "xb = (ms, st4)" by (cases xb)
    obtain signal st5 where w: "worker_protocol_signal session r (ms \<noteq> []) (fst (utc_now xa)) st4 = (signal, st5)"
      by fastforce
    have h: "xa = x \<or> append_remote_aize_handoff_message r ?sid g prompt x = Inr xa"
      using c(2) by (auto split: if_splits)
    show thesis
      by (rule reported [OF Some f lo c(1) h c(3) [unfolded xb] w]) (use c(4,5,6) xb w in simp_all)
  qed
qed

lemma evolves_commit_worker [evolve_intros]:
  assumes "commit_worker_run_locked lease prompt result st = Inr (d, st')"
  shows "evolves st st'"
  using assms
proof (cases rule: commit_worker_cases)
  case (reported r g session st1 st2 ms st4 signal st5 st6)
  have "evolves st st2"
    using record_turn_evolves [OF reported(4)] reported(5) evolves_handoff evolves_trans by blast
  moreover have "evolves st2 st4"
    using role_turn_messages_state [OF reported(6)] evolves_trans [OF evolves_utc_now evolves_entries] by simp
  moreover have "evolves st4 st5" using worker_signal_evolves reported(7) by (metis snd_conv)
  moreover have "evolves st5 st'"
    by (rule evolves_trans [OF evolves_turn_outcome [OF reported(8)] finish_worker_evolves [OF reported(9)]])
  ultimately show ?thesis by (meson evolves_trans)
qed (auto intro: evolves_recover evolves_discard)

lemma commit_error_cases:
  assumes "commit_dispatch_error_locked lease text st = Inr (d, st')"
  obtains (gone) "get_run st (r_run_id (l_run lease)) = None" "recover_missing_lease_run lease st = Inr (d, st')"
    | (fenced) r why where "get_run st (r_run_id (l_run lease)) = Some r"
        "stale_dispatch_fence st r (r_role r) = Some why"
        "discard_stale_dispatch_result r (r_role r) why [] st = Inr (d, st')"
    | (failed) r g session st2 st5 st8 body prov ph where "get_run st (r_run_id (l_run lease)) = Some r"
        "stale_dispatch_fence st r (r_role r) = None" "leased_objects lease r st = Inr (g, session)"
        "decide (g_goal_id g) Incomplete (''Dispatch failed: '' @ text) ''dispatcher'' (r_run_id r) []
           (snd (utc_now st)) = Inr (d, st2)"
        "st5 = upd_run (r_run_id r) (fail_run (fst (utc_now st)) text)
           (upd_goal (g_goal_id g) (\<lambda>g. g\<lparr>g_failed_at := fst (utc_now st)\<rparr>) st2)"
        "append_dispatch_step_message (r_run_id r) (s_session_id session) ''dispatcher''
           (if g_created_by g = [] then ROOT_USERNAME else g_created_by g) body prov ph
           (mark_session_messages_delivered (l_session_messages lease)
             (set_role_cursor (s_session_id session) (r_role r) (r_observed_to_seq r)
               (upd_entry_by_id (l_readiness_id lease) (end_entry Failed (fst (utc_now st))) st5))) = Inr st8"
        "save (upd_session (s_session_id session) (\<lambda>s. s\<lparr>s_updated_at := fst (utc_now st)\<rparr>) st8) = Inr st'"
proof (cases "get_run st (r_run_id (l_run lease))")
  case None
  with assms show thesis by (intro gone) (simp_all add: commit_dispatch_error_locked_def)
next
  case (Some r)
  note a = assms [unfolded commit_dispatch_error_locked_def Some option.case bindR_Inr_iff]
  from a obtain g session where lo: "leased_objects lease r st = Inr (g, session)" by auto
  show thesis
  proof (cases "stale_dispatch_fence st r (r_role r)")
    case f: (Some why)
    with a Some show thesis by (intro fenced [OF Some f]) auto
  next
    case f: None
    note b = assms [unfolded commit_dispatch_error_locked_def Some option.case lo bindR.simps prod.case f Let_def
        case_prod_beta fst_conv snd_conv]
    then obtain x where "decide (g_goal_id g) Incomplete (''Dispatch failed: '' @ text) ''dispatcher'' (r_run_id r) []
           (snd (utc_now st)) = Inr x" unfolding bindR_Inr_iff by (elim exE conjE) (rule that)
    then obtain d2 st2 where x: "decide (g_goal_id g) Incomplete (''Dispatch failed: '' @ text) ''dispatcher''
           (r_run_id r) [] (snd (utc_now st)) = Inr (d2, st2)" by (cases x) simp
    from b [unfolded x bindR.simps fst_conv snd_conv bindR_Inr_iff] x
    show thesis by (elim exE conjE) (rule failed [OF Some f lo _ refl], simp_all only: sum.inject prod.inject)
  qed
qed

lemma evolves_commit_error [evolve_intros]:
  assumes "commit_dispatch_error_locked lease text st = Inr (d, st')"
  shows "evolves st st'"
  using assms
proof (cases rule: commit_error_cases)
  case (failed r g session st2 st5 st8 body prov ph)
  have "evolves st2 st5"
    unfolding failed(5)
    by (rule evolves_trans [OF evolves_upd_goal evolves_upd_run]) (simp_all add: fail_run_def release_run_def)
  then have "evolves st st5" using evolves_utc_now evolves_decide [OF failed(4)] by (meson evolves_trans)
  moreover have "evolves st5 st8"
    using evolves_step_message [OF failed(6)]
    by (meson evolves_trans evolves_end_entry evolves_set_role_cursor evolves_delivered)
  ultimately show ?thesis using evolves_upd_session evolves_save [OF failed(7)] by (meson evolves_trans)
qed (auto intro: evolves_recover evolves_discard)

end
