(* ===== verification/Dispatch_Safety.thy ===== *)
theory Dispatch_Safety
  imports Dispatch_Facts
begin

section \<open>Safety of the dispatch commits\<close>

subsection \<open>Steps that leave the goals alone\<close>

definition keeps_goals :: "state \<Rightarrow> state \<Rightarrow> bool" where
  "keeps_goals st st' \<longleftrightarrow>
     st_goals st' = st_goals st \<and> st_units st' = st_units st \<and> st_session_edges st' = st_session_edges st"

named_theorems keep_intros "operations that keep the goals"

lemma keeps_refl [simp, intro]: "keeps_goals st st"
  by (simp add: keeps_goals_def)

lemma keeps_trans [trans]: "keeps_goals s t \<Longrightarrow> keeps_goals t u \<Longrightarrow> keeps_goals s u"
  by (simp add: keeps_goals_def)

lemma keeps_steps [keep_intros]:
  "keeps_goals st (snd (utc_now st))"
  "keeps_goals st (snd (new_id p st))"
  "keeps_goals st (upd_session sid f st)"
  "keeps_goals st (upd_run rid h st)"
  "keeps_goals st (upd_entry_by_id rid k st)"
  "keeps_goals st (set_role_cursor sid role n st)"
  "keeps_goals st (snd (log_system_signal sid ty b ro a rid d c st))"
  "keeps_goals st (mark_run rid cs s st)"
  "keeps_goals st (snd (session_log_entries sid st))"
  "keeps_goals st (snd (role_turn_retry_at st))"
  "keeps_goals st (record_agent_turn key p' res st)"
  "keeps_goals st (release_discarded r role why now st)"
  by (simp_all add: keeps_goals_def utc_now_def new_id_def upd_session_def upd_run_def upd_entry_by_id_def
      set_role_cursor_def set_session_log_cursor_def mark_run_def role_turn_retry_at_def now_instant_def
      record_agent_turn_def release_discarded_def Let_def case_prod_beta)

lemma keeps_delivered [keep_intros]: "keeps_goals st (mark_session_messages_delivered ms st)"
  by (auto simp: keeps_goals_def mark_session_messages_delivered_def advance_endpoint_cursor_def Let_def
      split: option.split)

lemma keeps_thread [keep_intros]: "keeps_goals st (snd (ensure_agent_thread sid role acc prov st))"
  by (simp add: keeps_goals_def ensure_agent_thread_def Let_def case_prod_beta new_id_def utc_now_def split: option.split)

lemma keeps_save: "save st = Inr st' \<Longrightarrow> keeps_goals st st'"
  by (auto simp: keeps_goals_def dest!: save_frame)

lemma keeps_message: "append_session_message_locked sid f t p c st = Inr (m, st') \<Longrightarrow> keeps_goals st st'"
  by (simp add: keeps_goals_def append_session_message_keeps)

lemma keeps_step_message: "append_dispatch_step_message rid sid f t b p ph st = Inr st' \<Longrightarrow> keeps_goals st st'"
  by (auto simp: append_dispatch_step_message_def bindR_Inr_iff Let_def case_prod_beta
      intro!: keeps_trans [OF keeps_steps(1) keeps_steps(4)])

lemma keeps_turn_outcome: "record_role_turn_outcome r sid role d s st = Inr st' \<Longrightarrow> keeps_goals st st'"
  by (auto simp: record_role_turn_outcome_def bindR_Inr_iff Let_def case_prod_beta
      dest!: role_turn_messages_state intro!: keeps_trans [OF keeps_steps(9) keeps_steps(4)])

lemma keeps_handoff: "append_remote_aize_handoff_message r sid g p st = Inr st' \<Longrightarrow> keeps_goals st st'"
  unfolding append_remote_aize_handoff_message_def Let_def case_prod_beta
  by (auto simp: bindR_Inr_iff intro!: keeps_trans [OF keeps_steps(1) keeps_trans [OF keeps_message keeps_steps(4)]])

lemma keeps_record_turn: "record_turn lease r role ph p res st = Inr st' \<Longrightarrow> keeps_goals st st'"
  unfolding record_turn_def Let_def case_prod_beta
  by (blast intro: keeps_trans keeps_thread keeps_steps(11) keeps_step_message)

lemma keeps_discard: "discard_stale_dispatch_result r role why out st = Inr (d, st') \<Longrightarrow> keeps_goals st st'"
  unfolding discard_stale_dispatch_result_def Let_def case_prod_beta
  by (auto simp: bindR_Inr_iff intro!: keeps_trans [OF keeps_steps(1) keeps_trans [OF keeps_steps(4)
        keeps_trans [OF keeps_steps(12) keeps_trans [OF keeps_steps(7) keeps_save]]]])

lemma keeps_recover: "recover_missing_lease_run lease st = Inr (d, st') \<Longrightarrow> keeps_goals st st'"
  unfolding recover_missing_lease_run_def Let_def case_prod_beta
  by (auto simp: bindR_Inr_iff split: if_splits
      intro: keeps_trans [OF keeps_trans [OF keeps_steps(1) keeps_steps(5)] keeps_save]
        keeps_trans [OF keeps_trans [OF keeps_steps(1) keeps_steps(5)] keeps_trans [OF keeps_steps(7) keeps_save]])

lemma keeps_missing: "missing_decision session r rid now st = Inr st' \<Longrightarrow> keeps_goals st st'"
  unfolding missing_decision_def Let_def case_prod_beta
  by (rule keeps_trans [OF keeps_steps(5) keeps_trans [OF keeps_steps(6) keeps_trans [OF keeps_steps(8)
        keeps_trans [OF keeps_steps(10) keeps_trans [OF keeps_steps(7) keeps_turn_outcome]]]]])

lemma keeps_finish_gm: "finish_goal_manager_turn lease sid rid now st = Inr st' \<Longrightarrow> keeps_goals st st'"
  unfolding finish_goal_manager_turn_def
  by (rule keeps_trans [OF keeps_steps(4) keeps_trans [OF keeps_delivered keeps_trans [OF keeps_steps(3) keeps_save]]])

lemma keeps_finish_worker: "finish_worker_turn session r rid now st = Inr st' \<Longrightarrow> keeps_goals st st'"
  unfolding finish_worker_turn_def Let_def
  by (rule keeps_trans [OF keeps_steps(5) keeps_trans [OF keeps_steps(6) keeps_trans [OF keeps_steps(4)
        keeps_trans [OF keeps_steps(3) keeps_save]]]])

lemma keeps_worker_signal: "keeps_goals st (snd (worker_protocol_signal session r b now st))"
  unfolding worker_protocol_signal_def Let_def case_prod_beta
  by (auto intro: keeps_trans [OF keeps_steps(10) keeps_steps(7)])

text \<open>C5: A WorkerAgent never decides about goals: whatever its result is, committing it leaves every goal, every
  Unit and every link between sessions as it was, and reports no transition.\<close>

theorem worker_commit_keeps_goals:
  assumes "commit_worker_run_locked lease prompt result st = Inr (d, st')"
  shows "st_goals st' = st_goals st \<and> st_units st' = st_units st
    \<and> st_session_edges st' = st_session_edges st \<and> dr_transition d = None"
proof -
  have d: "discard_stale_dispatch_result r ro w out st = Inr (d, st') \<Longrightarrow> d = no_report"
    "recover_missing_lease_run lease st = Inr (d, st') \<Longrightarrow> d = no_report" for r ro w out
    by (auto simp: discard_stale_dispatch_result_def recover_missing_lease_run_def bindR_Inr_iff Let_def case_prod_beta)
  have "keeps_goals st st' \<and> d = no_report" using assms
  proof (cases rule: commit_worker_cases)
    case (reported r g session st1 st2 ms st4 signal st5 st6)
    have "keeps_goals st st2" using keeps_record_turn [OF reported(4)] reported(5) keeps_handoff keeps_trans by blast
    moreover have "keeps_goals st2 st4"
      using role_turn_messages_state [OF reported(6)] keeps_trans [OF keeps_steps(1) keeps_steps(9)] by simp
    moreover have "keeps_goals st4 st5" using keeps_worker_signal reported(7) by (metis snd_conv)
    ultimately show ?thesis
      using keeps_turn_outcome [OF reported(8)] keeps_finish_worker [OF reported(9)] reported(10) by (metis keeps_trans)
  qed (use d keeps_recover keeps_discard in blast)+
  then show ?thesis by (simp add: keeps_goals_def no_report_def)
qed

subsection \<open>The fence\<close>

text \<open>An entry after the window of a run stops its result: new goal text, a message or a goal transition of
  someone else, or the completion of a child.\<close>

definition supersedes :: "string \<Rightarrow> log_entry \<Rightarrow> bool" where
  "supersedes run_id e \<longleftrightarrow>
     (case le_item e of
        LGoalBodyUpdated _ _ _ _ _ \<Rightarrow> run_id \<noteq> []
      | LMessage m \<Rightarrow> pl_run_id (m_payload m) \<noteq> run_id \<or> m_message_id m = []
      | LGoalStateChanged t \<Rightarrow> t_run_id t \<noteq> run_id
      | LChildGoalCompleted _ \<Rightarrow> True
      | _ \<Rightarrow> False)"

lemma entry_conflict_iff: "entry_conflict run_id e \<noteq> None \<longleftrightarrow> supersedes run_id e"
  by (cases "le_item e")
     (simp_all add: entry_conflict_def supersedes_def message_for_log_entry_def)

lemma map_filter_Nil_iff: "List.map_filter f xs = [] \<longleftrightarrow> (\<forall>x \<in> set xs. f x = None)"
  by (induction xs) (auto simp: List.map_filter_simps split: option.splits)

lemma conflicts_None_iff:
  assumes "log_inv st"
  shows "new_requirement_conflicts_after_window st sid run_id n = None \<longleftrightarrow>
    (\<forall>e \<in> set (drop n (log_view st sid)). \<not> supersedes run_id e)"
proof (cases "latest_session_log_seq st sid \<le> n")
  case True
  then have "drop n (log_view st sid) = []" using latest_session_log_seq_view [OF assms, of sid] by simp
  with True show ?thesis by (simp add: new_requirement_conflicts_after_window_def)
next
  case False
  have "new_requirement_conflicts_after_window st sid run_id n = None
    \<longleftrightarrow> List.map_filter (entry_conflict run_id) (drop n (log_view st sid)) = []"
    unfolding new_requirement_conflicts_after_window_def session_log_after_cursor_view [OF assms] if_not_P [OF False]
    by (simp split: list.split)
  also have "\<dots> \<longleftrightarrow> (\<forall>e \<in> set (drop n (log_view st sid)). \<not> supersedes run_id e)"
    unfolding map_filter_Nil_iff entry_conflict_iff [symmetric] by simp
  finally show ?thesis .
qed

text \<open>C3: The fence lets a result through exactly when the run has the committing role and still holds its lease,
  the goal still has the body the agent was shown, and no entry after the observation window of the
  run supersedes it.\<close>

theorem fence_open_iff:
  assumes "log_ok st"
  shows "stale_dispatch_fence st r role = None \<longleftrightarrow>
    r_role r = role \<and> r_lease_state r = LeaseAcquired
    \<and> (\<exists>g. get_goal st (r_goal_id r) = Some g \<and> g_body g = r_observed_goal_body r)
    \<and> (\<forall>e \<in> set (drop (r_observed_to_seq r) (log_view st (r_session_id r))). \<not> supersedes (r_run_id r) e)"
  using conflicts_None_iff [of st "r_session_id r" "r_run_id r" "r_observed_to_seq r"] assms
  by (auto simp: stale_dispatch_fence_def log_ok_def split: option.splits)

subsection \<open>Fenced results\<close>

lemma upd_run_get: "get_run (upd_run rid f st) k = (if k = rid then map_option f (get_run st rid) else get_run st k)"
  by (simp add: upd_run_def)

lemma save_runs: "save st = Inr st' \<Longrightarrow> st_dispatch_runs st' = st_dispatch_runs st"
  by (auto dest!: save_frame)

lemma cursor_runs [simp]: "st_dispatch_runs (set_role_cursor sid role n st) = st_dispatch_runs st"
  "st_dispatch_runs (upd_entry_by_id rid k st) = st_dispatch_runs st"
  by (simp_all add: set_role_cursor_def set_session_log_cursor_def upd_session_def upd_entry_by_id_def)

lemma discard_run:
  assumes "discard_stale_dispatch_result r role why out st = Inr (d, st')" "get_run st (r_run_id r) = Some r"
  obtains r' where "get_run st' (r_run_id r) = Some r'" "r_lease_state r' \<noteq> LeaseAcquired"
    "r_stale_results r' = r_stale_results r
       @ [\<lparr>sr_created_at = fst (utc_now st), sr_role = role, sr_fence_reason = why, sr_output = out\<rparr>]"
    "d = no_report"
proof -
  from assms(1) have s: "st_dispatch_runs st' = st_dispatch_runs (release_discarded r role why (fst (utc_now st))
      (upd_run (r_run_id r) (\<lambda>r. r\<lparr>r_stale_results := r_stale_results r
         @ [\<lparr>sr_created_at = fst (utc_now st), sr_role = role, sr_fence_reason = why, sr_output = out\<rparr>],
         r_stale_result_at := fst (utc_now st)\<rparr>) (snd (utc_now st))))" and d: "d = no_report"
    unfolding discard_stale_dispatch_result_def Let_def case_prod_beta by (auto simp: bindR_Inr_iff dest!: save_runs)
  have u: "get_run (snd (utc_now st)) k = get_run st k" for k by (simp add: utc_now_def)
  show thesis
  proof (cases "r_lease_state r = LeaseAcquired")
    case True
    show thesis
      by (rule that [OF _ _ _ d], unfold s release_discarded_def if_not_P [OF not_not [THEN iffD2, OF True]])
         (simp add: upd_run_get u assms(2), simp_all add: release_run_def)
  next
    case False
    show thesis
      by (rule that [OF _ _ _ d], unfold s release_discarded_def if_P [OF False])
         (simp add: upd_run_get u assms(2), simp_all add: False)
  qed
qed

text \<open>C2: A fenced result never advances a goal: when the fence closes a run's result, the commit of either role
  leaves all goals, Units and session links as they were, reports no transition, keeps the output with
  the run as evidence, and the run does not hold its lease afterwards.\<close>

theorem fenced_result_changes_no_goal:
  assumes "get_run st (r_run_id (l_run lease)) = Some r" "r_run_id r = r_run_id (l_run lease)"
    "stale_dispatch_fence st r role = Some why"
    "(if role = GoalManager then commit_goal_manager_run_locked else commit_worker_run_locked)
       lease prompt result st = Inr (d, st')"
  shows "st_goals st' = st_goals st \<and> st_units st' = st_units st \<and> st_session_edges st' = st_session_edges st
    \<and> dr_transition d = None
    \<and> (\<exists>r'. get_run st' (r_run_id r) = Some r' \<and> r_lease_state r' \<noteq> LeaseAcquired
         \<and> (\<exists>e. r_stale_results r' = r_stale_results r @ [e] \<and> sr_output e = ar_output result \<and> sr_fence_reason e = why))"
proof -
  have disc: "discard_stale_dispatch_result r role why (ar_output result) st = Inr (d, st')"
  proof (cases role)
    case GoalManager
    with assms(4) have "commit_goal_manager_run_locked lease prompt result st = Inr (d, st')" by simp
    then show ?thesis using assms(1,3) GoalManager by (cases rule: commit_goal_manager_cases) auto
  next
    case WorkerAgent
    with assms(4) have "commit_worker_run_locked lease prompt result st = Inr (d, st')" by simp
    then show ?thesis using assms(1,3) WorkerAgent by (cases rule: commit_worker_cases) auto
  qed
  obtain r' where "get_run st' (r_run_id r) = Some r'" "r_lease_state r' \<noteq> LeaseAcquired"
    "r_stale_results r' = r_stale_results r
       @ [\<lparr>sr_created_at = fst (utc_now st), sr_role = role, sr_fence_reason = why, sr_output = ar_output result\<rparr>]"
    "d = no_report"
    by (rule discard_run [OF disc]) (use assms(1,2) in auto)
  then show ?thesis using keeps_discard [OF disc] by (auto simp: keeps_goals_def no_report_def)
qed

subsection \<open>Every commit ends the lease\<close>

definition not_leased :: "state \<Rightarrow> string \<Rightarrow> bool" where
  "not_leased st rid \<longleftrightarrow> (\<forall>r. get_run st rid = Some r \<longrightarrow> r_lease_state r \<noteq> LeaseAcquired)"

lemma not_leased_evolves: "evolves st st' \<Longrightarrow> not_leased st rid \<Longrightarrow> not_leased st' rid"
  by (auto simp: evolves_def runs_evolve_def not_leased_def)

lemma not_leased_upd: "(\<And>r. r_lease_state (f r) \<noteq> LeaseAcquired) \<Longrightarrow> not_leased (upd_run rid f st) rid"
  by (auto simp: not_leased_def upd_run_get)

lemma recover_not_leased:
  assumes "recover_missing_lease_run lease st = Inr (d, st')" "get_run st rid = None"
  shows "not_leased st' rid"
  by (rule not_leased_evolves [OF evolves_recover [OF assms(1)]]) (simp add: not_leased_def assms(2))

lemma discard_not_leased:
  assumes "discard_stale_dispatch_result r role why out st = Inr (d, st')" "get_run st rid = Some r" "r_run_id r = rid"
  shows "not_leased st' rid"
proof -
  obtain r' where "get_run st' rid = Some r'" "r_lease_state r' \<noteq> LeaseAcquired"
    by (rule discard_run [OF assms(1)]) (use assms(2,3) in auto)
  then show ?thesis by (simp add: not_leased_def)
qed

lemma finish_gm_not_leased:
  assumes "finish_goal_manager_turn lease sid rid now st = Inr st'"
  shows "not_leased st' rid"
proof -
  have "not_leased (upd_run rid (release_run now) st) rid" by (rule not_leased_upd) (simp add: release_run_def)
  then show ?thesis
    by (rule not_leased_evolves [OF evolves_trans [OF evolves_delivered
          evolves_trans [OF evolves_upd_session evolves_save [OF assms [unfolded finish_goal_manager_turn_def]]]]])
qed

lemma finish_worker_not_leased:
  assumes "finish_worker_turn session r rid now st = Inr st'"
  shows "not_leased st' (r_run_id r)"
  by (rule not_leased_evolves [OF evolves_trans [OF evolves_upd_session
        evolves_save [OF assms [unfolded finish_worker_turn_def Let_def]]]])
     (rule not_leased_upd, simp add: release_run_def)

lemma commit_not_leased:
  assumes "commit_goal_manager_run_locked lease prompt result st = Inr (d, st')
      \<or> commit_worker_run_locked lease prompt result st = Inr (d, st')
      \<or> commit_dispatch_error_locked lease failure st = Inr (d, st')"
    "\<And>r. get_run st (r_run_id (l_run lease)) = Some r \<Longrightarrow> r_run_id r = r_run_id (l_run lease)"
  shows "not_leased st' (r_run_id (l_run lease))"
  using assms(1)
proof (elim disjE)
  assume "commit_goal_manager_run_locked lease prompt result st = Inr (d, st')"
  then show ?thesis
  proof (cases rule: commit_goal_manager_cases)
    case (undecided r g session st1 st3)
    show ?thesis using finish_gm_not_leased [OF undecided(7)] unfolding assms(2) [OF undecided(1)] .
  next
    case (decided r g session st1 decision st3 st4)
    show ?thesis using finish_gm_not_leased [OF decided(8)] unfolding assms(2) [OF decided(1)] .
  next
    case gone
    show ?thesis by (rule recover_not_leased [OF gone(2,1)])
  next
    case (fenced r why)
    show ?thesis by (rule discard_not_leased [OF fenced(3,1) assms(2) [OF fenced(1)]])
  qed
next
  assume "commit_worker_run_locked lease prompt result st = Inr (d, st')"
  then show ?thesis
  proof (cases rule: commit_worker_cases)
    case (reported r g session st1 st2 ms st4 signal st5 st6)
    show ?thesis using finish_worker_not_leased [OF reported(9)] unfolding assms(2) [OF reported(1)] .
  next
    case gone
    show ?thesis by (rule recover_not_leased [OF gone(2,1)])
  next
    case (fenced r why)
    show ?thesis by (rule discard_not_leased [OF fenced(3,1) assms(2) [OF fenced(1)]])
  qed
next
  assume "commit_dispatch_error_locked lease failure st = Inr (d, st')"
  then show ?thesis
  proof (cases rule: commit_error_cases)
    case (failed r g session st2 st5 st8 body prov ph)
    have "not_leased st5 (r_run_id r)"
      unfolding failed(5) by (rule not_leased_upd) (simp add: fail_run_def release_run_def)
    moreover have "evolves st5 st'"
      by (rule evolves_trans [OF evolves_end_entry evolves_trans [OF evolves_set_role_cursor evolves_trans [OF
            evolves_delivered evolves_trans [OF evolves_step_message [OF failed(6)] evolves_trans [OF
            evolves_upd_session evolves_save [OF failed(7)]]]]]])
    ultimately have "not_leased st' (r_run_id r)" using not_leased_evolves by blast
    then show ?thesis unfolding assms(2) [OF failed(1)] .
  next
    case gone
    show ?thesis by (rule recover_not_leased [OF gone(2,1)])
  next
    case (fenced r why)
    show ?thesis by (rule discard_not_leased [OF fenced(3,1) assms(2) [OF fenced(1)]])
  qed
qed

text \<open>C4: A commit always ends the lease it was made for: whichever way the agent's turn went (a decision, no
  decision, a work result, a failure, a fenced result, a run that is gone), when the commit returns
  the run no longer holds its lease, so its role in the session can be dispatched again.\<close>

theorem commit_ends_lease:
  assumes "commit_goal_manager_run_locked lease prompt result st = Inr (d, st')
      \<or> commit_worker_run_locked lease prompt result st = Inr (d, st')
      \<or> commit_dispatch_error_locked lease failure st = Inr (d, st')"
    "\<And>r. get_run st (r_run_id (l_run lease)) = Some r \<Longrightarrow> r_run_id r = r_run_id (l_run lease)"
    "get_run st' (r_run_id (l_run lease)) = Some r'"
  shows "r_lease_state r' \<noteq> LeaseAcquired"
  using commit_not_leased [OF assms(1,2)] assms(3) by (simp add: not_leased_def)

subsection \<open>A WorkerAgent's commit returns\<close>

lemma save_returns: "evolves st s \<Longrightarrow> log_ok st \<Longrightarrow> \<exists>s'. save s = Inr s'"
  using log_ok_evolves save_total by (simp add: log_ok_def)

lemma session_kept: "evolves st st' \<Longrightarrow> get_session st sid \<noteq> None \<Longrightarrow> get_session st' sid \<noteq> None"
  by (auto simp: evolves_def sessions_evolve_def)

lemma recover_returns:
  assumes "log_ok st"
  shows "\<exists>r. recover_missing_lease_run lease st = Inr r"
proof -
  let ?f = "\<lambda>e. if rd_status e = Acquired
      then e\<lparr>rd_status := Ready, rd_recovered_at := fst (utc_now st), rd_acquired_at := None\<rparr> else e"
  let ?st2 = "upd_entry_by_id (l_readiness_id lease) ?f (snd (utc_now st))"
  have ev: "evolves st ?st2" by (rule evolves_trans [OF evolves_utc_now evolves_upd_entry_by_id]) simp_all
  show ?thesis
    using save_returns [OF ev assms] save_returns [OF evolves_trans [OF ev evolves_log_signal] assms]
    unfolding recover_missing_lease_run_def Let_def case_prod_beta by (auto simp: bindR_Inr_iff split: if_splits)
qed

lemma discard_returns:
  assumes "log_ok st"
  shows "\<exists>x. discard_stale_dispatch_result r role why out st = Inr x"
  using save_returns [OF evolves_trans [OF evolves_utc_now evolves_trans [OF evolves_stale_result
        evolves_trans [OF evolves_release_discarded evolves_log_signal]]] assms]
  unfolding discard_stale_dispatch_result_def Let_def case_prod_beta bindR_Inr_iff by blast

lemma record_turn_returns:
  "s_session_id (l_session lease) \<noteq> [] \<Longrightarrow> \<exists>st'. record_turn lease r role ph p res st = Inr st'"
  by (simp add: record_turn_def append_dispatch_step_message_def Let_def case_prod_beta normalize_endpoint_total)

lemma turn_messages_return: "sid \<noteq> [] \<Longrightarrow> \<exists>ms. role_turn_session_messages sid r role st = Inr (ms, snd (session_log_entries sid st))"
  by (simp add: role_turn_session_messages_def case_prod_beta normalize_endpoint_total)

lemma turn_outcome_returns: "sid \<noteq> [] \<Longrightarrow> \<exists>st'. record_role_turn_outcome r sid role d s st = Inr st'"
  using turn_messages_return [of sid r role st] by (auto simp: record_role_turn_outcome_def)

lemma handoff_returns:
  assumes "get_session st sid \<noteq> None"
  shows "\<exists>st'. append_remote_aize_handoff_message r sid g p st = Inr st'"
proof -
  have "get_session (snd (utc_now st)) sid \<noteq> None" using assms by (simp add: utc_now_def)
  then show ?thesis
    by (simp add: append_remote_aize_handoff_message_def append_session_message_locked_def Let_def case_prod_beta)
qed

lemma worker_commit_returns:
  assumes "log_ok st"
    "get_goal st (g_goal_id (l_goal lease)) \<noteq> None"
    "get_session st (s_session_id (l_session lease)) = Some session"
    "s_session_id session = s_session_id (l_session lease)" "s_session_id session \<noteq> []"
  obtains d st' where "commit_worker_run_locked lease prompt result st = Inr (d, st')"
proof (cases "get_run st (r_run_id (l_run lease))")
  case None
  with recover_returns [OF assms(1)] that show thesis by (auto simp: commit_worker_run_locked_def)
next
  case (Some r)
  let ?sid = "s_session_id session"
  obtain g where lo: "leased_objects lease r st = Inr (g, session)"
    using assms(2,3) by (auto simp: leased_objects_def)
  note c = commit_worker_run_locked_def [of lease prompt result st, unfolded Some option.case lo bindR.simps prod.case]
  show thesis
  proof (cases "stale_dispatch_fence st r WorkerAgent")
    case f: (Some why)
    with c discard_returns [OF assms(1)] that show thesis by (metis option.simps(5) old.prod.exhaust)
  next
    case f: None
    obtain st1 where t: "record_turn lease r WorkerAgent ''WorkerWork'' prompt result st = Inr st1"
      using record_turn_returns assms(4,5) by metis
    have ev1: "evolves st st1" by (rule record_turn_evolves [OF t])
    have "get_session st1 ?sid \<noteq> None" using session_kept [OF ev1] assms(3,4) by simp
    then obtain st2 where h: "(if ar_provider result = ''remote-aize''
        then append_remote_aize_handoff_message r ?sid g prompt st1 else Inr st1) = Inr st2" and ev2: "evolves st1 st2"
      using handoff_returns evolves_handoff by (metis evolves_refl)
    obtain ms where m: "role_turn_session_messages ?sid r WorkerAgent (snd (utc_now st2))
        = Inr (ms, snd (session_log_entries ?sid (snd (utc_now st2))))" using turn_messages_return [OF assms(5)] by blast
    define st4 where "st4 = snd (session_log_entries ?sid (snd (utc_now st2)))"
    have ev4: "evolves st2 st4" unfolding st4_def by (rule evolves_trans [OF evolves_utc_now evolves_entries])
    define w where "w = worker_protocol_signal session r (ms \<noteq> []) (fst (utc_now st2)) st4"
    have ev5: "evolves st4 (snd w)" unfolding w_def by (rule worker_signal_evolves)
    obtain st6 where tm: "record_role_turn_outcome r ?sid WorkerAgent None (fst w) (snd w) = Inr st6"
      using turn_outcome_returns [OF assms(5)] by blast
    have ev: "evolves st st6"
      using ev1 ev2 ev4 ev5 evolves_turn_outcome [OF tm] by (meson evolves_trans)
    have u: "evolves s (upd_run (r_run_id r) (\<lambda>r. release_run now (r\<lparr>r_completion_state := Some Complete\<rparr>)) s)" for s now
      by (rule evolves_upd_run) (simp_all add: release_run_def)
    have "\<exists>st7. finish_worker_turn session r (l_readiness_id lease) (fst (utc_now st2)) st6 = Inr st7"
      unfolding finish_worker_turn_def Let_def
      by (rule save_returns [OF _ assms(1)], rule evolves_trans [OF ev], rule evolves_trans [OF evolves_end_entry
            evolves_trans [OF evolves_set_role_cursor evolves_trans [OF u evolves_upd_session]]])
    then obtain st7 where "finish_worker_turn session r (l_readiness_id lease) (fst (utc_now st2)) st6 = Inr st7" by blast
    then have "commit_worker_run_locked lease prompt result st = Inr (no_report, st7)"
      using c f t h m tm by (simp add: Let_def case_prod_beta w_def [symmetric] st4_def [symmetric])
    then show thesis by (rule that)
  qed
qed

text \<open>A WorkerAgent's result is never lost to an exception: in a store whose logs are consistent, committing a
  worker run returns whenever the goal and the session of its lease are stored, whatever the agent
  answered and whatever happened to the run in the meantime.\<close>

theorem worker_commit_never_raises:
  assumes "log_ok st"
    "get_goal st (g_goal_id (l_goal lease)) \<noteq> None"
    "get_session st (s_session_id (l_session lease)) = Some session"
    "s_session_id session = s_session_id (l_session lease)" "s_session_id session \<noteq> []"
  shows "\<exists>d st'. commit_worker_run_locked lease prompt result st = Inr (d, st')"
  by (rule worker_commit_returns [OF assms]) blast

end
