(* ===== verification/Message_Rules.thy ===== *)
theory Message_Rules
  imports Runtime_Rules Session_Rules Liveness Dispatch_Safety
begin

section \<open>What a user's input does\<close>

text \<open>
  append\_user\_input: the message is logged, the goal of the session is open again and waits for
  nothing, and while a worker is at work the message is deferred for the GoalManager and a copy
  is forwarded to that worker's run.
\<close>

subsection \<open>The goal\<close>

lemma set_incomplete_goals:
  assumes "set_goal_completion_state gid Incomplete r a [] [] d st = Inr (t, st')"
  obtains now where "st_goals st' = AList.map_entry gid (completion_fields Incomplete r now) (st_goals st)"
proof -
  from assms have "enter_completion_state gid Incomplete r a [] [] d st = Inr (t, st')"
    by (auto simp: set_goal_completion_state_def bindR_Inr_iff split: option.splits)
  then show ?thesis
  proof (cases rule: enter_completion_cases)
    case (1 g now st1)
    have "st_goals st1 = st_goals st" using clock_or_fields [of "[]" st] 1(3) by simp
    then show ?thesis by (intro that [of now]) (simp add: 1(10) upd_defs)
  qed
qed

text \<open>The goal that is reopened is the session's current goal, a new one if there was none.\<close>

lemma reprocess_target_current:
  assumes "goals_ok st"
  shows "current_goal_for_session (snd (reprocess_target sid actor c st)) sid
    = Some (fst (reprocess_target sid actor c st))"
proof (cases "current_goal_for_session st sid")
  case None
  have "reprocess_target sid actor c st
    = (let (gid, st1) = add_goal sid ''Reply to user input sent to this Session.'' actor c st
       in (new_goal gid sid ''Reply to user input sent to this Session.'' actor c, st1))"
    unfolding reprocess_target_def add_goal_def None option.case new_id_def Let_def prod.case ..
  then show ?thesis
    using add_goal_current [OF assms None, of "''Reply to user input sent to this Session.''" actor c]
    by (simp only: Let_def case_prod_beta fst_conv snd_conv)
qed (simp add: reprocess_target_def)

lemma cancel_waiting_goals:
  "st_goals (cancel_goal_waiting sid g a r c st)
     = (if g_waiting g = None then st_goals st
        else AList.map_entry (g_goal_id g) (\<lambda>g. g\<lparr>g_waiting := None\<rparr>) (st_goals st))"
  by (simp add: cancel_goal_waiting_def log_system_signal_def Let_def case_prod_beta new_id_def utc_now_def upd_defs)

subsection \<open>The logs\<close>

lemma annotate_message_logged:
  assumes "le_item e = LMessage m"
  shows "le_item (annotate_message (m_message_id m) x e)
    = LMessage (m\<lparr>m_payload := (m_payload m)\<lparr>pl_extra := pl_extra (m_payload m) @ x\<rparr>\<rparr>)"
  using assms by (simp add: annotate_message_def has_message_id_def)

lemma append_message_goals:
  assumes "append_session_message_locked sid f t p c st = Inr (m, st')"
  shows "st_goals st' = st_goals st" "st_dispatch_runs st' = st_dispatch_runs st"
  using append_session_message_frame(1) [OF assms] 
  by (simp_all add: Let_def upd_session_def make_message_def new_id_def utc_now_def)

lemma forward_goals:
  "forward_to_worker sid sender b rt mid now active st = Inr st' \<Longrightarrow> st_goals st' = st_goals st"
  by (auto simp: forward_to_worker_def bindR_Inr_iff append_message_goals(1) split: option.splits)

lemma forward_view:
  assumes "forward_to_worker sid sender b rt mid now (Some r) st = Inr st'" "log_ok st"
  obtains e m where "log_view st' sid = log_view st sid @ [e]" "le_item e = LMessage m"
    "m_payload m = forwarded_payload b rt mid (r_run_id r)"
proof -
  from assms(1) obtain m where "append_session_message_locked sid (user_endpoint sender) (session_endpoint sid)
      (forwarded_payload b rt mid (r_run_id r)) now st = Inr (m, st')"
    by (auto simp: forward_to_worker_def bindR_Inr_iff)
  from append_message_view [OF this assms(2)] show ?thesis by (metis that)
qed

text \<open>The log of the session once the message is logged, the goal is reopened and the message annotated.\<close>

lemma announce_view:
  assumes app: "append_session_message_locked sid f t p c st = Inr (m, st1)"
    and ev: "evolves st1 st2" and disk: "st_disk_logs st2 = st_disk_logs st1" and ok: "log_ok st"
  obtains e es where "log_view (annotate_logged_message sid (m_message_id m) x st2) sid = log_view st sid @ e # es"
    "le_item e = LMessage (m\<lparr>m_payload := (m_payload m)\<lparr>pl_extra := pl_extra (m_payload m) @ x\<rparr>\<rparr>)"
    "m_payload m = p" "m_from m = f"
proof -
  let ?f = "annotate_message (m_message_id m) x"
  note id = append_message_disk [OF app]
  obtain e where e: "log_view st1 sid = log_view st sid @ [e]" "le_item e = LMessage m"
    "m_payload m = p" "m_from m = f"
    using append_message_view [OF app ok] by metis
  have ok1: "log_ok st1" using evolves_append_message [OF app] ok by (rule log_ok_evolves)
  obtain es where es: "log_view st2 sid = log_view st sid @ e # es"
    using ev ok1 log_growsD(2) [of st1 st2 sid] e(1) by (auto simp: evolves_def prefix_def)
  have "log_grows st st2" using evolves_trans [OF evolves_append_message [OF app] ev] by (simp add: evolves_def)
  then have "log_view (annotate_logged_message sid (m_message_id m) x st2) sid = map ?f (log_view st2 sid)"
    using annotate_view(2) [OF ok _ _ order_refl, of st2 sid x sid] disk id by simp
  moreover have "map ?f (log_view st sid) = log_view st sid"
    using fresh_no_message [OF ok _ order_refl, of _ sid] unfolding id(2)
    by (intro map_idI annotate_other) blast
  ultimately have "log_view (annotate_logged_message sid (m_message_id m) x st2) sid
      = log_view st sid @ ?f e # map ?f es"
    unfolding es by simp
  then show ?thesis using annotate_message_logged [OF e(2)] e(3,4) by (rule that)
qed

subsection \<open>The input is accepted\<close>

lemma set_incomplete_returns:
  assumes "current_goal_for_session st sid = Some g" "goals_ok st" "sid \<noteq> []"
  shows "\<exists>t st'. set_goal_completion_state (g_goal_id g) Incomplete r a [] [] d st = Inr (t, st')"
proof -
  have g: "get_goal st (g_goal_id g) = Some g" "g_session_id g = sid"
    using current_goal_mem [OF assms(1,2)] by auto
  obtain e where "normalize_endpoint a (g_session_id g) = Inr e"
    using normalize_endpoint_total [of "g_session_id g" a] g(2) assms(3) by blast
  then obtain t st1 where e: "enter_completion_state (g_goal_id g) Incomplete r a [] [] d st = Inr (t, st1)"
    using g(1) by (simp add: enter_completion_state_def Let_def case_prod_beta)
  have "get_goal st1 (g_goal_id g) \<noteq> None"
    using evolves_enter [OF e] g(1) assms(2) unfolding evolves_def goals_evolve_def by fastforce
  then show ?thesis by (auto simp: set_goal_completion_state_def e)
qed

lemma reprocess_then_cancel:
  fixes sid actor c
  assumes "goals_ok st"
  defines "x \<equiv> reprocess_target sid actor c st"
  shows "goals_ok (cancel_goal_waiting sid (fst x) actor r c (snd x))"
    "current_goal_for_session (cancel_goal_waiting sid (fst x) actor r c (snd x)) sid
       = Some ((fst x)\<lparr>g_waiting := None\<rparr>)"
proof -
  have ok1: "goals_ok (snd x)" using goals_ok_evolves [OF evolves_reprocess_target assms(1)] by (simp add: x_def)
  then show "goals_ok (cancel_goal_waiting sid (fst x) actor r c (snd x))"
    by (rule goals_ok_evolves [OF evolves_cancel_waiting])
  have cur1: "current_goal_for_session (snd x) sid = Some (fst x)"
    using reprocess_target_current [OF assms(1)] by (simp add: x_def)
  show "current_goal_for_session (cancel_goal_waiting sid (fst x) actor r c (snd x)) sid
       = Some ((fst x)\<lparr>g_waiting := None\<rparr>)"
  proof (cases "g_waiting (fst x) = None")
    case True
    then show ?thesis using cur1 by (simp add: cancel_goal_waiting_def)
  next
    case False
    then have "st_goals (cancel_goal_waiting sid (fst x) actor r c (snd x))
        = AList.map_entry (g_goal_id (fst x)) (\<lambda>g. g\<lparr>g_waiting := None\<rparr>) (st_goals (snd x))"
      unfolding cancel_waiting_goals by (rule if_not_P)
    from current_goal_map_entry [OF ok1 this, of sid] cur1 show ?thesis by simp
  qed
qed

lemma mark_reprocess_total:
  assumes "goals_ok st" "sid \<noteq> []"
  shows "\<exists>g st'. mark_session_reprocess_needed sid actor r c d st = Inr (g_goal_id g, st')
    \<and> current_goal_for_session st' sid = Some g \<and> g_completion_state g = Incomplete \<and> g_waiting g = None"
proof -
  define x where "x = reprocess_target sid actor c st"
  define st2 where "st2 = cancel_goal_waiting sid (fst x) actor r c (snd x)"
  note c = reprocess_then_cancel [OF assms(1), where sid = sid and actor = actor and c = c and r = r,
      folded x_def, folded st2_def]
  obtain t st' where set: "set_goal_completion_state (g_goal_id (fst x)) Incomplete r actor [] [] d st2 = Inr (t, st')"
    using set_incomplete_returns [OF c(2,1) assms(2), where r = r and a = actor and d = d] by auto
  obtain now where "st_goals st' = AList.map_entry (g_goal_id (fst x)) (completion_fields Incomplete r now) (st_goals st2)"
    using set by (rule set_incomplete_goals)
  from current_goal_map_entry [OF c(1) this, of sid] c(2)
  have "current_goal_for_session st' sid = Some (completion_fields Incomplete r now ((fst x)\<lparr>g_waiting := None\<rparr>))"
    by simp
  moreover have "mark_session_reprocess_needed sid actor r c d st = Inr (g_goal_id (fst x), st')"
    unfolding mark_session_reprocess_needed_def Let_def case_prod_beta x_def [symmetric] st2_def [symmetric] set
    by simp
  ultimately show ?thesis by (intro exI conjI) auto
qed

lemma append_message_returns:
  "get_session st sid \<noteq> None \<Longrightarrow> \<exists>m st'. append_session_message_locked sid f t p c st = Inr (m, st')"
  by (simp add: append_session_message_locked_def case_prod_beta Let_def)

lemma forward_returns:
  "get_session st sid \<noteq> None \<Longrightarrow> \<exists>st'. forward_to_worker sid sender b rt mid now active st = Inr st'"
proof (cases active)
  case (Some r)
  assume "get_session st sid \<noteq> None"
  then obtain m st' where "append_session_message_locked sid (user_endpoint sender) (session_endpoint sid)
      (forwarded_payload b rt mid (r_run_id r)) now st = Inr (m, st')" using append_message_returns by blast
  then show ?thesis by (simp add: forward_to_worker_def Some)
qed (simp add: forward_to_worker_def)

text \<open>The steps of an accepted input.\<close>

lemma deliver_user_input_returns:
  assumes "get_session st sid \<noteq> None" "sid \<noteq> []" "log_ok st" "goals_ok st"
  obtains m0 :: message and g :: goal and st1 st2 st3 st5 st' :: state and active now where
    "st1 = snd (utc_now st)" "active = active_worker_run_for_session st1 sid"
    "append_session_message_locked sid (user_endpoint sender) (session_endpoint sid)
       (user_input_payload b rt (active \<noteq> None)) now st1 = Inr (m0, st2)"
    "evolves st2 st3" "st_disk_logs st3 = st_disk_logs st2"
    "current_goal_for_session st3 sid = Some g" "g_completion_state g = Incomplete" "g_waiting g = None"
    "forward_to_worker sid sender b rt (m_message_id m0) now active
       (annotate_logged_message sid (m_message_id m0) (reprocess_keys (g_goal_id g) now) st3) = Inr st5"
    "save st5 = Inr st'"
    "deliver_user_input sid sender b rt st = Inr (m0\<lparr>m_payload := (m_payload m0)
       \<lparr>pl_extra := pl_extra (m_payload m0) @ reprocess_keys (g_goal_id g) now\<rparr>\<rparr>, st')"
proof -
  obtain now st1 where n: "utc_now st = (now, st1)" by (cases "utc_now st")
  define active where "active = active_worker_run_for_session st1 sid"
  have ev1: "evolves st st1" using evolves_utc_now [of st] n by simp
  obtain m0 st2 where app: "append_session_message_locked sid (user_endpoint sender) (session_endpoint sid)
       (user_input_payload b rt (active \<noteq> None)) now st1 = Inr (m0, st2)"
    using append_message_returns session_kept [OF ev1 assms(1)] by blast
  have ev2: "evolves st st2" using ev1 evolves_append_message [OF app] by (rule evolves_trans)
  obtain g st3 where mark: "mark_session_reprocess_needed sid sender
       (''UserInput message '' @ m_message_id m0 @ '' requires Session processing.'') now (active \<noteq> None) st2
       = Inr (g_goal_id g, st3)"
    and g: "current_goal_for_session st3 sid = Some g" "g_completion_state g = Incomplete" "g_waiting g = None"
    using mark_reprocess_total [OF goals_ok_evolves [OF ev2 assms(4)] assms(2)] by metis
  note ev3 = evolves_mark_reprocess [OF mark] mark_reprocess_disk [OF mark]
  have ev4: "evolves st (annotate_logged_message sid (m_message_id m0) (reprocess_keys (g_goal_id g) now) st3)"
    using ev1 evolves_announce [OF app ev3] by (rule evolves_trans)
  obtain st5 where fwd: "forward_to_worker sid sender b rt (m_message_id m0) now active
       (annotate_logged_message sid (m_message_id m0) (reprocess_keys (g_goal_id g) now) st3) = Inr st5"
    using forward_returns session_kept [OF ev4 assms(1)] by blast
  obtain st' where s: "save st5 = Inr st'"
    using save_returns [OF evolves_trans [OF ev4 evolves_forward [OF fwd]] assms(3)] by blast
  have "deliver_user_input sid sender b rt st = Inr (m0\<lparr>m_payload := (m_payload m0)
       \<lparr>pl_extra := pl_extra (m_payload m0) @ reprocess_keys (g_goal_id g) now\<rparr>\<rparr>, st')"
    unfolding deliver_user_input_def n Let_def prod.case active_def [symmetric] app bindR.simps mark fwd s ..
  then show ?thesis using n by (intro that [OF _ active_def app ev3 g fwd s]) simp_all
qed


end
