(* ===== verification/Dispatch_Leases.thy ===== *)
theory Dispatch_Leases
  imports Dispatch_Safety
begin

section \<open>Acquiring a lease\<close>

subsection \<open>The search for an entry evolves the state\<close>

lemma refresh_evolves:
  "refresh_dispatch_readiness st = Inr (b, st') \<Longrightarrow> goals_ok st \<Longrightarrow> log_ok st \<Longrightarrow> evolves st st'"
  using refresh_tracks by (simp add: tracks_def)

lemma settle_evolves:
  assumes "settle_dispatch now c st = Inr (c', st')" "goals_ok st" "log_ok st"
  shows "evolves st st'"
proof -
  from assms(1) obtain p where "refresh_dispatch_readiness st = Inr p"
    unfolding settle_dispatch_def bindR_Inr_iff by (elim exE conjE) (rule that)
  then obtain c5 st5 where rf: "refresh_dispatch_readiness st = Inr (c5, st5)" by (cases p) simp
  note r = assms(1) [unfolded settle_dispatch_def rf bindR.simps prod.case]
  obtain live added st6 where sl: "fold (signal_liveness now) (current_goals st5) (live_goal_ids st5, False, st5)
      = (live, added, st6)" by (metis prod_cases3)
  have ev5: "evolves st st5" by (rule refresh_evolves [OF rf assms(2,3)])
  have ok5: "goals_ok st5" "log_ok st5"
    by (rule goals_ok_evolves [OF ev5 assms(2)]) (rule log_ok_evolves [OF ev5 assms(3)])
  have ev6: "evolves st5 st6" using signal_fold [OF sl ok5(2)] by (simp add: housekeeping_def)
  have ok6: "goals_ok st6" "log_ok st6"
    by (rule goals_ok_evolves [OF ev6 ok5(1)]) (rule log_ok_evolves [OF ev6 ok5(2)])
  have "st' = st6 \<or> (\<exists>c7. refresh_dispatch_readiness st6 = Inr (c7, st'))"
  proof (cases added)
    case True
    from r [unfolded sl Let_def prod.case if_P [OF True] bindR_Inr_iff]
    show ?thesis by auto
  next
    case False
    from r [unfolded sl Let_def prod.case if_not_P [OF False]] show ?thesis by simp
  qed
  then show ?thesis using ev5 ev6 refresh_evolves [OF _ ok6] evolves_trans by blast
qed

lemma reconcile_evolves:
  assumes "reconcile_dispatch_liveness st = Inr (c, st')" "goals_ok st" "log_ok st"
  shows "evolves st st'"
proof -
  from assms(1) obtain c1 st1 where r: "repair_dispatch (fst (utc_now st)) (snd (utc_now st)) = Inr (c1, st1)"
      "settle_dispatch (fst (utc_now st)) c1 st1 = Inr (c, st')"
    by (auto simp: reconcile_dispatch_liveness_def Let_def case_prod_beta bindR_Inr_iff)
  have ev: "evolves st st1"
    using housekeeping_trans [OF housekeeping_tick repair_dispatch_housekeeping [OF r(1)]] by (simp add: housekeeping_def)
  show ?thesis
    by (rule evolves_trans [OF ev settle_evolves [OF r(2) goals_ok_evolves [OF ev assms(2)] log_ok_evolves [OF ev assms(3)]]])
qed

definition mark_stale :: "string \<Rightarrow> nat list \<Rightarrow> readiness list \<Rightarrow> readiness list" where
  "mark_stale t is es = fold (\<lambda>i es. es[i := (es ! i)\<lparr>rd_status := Stale, rd_ended_at := t\<rparr>]) is es"

lemma mark_stale_nth:
  assumes "\<forall>i \<in> set is. i < length es"
  shows "length (mark_stale t is es) = length es"
    "j < length es \<Longrightarrow> j \<notin> set is \<Longrightarrow> mark_stale t is es ! j = es ! j"
    "j < length es \<Longrightarrow> rd_goal_id (mark_stale t is es ! j) = rd_goal_id (es ! j)
       \<and> rd_session_id (mark_stale t is es ! j) = rd_session_id (es ! j)"
  using assms unfolding mark_stale_def
  by (induction "is" arbitrary: es) (auto simp: nth_list_update)

lemma evolves_mark_stale:
  assumes "\<forall>i \<in> set is. i < length (st_dispatch_readiness st)"
  shows "evolves st (st\<lparr>st_dispatch_readiness := mark_stale t is (st_dispatch_readiness st)\<rparr>)"
proof (rule evolves_readiness)
  fix e
  assume "e \<in> set (mark_stale t is (st_dispatch_readiness st))"
  then obtain j where j: "j < length (st_dispatch_readiness st)" "e = mark_stale t is (st_dispatch_readiness st) ! j"
    by (metis in_set_conv_nth mark_stale_nth(1) [OF assms])
  from mark_stale_nth(3) [OF assms j(1), of t] j
  show "entry_matches_goal st e \<or> (\<exists>x \<in> set (st_dispatch_readiness st).
      rd_goal_id e = rd_goal_id x \<and> rd_session_id e = rd_session_id x)"
    by (metis nth_mem)
qed

lemma next_entry_facts:
  assumes "next_dispatch_readiness_entry sid st = Inr (choice, st')" "goals_ok st" "log_ok st"
  shows "evolves st st'"
    "choice = Some (i, score, why) \<Longrightarrow> i < length (st_dispatch_readiness st')
       \<and> (\<exists>now. eligible (st_goals st') (st_sessions st') (acquired_slots st') sid now (st_dispatch_readiness st' ! i))"
proof -
  from assms(1) obtain p where "refresh_dispatch_readiness st = Inr p"
    unfolding next_dispatch_readiness_entry_def bindR_Inr_iff by (elim exE conjE) (rule that)
  then obtain c1 st1 where rf: "refresh_dispatch_readiness st = Inr (c1, st1)" by (cases p) simp
  obtain now st2 where n: "now_instant st1 = (now, st2)" by fastforce
  obtain t st2' where u: "utc_now st2 = (t, st2')" by fastforce
  define d where "d = select_role_dispatch_readiness (st_dispatch_readiness st2) (st_goals st2) (st_sessions st2)
                 (acquired_slots st2) sid now"
  define st3 where "st3 = (if sd_stale_indexes d = [] then st2
      else st2'\<lparr>st_dispatch_readiness := mark_stale t (sd_stale_indexes d) (st_dispatch_readiness st2')\<rparr>)"
  note a = assms(1) [unfolded next_dispatch_readiness_entry_def rf bindR.simps Let_def prod.case n u, folded d_def]
  have r: "choice = (case sd_readiness_index d of None \<Rightarrow> None | Some i \<Rightarrow> Some (i, the (sd_score d), sd_reason d))"
    "st' = st3"
    using a by (auto simp: mark_stale_def st3_def split: option.splits)
  have bound: "\<forall>i \<in> set (sd_stale_indexes d). i < length (st_dispatch_readiness st2)"
    unfolding d_def using role_policy.stale_bounded by blast
  have u2: "st2' = snd (utc_now st2)" using u by simp
  have u: "st_dispatch_readiness st2' = st_dispatch_readiness st2"
    "st_goals st2' = st_goals st2" "st_sessions st2' = st_sessions st2"
    "st_dispatch_runs st2' = st_dispatch_runs st2" by (simp_all add: u2 utc_now_def)
  have "evolves st2 st3"
  proof -
    have "evolves st2 st2'" unfolding u2 by (rule evolves_utc_now)
    moreover have "evolves st2' (st2'\<lparr>st_dispatch_readiness := mark_stale t (sd_stale_indexes d) (st_dispatch_readiness st2')\<rparr>)"
      by (rule evolves_mark_stale) (use bound u(1) in simp)
    ultimately show ?thesis unfolding st3_def by (auto intro: evolves_trans)
  qed
  moreover have "evolves st1 st2" using n evolves_ticks [of st1] by (auto simp: now_instant_def)
  ultimately show "evolves st st'"
    using refresh_evolves [OF rf assms(2,3)] unfolding r(2) by (meson evolves_trans)
  have same: "st_goals st3 = st_goals st2" "st_sessions st3 = st_sessions st2" "acquired_slots st3 = acquired_slots st2"
    by (simp_all add: st3_def u acquired_slots_def)
  assume c: "choice = Some (i, score, why)"
  then have i: "sd_readiness_index d = Some i" using r(1) by (auto split: option.splits)
  from role_policy.chosen_eligible [OF this [unfolded d_def]]
  have e: "i < length (st_dispatch_readiness st2)"
    "eligible (st_goals st2) (st_sessions st2) (acquired_slots st2) sid now (st_dispatch_readiness st2 ! i)"
    "i \<notin> set (sd_stale_indexes d)" unfolding d_def by blast+
  have "st_dispatch_readiness st3 ! i = st_dispatch_readiness st2 ! i"
    "length (st_dispatch_readiness st3) = length (st_dispatch_readiness st2)"
    using mark_stale_nth [OF bound] e(1,3) by (simp_all add: st3_def u)
  then show "i < length (st_dispatch_readiness st')
       \<and> (\<exists>now. eligible (st_goals st') (st_sessions st') (acquired_slots st') sid now (st_dispatch_readiness st' ! i))"
    unfolding r(2) same using e(1,2) by auto
qed

subsection \<open>What is granted\<close>

text \<open>At most one acquired run per session and role.\<close>

definition exclusive :: "state \<Rightarrow> bool" where
  "exclusive st \<longleftrightarrow>
     (\<forall>k1 k2 r1 r2. get_run st k1 = Some r1 \<longrightarrow> get_run st k2 = Some r2
        \<longrightarrow> r_lease_state r1 = LeaseAcquired \<longrightarrow> r_lease_state r2 = LeaseAcquired
        \<longrightarrow> r_session_id r1 = r_session_id r2 \<longrightarrow> r_role r1 = r_role r2 \<longrightarrow> k1 = k2)"

lemma exclusive_evolves:
  assumes "evolves st st'" "exclusive st"
  shows "exclusive st'"
  unfolding exclusive_def
proof (intro allI impI)
  fix k1 k2 r1 r2
  assume a: "get_run st' k1 = Some r1" "get_run st' k2 = Some r2" "r_lease_state r1 = LeaseAcquired"
    "r_lease_state r2 = LeaseAcquired" "r_session_id r1 = r_session_id r2" "r_role r1 = r_role r2"
  have ev: "runs_evolve st st'" using assms(1) by (simp add: evolves_def)
  from ev a(1,3) obtain s1 where s1: "get_run st k1 = Some s1" "r_lease_state s1 = LeaseAcquired"
      "r_session_id r1 = r_session_id s1" "r_role r1 = r_role s1" unfolding runs_evolve_def by blast
  from ev a(2,4) obtain s2 where s2: "get_run st k2 = Some s2" "r_lease_state s2 = LeaseAcquired"
      "r_session_id r2 = r_session_id s2" "r_role r2 = r_role s2" unfolding runs_evolve_def by blast
  from s1 s2 a(5,6) assms(2) show "k1 = k2" unfolding exclusive_def by simp
qed

lemma slot_of_acquired:
  assumes "get_run st k = Some r" "r_lease_state r = LeaseAcquired"
  shows "(r_session_id r, r_role r) \<in> set (acquired_slots st)"
  using map_of_SomeD_values [OF assms(1)] assms(2) by (force simp: acquired_slots_def)

lemma dispatchable_cases:
  assumes "dispatchable e st = Inr (g, session, unit)"
  shows "get_goal st (rd_goal_id e) = Some g" "get_session st (g_session_id g) = Some session" "s_active session"
    "(case unit of None \<Rightarrow> py_strip (s_unit_id session) = []
        | Some u \<Rightarrow> map_of (st_units st) (py_strip (s_unit_id session)) = Some u \<and> un_status u = ''active'')"
proof -
  show "get_goal st (rd_goal_id e) = Some g" "get_session st (g_session_id g) = Some session" "s_active session"
    using assms by (auto simp: dispatchable_def Let_def split: option.splits if_splits)
  show "(case unit of None \<Rightarrow> py_strip (s_unit_id session) = []
        | Some u \<Rightarrow> map_of (st_units st) (py_strip (s_unit_id session)) = Some u \<and> un_status u = ''active'')"
    using assms unfolding dispatchable_def Let_def by (auto split: option.splits if_splits) metis
qed

lemma ensure_thread_frame [simp]:
  "st_dispatch_runs (snd (ensure_agent_thread sid role acc prov st)) = st_dispatch_runs st"
  "st_dispatch_readiness (snd (ensure_agent_thread sid role acc prov st)) = st_dispatch_readiness st"
  "st_goals (snd (ensure_agent_thread sid role acc prov st)) = st_goals st"
  "st_sessions (snd (ensure_agent_thread sid role acc prov st)) = st_sessions st"
  "st_units (snd (ensure_agent_thread sid role acc prov st)) = st_units st"
  by (auto simp: ensure_agent_thread_def Let_def case_prod_beta utc_now_def new_id_def split: option.split)

lemma dispatch_messages_state [simp]:
  "snd (dispatch_messages_for_readiness sid e st) = snd (session_log_entries sid st)"
  by (simp add: dispatch_messages_for_readiness_def case_prod_beta)

lemma grant_facts:
  fixes st :: state
  assumes "grant_lease available i score why rc lot g session unit st = (lease, st')"
  defines "e \<equiv> st_dispatch_readiness st ! i"
  shows "st_dispatch_runs st' = AList.update (r_run_id (l_run lease)) (l_run lease) (st_dispatch_runs st)"
    "st_dispatch_readiness st' = (st_dispatch_readiness st)[i := acquired_entry (fst (utc_now st)) e]"
    "r_lease_state (l_run lease) = LeaseAcquired" "r_session_id (l_run lease) = g_session_id g"
    "r_goal_id (l_run lease) = g_goal_id g" "r_role (l_run lease) = rd_role e"
    "r_readiness_id (l_run lease) = rd_readiness_id e" "l_readiness_id lease = rd_readiness_id e"
    "st_units st' = st_units st"
    "get_session st (g_session_id g) = Some session \<Longrightarrow>
       \<exists>s'. get_session st' (g_session_id g) = Some s' \<and> s_active s' = s_active session \<and> s_unit_id s' = s_unit_id session"
    "r_observed_goal_body (l_run lease) = g_body g"
proof -
  obtain now st1 where u: "utc_now st = (now, st1)" by fastforce
  then have now: "now = fst (utc_now st)" and st1: "st1 = snd (utc_now st)" by simp_all
  define e' where "e' = acquired_entry now e"
  define st3 where "st3 = upd_session (g_session_id g) (start_timing e' now)
    (st1\<lparr>st_dispatch_readiness := (st_dispatch_readiness st)[i := e']\<rparr>)"
  have e: "acquired_entry now (st_dispatch_readiness st1 ! i) = e'" "st_dispatch_readiness st1 = st_dispatch_readiness st"
    by (simp_all add: e'_def e_def st1 utc_now_def)
  obtain user prov where ap: "appoint_agent available st3 (rd_role e') = (user, prov)" by fastforce
  obtain key st4 where t: "ensure_agent_thread (g_session_id g) (rd_role e') user prov st3 = (key, st4)" by fastforce
  obtain ms st5 where m: "session_messages (g_session_id g) st4 = (ms, st5)" by fastforce
  obtain win st6 where w: "dispatch_messages_for_readiness (g_session_id g) e' st5 = (win, st6)" by fastforce
  obtain rid st7 where n: "new_id ''run'' st6 = (rid, st7)" by fastforce
  have st3: "upd_session (g_session_id g) (start_timing (acquired_entry now (st_dispatch_readiness st ! i)) now)
      (st1\<lparr>st_dispatch_readiness := (st_dispatch_readiness st)[i := acquired_entry now (st_dispatch_readiness st ! i)]\<rparr>) = st3"
    by (simp add: st3_def e'_def e_def)
  have e2: "acquired_entry now (st_dispatch_readiness st ! i) = e'" by (simp add: e'_def e_def)
  note g1 = assms(1) [unfolded grant_lease_def u Let_def prod.case e(2) st3 session_messages_for_dispatch_def,
      unfolded e2 ap prod.case t m w n]
  have l: "l_run lease = new_run rid g (py_strip (s_unit_id session)) e' score why now (map m_message_id ms) user prov lot rc"
    "l_readiness_id lease = rd_readiness_id e'"
    and st': "st' = upd_goal (g_goal_id g) (dispatched_goal now (py_strip (s_unit_id session)))
      (st7\<lparr>st_dispatch_runs := AList.update rid (l_run lease) (st_dispatch_runs st7)\<rparr>)"
    using g1 by auto
  have fr: "st_dispatch_runs st7 = st_dispatch_runs st" "st_dispatch_readiness st7 = (st_dispatch_readiness st)[i := e']"
    "st_units st7 = st_units st" "st_sessions st7 = AList.map_entry (g_session_id g) (start_timing e' now) (st_sessions st)"
  proof -
    have "st4 = snd (ensure_agent_thread (g_session_id g) (rd_role e') user prov st3)" using t by simp
    moreover have "st5 = snd (session_log_entries (g_session_id g) st4)" using m session_messages_state by (metis snd_conv)
    moreover have "st6 = snd (session_log_entries (g_session_id g) st5)" using w by (metis dispatch_messages_state snd_conv)
    moreover have "st7 = snd (new_id ''run'' st6)" using n by simp
    ultimately show "st_dispatch_runs st7 = st_dispatch_runs st" "st_dispatch_readiness st7 = (st_dispatch_readiness st)[i := e']"
      "st_units st7 = st_units st" "st_sessions st7 = AList.map_entry (g_session_id g) (start_timing e' now) (st_sessions st)"
      by (simp_all add: new_id_def st3_def upd_session_def st1 utc_now_def)
  qed
  have run: "r_run_id (l_run lease) = rid" "r_lease_state (l_run lease) = LeaseAcquired"
    "r_session_id (l_run lease) = g_session_id g" "r_goal_id (l_run lease) = g_goal_id g"
    "r_role (l_run lease) = rd_role e'" "r_readiness_id (l_run lease) = rd_readiness_id e'"
    "r_observed_goal_body (l_run lease) = g_body g"
    by (simp_all add: l(1) new_run_def)
  have st_f: "s_active (start_timing e' now s) = s_active s" "s_unit_id (start_timing e' now s) = s_unit_id s" for s
    by (simp_all add: start_timing_def Let_def split: option.split)
  show "st_dispatch_runs st' = AList.update (r_run_id (l_run lease)) (l_run lease) (st_dispatch_runs st)"
    "st_dispatch_readiness st' = (st_dispatch_readiness st)[i := acquired_entry (fst (utc_now st)) e]"
    "st_units st' = st_units st"
    by (simp_all add: st' fr run upd_goal_def e'_def now)
  show "get_session st (g_session_id g) = Some session \<Longrightarrow>
       \<exists>s'. get_session st' (g_session_id g) = Some s' \<and> s_active s' = s_active session \<and> s_unit_id s' = s_unit_id session"
    by (simp add: st' fr upd_goal_def st_f)
  show "r_lease_state (l_run lease) = LeaseAcquired" "r_session_id (l_run lease) = g_session_id g"
    "r_goal_id (l_run lease) = g_goal_id g" "r_role (l_run lease) = rd_role e"
    "r_readiness_id (l_run lease) = rd_readiness_id e" "l_readiness_id lease = rd_readiness_id e"
    "r_observed_goal_body (l_run lease) = g_body g"
    using run l(2) by (simp_all add: e'_def acquired_entry_def)
qed

lemma acquire_cases:
  assumes "acquire_dispatch_lease_locked available sid rc lot st = Inr (granted, st')" "goals_ok st" "log_ok st"
  obtains (idle) st2 where "granted = None" "evolves st st2"
      "save st2 = Inr st' \<or> st' = st\<lparr>st_ticks := st_ticks st2, st_uid := st_uid st2\<rparr>"
    | (granted) lease st2 i score why g session unit st3 now where "granted = Some lease" "evolves st st2"
      "i < length (st_dispatch_readiness st2)"
      "eligible (st_goals st2) (st_sessions st2) (acquired_slots st2) sid now (st_dispatch_readiness st2 ! i)"
      "dispatchable (st_dispatch_readiness st2 ! i) st2 = Inr (g, session, unit)"
      "grant_lease available i score why rc lot g session unit st2 = (lease, st3)" "save st3 = Inr st'"
proof -
  from assms(1) obtain p q where
    p: "reconcile_dispatch_liveness st = Inr p" and q: "next_dispatch_readiness_entry sid (snd p) = Inr q"
    unfolding acquire_dispatch_lease_locked_def case_prod_beta guard_Inr_iff bindR_Inr_iff by (elim exE conjE) (rule that)
  obtain c st1 where p': "p = (c, st1)" by (cases p)
  obtain choice st2 where q': "q = (choice, st2)" by (cases q)
  have rec: "reconcile_dispatch_liveness st = Inr (c, st1)" and nxt: "next_dispatch_readiness_entry sid st1 = Inr (choice, st2)"
    using p q p' q' by simp_all
  have ev1: "evolves st st1" by (rule reconcile_evolves [OF rec assms(2,3)])
  have ok1: "goals_ok st1" "log_ok st1"
    by (rule goals_ok_evolves [OF ev1 assms(2)]) (rule log_ok_evolves [OF ev1 assms(3)])
  have ev: "evolves st st2" by (rule evolves_trans [OF ev1 next_entry_facts(1) [OF nxt ok1]])
  have a: "(case choice of
            None \<Rightarrow> if c then bindR (save st2) (\<lambda>st3. Inr (None, st3))
                    else Inr (None, st\<lparr>st_ticks := st_ticks st2, st_uid := st_uid st2\<rparr>)
          | Some (i, score, why) \<Rightarrow>
              bindR (dispatchable (st_dispatch_readiness st2 ! i) st2) (\<lambda>(g, session, unit).
                let (lease, st3) = grant_lease available i score why rc lot g session unit st2
                in bindR (save st3) (\<lambda>st4. Inr (Some lease, st4)))) = Inr (granted, st')"
    using assms(1) unfolding acquire_dispatch_lease_locked_def guard_Inr_iff rec nxt bindR.simps prod.case by blast
  show thesis
  proof (cases choice)
    case None
    from a [unfolded this option.case] show thesis
      by (intro idle [OF _ ev]) (auto simp: bindR_Inr_iff split: if_splits)
  next
    case (Some ch)
    obtain i score why where ch: "ch = (i, score, why)" by (cases ch)
    note b = a [unfolded Some option.case ch prod.case bindR_Inr_iff]
    from b obtain x where "dispatchable (st_dispatch_readiness st2 ! i) st2 = Inr x" by blast
    then obtain g session unit where d: "dispatchable (st_dispatch_readiness st2 ! i) st2 = Inr (g, session, unit)"
      by (cases x) auto
    obtain lease st3 where gr: "grant_lease available i score why rc lot g session unit st2 = (lease, st3)" by fastforce
    from a [unfolded Some option.case ch prod.case d bindR.simps gr Let_def bindR_Inr_iff]
    have s: "save st3 = Inr st'" "granted = Some lease" by auto
    note n = next_entry_facts(2) [OF nxt ok1 Some [unfolded ch]]
    from n obtain now where "eligible (st_goals st2) (st_sessions st2) (acquired_slots st2) sid now (st_dispatch_readiness st2 ! i)"
      by blast
    then show thesis using n by (intro granted [OF s(2) ev _ _ d gr s(1)]) simp_all
  qed
qed

lemma evolves_idle:
  assumes "evolves st st2" "save st2 = Inr st' \<or> st' = st\<lparr>st_ticks := st_ticks st2, st_uid := st_uid st2\<rparr>"
  shows "evolves st st'"
  using assms(2)
proof
  assume "save st2 = Inr st'"
  with assms(1) show ?thesis using evolves_save evolves_trans by blast
next
  assume st': "st' = st\<lparr>st_ticks := st_ticks st2, st_uid := st_uid st2\<rparr>"
  have "st_uid st \<le> st_uid st2" using assms(1) by (simp add: evolves_def log_grows_def)
  then show ?thesis unfolding st' by (intro evolves_frame log_grows_frame) simp_all
qed

definition entries_ok :: "state \<Rightarrow> bool" where
  "entries_ok st \<longleftrightarrow> (\<forall>e \<in> set (st_dispatch_readiness st). entry_matches_goal st e)"

lemma entries_ok_evolves:
  assumes "evolves st st'" "goals_ok st" "entries_ok st"
  shows "entries_ok st'"
  unfolding entries_ok_def
proof
  fix e
  assume e: "e \<in> set (st_dispatch_readiness st')"
  have ge: "goals_evolve st st'" and re: "readiness_evolve st st'" using assms(1,2) by (simp_all add: evolves_def)
  from re e consider "entry_matches_goal st' e"
    | d where "d \<in> set (st_dispatch_readiness st)" "rd_goal_id e = rd_goal_id d" "rd_session_id e = rd_session_id d"
    unfolding readiness_evolve_def by blast
  then show "entry_matches_goal st' e"
  proof cases
    case 2
    with assms(3) have "entry_matches_goal st d" by (simp add: entries_ok_def)
    then show ?thesis using entry_matches_evolves [OF ge _ 2(2,3)] by blast
  qed
qed

text \<open>The facts about a granted lease, at the state it was granted in.\<close>

lemma granted_facts:
  assumes "acquire_dispatch_lease_locked available sid rc lot st = Inr (Some lease, st')"
    "goals_ok st" "log_ok st" "entries_ok st"
  obtains st2 i e g now where "evolves st st2" "i < length (st_dispatch_readiness st2)" "e = st_dispatch_readiness st2 ! i"
    "rd_status e = Ready" "get_goal st2 (rd_goal_id e) = Some g" "g_session_id g = rd_session_id e" "g_goal_id g = rd_goal_id e"
    "g_completion_state g = Incomplete" "g_archived_at g = []"
    "(rd_session_id e, rd_role e) \<notin> set (acquired_slots st2)" "sid = [] \<or> rd_session_id e = sid"
    "st_dispatch_runs st' = AList.update (r_run_id (l_run lease)) (l_run lease) (st_dispatch_runs st2)"
    "st_dispatch_readiness st' = (st_dispatch_readiness st2)[i := acquired_entry now e]"
    "r_lease_state (l_run lease) = LeaseAcquired" "r_session_id (l_run lease) = rd_session_id e"
    "r_goal_id (l_run lease) = rd_goal_id e" "r_role (l_run lease) = rd_role e"
    "r_readiness_id (l_run lease) = rd_readiness_id e"
    "\<exists>s'. get_session st' (rd_session_id e) = Some s' \<and> s_active s'
       \<and> (py_strip (s_unit_id s') \<noteq> [] \<longrightarrow>
            (\<exists>u. map_of (st_units st') (py_strip (s_unit_id s')) = Some u \<and> un_status u = ''active''))"
  using assms(1-3)
proof (cases rule: acquire_cases)
  case (granted lease' st2 i score why g session unit st3 inst)
  let ?e = "st_dispatch_readiness st2 ! i"
  have l: "lease' = lease" using granted(1) by simp
  note gf = grant_facts [OF granted(6) [unfolded l]]
  note dc = dispatchable_cases [OF granted(5)]
  have ok2: "goals_ok st2" by (rule goals_ok_evolves [OF granted(2) assms(2)])
  have "entries_ok st2" by (rule entries_ok_evolves [OF granted(2) assms(2,4)])
  then have "entry_matches_goal st2 ?e" using granted(3) by (simp add: entries_ok_def)
  then have gs: "g_session_id g = rd_session_id ?e" using dc(1) by (simp add: entry_matches_goal_def)
  have gi: "g_goal_id g = rd_goal_id ?e" by (rule goals_okD [OF ok2 dc(1)])
  from save_frame [OF granted(7)] have same: "st_dispatch_runs st' = st_dispatch_runs st3"
    "st_dispatch_readiness st' = st_dispatch_readiness st3" "st_units st' = st_units st3" "st_sessions st' = st_sessions st3"
    by auto
  have act: "\<exists>s'. get_session st' (rd_session_id ?e) = Some s' \<and> s_active s'
       \<and> (py_strip (s_unit_id s') \<noteq> [] \<longrightarrow>
            (\<exists>u. map_of (st_units st') (py_strip (s_unit_id s')) = Some u \<and> un_status u = ''active''))"
    using gf(9) gf(10) [OF dc(2)] dc(3,4) unfolding same gs by (auto split: option.splits)
  from granted(4) have el: "rd_status ?e = Ready" "g_completion_state g = Incomplete" "g_archived_at g = []"
    "(rd_session_id ?e, rd_role ?e) \<notin> set (acquired_slots st2)" "sid = [] \<or> rd_session_id ?e = sid"
    using dc(1) by (auto simp: eligible_def)
  show thesis
    by (rule that [OF granted(2,3) refl el(1) dc(1) gs gi el(2-5) _ gf(2) [folded same(2)] gf(3) gf(4) [unfolded gs] gf(5) [unfolded gi]
          gf(6,7) act])
      (use gf(1,2) same in auto)
qed simp

lemma acquire_exclusive:
  assumes "acquire_dispatch_lease_locked available sid rc lot st = Inr (granted, st')"
    "goals_ok st" "log_ok st" "entries_ok st" "exclusive st"
  shows "exclusive st'"
proof (cases granted)
  case None
  from assms(1-3) None show ?thesis
    by (cases rule: acquire_cases) (auto intro: exclusive_evolves [OF evolves_idle assms(5)])
next
  case (Some lease)
  obtain st2 and e :: readiness where f: "evolves st st2" "(rd_session_id e, rd_role e) \<notin> set (acquired_slots st2)"
    "st_dispatch_runs st' = AList.update (r_run_id (l_run lease)) (l_run lease) (st_dispatch_runs st2)"
    "r_session_id (l_run lease) = rd_session_id e" "r_role (l_run lease) = rd_role e"
    by (rule granted_facts [OF assms(1) [unfolded Some] assms(2-4)]) (rule that; assumption)
  have ex2: "exclusive st2" by (rule exclusive_evolves [OF f(1) assms(5)])
  have free: "\<not> (r_session_id r = rd_session_id e \<and> r_role r = rd_role e)"
    if "get_run st2 k = Some r" "r_lease_state r = LeaseAcquired" for k r
    using slot_of_acquired [OF that] f(2) by auto
  show ?thesis
    unfolding exclusive_def f(3) map_of_update
  proof (intro allI impI)
    fix k1 k2 r1 r2
    let ?rid = "r_run_id (l_run lease)"
    assume a: "(if k1 = ?rid then Some (l_run lease) else get_run st2 k1) = Some r1"
      "(if k2 = ?rid then Some (l_run lease) else get_run st2 k2) = Some r2"
      and b: "r_lease_state r1 = LeaseAcquired" "r_lease_state r2 = LeaseAcquired"
      "r_session_id r1 = r_session_id r2" "r_role r1 = r_role r2"
    consider "k1 = k2" | "k1 = ?rid" "k2 \<noteq> ?rid" | "k1 \<noteq> ?rid" "k2 = ?rid" | "k1 \<noteq> ?rid" "k2 \<noteq> ?rid" by blast
    then show "k1 = k2"
    proof cases
      case 2
      with a b f(4,5) free [of k2 r2] show ?thesis by auto
    next
      case 3
      with a b f(4,5) free [of k1 r1] show ?thesis by auto
    next
      case 4
      with a b ex2 show ?thesis by (auto simp: exclusive_def)
    qed
  qed
qed

lemma mem_update_nth: "i < length xs \<Longrightarrow> x \<in> set (xs[i := x])"
  by (simp add: set_update_memI)


end
