(* ===== verification/Dispatch_Example.thy ===== *)
theory Dispatch_Example
  imports Dispatch_Leases
begin

section \<open>One session dispatched, step by step\<close>

text \<open>
  A concrete store with one session whose log holds one signal for the GoalManager, and the
  transactions of a dispatch on it. The clock stands at the first instant a \<open>datetime\<close> can hold,
  which keeps the evaluation of timestamps small. An equation between states is established by
  evaluating both sides under an arbitrary predicate, because states hold functions (the clock, the
  time zone, the cursors) and have no executable equality.
\<close>

abbreviation first_instant :: string where
  "first_instant \<equiv> ''0001-01-01T00:00:00Z''"

definition wake_signal :: log_entry where
  "wake_signal = \<lparr>le_log_id = ''log'', le_seq = 1, le_session_id = ''s'', le_created_at = first_instant,
     le_item = LSystemSignal \<lparr>sg_signal_id = ''sig'', sg_signal_type = ''wake'', sg_body = [],
       sg_target_roles = [GoalManager], sg_actor = [], sg_run_id = [], sg_created_at = first_instant, sg_data = []\<rparr>,
     le_event_key = ''key''\<rparr>"

definition queued_entry :: readiness where
  "queued_entry = \<lparr>rd_readiness_id = ''ready-000000000000'', rd_session_id = ''s'', rd_goal_id = ''g'',
     rd_role = GoalManager, rd_status = Ready, rd_first_ready_at = first_instant, rd_refreshed_at = first_instant,
     rd_from_log_seq = 1, rd_observed_to_seq = 1,
     rd_wake_reasons = [\<lparr>wr_seq = 1, wr_kind = ''SystemSignal'',
       wr_reason = ''System signal wake requires GoalManager processing.'', wr_message_id = [], wr_log_id = ''log'',
       wr_available_after = []\<rparr>],
     rd_available_after = [], rd_acquired_at = None, rd_ended_at = [], rd_stale_reason = [], rd_recovered_at = []\<rparr>"

definition asleep :: state where
  "asleep = (blank_state (\<lambda>_. 86400000000) (\<lambda>i. i))
     \<lparr>st_sessions := [(''s'', new_session ''s'' [] [] ''S'' False)], st_disk_logs := [(''s'', [wake_signal])],
      st_goals := [(''g'', new_goal ''g'' ''s'' ''work'' ''root'' first_instant)]\<rparr>"

definition awake :: "nat \<Rightarrow> state" where
  "awake ticks = asleep\<lparr>st_ticks := ticks, st_uid := 1, st_dispatch_readiness := [queued_entry]\<rparr>"

lemma asleep_ok: "goals_ok asleep" "log_ok asleep" "entries_ok asleep" "exclusive asleep"
  by (auto simp: asleep_def wake_signal_def blank_state_def log_ok_def log_inv_def log_view_def pending_log_def
      disk_log_def seq_from_def dict_get_def log_fresh_def entry_fresh_def signal_key_def goals_ok_def new_goal_def
      id_of_def entries_ok_def exclusive_def split: if_splits)

lemma asleep_reconciled: "reconcile_dispatch_liveness asleep = Inr (True, awake 3)"
proof -
  have "P (reconcile_dispatch_liveness asleep) \<longrightarrow> P (Inr (True, awake 3))" for P by (code_simp, rule impI)
  from this [of "\<lambda>y. reconcile_dispatch_liveness asleep = y"] show ?thesis by simp
qed

lemma awake_chosen:
  "next_dispatch_readiness_entry [] (awake 3)
     = Inr (Some (0, 0, ''class=normal(0); session=0; role=0; waiting_age=0''), awake 6)"
proof -
  have "P (next_dispatch_readiness_entry [] (awake 3))
    \<longrightarrow> P (Inr (Some (0, 0, ''class=normal(0); session=0; role=0; waiting_age=0''), awake 6))" for P by (code_simp, rule impI)
  from this [of "\<lambda>y. next_dispatch_readiness_entry [] (awake 3) = y"] show ?thesis by simp
qed

lemma asleep_acquired:
  obtains lease st' where "acquire_dispatch_lease_locked (\<lambda>_. True) [] [] None asleep = Inr (Some lease, st')"
proof -
  have d: "case dispatchable queued_entry (awake 6) of Inl _ \<Rightarrow> False
    | Inr (g, session, unit) \<Rightarrow>
       (case save (snd (grant_lease (\<lambda>_. True) 0 0 ''class=normal(0); session=0; role=0; waiting_age=0'' [] None
          g session unit (awake 6))) of Inl _ \<Rightarrow> False | Inr _ \<Rightarrow> True)" by code_simp
  have e: "st_dispatch_readiness (awake 6) ! 0 = queued_entry" by (simp add: awake_def)
  from d obtain g session unit where r1: "dispatchable queued_entry (awake 6) = Inr (g, session, unit)"
    by (cases "dispatchable queued_entry (awake 6)") auto
  from d [unfolded r1] obtain st' where
    "save (snd (grant_lease (\<lambda>_. True) 0 0 ''class=normal(0); session=0; role=0; waiting_age=0'' [] None
          g session unit (awake 6))) = Inr st'"
    by (cases "save (snd (grant_lease (\<lambda>_. True) 0 0 ''class=normal(0); session=0; role=0; waiting_age=0'' [] None
          g session unit (awake 6)))") simp_all
  note r = r1 this
  obtain lease st3 where gr: "grant_lease (\<lambda>_. True) 0 0 ''class=normal(0); session=0; role=0; waiting_age=0'' [] None
          g session unit (awake 6) = (lease, st3)" by fastforce
  have "acquire_dispatch_lease_locked (\<lambda>_. True) [] [] None asleep = Inr (Some lease, st')"
    unfolding acquire_dispatch_lease_locked_def asleep_reconciled bindR.simps prod.case awake_chosen option.case
      Let_def e r(1) gr using r(2) by (simp add: gr)
  then show thesis by (rule that)
qed


subsection \<open>An agent at work\<close>

definition work_goal :: goal where
  "work_goal = new_goal ''g'' ''s'' ''work'' ''root'' first_instant"

definition work_run :: "role \<Rightarrow> run" where
  "work_run role = new_run ''run'' work_goal [] (queued_entry\<lparr>rd_role := role\<rparr>) 0 [] first_instant [] [] ''codex'' None []"

definition work_lease :: "role \<Rightarrow> lease" where
  "work_lease role = \<lparr>l_goal = work_goal, l_session = new_session ''s'' [] [] ''S'' False, l_unit = None,
     l_run = work_run role, l_readiness_id = rd_readiness_id queued_entry, l_session_messages = [],
     l_dispatch_messages = [], l_dispatch_signals = [], l_role = role, l_provider = ''codex'', l_agent_user = [],
     l_thread_key = [], l_resume_token = [], l_recovery_context = []\<rparr>"

text \<open>The store while the run is out; \<open>body\<close> is what the goal says by now.\<close>

definition at_work :: "role \<Rightarrow> string \<Rightarrow> state" where
  "at_work role body = asleep\<lparr>st_dispatch_runs := [(''run'', work_run role)],
     st_goals := [(''g'', work_goal\<lparr>g_body := body\<rparr>)],
     st_dispatch_readiness := [acquired_entry first_instant (queued_entry\<lparr>rd_role := role\<rparr>)]\<rparr>"

definition answer :: agent_result where
  "answer = \<lparr>ar_provider = ''codex'', ar_output = ''done'', ar_resume_token = [], ar_provider_thread_id = []\<rparr>"

lemma at_work_ok: "log_ok (at_work role body)" "goals_ok (at_work role body)"
  by (auto simp: at_work_def asleep_def wake_signal_def blank_state_def log_ok_def log_inv_def log_view_def
      pending_log_def disk_log_def seq_from_def dict_get_def log_fresh_def entry_fresh_def signal_key_def
      goals_ok_def work_goal_def new_goal_def id_of_def split: if_splits)

lemma at_work_objects:
  "get_run (at_work role body) ''run'' = Some (work_run role)" "r_run_id (work_run role) = ''run''"
  "r_run_id (l_run (work_lease role)) = ''run''"
  "get_goal (at_work role body) (g_goal_id (l_goal (work_lease role))) = Some (work_goal\<lparr>g_body := body\<rparr>)"
  "get_session (at_work role body) (s_session_id (l_session (work_lease role))) = Some (new_session ''s'' [] [] ''S'' False)"
  "s_session_id (l_session (work_lease role)) = ''s''"
  by (simp_all add: at_work_def asleep_def work_lease_def work_run_def new_run_def work_goal_def new_goal_def
      new_session_def)

lemma outdated_fence:
  "stale_dispatch_fence (at_work role ''new'') (work_run role) role
     = Some ''the observed SessionGoal was updated during the dispatch run''"
  by (simp add: stale_dispatch_fence_def at_work_def work_run_def new_run_def work_goal_def new_goal_def queued_entry_def)

lemma at_work_commits:
  obtains d st' where "commit_worker_run_locked (work_lease WorkerAgent) [] answer (at_work WorkerAgent body) = Inr (d, st')"
proof (rule worker_commit_returns [where st = "at_work WorkerAgent body" and lease = "work_lease WorkerAgent"
      and session = "new_session ''s'' [] [] ''S'' False" and prompt = "[]" and result = answer])
  show "s_session_id (new_session ''s'' [] [] ''S'' False) = s_session_id (l_session (work_lease WorkerAgent))"
    "s_session_id (new_session ''s'' [] [] ''S'' False) \<noteq> []" by (simp_all add: at_work_objects new_session_def)
qed (use at_work_ok at_work_objects that in simp_all)

text \<open>The goal was rewritten while the WorkerAgent was out.\<close>

lemma outdated_work:
  obtains d st' r' where "commit_worker_run_locked (work_lease WorkerAgent) [] answer (at_work WorkerAgent ''new'') = Inr (d, st')"
    "get_run st' ''run'' = Some r'"
proof -
  let ?st = "at_work WorkerAgent ''new''"
  obtain d st' where c: "commit_worker_run_locked (work_lease WorkerAgent) [] answer ?st = Inr (d, st')"
    by (rule at_work_commits)
  from c have "discard_stale_dispatch_result (work_run WorkerAgent) WorkerAgent
      ''the observed SessionGoal was updated during the dispatch run'' (ar_output answer) ?st = Inr (d, st')"
    using outdated_fence [of WorkerAgent] by (cases rule: commit_worker_cases) (simp_all add: at_work_objects)
  then obtain r' where "get_run st' ''run'' = Some r'"
    by (rule discard_run) (simp_all add: at_work_objects)
  with c show thesis by (rule that)
qed

theorem worker_commit_keeps_goals_witness:
  "\<exists>d st'. commit_worker_run_locked (work_lease WorkerAgent) [] answer (at_work WorkerAgent ''work'') = Inr (d, st')
     \<and> st_goals st' = st_goals (at_work WorkerAgent ''work'')"
proof -
  obtain d st' where c: "commit_worker_run_locked (work_lease WorkerAgent) [] answer (at_work WorkerAgent ''work'')
      = Inr (d, st')"
    by (rule at_work_commits)
  from worker_commit_keeps_goals [OF c] c show ?thesis by blast
qed

theorem worker_commit_never_raises_witness:
  "\<exists>d st'. commit_worker_run_locked (work_lease WorkerAgent) [] answer (at_work WorkerAgent ''work'') = Inr (d, st')"
proof (rule worker_commit_never_raises [where session = "new_session ''s'' [] [] ''S'' False"])
  show "s_session_id (new_session ''s'' [] [] ''S'' False) = s_session_id (l_session (work_lease WorkerAgent))"
    "s_session_id (new_session ''s'' [] [] ''S'' False) \<noteq> []" by (simp_all add: at_work_objects new_session_def)
qed (use at_work_ok at_work_objects in simp_all)

theorem fence_open_iff_witness:
  "log_ok (at_work GoalManager ''work'')
     \<and> (stale_dispatch_fence (at_work GoalManager ''work'') (work_run GoalManager) GoalManager = None \<longleftrightarrow>
          r_role (work_run GoalManager) = GoalManager \<and> r_lease_state (work_run GoalManager) = LeaseAcquired
          \<and> (\<exists>g. get_goal (at_work GoalManager ''work'') (r_goal_id (work_run GoalManager)) = Some g
                \<and> g_body g = r_observed_goal_body (work_run GoalManager))
          \<and> (\<forall>e \<in> set (drop (r_observed_to_seq (work_run GoalManager))
                (log_view (at_work GoalManager ''work'') (r_session_id (work_run GoalManager)))).
                \<not> supersedes (r_run_id (work_run GoalManager)) e))"
  using fence_open_iff [OF at_work_ok(1)] at_work_ok(1) by blast

theorem fenced_result_changes_no_goal_witness:
  "\<exists>d st'. commit_worker_run_locked (work_lease WorkerAgent) [] answer (at_work WorkerAgent ''new'') = Inr (d, st')
     \<and> st_goals st' = st_goals (at_work WorkerAgent ''new'')"
proof -
  obtain d st' where c: "commit_worker_run_locked (work_lease WorkerAgent) [] answer (at_work WorkerAgent ''new'')
      = Inr (d, st')" by (rule outdated_work)
  have "st_goals st' = st_goals (at_work WorkerAgent ''new'')"
    using fenced_result_changes_no_goal [of "at_work WorkerAgent ''new''" "work_lease WorkerAgent" "work_run WorkerAgent"
        WorkerAgent, OF _ _ outdated_fence] c by (simp add: at_work_objects)
  with c show ?thesis by blast
qed

theorem commit_ends_lease_witness:
  "\<exists>d st' r'. commit_worker_run_locked (work_lease WorkerAgent) [] answer (at_work WorkerAgent ''new'') = Inr (d, st')
     \<and> get_run st' ''run'' = Some r' \<and> r_lease_state r' \<noteq> LeaseAcquired"
proof -
  obtain d st' r' where c: "commit_worker_run_locked (work_lease WorkerAgent) [] answer (at_work WorkerAgent ''new'')
      = Inr (d, st')" "get_run st' ''run'' = Some r'" by (rule outdated_work)
  have "r_lease_state r' \<noteq> LeaseAcquired"
    by (rule commit_ends_lease [where st = "at_work WorkerAgent ''new''" and lease = "work_lease WorkerAgent"])
       (use c in \<open>auto simp: at_work_objects\<close>)
  with c show ?thesis by blast
qed

end
