(* ===== verification/Runtime_Example.thy ===== *)
theory Runtime_Example
  imports Message_Rules Dispatch_Example
begin

section \<open>A run declares, an agent and a user speak\<close>

text \<open>The store of Dispatch\_Example while a run is out, with a user who sends input to the session.\<close>

abbreviation returned :: "'a res \<Rightarrow> bool" where
  "returned r \<equiv> (case r of Inl _ \<Rightarrow> False | Inr _ \<Rightarrow> True)"

lemma returned_value: "returned r \<Longrightarrow> \<exists>x. r = Inr x"
  by (cases r) auto

theorem outcome_declared_once_witness:
  "\<exists>oc st'. set_goal_completion_state_from_runtime ''s'' ''complete'' ''fine'' ''GoalManager'' ''run'' []
       (at_work GoalManager ''work'') = Inr (oc, st')
     \<and> (\<forall>x. set_goal_completion_state_from_runtime ''s'' ''incomplete'' [] ''GoalManager'' ''run'' [] st' \<noteq> Inr x)"
proof -
  have "returned (set_goal_completion_state_from_runtime ''s'' ''complete'' ''fine'' ''GoalManager'' ''run'' []
       (at_work GoalManager ''work''))" by code_simp
  then obtain oc st' where d: "set_goal_completion_state_from_runtime ''s'' ''complete'' ''fine'' ''GoalManager'' ''run'' []
       (at_work GoalManager ''work'') = Inr (oc, st')" by (metis returned_value surj_pair)
  from outcome_declared_once [OF disjI1, OF d] d show ?thesis by blast
qed

definition next_day :: wait_request where
  "next_day = \<lparr>wq_kind = ''Deadline'', wq_wait_until = ''0001-01-03T00:00:00Z'', wq_event_name = [],
     wq_child_session_id = []\<rparr>"

lemma next_day_declared:
  obtains oc st' k reason by' at where "set_goal_waiting_from_runtime ''s'' next_day ''GoalManager'' ''run'' []
      (at_work GoalManager ''work'') = Inr (Declared_waiting (Wait_deadline ''0001-01-03T00:00:00Z'') k reason by' at, st')"
proof -
  let ?st = "at_work GoalManager ''work''"
  have "returned (declaring_run ''s'' ''GoalManager'' ''run'' ''only GoalManager may declare a SessionGoal waiting''
      ''GoalManager waiting decision'' ?st)" by code_simp
  then obtain x where x: "declaring_run ''s'' ''GoalManager'' ''run'' ''only GoalManager may declare a SessionGoal waiting''
      ''GoalManager waiting decision'' ?st = Inr x" by (blast dest: returned_value)
  have t: "py_lower (py_strip (wq_kind next_day)) = ''deadline''"
    "py_strip (wq_wait_until next_day) = ''0001-01-03T00:00:00Z''" by code_simp+
  have p: "parse_utc ?st ''0001-01-03T00:00:00Z'' = Inr 259200000000" by code_simp
  obtain now st1 where n: "utc_now ?st = (now, st1)" by (cases "utc_now ?st")
  have "case utc_now ?st of (now, st) \<Rightarrow> parse_utc st now = Inr 86400000000" by code_simp
  then have "parse_utc st1 now = Inr 86400000000" by (simp add: n)
  then have spec: "normalize_goal_waiting_spec_locked ''s'' next_day ?st
      = Inr (Wait_deadline ''0001-01-03T00:00:00Z'', latest_session_log_seq ?st ''s'', st1)"
    unfolding normalize_goal_waiting_spec_locked_def Let_def t future_deadline_def p
    by (simp add: n)
  have "evolves ?st (declare_outcome ''run'' oc (snd (utc_now st1)))" for oc
    using evolves_utc_now [of ?st] evolves_utc_now [of st1] n
    by (auto intro: evolves_trans [OF _ evolves_trans [OF _ evolves_declare]])
  then obtain st' where "save (declare_outcome ''run'' (Declared_waiting (Wait_deadline ''0001-01-03T00:00:00Z'')
      (latest_session_log_seq ?st ''s'') (or_default [] ''GoalManager recorded a waiting decision.'')
      (or_default ''GoalManager'' ''GoalManager'') (fst (utc_now st1))) (snd (utc_now st1))) = Inr st'"
    using save_returns at_work_ok(1) by blast
  then show ?thesis
    by (intro that) (simp add: set_goal_waiting_from_runtime_def x spec case_prod_beta Let_def)
qed

theorem waiting_deadline_ahead_witness:
  "\<exists>k reason by' at st' deadline. set_goal_waiting_from_runtime ''s'' next_day ''GoalManager'' ''run'' []
      (at_work GoalManager ''work'')
      = Inr (Declared_waiting (Wait_deadline ''0001-01-03T00:00:00Z'') k reason by' at, st')
    \<and> parse_utc (at_work GoalManager ''work'') ''0001-01-03T00:00:00Z'' = Inr deadline \<and> 86400000000 < deadline"
proof -
  obtain k reason by' at st' where d: "set_goal_waiting_from_runtime ''s'' next_day ''GoalManager'' ''run'' []
      (at_work GoalManager ''work'')
      = Inr (Declared_waiting (Wait_deadline ''0001-01-03T00:00:00Z'') k reason by' at, st')"
    by (rule next_day_declared)
  have c: "st_clock (at_work GoalManager ''work'') (st_ticks (at_work GoalManager ''work'')) = 86400000000"
    by (simp add: at_work_def asleep_def blank_state_def)
  from waiting_deadline_ahead [OF d, unfolded c] d show ?thesis
    by (auto simp: min_instant_def max_instant_def us_per_day_def)
qed

lemma request_accepted:
  obtains m st' where "append_runtime_message ''s'' ''GoalManager'' ''Session'' ''begin'' [] [] ''run'' [] [] True []
       (at_work GoalManager ''work'') = Inr (m, st')"
proof -
  let ?st = "at_work GoalManager ''work''"
  have s: "get_session ?st ''s'' \<noteq> None" by (simp add: at_work_def asleep_def)
  have r: "resolve_runtime_sender ?st ''GoalManager'' [] = Inr (GoalManager, agent_endpoint GoalManager)"
    "check_runtime_run_binding ?st (py_strip ''GoalManager'') ''run'' = Inr ()"
    "py_strip SESSION_RECIPIENT = SESSION_RECIPIENT" by code_simp+
  have to: "runtime_recipient_endpoint ''s'' SESSION_RECIPIENT [] st = Inr (session_endpoint ''s'', st)" for st
    by (simp add: runtime_recipient_endpoint_def)
  define p where "p = runtime_payload GoalManager (agent_endpoint GoalManager) ''GoalManager'' ''begin'' [] ''run'' []"
  obtain p1 where p1: "request_fields GoalManager SESSION_RECIPIENT True p = Inr p1"
    by (simp add: request_fields_def)
  obtain m st2 where app: "append_session_message_locked ''s'' (agent_endpoint GoalManager) (session_endpoint ''s'')
      p1 [] ?st = Inr (m, st2)"
    using append_message_returns [OF s] by blast
  obtain st' where s': "save st2 = Inr st'" using save_returns [OF evolves_append_message [OF app] at_work_ok(1)] by blast
  have "append_runtime_message ''s'' ''GoalManager'' SESSION_RECIPIENT ''begin'' [] [] ''run'' [] [] True [] ?st = Inr (m, st')"
    unfolding append_runtime_message_def if_not_P [OF s] Let_def r bindR.simps prod.case send_runtime_message_def
      p_def [symmetric] p1 by (simp add: wake_fields_def to app s')
  then show ?thesis by (rule that)
qed


text \<open>A user speaks while the worker's run is out.\<close>

definition attended :: state where
  "attended = (at_work WorkerAgent ''work'')\<lparr>st_users := [(''ann'', new_user ''ann'' [] [] [] [] ''active'' [])]\<rparr>"


end
