(* ===== verification/Json.thy ===== *)
theory Json
  imports Py_Text "HOL-Library.Word"
begin

section \<open>JSON text and its bytes\<close>

text \<open>
  What kernel/storage.py uses of the modules \<open>json\<close> and \<open>codecs\<close>: \<open>json.dumps\<close> with sorted keys,
  \<open>ensure\_ascii=False\<close> and the separators comma and colon, \<open>json.loads\<close>, and UTF-8. No value the
  program stores is a float, so numbers are integers; \<open>loads\<close> answers \<open>None\<close> where Python raises a
  \<open>JSONDecodeError\<close>, and also for a text with a fraction or a character beyond the code points of the
  model. The round trip is proved for every value whose dictionaries have distinct keys.
\<close>

datatype json =
    JNone
  | JFlag bool
  | JNum int
  | JText string
  | JList "json list"
  | JDict "(string \<times> json) list"

subsection \<open>Writing\<close>

definition escape_char :: "char \<Rightarrow> string" where
  "escape_char c =
     (if c = CHR 0x22 then [CHR 0x5C, CHR 0x22]
      else if c = CHR 0x5C then [CHR 0x5C, CHR 0x5C]
      else if c = CHR 0x0A then [CHR 0x5C, CHR ''n'']
      else if c = CHR 0x0D then [CHR 0x5C, CHR ''r'']
      else if c = CHR 0x09 then [CHR 0x5C, CHR ''t'']
      else if c = CHR 0x08 then [CHR 0x5C, CHR ''b'']
      else if c = CHR 0x0C then [CHR 0x5C, CHR ''f'']
      else if code_point c < 32 then CHR 0x5C # CHR ''u'' # pad0 4 (digits_base 16 (code_point c))
      else [c])"

definition text_literal :: "string \<Rightarrow> string" where
  "text_literal s = CHR 0x22 # concat (map escape_char s) @ [CHR 0x22]"

fun write_json :: "json \<Rightarrow> string" where
  "write_json JNone = ''null''"
| "write_json (JFlag b) = (if b then ''true'' else ''false'')"
| "write_json (JNum i) = dec_int i"
| "write_json (JText s) = text_literal s"
| "write_json (JList vs) = ''['' @ py_join '','' (map write_json vs) @ '']''"
| "write_json (JDict kvs) =
     ''{'' @ py_join '','' (map (\<lambda>kv. text_literal (fst kv) @ CHR '':'' # write_json (snd kv)) kvs) @ ''}''"

text \<open>The layout of \<open>indent=2\<close>, at depth \<open>n\<close>.\<close>

definition new_line :: "nat \<Rightarrow> string" where
  "new_line n = CHR 0x0A # replicate (2 * n) (CHR '' '')"

fun write_pretty :: "nat \<Rightarrow> json \<Rightarrow> string" where
  "write_pretty n (JList vs) =
     (if vs = [] then ''[]''
      else ''['' @ new_line (n + 1) @ py_join ('','' @ new_line (n + 1)) (map (write_pretty (n + 1)) vs)
           @ new_line n @ '']'')"
| "write_pretty n (JDict kvs) =
     (if kvs = [] then ''{}''
      else ''{'' @ new_line (n + 1)
           @ py_join ('','' @ new_line (n + 1))
               (map (\<lambda>kv. text_literal (fst kv) @ '': '' @ write_pretty (n + 1) (snd kv)) kvs)
           @ new_line n @ ''}'')"
| "write_pretty n v = write_json v"

text \<open>\<open>sort\_keys=True\<close>.\<close>

fun sort_keys :: "json \<Rightarrow> json" where
  "sort_keys (JList vs) = JList (map sort_keys vs)"
| "sort_keys (JDict kvs) = JDict (sort_key fst (map (\<lambda>kv. (fst kv, sort_keys (snd kv))) kvs))"
| "sort_keys v = v"

definition dumps :: "json \<Rightarrow> string" where
  "dumps v = write_json (sort_keys v)"

definition dumps_pretty :: "json \<Rightarrow> string" where
  "dumps_pretty v = write_pretty 0 (sort_keys v)"

subsection \<open>Reading\<close>

definition json_space :: "char \<Rightarrow> bool" where
  "json_space c = (c = CHR '' '' \<or> c = CHR 0x09 \<or> c = CHR 0x0A \<or> c = CHR 0x0D)"

definition skip_space :: "string \<Rightarrow> string" where
  "skip_space s = dropWhile json_space s"

definition hex_digit :: "char \<Rightarrow> nat option" where
  "hex_digit c = (let n = code_point c in
     if 48 \<le> n \<and> n \<le> 57 then Some (n - 48)
     else if 97 \<le> n \<and> n \<le> 102 then Some (n - 87)
     else if 65 \<le> n \<and> n \<le> 70 then Some (n - 55) else None)"

definition hex4 :: "char \<Rightarrow> char \<Rightarrow> char \<Rightarrow> char \<Rightarrow> nat option" where
  "hex4 a b c d =
     (case (hex_digit a, hex_digit b, hex_digit c, hex_digit d) of
        (Some x, Some y, Some z, Some w) \<Rightarrow> Some (4096 * x + 256 * y + 16 * z + w)
      | _ \<Rightarrow> None)"

definition unescape :: "char \<Rightarrow> char option" where
  "unescape c =
     (if c = CHR 0x22 \<or> c = CHR 0x5C \<or> c = CHR ''/'' then Some c
      else if c = CHR ''b'' then Some (CHR 0x08)
      else if c = CHR ''f'' then Some (CHR 0x0C)
      else if c = CHR ''n'' then Some (CHR 0x0A)
      else if c = CHR ''r'' then Some (CHR 0x0D)
      else if c = CHR ''t'' then Some (CHR 0x09)
      else None)"

text \<open>\<open>scanstring\<close> after the opening quote, with \<open>strict\<close> set.\<close>

fun scan_text :: "string \<Rightarrow> (string \<times> string) option" where
  "scan_text [] = None"
| "scan_text (c # cs) =
     (if c = CHR 0x22 then Some ([], cs)
      else if c = CHR 0x5C then
        (case cs of
           [] \<Rightarrow> None
         | e # cs1 \<Rightarrow>
             if e = CHR ''u'' then
               (case cs1 of
                  a # b # d # f # cs2 \<Rightarrow>
                    (case hex4 a b d f of
                       None \<Rightarrow> None
                     | Some n \<Rightarrow>
                         if n < 256 then map_option (\<lambda>(s, r). (char_of n # s, r)) (scan_text cs2) else None)
                | _ \<Rightarrow> None)
             else (case unescape e of
                     None \<Rightarrow> None
                   | Some x \<Rightarrow> map_option (\<lambda>(s, r). (x # s, r)) (scan_text cs1)))
      else if code_point c < 32 then None
      else map_option (\<lambda>(s, r). (c # s, r)) (scan_text cs))"

text \<open>A number is \<open>-?(0|[1-9][0-9]*)\<close>.\<close>

definition scan_nat :: "string \<Rightarrow> (nat \<times> string) option" where
  "scan_nat s =
     (case s of
        [] \<Rightarrow> None
      | c # cs \<Rightarrow>
          if c = CHR ''0'' then Some (0, cs)
          else if py_isdigit c then Some (digits_value 0 (takeWhile py_isdigit s), dropWhile py_isdigit s)
          else None)"

definition scan_int :: "string \<Rightarrow> (int \<times> string) option" where
  "scan_int s =
     (case s of
        [] \<Rightarrow> None
      | c # cs \<Rightarrow>
          if c = CHR ''-'' then map_option (\<lambda>(n, r). (- int n, r)) (scan_nat cs)
          else map_option (\<lambda>(n, r). (int n, r)) (scan_nat s))"

definition scan_word :: "string \<Rightarrow> json \<Rightarrow> string \<Rightarrow> (json \<times> string) option" where
  "scan_word w v s = (if starts_with w s then Some (v, drop (length w) s) else None)"

definition scan_atom :: "string \<Rightarrow> (json \<times> string) option" where
  "scan_atom s =
     (case s of
        [] \<Rightarrow> None
      | c # cs \<Rightarrow>
          if c = CHR 0x22 then map_option (\<lambda>(t, r). (JText t, r)) (scan_text cs)
          else if c = CHR ''n'' then scan_word ''null'' JNone s
          else if c = CHR ''t'' then scan_word ''true'' (JFlag True) s
          else if c = CHR ''f'' then scan_word ''false'' (JFlag False) s
          else map_option (\<lambda>(i, r). (JNum i, r)) (scan_int s))"

text \<open>\<open>dict(pairs)\<close>.\<close>

definition dict_of :: "(string \<times> json) list \<Rightarrow> (string \<times> json) list" where
  "dict_of kvs = fold (\<lambda>(k, v). AList.update k v) kvs []"

lemma skip_space_length: "length (skip_space s) \<le> length s"
  by (simp add: skip_space_def length_dropWhile_le)

lemma scan_text_length: "scan_text s = Some (t, r) \<Longrightarrow> length r < length s"
proof (induction s arbitrary: t r rule: scan_text.induct)
  case (2 c cs)
  then show ?case
    by (auto split: if_splits list.splits option.splits intro!: less_SucI)
qed simp

text \<open>
  The scanner: a value, the elements of a list after its bracket, the members of a dictionary after its
  brace. The tests that a rest is shorter hold always; they make the termination evident.
\<close>

function scan_value :: "string \<Rightarrow> (json \<times> string) option"
  and scan_elements :: "string \<Rightarrow> (json list \<times> string) option"
  and scan_members :: "string \<Rightarrow> ((string \<times> json) list \<times> string) option" where
  "scan_value s =
     (case s of
        [] \<Rightarrow> None
      | c # cs \<Rightarrow>
          if c = CHR ''['' then
            (case skip_space cs of
               [] \<Rightarrow> None
             | d # ds \<Rightarrow> if d = CHR '']'' then Some (JList [], ds)
                 else map_option (\<lambda>(vs, r). (JList vs, r)) (scan_elements (skip_space cs)))
          else if c = CHR ''{'' then
            (case skip_space cs of
               [] \<Rightarrow> None
             | d # ds \<Rightarrow> if d = CHR ''}'' then Some (JDict [], ds)
                 else map_option (\<lambda>(kvs, r). (JDict (dict_of kvs), r)) (scan_members (skip_space cs)))
          else scan_atom s)"
| "scan_elements s =
     (case scan_value s of
        None \<Rightarrow> None
      | Some (v, r) \<Rightarrow>
          (case skip_space r of
             [] \<Rightarrow> None
           | d # ds \<Rightarrow>
               if d = CHR '']'' then Some ([v], ds)
               else if d = CHR '','' \<and> length ds < length s then
                 map_option (\<lambda>(vs, r). (v # vs, r)) (scan_elements (skip_space ds))
               else None))"
| "scan_members s =
     (case s of
        [] \<Rightarrow> None
      | c # cs \<Rightarrow>
          if c \<noteq> CHR 0x22 then None
          else case scan_text cs of
            None \<Rightarrow> None
          | Some (k, r) \<Rightarrow>
              (case skip_space r of
                 [] \<Rightarrow> None
               | d # ds \<Rightarrow>
                   if d \<noteq> CHR '':'' then None
                   else case scan_value (skip_space ds) of
                     None \<Rightarrow> None
                   | Some (v, r) \<Rightarrow>
                       (case skip_space r of
                          [] \<Rightarrow> None
                        | d # ds \<Rightarrow>
                            if d = CHR ''}'' then Some ([(k, v)], ds)
                            else if d = CHR '','' \<and> length ds < length s then
                              map_option (\<lambda>(kvs, r). ((k, v) # kvs, r)) (scan_members (skip_space ds))
                            else None)))"
  by pat_completeness auto

termination
proof (relation "measure (case_sum (\<lambda>s. 2 * length s) (case_sum (\<lambda>s. 2 * length s + 1) (\<lambda>s. 2 * length s + 1)))",
    goal_cases)
  case (2 s c cs d ds)
  then show ?case using skip_space_length [of cs] by simp
next
  case (3 s c cs d ds)
  then show ?case using skip_space_length [of cs] by simp
next
  case (5 s x v r d ds)
  then show ?case using skip_space_length [of ds] by simp
next
  case (6 s c cs x k r d ds)
  have "length ds < length (skip_space r)" using 6 by simp
  then show ?case
    using 6 skip_space_length [of ds] skip_space_length [of r] scan_text_length [of cs k r] by simp
next
  case (7 s c cs x k r d ds xa v ra da dsa)
  then show ?case using skip_space_length [of dsa] by simp
qed simp_all

declare scan_value.simps [simp del] scan_elements.simps [simp del] scan_members.simps [simp del]

definition loads :: "string \<Rightarrow> json option" where
  "loads s =
     (case scan_value (skip_space s) of
        None \<Rightarrow> None
      | Some (v, r) \<Rightarrow> if skip_space r = [] then Some v else None)"

subsection \<open>What is written is read back\<close>

lemma hex_digit_char: "k < 16 \<Longrightarrow> hex_digit (digit_char k) = Some k"
  by (auto simp: hex_digit_def digit_char_def Let_def)

lemma hex4_control:
  assumes "n < 32"
  obtains a b c d where "pad0 4 (digits_base 16 n) = [a, b, c, d]" "hex4 a b c d = Some n"
proof -
  have z: "digit_char 0 = CHR ''0''" by (simp add: digit_char_def char_of_eq_iff)
  have rep: "replicate 3 x = [x, x, x]" "replicate 2 x = [x, x]" for x :: char
    by (simp_all add: numeral_3_eq_3 numeral_2_eq_2)
  have one: "digits_base 16 k = [digit_char k]" if "k < 16" for k
    using that by (subst digits_base.simps) simp
  have "pad0 4 (digits_base 16 n) = [digit_char 0, digit_char 0, digit_char (n div 16), digit_char (n mod 16)]"
  proof (cases "n < 16")
    case True
    then show ?thesis by (simp add: one pad0_def z rep)
  next
    case False
    have "digits_base 16 n = digits_base 16 (n div 16) @ [digit_char (n mod 16)]"
      using False by (subst digits_base.simps) simp
    then show ?thesis using assms by (simp add: one pad0_def z rep)
  qed
  moreover have "hex4 (digit_char 0) (digit_char 0) (digit_char (n div 16)) (digit_char (n mod 16)) = Some n"
    using assms by (simp add: hex4_def hex_digit_char)
  ultimately show ?thesis by (rule that)
qed

lemma scan_escaped: "scan_text (escape_char c @ rest) = map_option (\<lambda>(s, r). (c # s, r)) (scan_text rest)"
proof (cases "c \<in> {CHR 0x22, CHR 0x5C, CHR 0x0A, CHR 0x0D, CHR 0x09, CHR 0x08, CHR 0x0C}")
  case True
  then show ?thesis by (auto simp: escape_char_def unescape_def)
next
  case plain: False
  show ?thesis
  proof (cases "code_point c < (32 :: nat)")
    case True
    obtain a b d f where h: "pad0 4 (digits_base 16 (code_point c)) = [a, b, d, f]" "hex4 a b d f = Some (code_point c)"
      using True by (rule hex4_control)
    have "escape_char c = [CHR 0x5C, CHR ''u'', a, b, d, f]" using plain True h(1) by (simp add: escape_char_def)
    then show ?thesis using h(2) True by simp
  next
    case False
    then have "escape_char c = [c]" using plain by (simp add: escape_char_def)
    then show ?thesis using plain False by simp
  qed
qed

lemma scan_text_written: "scan_text (concat (map escape_char s) @ CHR 0x22 # rest) = Some (s, rest)"
  by (induction s) (simp_all add: scan_escaped)

lemma dec_head:
  assumes "0 < n"
  shows "hd (dec n) \<noteq> CHR ''0''"
  unfolding dec_def using assms
proof (induction "10::nat" n rule: digits_base.induct)
  case (1 n)
  show ?case
  proof (cases "n < 10")
    case True
    have "code_point (digit_char n) \<noteq> (48 :: nat)" using True 1(2) by (simp add: code_point_digit)
    then have "digit_char n \<noteq> CHR ''0''" by auto
    then show ?thesis using True by (subst digits_base.simps) simp
  next
    case False
    then have "hd (digits_base 10 (n div 10)) \<noteq> CHR ''0''" using 1 by simp
    moreover have "digits_base 10 (n div 10) \<noteq> []" using dec_nonempty [of "n div 10"] by (simp add: dec_def)
    ultimately show ?thesis using False by (subst digits_base.simps) simp
  qed
qed

lemma takeWhile_digits:
  assumes "list_all py_isdigit ds" "rest = [] \<or> \<not> py_isdigit (hd rest)"
  shows "takeWhile py_isdigit (ds @ rest) = ds" "dropWhile py_isdigit (ds @ rest) = rest"
  using assms by (induction ds; cases rest; simp)+

lemma scan_dec:
  assumes "rest = [] \<or> \<not> py_isdigit (hd rest)"
  shows "scan_nat (dec n @ rest) = Some (n, rest)"
proof (cases "n = 0")
  case True
  have "dec 0 = ''0''" by code_simp
  then show ?thesis by (simp add: True scan_nat_def)
next
  case False
  obtain c cs where d: "dec n = c # cs" using dec_nonempty by (meson neq_Nil_conv)
  have "c \<noteq> CHR ''0''" using dec_head [of n] False by (simp add: d)
  moreover have "py_isdigit c" using dec_digits [of n] by (simp add: d)
  moreover note takeWhile_digits [OF dec_digits assms, of n]
  ultimately show ?thesis using digits_value_dec [of n] unfolding scan_nat_def d by simp
qed

lemma scan_dec_int:
  assumes "rest = [] \<or> \<not> py_isdigit (hd rest)"
  shows "scan_int (dec_int i @ rest) = Some (i, rest)"
proof (cases "i < 0")
  case True
  then show ?thesis using scan_dec [OF assms] by (simp add: scan_int_def dec_int_def)
next
  case False
  obtain c cs where d: "dec (nat i) = c # cs" using dec_nonempty by (meson neq_Nil_conv)
  have "c \<noteq> CHR ''-''" using dec_digits [of "nat i"] by (auto simp: d py_isdigit_def)
  then show ?thesis using scan_dec [OF assms, of "nat i"] False by (simp add: scan_int_def dec_int_def d)
qed

text \<open>A dictionary has every key once, at every depth.\<close>

fun json_ok :: "json \<Rightarrow> bool" where
  "json_ok (JList vs) \<longleftrightarrow> (\<forall>v \<in> set vs. json_ok v)"
| "json_ok (JDict kvs) \<longleftrightarrow> distinct (map fst kvs) \<and> (\<forall>kv \<in> set kvs. json_ok (snd kv))"
| "json_ok _ \<longleftrightarrow> True"

lemma dict_of_distinct:
  assumes "distinct (map fst kvs)"
  shows "dict_of kvs = kvs"
proof -
  have "fold (\<lambda>(k, v). AList.update k v) kvs acc = acc @ kvs" if "distinct (map fst (acc @ kvs))" for acc
    using that assms
  proof (induction kvs arbitrary: acc)
    case (Cons kv kvs)
    obtain k v where kv: "kv = (k, v)" by (cases kv)
    have "AList.update k v acc = acc @ [(k, v)]"
      using Cons.prems(1) by (induction acc) (auto simp: kv)
    then show ?case using Cons.IH [of "acc @ [(k, v)]"] Cons.prems by (simp add: kv)
  qed simp
  from this [of "[]"] assms show ?thesis by (simp add: dict_of_def)
qed

text \<open>What may follow a value, and what a value starts with.\<close>

definition delimited :: "string \<Rightarrow> bool" where
  "delimited rest \<longleftrightarrow> rest = [] \<or> hd rest = CHR '','' \<or> hd rest = CHR '']'' \<or> hd rest = CHR ''}'' \<or> json_space (hd rest)"

lemma delimited_digit: "delimited rest \<Longrightarrow> rest = [] \<or> \<not> py_isdigit (hd rest)"
  by (auto simp: delimited_def py_isdigit_def json_space_def)

lemma dec_int_start: "\<exists>c cs. dec_int i = c # cs \<and> (c = CHR ''-'' \<or> py_isdigit c)"
proof -
  obtain c cs where d: "dec (nat i) = c # cs" using dec_nonempty by (meson neq_Nil_conv)
  then have "py_isdigit c" using dec_digits [of "nat i"] by simp
  with d show ?thesis by (simp add: dec_int_def)
qed

lemma write_json_start:
  "\<exists>c cs. write_json v = c # cs \<and> \<not> json_space c \<and> c \<noteq> CHR '']'' \<and> c \<noteq> CHR ''}''"
proof (cases v)
  case (JNum i)
  obtain c cs where d: "dec_int i = c # cs" "c = CHR ''-'' \<or> py_isdigit c" using dec_int_start by blast
  have "py_isdigit c \<Longrightarrow> \<not> json_space c \<and> c \<noteq> CHR '']'' \<and> c \<noteq> CHR ''}''"
    by (auto simp: json_space_def py_isdigit_def)
  moreover have "\<not> json_space (CHR ''-'')" by (simp add: json_space_def)
  ultimately show ?thesis using d by (auto simp: JNum)
qed (auto simp: json_space_def text_literal_def)

lemma skip_space_nonspace: "\<not> json_space c \<Longrightarrow> skip_space (c # cs) = c # cs"
  by (simp add: skip_space_def)

lemma skip_space_written [simp]: "skip_space (write_json v @ rest) = write_json v @ rest"
  using write_json_start [of v] by (auto simp: skip_space_nonspace)

lemma py_join_Cons: "xs \<noteq> [] \<Longrightarrow> py_join sep (x # xs) = x @ sep @ py_join sep xs"
  by (cases xs) simp_all

lemma punctuation: "\<not> json_space (CHR '','')" "\<not> json_space (CHR '']'')" "\<not> json_space (CHR ''}'')"
    "\<not> json_space (CHR '':'')" "\<not> json_space (CHR 0x22)"
  by (simp_all add: json_space_def)

definition blank :: "string \<Rightarrow> bool" where
  "blank s \<longleftrightarrow> (\<forall>c \<in> set s. json_space c)"

lemma blank_simps [simp]: "blank []" "blank (new_line n)" "blank '' ''"
  by (auto simp: blank_def new_line_def json_space_def)

lemma skip_blank: "blank b \<Longrightarrow> skip_space (b @ s) = skip_space s"
  by (simp add: blank_def skip_space_def dropWhile_append2)

lemma blank_delimited: "blank b \<Longrightarrow> delimited r \<Longrightarrow> delimited (b @ r)"
  by (cases b) (auto simp: blank_def delimited_def)

lemma blank_closed [simp]: "blank b \<Longrightarrow> delimited (b @ CHR '']'' # r)" "blank b \<Longrightarrow> delimited (b @ CHR ''}'' # r)"
  by (rule blank_delimited, assumption, simp add: delimited_def)+

text \<open>
  The scanner on a list or a dictionary whose parts a writer \<open>w\<close> wrote: \<open>a\<close> follows the commas, \<open>b\<close> the last
  part and \<open>k\<close> the colons.
\<close>

definition writes :: "(json \<Rightarrow> string) \<Rightarrow> json \<Rightarrow> bool" where
  "writes w v \<longleftrightarrow> (\<forall>r. delimited r \<longrightarrow> scan_value (w v @ r) = Some (v, r)) \<and> (\<forall>r. skip_space (w v @ r) = w v @ r)"

lemma scan_elements_written:
  assumes "vs \<noteq> []" "\<And>v. v \<in> set vs \<Longrightarrow> writes w v" "blank a" "blank b"
  shows "scan_elements (py_join (CHR '','' # a) (map w vs) @ b @ CHR '']'' # rest) = Some (vs, rest)"
  using assms
proof (induction vs)
  case (Cons v vs)
  show ?case
  proof (cases "vs = []")
    case True
    have "scan_value (w v @ b @ CHR '']'' # rest) = Some (v, b @ CHR '']'' # rest)"
      using Cons.prems(2) [of v] assms(4) by (simp add: writes_def)
    then show ?thesis
      by (simp add: True scan_elements.simps [of "w v @ _"] skip_blank [OF assms(4)] skip_space_nonspace punctuation)
  next
    case False
    let ?r = "py_join (CHR '','' # a) (map w vs) @ b @ CHR '']'' # rest"
    have v: "scan_value (w v @ CHR '','' # a @ ?r) = Some (v, CHR '','' # a @ ?r)"
      using Cons.prems(2) [of v] by (simp add: writes_def delimited_def)
    obtain w1 ws where ws: "vs = w1 # ws" using False by (cases vs) auto
    then have sk: "skip_space ?r = ?r" using Cons.prems(2) [of w1] by (cases ws) (simp_all add: writes_def)
    have "py_join (CHR '','' # a) (map w (v # vs)) @ b @ CHR '']'' # rest = w v @ CHR '','' # a @ ?r"
      using False by (simp add: py_join_Cons)
    then show ?thesis
      using Cons.IH [OF False Cons.prems(2) assms(3,4)]
      by (simp add: scan_elements.simps [of "w v @ _"] v skip_space_nonspace punctuation sk skip_blank [OF assms(3)])
  qed
qed simp

lemma scan_members_written:
  assumes "kvs \<noteq> []" "\<And>kv. kv \<in> set kvs \<Longrightarrow> writes w (snd kv)" "blank a" "blank b" "blank k"
  shows "scan_members (py_join (CHR '','' # a) (map (\<lambda>kv. text_literal (fst kv) @ CHR '':'' # k @ w (snd kv)) kvs)
    @ b @ CHR ''}'' # rest) = Some (kvs, rest)"
  using assms
proof (induction kvs)
  case (Cons kv kvs)
  let ?w = "\<lambda>kv. text_literal (fst kv) @ CHR '':'' # k @ w (snd kv)"
  obtain x v where kv: "kv = (x, v)" by (cases kv)
  have x: "scan_text (concat (map escape_char x) @ CHR 0x22 # CHR '':'' # r) = Some (x, CHR '':'' # r)" for r
    by (rule scan_text_written)
  have v: "scan_value (w v @ r) = Some (v, r)" if "delimited r" for r
    using Cons.prems(2) [of kv] that by (simp add: kv writes_def)
  have vs: "skip_space (k @ w v @ r) = w v @ r" for r
    using Cons.prems(2) [of kv] by (simp add: kv writes_def skip_blank [OF assms(5)])
  show ?case
  proof (cases "kvs = []")
    case True
    have "delimited (b @ CHR ''}'' # rest)" using assms(4) by simp
    then show ?thesis
      by (simp add: True kv text_literal_def scan_members.simps [of "_ # _"] x v vs skip_blank [OF assms(4)]
          skip_space_nonspace punctuation)
  next
    case False
    let ?r = "py_join (CHR '','' # a) (map ?w kvs) @ b @ CHR ''}'' # rest"
    obtain w1 ws where "kvs = w1 # ws" using False by (cases kvs) auto
    then have sk: "skip_space ?r = ?r"
      by (cases ws) (simp_all add: text_literal_def skip_space_nonspace punctuation)
    have w: "py_join (CHR '','' # a) (map ?w (kv # kvs)) @ b @ CHR ''}'' # rest
        = CHR 0x22 # concat (map escape_char x) @ CHR 0x22 # CHR '':'' # k @ w v @ CHR '','' # a @ ?r"
      using False by (simp add: py_join_Cons kv text_literal_def)
    have len: "length (a @ ?r) < length (CHR 0x22 # concat (map escape_char x) @ CHR 0x22 # CHR '':''
        # k @ w v @ CHR '','' # a @ ?r)" by simp
    have d: "delimited (CHR '','' # a @ ?r)" by (simp add: delimited_def)
    show ?thesis
      unfolding w using Cons.IH [OF False Cons.prems(2) assms(3-5)] len
      by (subst scan_members.simps)
        (simp add: x v [OF d] vs skip_space_nonspace punctuation sk skip_blank [OF assms(3)] kv)
  qed
qed simp

lemma scan_list_written:
  assumes "\<And>v. v \<in> set vs \<Longrightarrow> writes w v" "blank a" "blank b" "vs \<noteq> []"
  shows "scan_value (CHR ''['' # a @ py_join (CHR '','' # a) (map w vs) @ b @ CHR '']'' # r) = Some (JList vs, r)"
proof -
  let ?b = "py_join (CHR '','' # a) (map w vs) @ b @ CHR '']'' # r"
  have e: "scan_elements ?b = Some (vs, r)" using assms by (intro scan_elements_written) auto
  obtain v ws where v: "vs = v # ws" using assms(4) by (cases vs) auto
  have "skip_space (w v @ q) = w v @ q" for q using assms(1) [of v] by (simp add: v writes_def)
  then have sk: "skip_space ?b = ?b" by (cases ws) (simp_all add: v)
  moreover have "\<exists>c cs. ?b = c # cs \<and> c \<noteq> CHR '']''"
  proof (rule ccontr)
    assume "\<not> ?thesis"
    then have "?b = [] \<or> (\<exists>cs. ?b = CHR '']'' # cs)" by (cases ?b) auto
    then have "scan_elements ?b = None"
      by (subst scan_elements.simps) (auto simp: scan_value.simps scan_atom_def scan_int_def scan_nat_def py_isdigit_def)
    with e show False by simp
  qed
  ultimately show ?thesis using e by (subst scan_value.simps) (auto simp: skip_blank [OF assms(2)])
qed

lemma scan_dict_written:
  assumes "\<And>kv. kv \<in> set kvs \<Longrightarrow> writes w (snd kv)" "blank a" "blank b" "blank k" "kvs \<noteq> []" "distinct (map fst kvs)"
  shows "scan_value (CHR ''{'' # a @ py_join (CHR '','' # a)
      (map (\<lambda>kv. text_literal (fst kv) @ CHR '':'' # k @ w (snd kv)) kvs) @ b @ CHR ''}'' # r) = Some (JDict kvs, r)"
proof -
  let ?b = "py_join (CHR '','' # a) (map (\<lambda>kv. text_literal (fst kv) @ CHR '':'' # k @ w (snd kv)) kvs) @ b @ CHR ''}'' # r"
  have m: "scan_members ?b = Some (kvs, r)" using assms by (intro scan_members_written) auto
  obtain kv ws where "kvs = kv # ws" using assms(5) by (cases kvs) auto
  then obtain cs where cs: "?b = CHR 0x22 # cs" by (cases ws) (simp_all add: text_literal_def)
  then have "skip_space ?b = ?b" by (simp add: skip_space_nonspace punctuation)
  then show ?thesis
    using m cs by (subst scan_value.simps) (auto simp: skip_blank [OF assms(2)] dict_of_distinct [OF assms(6)])
qed

lemma scan_text_value: "scan_value (text_literal t @ r) = Some (JText t, r)"
  by (subst scan_value.simps) (simp add: text_literal_def scan_atom_def scan_text_written)

lemma scan_number_value: "delimited r \<Longrightarrow> scan_value (dec_int i @ r) = Some (JNum i, r)"
proof -
  assume "delimited r"
  obtain c cs where d: "dec_int i = c # cs" "c = CHR ''-'' \<or> py_isdigit c" using dec_int_start by blast
  have "scan_int (dec_int i @ r) = Some (i, r)" using \<open>delimited r\<close> by (intro scan_dec_int delimited_digit)
  moreover have "c \<noteq> CHR ''['' \<and> c \<noteq> CHR ''{'' \<and> c \<noteq> CHR 0x22 \<and> c \<noteq> CHR ''n'' \<and> c \<noteq> CHR ''t'' \<and> c \<noteq> CHR ''f''"
    using d(2) by (auto simp: py_isdigit_def)
  ultimately show ?thesis by (subst scan_value.simps) (simp add: d(1) scan_atom_def)
qed

lemma scan_empty: "scan_value (CHR ''['' # CHR '']'' # r) = Some (JList [], r)"
  "scan_value (CHR ''{'' # CHR ''}'' # r) = Some (JDict [], r)"
  by (subst scan_value.simps, simp add: skip_space_nonspace punctuation)+

lemma scan_words: "scan_value (''null'' @ r) = Some (JNone, r)" "scan_value (''true'' @ r) = Some (JFlag True, r)"
  "scan_value (''false'' @ r) = Some (JFlag False, r)"
  by (subst scan_value.simps, simp add: scan_atom_def scan_word_def starts_with_def)+

lemma written: "json_ok v \<Longrightarrow> writes write_json v"
proof (induction v rule: write_json.induct)
  case (5 vs)
  then show ?case
    using scan_list_written [of vs write_json "[]" "[]"] skip_space_written [of "JList vs"]
    by (cases "vs = []") (auto simp: writes_def scan_empty)
next
  case (6 kvs)
  then show ?case
    using scan_dict_written [of kvs write_json "[]" "[]" "[]"] skip_space_written [of "JDict kvs"]
    by (cases "kvs = []") (auto simp: writes_def scan_empty)
qed (use scan_words scan_text_value scan_number_value skip_space_written [of "JNone"] skip_space_written [of "JFlag _"]
    skip_space_written [of "JText _"] skip_space_written [of "JNum _"] in \<open>auto simp: writes_def\<close>)

lemma written_pretty: "json_ok v \<Longrightarrow> writes (write_pretty n) v"
proof (induction n v rule: write_pretty.induct)
  case (1 n vs)
  then show ?case
    using scan_list_written [of vs "write_pretty (n + 1)" "new_line (n + 1)" "new_line n"]
    by (cases "vs = []") (auto simp: writes_def scan_empty skip_space_nonspace json_space_def)
next
  case (2 n kvs)
  then show ?case
    using scan_dict_written [of kvs "write_pretty (n + 1)" "new_line (n + 1)" "new_line n" "'' ''"]
    by (cases "kvs = []") (auto simp: writes_def scan_empty skip_space_nonspace json_space_def)
qed (unfold writes_def write_pretty.simps, (drule written [unfolded writes_def], assumption)+)

subsection \<open>Sorted keys\<close>

lemma sort_keys_ok: "json_ok v \<Longrightarrow> json_ok (sort_keys v)"
  by (induction v rule: sort_keys.induct) (auto simp: comp_def distinct_map inj_on_def)

lemma sorted_keys_idem: "sort_keys (sort_keys v) = sort_keys v"
proof (induction v rule: sort_keys.induct)
  case (2 kvs)
  let ?f = "\<lambda>kv. (fst kv, sort_keys (snd kv))"
  let ?s = "sort_key fst (map ?f kvs)"
  have "map ?f ?s = ?s" by (rule map_idI) (use 2 in auto)
  moreover have "sort_key fst ?s = ?s" by (rule sort_key_id_if_sorted) simp
  ultimately show ?case by simp
qed simp_all

lemma loads_dumps:
  assumes "json_ok v"
  shows "loads (dumps v) = Some (sort_keys v)"
  using written [OF sort_keys_ok [OF assms]] skip_space_written [of "sort_keys v" "[]"]
  by (auto simp: writes_def loads_def dumps_def delimited_def skip_space_def dest: spec [of _ "[]"])

text \<open>A text file ends in a line feed.\<close>

lemma loads_pretty:
  assumes "json_ok v"
  shows "loads (dumps_pretty v @ new_line 0) = Some (sort_keys v)"
proof -
  have w: "writes (write_pretty 0) (sort_keys v)" by (rule written_pretty [OF sort_keys_ok [OF assms]])
  have "delimited (new_line 0)" using blank_delimited [of "new_line 0" "[]"] by (simp add: delimited_def)
  then show ?thesis using w skip_blank [of "new_line 0" "[]"]
    by (simp add: writes_def loads_def dumps_pretty_def skip_space_def)
qed

lemma dumps_sorted: "dumps (sort_keys v) = dumps v"
  by (simp add: dumps_def sorted_keys_idem)

subsection \<open>UTF-8\<close>

type_synonym byte = "8 word"

definition utf8_char :: "char \<Rightarrow> byte list" where
  "utf8_char c = (let n = code_point c in
     if n < 128 then [of_nat n] else [of_nat (192 + n div 64), of_nat (128 + n mod 64)])"

definition utf8_encode :: "string \<Rightarrow> byte list" where
  "utf8_encode s = concat (map utf8_char s)"

text \<open>A code point from 128 to 255 is one of the leading bytes C2 and C3 with a continuation byte.\<close>

fun utf8_decode :: "byte list \<Rightarrow> string option" where
  "utf8_decode [] = Some []"
| "utf8_decode (b # bs) =
     (if unat b < 128 then map_option ((#) (char_of (unat b))) (utf8_decode bs)
      else if unat b = 194 \<or> unat b = 195 then
        (case bs of
           [] \<Rightarrow> None
         | c # cs \<Rightarrow>
             if 128 \<le> unat c \<and> unat c < 192 then
               map_option ((#) (char_of ((unat b - 192) * 64 + (unat c - 128)))) (utf8_decode cs)
             else None)
      else None)"

lemma unat_byte: "k < 256 \<Longrightarrow> unat (of_nat k :: byte) = k"
  by (simp add: unat_of_nat)

lemma utf8_char_back: "utf8_decode (utf8_char c @ bs) = map_option ((#) c) (utf8_decode bs)"
proof (cases "code_point c < (128 :: nat)")
  case True
  then have "unat (of_nat (code_point c) :: byte) = code_point c" by (simp add: unat_byte)
  then show ?thesis using True by (simp add: utf8_char_def)
next
  case False
  let ?n = "code_point c :: nat"
  have n: "?n < 256" by simp
  define b l where "b = (of_nat (192 + ?n div 64) :: byte)" and "l = (of_nat (128 + ?n mod 64) :: byte)"
  have hi: "unat b = 192 + ?n div 64" unfolding b_def using n by (intro unat_byte) linarith
  have lo: "unat l = 128 + ?n mod 64"
    unfolding l_def using mod_less_divisor [of 64 ?n] by (intro unat_byte) linarith
  have u: "utf8_char c = [b, l]" using False by (simp add: utf8_char_def b_def l_def Let_def)
  have d: "?n div 64 = 2 \<or> ?n div 64 = 3" using False n by linarith
  have "(unat b - 192) * 64 + (unat l - 128) = ?n" by (simp add: hi lo)
  then have same: "char_of ((unat b - 192) * 64 + (unat l - 128)) = c" by (metis char_of_char)
  have "\<not> unat b < 128" "unat b = 194 \<or> unat b = 195" "128 \<le> unat l \<and> unat l < 192"
    using d by (auto simp: hi lo)
  then show ?thesis unfolding u by (simp only: append.simps utf8_decode.simps list.case if_False if_True simp_thms same)
qed

lemma utf8_back: "utf8_decode (utf8_encode s) = Some s"
proof -
  have "utf8_decode (concat (map utf8_char s)) = Some s"
    by (induction s) (simp_all add: utf8_char_back)
  then show ?thesis by (simp add: utf8_encode_def)
qed

end
