(* ===== verification/Log_Frames.thy ===== *)
theory Log_Frames
  imports Json "HOL-Library.Sublist"
begin

unbundle bit_operations_syntax

section \<open>Frames of a log segment\<close>

text \<open>
  The segment files of kernel/storage.py: \<open>FRAME\_HEADER\<close> (eight bytes of magic, the length of the payload in
  eight bytes and its CRC-32 in four, big-endian), \<open>\_encode\_frame\<close> and \<open>\_scan\_segment\<close>. A file is its list
  of bytes. An entry is the dictionary it is stored as.
\<close>

type_synonym entry = "(string \<times> json) list"

subsection \<open>CRC-32\<close>

text \<open>\<open>zlib.crc32\<close>, bit by bit with the reflected polynomial.\<close>

definition crc_bit :: "32 word \<Rightarrow> 32 word" where
  "crc_bit c = (if bit c 0 then drop_bit 1 c XOR 0xEDB88320 else drop_bit 1 c)"

definition crc_byte :: "32 word \<Rightarrow> byte \<Rightarrow> 32 word" where
  "crc_byte c b = (crc_bit ^^ 8) (c XOR ucast b)"

definition crc32 :: "byte list \<Rightarrow> 32 word" where
  "crc32 bs = NOT (foldl crc_byte 0xFFFFFFFF bs)"

subsection \<open>Headers\<close>

text \<open>\<open>struct\<close> with the byte order \<open>>\<close>.\<close>

fun big_endian :: "nat \<Rightarrow> nat \<Rightarrow> byte list" where
  "big_endian 0 n = []"
| "big_endian (Suc k) n = big_endian k (n div 256) @ [of_nat (n mod 256)]"

definition bytes_value :: "byte list \<Rightarrow> nat" where
  "bytes_value bs = foldl (\<lambda>a b. 256 * a + unat b) 0 bs"

definition FRAME_MAGIC :: "byte list" where
  "FRAME_MAGIC = [0x41, 0x49, 0x5A, 0x45, 0x4C, 0x4F, 0x47, 0x32]"

definition FRAME_HEADER_SIZE :: nat where
  "FRAME_HEADER_SIZE = 20"

definition MAX_FRAME_BYTES :: nat where
  "MAX_FRAME_BYTES = 16 * 1024 * 1024"

definition MAX_SEGMENT_BYTES :: nat where
  "MAX_SEGMENT_BYTES = 64 * 1024 * 1024"

definition pack_header :: "nat \<Rightarrow> 32 word \<Rightarrow> byte list" where
  "pack_header len checksum = FRAME_MAGIC @ big_endian 8 len @ big_endian 4 (unat checksum)"

definition unpack_header :: "byte list \<Rightarrow> byte list \<times> nat \<times> nat" where
  "unpack_header h = (take 8 h, bytes_value (take 8 (drop 8 h)), bytes_value (drop 16 h))"

subsection \<open>Writing and scanning\<close>

definition entry_bytes :: "entry \<Rightarrow> byte list" where
  "entry_bytes e = utf8_encode (dumps (JDict e))"

definition encode_frame :: "entry \<Rightarrow> byte list res" where
  "encode_frame e =
     (let payload = entry_bytes e in
      if length payload > MAX_FRAME_BYTES then
        Inl (StoreError (''SessionLog record exceeds '' @ dec MAX_FRAME_BYTES @ '' bytes''))
      else Inr (pack_header (length payload) (crc32 payload) @ payload))"

definition decode_payload :: "byte list \<Rightarrow> entry option" where
  "decode_payload payload =
     (case utf8_decode payload of
        None \<Rightarrow> None
      | Some s \<Rightarrow> (case loads s of Some (JDict e) \<Rightarrow> Some e | _ \<Rightarrow> None))"

text \<open>The loop over the file: the entries read, the number of valid bytes, and whether it stopped early.\<close>

function scan_frames :: "byte list \<Rightarrow> entry list \<times> nat \<times> bool" where
  "scan_frames bs =
     (if bs = [] then ([], 0, False)
      else
        let header = take FRAME_HEADER_SIZE bs in
        if length header \<noteq> FRAME_HEADER_SIZE then ([], 0, True)
        else
          let (magic, len, checksum) = unpack_header header in
          if magic \<noteq> FRAME_MAGIC \<or> len > MAX_FRAME_BYTES then ([], 0, True)
          else
            let payload = take len (drop FRAME_HEADER_SIZE bs) in
            if length payload \<noteq> len \<or> unat (crc32 payload) \<noteq> checksum then ([], 0, True)
            else
              case decode_payload payload of
                None \<Rightarrow> ([], 0, True)
              | Some e \<Rightarrow>
                  let (es, n, torn) = scan_frames (drop (FRAME_HEADER_SIZE + len) bs)
                  in (e # es, FRAME_HEADER_SIZE + len + n, torn))"
  by pat_completeness auto

termination
  by (relation "measure length") (auto simp: FRAME_HEADER_SIZE_def)

declare scan_frames.simps [simp del]

text \<open>\<open>\_scan\_segment\<close>: what was read, and the file, cut to its valid part if it is to be recovered.\<close>

definition scan_segment :: "bool \<Rightarrow> byte list \<Rightarrow> (entry list \<times> nat \<times> bool) \<times> byte list" where
  "scan_segment recover file =
     (let (es, n, torn) = scan_frames file
      in ((es, n, torn), if torn \<and> recover then take n file else file))"

subsection \<open>Headers are read back\<close>

lemma length_big_endian [simp]: "length (big_endian k n) = k"
  by (induction k arbitrary: n) auto

lemma bytes_value_snoc: "bytes_value (bs @ [b]) = 256 * bytes_value bs + unat b"
  by (simp add: bytes_value_def)

lemma bytes_value_big_endian: "n < 256 ^ k \<Longrightarrow> bytes_value (big_endian k n) = n"
proof (induction k arbitrary: n)
  case (Suc k)
  then have "n div 256 < 256 ^ k" by (simp add: less_mult_imp_div_less mult.commute)
  then show ?case using Suc.IH by (simp add: bytes_value_snoc unat_byte)
qed (simp add: bytes_value_def)

lemma bytes_value_bound: "bytes_value bs < 256 ^ length bs"
proof (induction bs rule: rev_induct)
  case (snoc b bs)
  have "unat b < 256" using unsigned_less [of b, where ?'a = nat] by simp
  with snoc show ?case by (simp add: bytes_value_snoc)
qed (simp add: bytes_value_def)

lemma length_pack [simp]: "length (pack_header n c) = FRAME_HEADER_SIZE"
  by (simp add: pack_header_def FRAME_MAGIC_def FRAME_HEADER_SIZE_def)

lemma unpack_pack:
  assumes "n \<le> MAX_FRAME_BYTES"
  shows "unpack_header (pack_header n c) = (FRAME_MAGIC, n, unat c)"
proof -
  have m: "length FRAME_MAGIC = 8" by (simp add: FRAME_MAGIC_def)
  have "n < 256 ^ 8" using assms by (simp add: MAX_FRAME_BYTES_def)
  moreover have "unat c < 256 ^ 4" using unsigned_less [of c, where ?'a = nat] by simp
  ultimately show ?thesis by (simp add: unpack_header_def pack_header_def m bytes_value_big_endian)
qed

subsection \<open>Frames are read back\<close>

definition canonical :: "entry \<Rightarrow> entry" where
  "canonical e = (case sort_keys (JDict e) of JDict d \<Rightarrow> d | _ \<Rightarrow> [])"

definition entry_fits :: "entry \<Rightarrow> bool" where
  "entry_fits e \<longleftrightarrow> json_ok (JDict e) \<and> length (entry_bytes e) \<le> MAX_FRAME_BYTES"

definition frame :: "entry \<Rightarrow> byte list" where
  "frame e = pack_header (length (entry_bytes e)) (crc32 (entry_bytes e)) @ entry_bytes e"

lemma encode_frame_iff: "encode_frame e = Inr bs \<longleftrightarrow> length (entry_bytes e) \<le> MAX_FRAME_BYTES \<and> bs = frame e"
  by (auto simp: encode_frame_def frame_def Let_def)

lemma sort_keys_dict: "sort_keys (JDict e) = JDict (canonical e)"
  by (simp add: canonical_def)

lemma map_of_sort_key: "distinct (map fst kvs) \<Longrightarrow> map_of (sort_key fst kvs) = map_of kvs"
  by (subst map_of_inject_set) (auto simp: distinct_map)

lemma map_of_canonical:
  assumes "json_ok (JDict e)"
  shows "map_of (canonical e) k = map_option sort_keys (map_of e k)"
proof -
  let ?m = "map (\<lambda>kv. (fst kv, sort_keys (snd kv))) e"
  have "distinct (map fst ?m)" using assms by (simp add: comp_def)
  then have "map_of (canonical e) k = map_of ?m k" by (simp add: canonical_def map_of_sort_key)
  also have "\<dots> = map_option sort_keys (map_of e k)" by (induction e) auto
  finally show ?thesis .
qed

lemma canonical_idem [simp]: "canonical (canonical e) = canonical e"
  using sorted_keys_idem [of "JDict e"] by (simp only: sort_keys_dict json.inject)

lemma entry_bytes_canonical [simp]: "entry_bytes (canonical e) = entry_bytes e"
  using dumps_sorted [of "JDict e"] by (simp only: sort_keys_dict entry_bytes_def)

lemma frame_canonical [simp]: "frame (canonical e) = frame e"
  by (simp add: frame_def)

lemma canonical_fits: "entry_fits e \<Longrightarrow> entry_fits (canonical e)"
  using sort_keys_ok [of "JDict e"] by (simp only: entry_fits_def sort_keys_dict entry_bytes_canonical)

lemma decode_entry: "json_ok (JDict e) \<Longrightarrow> decode_payload (entry_bytes e) = Some (canonical e)"
  unfolding decode_payload_def entry_bytes_def utf8_back option.case
  by (simp only: loads_dumps sort_keys_dict option.case json.case)

lemma length_frame: "length (frame e) = FRAME_HEADER_SIZE + length (entry_bytes e)"
  by (simp add: frame_def)

lemma header_positive: "0 < FRAME_HEADER_SIZE"
  by (simp add: FRAME_HEADER_SIZE_def)

lemma scan_frame:
  assumes "entry_fits e"
  shows "scan_frames (frame e @ rest)
    = (let (es, n, torn) = scan_frames rest in (canonical e # es, length (frame e) + n, torn))"
proof -
  let ?p = "entry_bytes e"
  let ?h = "pack_header (length ?p) (crc32 ?p)"
  have fits: "length ?p \<le> MAX_FRAME_BYTES" and ok: "json_ok (JDict e)" using assms by (simp_all add: entry_fits_def)
  have ne: "frame e @ rest \<noteq> []" using header_positive by (auto simp: frame_def dest: arg_cong [where f = length])
  have h: "take FRAME_HEADER_SIZE (frame e @ rest) = ?h" by (simp add: frame_def)
  have p: "take (length ?p) (drop FRAME_HEADER_SIZE (frame e @ rest)) = ?p" by (simp add: frame_def)
  have r: "drop (FRAME_HEADER_SIZE + length ?p) (frame e @ rest) = rest" by (simp add: frame_def)
  show ?thesis
    unfolding scan_frames.simps [of "frame e @ rest"] if_not_P [OF ne] Let_def h unpack_pack [OF fits] prod.case p
      decode_entry [OF ok] option.case r length_frame
    using fits by simp
qed

lemma scan_all_frames:
  assumes "\<forall>e \<in> set es. entry_fits e"
  shows "scan_frames (concat (map frame es) @ rest)
    = (let (ds, n, torn) = scan_frames rest in (map canonical es @ ds, length (concat (map frame es)) + n, torn))"
  using assms by (induction es) (simp_all add: scan_frame case_prod_beta Let_def)

lemma scan_nothing [simp]: "scan_frames [] = ([], 0, False)"
  by (simp add: scan_frames.simps)

lemma scan_torn:
  assumes "entry_fits e" "p \<noteq> []" "strict_prefix p (frame e)"
  shows "scan_frames p = ([], 0, True)"
proof -
  obtain q where q: "frame e = p @ q" "q \<noteq> []" using assms(3) by (auto simp: strict_prefix_def prefix_def)
  show ?thesis
  proof (cases "length p < FRAME_HEADER_SIZE")
    case True
    then show ?thesis using assms(2) by (simp add: scan_frames.simps Let_def)
  next
    case False
    let ?b = "entry_bytes e"
    have fits: "length ?b \<le> MAX_FRAME_BYTES" using assms(1) by (simp add: entry_fits_def)
    have h: "take FRAME_HEADER_SIZE p = pack_header (length ?b) (crc32 ?b)"
    proof -
      have "take FRAME_HEADER_SIZE (frame e) = pack_header (length ?b) (crc32 ?b)" by (simp add: frame_def)
      then show ?thesis using False by (simp add: q(1))
    qed
    have "0 < length q" using q(2) by simp
    then have "length p < FRAME_HEADER_SIZE + length ?b"
      unfolding length_frame [symmetric] q(1) length_append by linarith
    then have short: "length (take (length ?b) (drop FRAME_HEADER_SIZE p)) \<noteq> length ?b"
      using False by simp
    show ?thesis
      unfolding scan_frames.simps [of p] if_not_P [OF assms(2)] Let_def h unpack_pack [OF fits] prod.case
      by (simp del: length_take length_drop add: short)
  qed
qed

text \<open>A crash leaves some prefix of the frames that were being written.\<close>

lemma prefix_of_frames:
  assumes "prefix p (concat (map frame es))"
  obtains k q where "k \<le> length es" "p = concat (map frame (take k es)) @ q"
    "q = [] \<or> (k < length es \<and> strict_prefix q (frame (es ! k)))"
  using assms
proof (induction es arbitrary: p thesis)
  case Nil
  then show ?case by simp
next
  case (Cons e es)
  show ?case
  proof (cases "strict_prefix p (frame e)")
    case True
    then show ?thesis by (intro Cons.prems(1) [of 0 p]) simp_all
  next
    case False
    have "prefix p (frame e @ concat (map frame es))" using Cons.prems(2) by simp
    then have "prefix p (frame e) \<or> (\<exists>p'. p = frame e @ p' \<and> prefix p' (concat (map frame es)))"
      by (simp only: prefix_append)
    then obtain p' where p: "p = frame e @ p'" "prefix p' (concat (map frame es))"
      using False by (auto simp: strict_prefix_def)
    obtain k q where "k \<le> length es" "p' = concat (map frame (take k es)) @ q"
      "q = [] \<or> (k < length es \<and> strict_prefix q (frame (es ! k)))"
      using Cons.IH [OF _ p(2)] by blast
    then show ?thesis by (intro Cons.prems(1) [of "Suc k" q]) (auto simp: p(1))
  qed
qed

subsection \<open>Damage is noticed\<close>

text \<open>The top bit of the polynomial tells which way a step of the checksum went, so the step is injective.\<close>

lemma xor_cancel:
  fixes c d u :: "'a::len word"
  assumes "c XOR u = d XOR u"
  shows "c = d"
proof -
  have "(c XOR u) XOR u = (d XOR u) XOR u" by (simp only: assms)
  then show ?thesis by (simp only: xor.assoc xor_self_eq xor.right_neutral)
qed

lemma crc_bit_inj: "inj crc_bit"
proof (rule injI)
  fix c d :: "32 word"
  assume eq: "crc_bit c = crc_bit d"
  have top: "bit (crc_bit c) 31 = odd c" for c :: "32 word"
    using bit_imp_le_length [of c 32] by (auto simp: crc_bit_def bit_0 bit_xor_iff bit_drop_bit_eq)
  then have o: "odd c = odd d" using eq by metis
  then have shifted: "drop_bit 1 c = drop_bit 1 d"
    using eq xor_cancel [of "drop_bit 1 c" _ "drop_bit 1 d"] by (simp add: crc_bit_def bit_0 split: if_splits)
  show "c = d"
  proof (rule bit_word_eqI)
    fix n
    show "bit c n \<longleftrightarrow> bit d n"
    proof (cases n)
      case 0
      then show ?thesis using o by (simp add: bit_0)
    next
      case (Suc m)
      have "bit (drop_bit 1 c) m = bit (drop_bit 1 d) m" by (simp only: shifted)
      then show ?thesis by (simp add: Suc bit_drop_bit_eq)
    qed
  qed
qed

lemma crc_bit_pow_inj: "inj (crc_bit ^^ n)"
proof (induction n)
  case (Suc n)
  show ?case unfolding funpow.simps by (rule inj_compose [OF crc_bit_inj Suc])
qed simp

lemma crc_byte_inj_state: "crc_byte c b = crc_byte d b \<Longrightarrow> c = d"
  unfolding crc_byte_def by (rule xor_cancel [OF injD [OF crc_bit_pow_inj]])

lemma crc_byte_inj_byte:
  assumes "crc_byte c a = crc_byte c b"
  shows "a = b"
proof -
  have "c XOR ucast a = c XOR ucast b" using assms unfolding crc_byte_def by (rule injD [OF crc_bit_pow_inj])
  then have "ucast a XOR c = ucast b XOR c" by (simp only: xor.commute [of c])
  then have u: "(ucast a :: 32 word) = ucast b" by (rule xor_cancel)
  show ?thesis
  proof (rule bit_word_eqI)
    fix n assume n: "n < LENGTH(8)"
    have "bit (ucast a :: 32 word) n = bit (ucast b :: 32 word) n" by (simp only: u)
    then show "bit a n = bit b n" using n by (simp add: bit_ucast_iff)
  qed
qed

lemma crc_fold_inj: "foldl crc_byte c bs = foldl crc_byte d bs \<Longrightarrow> c = d"
  by (induction bs arbitrary: c d) (auto dest: crc_byte_inj_state)

lemma crc_fold_damage:
  assumes "j < length bs" "bs ! j \<noteq> b"
  shows "foldl crc_byte c (bs[j := b]) \<noteq> foldl crc_byte c bs"
proof
  let ?c = "foldl crc_byte c (take j bs)"
  assume eq: "foldl crc_byte c (bs[j := b]) = foldl crc_byte c bs"
  have "foldl crc_byte c bs = foldl crc_byte (crc_byte ?c (bs ! j)) (drop (Suc j) bs)"
    using arg_cong [OF id_take_nth_drop [OF assms(1)], of "foldl crc_byte c"] by simp
  moreover have "foldl crc_byte c (bs[j := b]) = foldl crc_byte (crc_byte ?c b) (drop (Suc j) bs)"
    using assms(1) by (simp add: upd_conv_take_nth_drop)
  ultimately have "foldl crc_byte (crc_byte ?c b) (drop (Suc j) bs)
      = foldl crc_byte (crc_byte ?c (bs ! j)) (drop (Suc j) bs)" using eq by simp
  then have "crc_byte ?c b = crc_byte ?c (bs ! j)" by (rule crc_fold_inj)
  then have "b = bs ! j" by (rule crc_byte_inj_byte)
  then show False using assms(2) by simp
qed

lemma crc32_damage: "j < length bs \<Longrightarrow> bs ! j \<noteq> b \<Longrightarrow> crc32 (bs[j := b]) \<noteq> crc32 bs"
  unfolding crc32_def using crc_fold_damage by (metis bit.double_compl)

lemma bytes_value_inj: "length as = length bs \<Longrightarrow> bytes_value as = bytes_value bs \<Longrightarrow> as = bs"
proof (induction as arbitrary: bs rule: rev_induct)
  case (snoc a as)
  from snoc.prems(1) obtain b cs where bs: "bs = cs @ [b]" "length cs = length as"
    by (metis append_butlast_last_id length_0_conv length_append_singleton length_butlast diff_Suc_1 nat.simps(3))
  have "unat a < 256" "unat b < 256"
    using unsigned_less [of a, where ?'a = nat] unsigned_less [of b, where ?'a = nat] by simp_all
  moreover have "x = y \<and> k = l" if "256 * x + k = 256 * y + l" "k < 256" "l < 256" for x y k l :: nat
  proof -
    have "(256 * x + k) div 256 = x" "(256 * y + l) div 256 = y" using that(2,3) by simp_all
    then show ?thesis using that(1) by simp
  qed
  ultimately have "bytes_value as = bytes_value cs \<and> unat a = unat b"
    using snoc.prems(2) unfolding bs bytes_value_snoc by blast
  then show ?case using snoc.IH [of cs] bs by (auto intro: unsigned_word_eqI)
qed simp

text \<open>A byte of a frame that is neither in the length field nor what it was.\<close>

lemma scan_damaged:
  assumes "entry_fits e" "j < length (frame e)" "j < 8 \<or> 16 \<le> j" "frame e ! j \<noteq> b"
  shows "scan_frames ((frame e)[j := b] @ rest) = ([], 0, True)"
proof -
  let ?p = "entry_bytes e"
  let ?c = "crc32 ?p"
  let ?l = "big_endian 8 (length ?p)"
  let ?s = "big_endian 4 (unat ?c)"
  have fits: "length ?p \<le> MAX_FRAME_BYTES" using assms(1) by (simp add: entry_fits_def)
  have m8: "length FRAME_MAGIC = 8" by (simp add: FRAME_MAGIC_def)
  have fr: "frame e = FRAME_MAGIC @ ?l @ ?s @ ?p" by (simp add: frame_def pack_header_def)
  have len: "bytes_value ?l = length ?p"
    by (rule bytes_value_big_endian) (use fits in \<open>simp add: MAX_FRAME_BYTES_def\<close>)
  have sum: "bytes_value ?s = unat ?c"
    by (rule bytes_value_big_endian) (use unsigned_less [of ?c, where ?'a = nat] in simp)
  obtain m s p where upd: "(frame e)[j := b] = m @ ?l @ s @ p" and lens: "length m = 8" "length s = 4" "length p = length ?p"
    and bad: "m \<noteq> FRAME_MAGIC \<or> m = FRAME_MAGIC \<and> bytes_value s \<noteq> unat (crc32 p)"
  proof -
    consider "j < 8" | "16 \<le> j" "j < 20" | "20 \<le> j" using assms(3) by linarith
    then show thesis
    proof cases
      case 1
      have "FRAME_MAGIC ! j \<noteq> b" using assms(4) 1 by (simp add: fr nth_append m8)
      then have "FRAME_MAGIC[j := b] \<noteq> FRAME_MAGIC" using 1 m8 by (metis nth_list_update_eq)
      then show thesis using 1 by (intro that [of "FRAME_MAGIC[j := b]" ?s ?p]) (simp_all add: fr list_update_append m8)
    next
      case 2
      obtain i where j: "j = 16 + i" "i < 4" using that [of "j - 16"] 2 by simp
      have "?s ! i \<noteq> b" using assms(4) j(2) by (simp add: fr j(1) nth_append m8)
      then have "?s[i := b] \<noteq> ?s" using j(2) by (metis length_big_endian nth_list_update_eq)
      then have "bytes_value (?s[i := b]) \<noteq> unat ?c" using bytes_value_inj [of "?s[i := b]" ?s] sum by auto
      then show thesis using j(2)
        by (intro that [of FRAME_MAGIC "?s[i := b]" ?p]) (simp_all add: fr j(1) list_update_append m8)
    next
      case 3
      then obtain i where j: "j = 20 + i" by (metis le_Suc_ex)
      have i: "i < length ?p" using assms(2) by (simp add: fr j m8)
      have "?p ! i \<noteq> b" using assms(4) by (simp add: fr j nth_append m8)
      then have "crc32 (?p[i := b]) \<noteq> ?c" using i by (intro crc32_damage)
      then have "bytes_value ?s \<noteq> unat (crc32 (?p[i := b]))" unfolding sum by (metis unsigned_word_eqI)
      then show thesis
        by (intro that [of FRAME_MAGIC ?s "?p[i := b]"]) (simp_all add: fr j list_update_append m8)
    qed
  qed
  let ?f = "m @ ?l @ s @ p @ rest"
  have ne: "?f \<noteq> []" using lens(1) by auto
  have h: "take FRAME_HEADER_SIZE ?f = m @ ?l @ s" "drop FRAME_HEADER_SIZE ?f = p @ rest"
    using lens by (simp_all add: FRAME_HEADER_SIZE_def)
  have u: "unpack_header (m @ ?l @ s) = (m, length ?p, bytes_value s)"
    using lens len by (simp add: unpack_header_def)
  have "scan_frames ?f = ([], 0, True)"
    unfolding scan_frames.simps [of ?f] if_not_P [OF ne] Let_def h u prod.case
    using lens bad by (auto simp: FRAME_HEADER_SIZE_def)
  then show ?thesis by (simp add: upd)
qed

text \<open>C36: A damaged byte is never read as data: if one byte of a frame is changed, anywhere but in its length
  field, the scan returns the entries of the frames before it and reports that it stopped early.\<close>

theorem damaged_frame_rejected:
  assumes "\<forall>d \<in> set es. entry_fits d" "entry_fits e" "j < length (frame e)" "j < 8 \<or> 16 \<le> j" "frame e ! j \<noteq> b"
  shows "scan_frames (concat (map frame es) @ (frame e)[j := b] @ rest)
    = (map canonical es, length (concat (map frame es)), True)"
  unfolding scan_all_frames [OF assms(1)] scan_damaged [OF assms(2-5)] by simp

end
