(* ===== verification/Log_Store.thy ===== *)
theory Log_Store
  imports Log_Frames
begin

section \<open>The log directory of a session\<close>

text \<open>
  The log part of kernel/storage.py: a directory holds segment files of frames and \<open>log.index.json\<close>, which
  caches what a scan of the segments would find. \<open>ld\_files\<close> are the files below \<open>log/\<close> by their relative path,
  \<open>ld\_index\<close> the index when the file exists. Every entry the program logs carries an integer \<open>seq\<close> and a
  textual \<open>session\_id\<close> (\<open>\_append\_session\_log\_entry\<close>).
\<close>

record segment_index =
  si_path :: string
  si_start_seq :: int
  si_end_seq :: int
  si_records :: nat
  si_bytes :: nat

record log_index =
  li_session_id :: string
  li_latest_seq :: int
  li_record_count :: nat
  li_message_count :: nat
  li_segments :: "segment_index list"

record log_dir =
  ld_index :: "log_index option"
  ld_files :: "(string \<times> byte list) list"

definition entry_seq :: "entry \<Rightarrow> int" where
  "entry_seq e = (case map_of e ''seq'' of Some (JNum i) \<Rightarrow> i | _ \<Rightarrow> 0)"

definition entry_session :: "entry \<Rightarrow> string" where
  "entry_session e = (case map_of e ''session_id'' of Some (JText s) \<Rightarrow> s | _ \<Rightarrow> [])"

definition is_message :: "entry \<Rightarrow> bool" where
  "is_message e = (case map_of e ''kind'' of Some (JText s) \<Rightarrow> s = ''Message'' | _ \<Rightarrow> False)"

definition message_count :: "entry list \<Rightarrow> nat" where
  "message_count es = length (filter is_message es)"

fun validate_sequence :: "string \<Rightarrow> int \<Rightarrow> entry list \<Rightarrow> unit res" where
  "validate_sequence sid expected [] = Inr ()"
| "validate_sequence sid expected (e # es) =
     (if entry_session e \<noteq> sid then
        Inl (StoreError (''SessionLog entry belongs to another Session: '' @ sid))
      else if entry_seq e \<noteq> expected then
        Inl (StoreError (''SessionLog sequence mismatch for '' @ sid @ '': expected '' @ dec_int expected
                         @ '', got '' @ dec_int (entry_seq e)))
      else validate_sequence sid (expected + 1) es)"

definition segment_path :: "int \<Rightarrow> string" where
  "segment_path start_seq = ''log/'' @ pad0 20 (dec_int start_seq) @ ''.aizelog''"

definition segment_paths :: "log_dir \<Rightarrow> string list" where
  "segment_paths d = sort (dict_keys (ld_files d))"

definition file_bytes :: "log_dir \<Rightarrow> string \<Rightarrow> byte list" where
  "file_bytes d p = (case map_of (ld_files d) p of None \<Rightarrow> [] | Some bs \<Rightarrow> bs)"

definition write_file :: "string \<Rightarrow> byte list \<Rightarrow> log_dir \<Rightarrow> log_dir" where
  "write_file p bs d = d\<lparr>ld_files := AList.update p bs (ld_files d)\<rparr>"

subsection \<open>The index and its recovery\<close>

text \<open>One round of the loop of \<open>\_build\_session\_log\_index\<close>; the file is cut if it is torn.\<close>

definition index_segment :: "string \<Rightarrow> bool \<Rightarrow> string \<Rightarrow> log_index \<times> log_dir \<Rightarrow> (log_index \<times> log_dir) res" where
  "index_segment sid recover path acc =
     (let (i, d) = acc;
          ((entries, valid_bytes, truncated), content) = scan_segment recover (file_bytes d path);
          d1 = (if truncated \<and> recover then write_file path content d else d);
          expected_seq = li_latest_seq i + 1
      in if truncated \<and> \<not> recover then Inl (StoreError (''torn SessionLog frame: '' @ path))
         else
           bindR (if entries = [] then Inr ()
                  else if entry_seq (hd entries) \<noteq> expected_seq then
                    Inl (StoreError (''SessionLog sequence mismatch for '' @ sid @ '': expected ''
                                     @ dec_int expected_seq))
                  else validate_sequence sid expected_seq entries) (\<lambda>_.
             Inr (i\<lparr>li_latest_seq := (if entries = [] then li_latest_seq i else entry_seq (last entries)),
                    li_record_count := li_record_count i + length entries,
                    li_message_count := li_message_count i + message_count entries,
                    li_segments := li_segments i @
                      [\<lparr>si_path = path,
                        si_start_seq = (if entries = [] then expected_seq else entry_seq (hd entries)),
                        si_end_seq = (if entries = [] then expected_seq - 1 else entry_seq (last entries)),
                        si_records = length entries, si_bytes = valid_bytes\<rparr>]\<rparr>, d1)))"

definition empty_index :: "string \<Rightarrow> log_index" where
  "empty_index sid = \<lparr>li_session_id = sid, li_latest_seq = 0, li_record_count = 0, li_message_count = 0,
     li_segments = []\<rparr>"

definition build_session_log_index :: "string \<Rightarrow> bool \<Rightarrow> log_dir \<Rightarrow> (log_index \<times> log_dir) res" where
  "build_session_log_index sid recover d =
     foldR (index_segment sid recover) (segment_paths d) (empty_index sid, d)"

text \<open>The index is trusted when the last segment has the size it records.\<close>

definition index_current :: "log_dir \<Rightarrow> log_index \<Rightarrow> bool" where
  "index_current d i =
     (li_segments i \<noteq> [] \<and>
      (case map_of (ld_files d) (si_path (last (li_segments i))) of
         None \<Rightarrow> False
       | Some bs \<Rightarrow> length bs = si_bytes (last (li_segments i))))"

definition rebuild_index :: "string \<Rightarrow> log_dir \<Rightarrow> (log_index \<times> log_dir) res" where
  "rebuild_index sid d =
     bindR (build_session_log_index sid True d) (\<lambda>(i, d1). Inr (i, d1\<lparr>ld_index := Some i\<rparr>))"

definition recover_session_log :: "string \<Rightarrow> bool \<Rightarrow> log_dir \<Rightarrow> (log_index \<times> log_dir) res" where
  "recover_session_log sid full d =
     (case ld_index d of
        Some i \<Rightarrow> if \<not> full \<and> index_current d i then Inr (i, d) else rebuild_index sid d
      | None \<Rightarrow> rebuild_index sid d)"

subsection \<open>Appending\<close>

text \<open>The sequence check of \<open>append_session_log_entries\<close>; here the number is compared before the session.\<close>

fun check_pending :: "string \<Rightarrow> int \<Rightarrow> entry list \<Rightarrow> unit res" where
  "check_pending sid expected [] = Inr ()"
| "check_pending sid expected (e # es) =
     (if entry_seq e \<noteq> expected then
        Inl (StoreError (''SessionLog sequence mismatch for '' @ sid @ '': expected '' @ dec_int expected
                         @ '', got '' @ dec_int (entry_seq e)))
      else if entry_session e \<noteq> sid then
        Inl (StoreError (''SessionLog entry belongs to another Session: '' @ sid))
      else check_pending sid (expected + 1) es)"

fun encode_frames :: "entry list \<Rightarrow> byte list res" where
  "encode_frames [] = Inr []"
| "encode_frames (e # es) = bindR (encode_frame e) (\<lambda>f. bindR (encode_frames es) (\<lambda>fs. Inr (f @ fs)))"

definition active_segment_path :: "log_index \<Rightarrow> int \<Rightarrow> string" where
  "active_segment_path i first_seq =
     (if li_segments i \<noteq> [] \<and> si_path (last (li_segments i)) \<noteq> [] then si_path (last (li_segments i))
      else segment_path first_seq)"

text \<open>The segment the frames go to and the size it is taken to have.\<close>

definition target_segment :: "log_dir \<Rightarrow> log_index \<Rightarrow> int \<Rightarrow> nat \<Rightarrow> string \<times> nat" where
  "target_segment d i first_seq frame_bytes =
     (let active = active_segment_path i first_seq;
          existing = length (file_bytes d active)
      in if existing \<noteq> 0 \<and> existing + frame_bytes > MAX_SEGMENT_BYTES then (segment_path first_seq, 0)
         else (active, existing))"

text \<open>The record of the segment in the index is changed, after it was added if the index has none.\<close>

fun change_segment :: "segment_index \<Rightarrow> (segment_index \<Rightarrow> segment_index) \<Rightarrow> segment_index list \<Rightarrow> segment_index list" where
  "change_segment new f [] = [f new]"
| "change_segment new f (s # ss) = (if si_path s = si_path new then f s # ss else s # change_segment new f ss)"

definition index_appended :: "string \<Rightarrow> nat \<Rightarrow> nat \<Rightarrow> entry list \<Rightarrow> int \<Rightarrow> log_index \<Rightarrow> log_index" where
  "index_appended path existing frame_bytes pending persisted i =
     i\<lparr>li_segments := change_segment
          \<lparr>si_path = path, si_start_seq = entry_seq (hd pending), si_end_seq = persisted, si_records = 0,
           si_bytes = existing\<rparr>
          (\<lambda>s. s\<lparr>si_end_seq := entry_seq (last pending), si_records := si_records s + length pending,
                  si_bytes := existing + frame_bytes\<rparr>)
          (li_segments i),
       li_latest_seq := entry_seq (last pending),
       li_record_count := li_record_count i + length pending,
       li_message_count := li_message_count i + message_count pending\<rparr>"

definition append_session_log_entries :: "string \<Rightarrow> entry list \<Rightarrow> log_dir \<Rightarrow> log_dir res" where
  "append_session_log_entries sid entries d =
     (if entries = [] then Inr d
      else
        bindR (recover_session_log sid False d) (\<lambda>(i, d1).
          let persisted = li_latest_seq i;
              pending = filter (\<lambda>e. entry_seq e > persisted) entries
          in if pending = [] then Inr d1
             else
               bindR (check_pending sid (persisted + 1) pending) (\<lambda>_.
               bindR (encode_frames pending) (\<lambda>frames.
                 let (path, existing) = target_segment d1 i (entry_seq (hd pending)) (length frames);
                     i1 = index_appended path existing (length frames) pending persisted i
                 in Inr ((write_file path (file_bytes d1 path @ frames) d1)\<lparr>ld_index := Some i1\<rparr>)))))"

subsection \<open>Reading\<close>

definition in_range :: "int option \<Rightarrow> int option \<Rightarrow> int \<Rightarrow> bool" where
  "in_range from_seq to_seq seq \<longleftrightarrow>
     (case from_seq of None \<Rightarrow> True | Some a \<Rightarrow> a \<le> seq) \<and> (case to_seq of None \<Rightarrow> True | Some b \<Rightarrow> seq \<le> b)"

definition segment_in_range :: "int option \<Rightarrow> int option \<Rightarrow> segment_index \<Rightarrow> bool" where
  "segment_in_range from_seq to_seq s \<longleftrightarrow>
     (case from_seq of None \<Rightarrow> True | Some a \<Rightarrow> a \<le> si_end_seq s)
     \<and> (case to_seq of None \<Rightarrow> True | Some b \<Rightarrow> si_start_seq s \<le> b)"

definition segment_paths_for_range :: "int option \<Rightarrow> int option \<Rightarrow> log_dir \<Rightarrow> string list" where
  "segment_paths_for_range from_seq to_seq d =
     (case ld_index d of
        None \<Rightarrow> segment_paths d
      | Some i \<Rightarrow>
          if from_seq = None \<and> to_seq = None then segment_paths d
          else map si_path (filter (segment_in_range from_seq to_seq) (li_segments i)))"

definition read_session_log :: "string \<Rightarrow> int option \<Rightarrow> int option \<Rightarrow> log_dir \<Rightarrow> entry list res" where
  "read_session_log sid from_seq to_seq d =
     (let entries = filter (\<lambda>e. in_range from_seq to_seq (entry_seq e))
            (concat (map (\<lambda>p. fst (fst (scan_segment False (file_bytes d p))))
                         (segment_paths_for_range from_seq to_seq d)))
      in if entries = [] then Inr []
         else bindR (validate_sequence sid (entry_seq (hd entries)) entries) (\<lambda>_. Inr entries))"

definition latest_log_seq :: "log_dir \<Rightarrow> int" where
  "latest_log_seq d = (case ld_index d of None \<Rightarrow> 0 | Some i \<Rightarrow> li_latest_seq i)"

subsection \<open>A whole directory at once\<close>

text \<open>
  \<open>_SessionDirectoryWriter.write\<close>, which the migration of old stores uses. It builds its frames itself and, unlike
  \<open>_encode_frame\<close>, does not bound the payload; \<open>struct\<close> refuses a length of more than eight bytes only.
\<close>

definition raw_frame :: "entry \<Rightarrow> byte list" where
  "raw_frame e = pack_header (length (entry_bytes e)) (crc32 (entry_bytes e)) @ entry_bytes e"

text \<open>The inner loop: the records a segment takes and the ones left.\<close>

fun fill_segment :: "nat \<Rightarrow> entry list \<Rightarrow> entry list \<times> entry list" where
  "fill_segment used [] = ([], [])"
| "fill_segment used (e # es) =
     (if used \<noteq> 0 \<and> used + length (raw_frame e) > MAX_SEGMENT_BYTES then ([], e # es)
      else let (c, rest) = fill_segment (used + length (raw_frame e)) es in (e # c, rest))"

lemma fill_segment_parts: "fill_segment used es = (c, rest) \<Longrightarrow> es = c @ rest"
  by (induction es arbitrary: used c) (auto simp: case_prod_beta Let_def prod_eq_iff split: if_splits)

lemma fill_segment_takes: "fill_segment 0 (e # es) = (c, rest) \<Longrightarrow> c \<noteq> []"
  by (auto simp: case_prod_beta Let_def)

function write_segments :: "entry list \<Rightarrow> (string \<times> byte list) list \<times> segment_index list" where
  "write_segments records =
     (case records of
        [] \<Rightarrow> ([], [])
      | e # _ \<Rightarrow>
          let (c, rest) = fill_segment 0 records;
              path = segment_path (entry_seq e);
              payload = concat (map raw_frame c);
              (files, segments) = write_segments rest
          in ((path, payload) # files,
              \<lparr>si_path = path, si_start_seq = entry_seq e, si_end_seq = entry_seq (last c),
               si_records = length c, si_bytes = length payload\<rparr> # segments))"
  by pat_completeness auto

termination
proof (relation "measure length")
  fix records rest c x :: "entry list" and e es and p
  assume r: "records = e # es" and p: "p = fill_segment 0 records" "(c, rest) = p"
  then have f: "fill_segment 0 (e # es) = (c, rest)" by simp
  have "e # es = c @ rest" "c \<noteq> []" using fill_segment_parts [OF f] fill_segment_takes [OF f] by simp_all
  then show "(rest, records) \<in> measure length"
    unfolding r by (metis add_less_cancel_right in_measure length_append length_greater_0_conv add_0)
qed simp

declare write_segments.simps [simp del]

definition write_session_directory :: "entry list \<Rightarrow> log_dir" where
  "write_session_directory records =
     (let (files, segments) = write_segments records in
      \<lparr>ld_index = Some
         \<lparr>li_session_id = (case records of [] \<Rightarrow> [] | e # _ \<Rightarrow> entry_session e),
          li_latest_seq = (if records = [] then 0 else entry_seq (last records)),
          li_record_count = length records, li_message_count = message_count records,
          li_segments = segments\<rparr>,
       ld_files = files\<rparr>)"

end
