(* ===== verification/Log_Store_Rules.thy ===== *)
theory Log_Store_Rules
  imports Log_Store
begin

section \<open>The log directory implements a list of entries\<close>

text \<open>
  \<open>log\_holds\<close> relates a directory to the list of entries it stores, chunk by chunk. Appending refines
  appending to the list, reading returns it, and a crash while an append writes its frames leaves,
  after recovery, a prefix of what was appended.
\<close>

subsection \<open>Canonical entries\<close>

lemma canonical_fields:
  assumes "json_ok (JDict e)"
  shows "entry_seq (canonical e) = entry_seq e" "entry_session (canonical e) = entry_session e"
    "is_message (canonical e) = is_message e"
proof -
  have num: "(case map_option sort_keys v of Some (JNum i) \<Rightarrow> i | _ \<Rightarrow> 0) = (case v of Some (JNum i) \<Rightarrow> i | _ \<Rightarrow> 0)"
    for v by (cases v) (simp, rename_tac x, case_tac x, simp_all)
  have tx: "(case map_option sort_keys v of Some (JText s) \<Rightarrow> f s | _ \<Rightarrow> d) = (case v of Some (JText s) \<Rightarrow> f s | _ \<Rightarrow> d)"
    for v and f :: "string \<Rightarrow> 'b" and d by (cases v) (simp, rename_tac x, case_tac x, simp_all)
  show "entry_seq (canonical e) = entry_seq e" "entry_session (canonical e) = entry_session e"
    "is_message (canonical e) = is_message e"
    unfolding entry_seq_def entry_session_def is_message_def map_of_canonical [OF assms] num tx by (rule refl)+
qed

subsection \<open>Segment names sort by their first number\<close>

fun fixed_digits :: "nat \<Rightarrow> nat \<Rightarrow> string" where
  "fixed_digits 0 n = []"
| "fixed_digits (Suc w) n = fixed_digits w (n div 10) @ [digit_char (n mod 10)]"

lemma length_fixed [simp]: "length (fixed_digits w n) = w"
  by (induction w arbitrary: n) auto

lemma fixed_digits_zero: "fixed_digits w 0 = replicate w (CHR ''0'')"
proof (induction w)
  case (Suc w)
  have "digit_char 0 = CHR ''0''" by (simp add: digit_char_def char_of_eq_iff)
  then show ?case using Suc by (simp add: replicate_append_same)
qed simp

lemma pad0_fixed: "n < 10 ^ w \<Longrightarrow> 0 < w \<Longrightarrow> pad0 w (dec n) = fixed_digits w n"
proof (induction w arbitrary: n)
  case (Suc w)
  show ?case
  proof (cases "n < 10")
    case True
    then have "dec n = [digit_char n]" unfolding dec_def by (subst digits_base.simps) simp
    then show ?thesis using True by (simp add: pad0_def fixed_digits_zero)
  next
    case False
    then have d: "dec n = dec (n div 10) @ [digit_char (n mod 10)]"
      unfolding dec_def by (subst digits_base.simps) simp
    have "n div 10 < 10 ^ w" using Suc.prems(1) by (simp add: less_mult_imp_div_less mult.commute)
    moreover from this have "0 < w" using False by (cases w) auto
    ultimately have "pad0 w (dec (n div 10)) = fixed_digits w (n div 10)" by (rule Suc.IH)
    then show ?thesis by (simp add: d pad0_def)
  qed
qed simp

lemma digit_less: "a < b \<Longrightarrow> b < 10 \<Longrightarrow> digit_char a < digit_char b"
  by (simp add: less_char_def code_point_digit)

lemma fixed_less:
  "m < n \<Longrightarrow> n < 10 ^ w \<Longrightarrow> (fixed_digits w m, fixed_digits w n) \<in> lexord {(a, b). a < b}"
proof (induction w arbitrary: m n)
  case (Suc w)
  have nd: "n div 10 < 10 ^ w" using Suc.prems(2) by (simp add: less_mult_imp_div_less mult.commute)
  show ?case
  proof (cases "m div 10 = n div 10")
    case True
    have "m mod 10 < n mod 10"
      using Suc.prems(1) True by (metis div_mult_mod_eq nat_add_left_cancel_less)
    then have "([digit_char (m mod 10)], [digit_char (n mod 10)]) \<in> lexord {(a, b). a < b}"
      by (simp add: digit_less)
    then show ?thesis unfolding fixed_digits.simps True by (rule lexord_append_leftI)
  next
    case False
    then have "m div 10 < n div 10" using Suc.prems(1) by (meson div_le_mono le_neq_implies_less less_imp_le)
    then have "(fixed_digits w (m div 10), fixed_digits w (n div 10)) \<in> lexord {(a, b). a < b}"
      using nd by (rule Suc.IH)
    then show ?thesis unfolding fixed_digits.simps by (rule lexord_sufI) simp
  qed
qed simp

lemma segment_path_less:
  assumes "0 \<le> j" "j < k" "k < 10 ^ 20"
  shows "segment_path j < segment_path k"
proof -
  have n: "nat j < nat k" "nat k < 10 ^ 20" "nat j < 10 ^ 20" using assms by (simp_all add: nat_less_iff)
  have p: "pad0 20 (dec (nat j)) = fixed_digits 20 (nat j)" "pad0 20 (dec (nat k)) = fixed_digits 20 (nat k)"
    using pad0_fixed [OF n(3)] pad0_fixed [OF n(2)] by simp_all
  have "(pad0 20 (dec (nat j)) @ ''.aizelog'', pad0 20 (dec (nat k)) @ ''.aizelog'') \<in> lexord {(a, b). a < b}"
    unfolding p by (rule lexord_sufI [OF fixed_less [OF n(1,2)]]) simp
  then have "(''log/'' @ pad0 20 (dec (nat j)) @ ''.aizelog'', ''log/'' @ pad0 20 (dec (nat k)) @ ''.aizelog'')
      \<in> lexord {(a, b). a < b}" by (rule lexord_append_leftI)
  moreover have "dec_int j = dec (nat j)" "dec_int k = dec (nat k)" using assms by (simp_all add: dec_int_def)
  ultimately show ?thesis by (simp only: list_less_def segment_path_def)
qed

subsection \<open>What a directory stores\<close>

fun numbered :: "string \<Rightarrow> int \<Rightarrow> entry list \<Rightarrow> bool" where
  "numbered sid k [] \<longleftrightarrow> True"
| "numbered sid k (e # es) \<longleftrightarrow>
     entry_fits e \<and> canonical e = e \<and> entry_session e = sid \<and> entry_seq e = k \<and> numbered sid (k + 1) es"

abbreviation frames :: "entry list \<Rightarrow> byte list" where
  "frames es \<equiv> concat (map frame es)"

text \<open>The files and the index of a log that is stored in chunks, one chunk per segment.\<close>

fun files_of :: "int \<Rightarrow> entry list list \<Rightarrow> (string \<times> byte list) list" where
  "files_of k [] = []"
| "files_of k (c # cs) = (segment_path k, frames c) # files_of (k + int (length c)) cs"

definition segment_of :: "int \<Rightarrow> entry list \<Rightarrow> segment_index" where
  "segment_of k c = \<lparr>si_path = segment_path k, si_start_seq = k, si_end_seq = k + int (length c) - 1,
     si_records = length c, si_bytes = length (frames c)\<rparr>"

fun segments_of :: "int \<Rightarrow> entry list list \<Rightarrow> segment_index list" where
  "segments_of k [] = []"
| "segments_of k (c # cs) = segment_of k c # segments_of (k + int (length c)) cs"

definition index_of :: "string \<Rightarrow> entry list list \<Rightarrow> log_index" where
  "index_of sid cs = \<lparr>li_session_id = sid, li_latest_seq = int (length (concat cs)),
     li_record_count = length (concat cs), li_message_count = message_count (concat cs),
     li_segments = segments_of 1 cs\<rparr>"

text \<open>Only the last segment may be empty, so the names of the segments differ.\<close>

fun chunks_ok :: "entry list list \<Rightarrow> bool" where
  "chunks_ok [] \<longleftrightarrow> True"
| "chunks_ok (c # cs) \<longleftrightarrow> (cs \<noteq> [] \<longrightarrow> c \<noteq> []) \<and> chunks_ok cs"

definition MAX_ENTRIES :: int where
  "MAX_ENTRIES = 10 ^ 20 - 2"

definition chunked :: "string \<Rightarrow> entry list list \<Rightarrow> bool" where
  "chunked sid cs \<longleftrightarrow> chunks_ok cs \<and> numbered sid 1 (concat cs) \<and> int (length (concat cs)) \<le> MAX_ENTRIES"

definition log_holds :: "string \<Rightarrow> log_dir \<Rightarrow> entry list \<Rightarrow> bool" where
  "log_holds sid d es \<longleftrightarrow>
     (\<exists>cs. concat cs = es \<and> chunked sid cs \<and> ld_files d = files_of 1 cs
        \<and> (ld_index d = Some (index_of sid cs) \<or> ld_index d = None \<and> cs = []))"

lemma numbered_append: "numbered sid k (xs @ ys) \<longleftrightarrow> numbered sid k xs \<and> numbered sid (k + int (length xs)) ys"
  by (induction xs arbitrary: k) (auto simp: add_ac)

lemma numbered_mem: "numbered sid k es \<Longrightarrow> e \<in> set es \<Longrightarrow> entry_fits e \<and> canonical e = e \<and> entry_session e = sid"
  by (induction es arbitrary: k) auto

lemma numbered_canonical: "numbered sid k es \<Longrightarrow> map canonical es = es"
  by (rule map_idI) (auto dest: numbered_mem)

lemma numbered_ends:
  assumes "numbered sid k es" "es \<noteq> []"
  shows "entry_seq (hd es) = k" "entry_seq (last es) = k + int (length es) - 1"
proof -
  show "entry_seq (hd es) = k" using assms by (cases es) auto
  have "es = butlast es @ [last es]" using assms(2) by simp
  then have "numbered sid (k + int (length (butlast es))) [last es]"
    using assms(1) by (metis numbered_append)
  then show "entry_seq (last es) = k + int (length es) - 1" using assms(2) by (cases es) auto
qed

lemma numbered_range: "numbered sid k es \<Longrightarrow> e \<in> set es \<Longrightarrow> k \<le> entry_seq e \<and> entry_seq e < k + int (length es)"
  by (induction es arbitrary: k) force+

lemma validate_numbered: "numbered sid k es \<Longrightarrow> validate_sequence sid k es = Inr ()"
  by (induction es arbitrary: k) auto

lemma message_count_append [simp]: "message_count (xs @ ys) = message_count xs + message_count ys"
  by (simp add: message_count_def)

text \<open>Segment names.\<close>

lemma files_keys: "dict_keys (files_of k cs) = map si_path (segments_of k cs)"
  by (induction cs arbitrary: k) (auto simp: segment_of_def)

lemma files_append: "files_of k (as @ bs) = files_of k as @ files_of (k + int (length (concat as))) bs"
  by (induction as arbitrary: k) (auto simp: add_ac)

lemma segments_append: "segments_of k (as @ bs) = segments_of k as @ segments_of (k + int (length (concat as))) bs"
  by (induction as arbitrary: k) (auto simp: add_ac)

lemma files_later:
  assumes "chunks_ok cs" "0 \<le> j" "j < k" "k + int (length (concat cs)) < 10 ^ 20" "p \<in> set (dict_keys (files_of k cs))"
  shows "segment_path j < p"
  using assms
proof (induction cs arbitrary: k)
  case (Cons c cs)
  then consider "p = segment_path k" | "p \<in> set (dict_keys (files_of (k + int (length c)) cs))" by auto
  then show ?case
  proof cases
    case 1
    then show ?thesis using segment_path_less [of j k] Cons.prems by simp
  next
    case 2
    then show ?thesis using Cons.prems by (intro Cons.IH [of "k + int (length c)"]) auto
  qed
qed simp

lemma files_sorted:
  assumes "chunks_ok cs" "0 \<le> k" "k + int (length (concat cs)) < 10 ^ 20"
  shows "sorted_wrt (<) (dict_keys (files_of k cs))"
  using assms
proof (induction cs arbitrary: k)
  case (Cons c cs)
  have "\<forall>p \<in> set (dict_keys (files_of (k + int (length c)) cs)). segment_path k < p"
  proof (cases "cs = []")
    case False
    then have "c \<noteq> []" using Cons.prems(1) by simp
    then show ?thesis using Cons.prems by (intro ballI files_later [of cs k "k + int (length c)"]) auto
  qed simp
  moreover have "sorted_wrt (<) (dict_keys (files_of (k + int (length c)) cs))"
    using Cons.prems by (intro Cons.IH) auto
  ultimately show ?case by simp
qed simp

lemma chunked_files:
  assumes "chunked sid cs"
  shows "distinct (dict_keys (files_of 1 cs))" "sort (dict_keys (files_of 1 cs)) = dict_keys (files_of 1 cs)"
proof -
  have "sorted_wrt (<) (dict_keys (files_of 1 cs))"
    using assms by (intro files_sorted) (auto simp: chunked_def MAX_ENTRIES_def)
  then show "distinct (dict_keys (files_of 1 cs))" "sort (dict_keys (files_of 1 cs)) = dict_keys (files_of 1 cs)"
    by (auto simp: strict_sorted_iff sorted_sort_id)
qed

subsection \<open>Scanning the segments\<close>

lemma scan_chunk:
  assumes "numbered sid k c" "scan_frames q = ([], 0, torn)"
  shows "scan_segment recover (frames c @ q)
    = ((c, length (frames c), torn), if torn \<and> recover then frames c else frames c @ q)"
proof -
  have "\<forall>e \<in> set c. entry_fits e" using numbered_mem [OF assms(1)] by blast
  from scan_all_frames [OF this, of q] show ?thesis
    by (simp add: scan_segment_def assms(2) numbered_canonical [OF assms(1)])
qed

text \<open>The index after a round of the loop.\<close>

definition index_plus :: "log_index \<Rightarrow> entry list \<Rightarrow> log_index" where
  "index_plus i c = i\<lparr>li_latest_seq := li_latest_seq i + int (length c),
     li_record_count := li_record_count i + length c,
     li_message_count := li_message_count i + message_count c,
     li_segments := li_segments i @ [segment_of (li_latest_seq i + 1) c]\<rparr>"

lemma index_segment_chunk:
  assumes "file_bytes d (segment_path (li_latest_seq i + 1)) = frames c @ q" "scan_frames q = ([], 0, torn)"
    "numbered sid (li_latest_seq i + 1) c"
  shows "index_segment sid True (segment_path (li_latest_seq i + 1)) (i, d)
    = Inr (index_plus i c, if torn then write_file (segment_path (li_latest_seq i + 1)) (frames c) d else d)"
proof (cases "c = []")
  case True
  then show ?thesis
    using scan_chunk [OF assms(3,2), of True] assms(1)
    by (simp add: index_segment_def index_plus_def segment_of_def Let_def case_prod_beta)
next
  case False
  note e = numbered_ends [OF assms(3) False]
  show ?thesis
    using scan_chunk [OF assms(3,2), of True] assms(1) False validate_numbered [OF assms(3)]
    by (simp add: index_segment_def index_plus_def segment_of_def Let_def case_prod_beta e)
qed

lemma index_plus_append:
  "fold (\<lambda>c i. index_plus i c) cs i = i\<lparr>li_latest_seq := li_latest_seq i + int (length (concat cs)),
     li_record_count := li_record_count i + length (concat cs),
     li_message_count := li_message_count i + message_count (concat cs),
     li_segments := li_segments i @ segments_of (li_latest_seq i + 1) cs\<rparr>"
  by (induction cs arbitrary: i) (simp_all add: index_plus_def add_ac message_count_def)

lemma index_of_fold: "index_of sid cs = fold (\<lambda>c i. index_plus i c) cs (empty_index sid)"
  by (simp add: index_plus_append index_of_def empty_index_def)

lemma index_whole_chunks:
  assumes "k = li_latest_seq i + 1" "\<forall>(p, bs) \<in> set (files_of k cs). file_bytes d p = bs"
    "numbered sid k (concat cs)"
  shows "foldR (index_segment sid True) (dict_keys (files_of k cs)) (i, d)
    = Inr (fold (\<lambda>c i. index_plus i c) cs i, d)"
  using assms
proof (induction cs arbitrary: k i)
  case (Cons c cs)
  have n: "numbered sid (li_latest_seq i + 1) c" "numbered sid (k + int (length c)) (concat cs)"
    using Cons.prems(1,3) by (simp_all add: numbered_append)
  have "index_segment sid True (segment_path k) (i, d) = Inr (index_plus i c, d)"
    using index_segment_chunk [OF _ scan_nothing n(1)] Cons.prems(1,2) by simp
  moreover have "k + int (length c) = li_latest_seq (index_plus i c) + 1"
    using Cons.prems(1) by (simp add: index_plus_def)
  ultimately show ?case using Cons.IH [of "k + int (length c)" "index_plus i c"] Cons.prems(2) n(2) by simp
qed simp

lemma foldR_append: "foldR f (xs @ ys) s = bindR (foldR f xs s) (foldR f ys)"
proof (induction xs arbitrary: s)
  case (Cons x xs)
  then show ?case by (cases "f x s") simp_all
qed simp

lemma file_bytes_mem: "distinct (dict_keys (ld_files d)) \<Longrightarrow> (p, bs) \<in> set (ld_files d) \<Longrightarrow> file_bytes d p = bs"
  by (simp add: file_bytes_def)

lemma update_last: "k \<notin> set (map fst d) \<Longrightarrow> AList.update k v (d @ [(k, w)]) = d @ [(k, v)]"
  by (induction d) auto

lemma update_middle: "k \<notin> set (map fst d) \<Longrightarrow> AList.update k v (d @ (k, w) # r) = d @ (k, v) # r"
  by (induction d) auto

lemma update_absent: "k \<notin> set (map fst d) \<Longrightarrow> AList.update k v d = d @ [(k, v)]"
  by (induction d) auto

text \<open>A directory whose last segment may end in an incomplete frame: \<open>c\<close> is what that segment stores.\<close>

lemma rebuild_torn:
  assumes "chunked sid (cs @ [c])" "scan_frames q = ([], 0, torn)"
    "ld_files d = files_of 1 cs @ [(segment_path (1 + int (length (concat cs))), frames c @ q)]"
  shows "rebuild_index sid d = Inr (index_of sid (cs @ [c]),
     d\<lparr>ld_files := (if torn then files_of 1 (cs @ [c]) else ld_files d), ld_index := Some (index_of sid (cs @ [c]))\<rparr>)"
proof -
  let ?p = "segment_path (1 + int (length (concat cs)))"
  have keys: "dict_keys (ld_files d) = dict_keys (files_of 1 (cs @ [c]))" by (simp add: assms(3) files_append)
  note dist = chunked_files [OF assms(1), folded keys]
  have n: "numbered sid 1 (concat cs)" "numbered sid (1 + int (length (concat cs))) c"
    using assms(1) by (simp_all add: chunked_def numbered_append)
  have whole: "\<forall>(p, bs) \<in> set (files_of 1 cs). file_bytes d p = bs"
    using file_bytes_mem [OF dist(1)] by (auto simp: assms(3))
  have last: "file_bytes d ?p = frames c @ q" by (rule file_bytes_mem [OF dist(1)]) (simp add: assms(3))
  let ?i = "fold (\<lambda>c i. index_plus i c) cs (empty_index sid)"
  have seq: "li_latest_seq ?i + 1 = 1 + int (length (concat cs))"
    by (simp add: index_plus_append empty_index_def)
  have 1: "foldR (index_segment sid True) (dict_keys (files_of 1 cs)) (empty_index sid, d) = Inr (?i, d)"
    by (rule index_whole_chunks [OF _ whole n(1)]) (simp add: empty_index_def)
  have 2: "index_segment sid True ?p (?i, d) = Inr (index_plus ?i c, if torn then write_file ?p (frames c) d else d)"
    using index_segment_chunk [of d ?i c q torn sid] last assms(2) n(2) by (simp only: seq)
  have paths: "segment_paths d = dict_keys (files_of 1 cs) @ [?p]"
    using dist(2) by (simp add: segment_paths_def keys files_append)
  have "foldR (index_segment sid True) (segment_paths d) (empty_index sid, d)
      = Inr (index_plus ?i c, if torn then write_file ?p (frames c) d else d)"
    unfolding paths foldR_append 1 using 2 by simp
  moreover have "index_plus ?i c = index_of sid (cs @ [c])" by (simp add: index_of_fold)
  moreover have "write_file ?p (frames c) d = d\<lparr>ld_files := files_of 1 (cs @ [c])\<rparr>"
  proof -
    have "?p \<notin> set (dict_keys (files_of 1 cs))" using dist(1) by (simp add: assms(3))
    then show ?thesis by (simp add: write_file_def assms(3) files_append update_last)
  qed
  ultimately show ?thesis
    by (simp add: rebuild_index_def build_session_log_index_def)
qed

lemma rebuild_nothing:
  "ld_files d = [] \<Longrightarrow> rebuild_index sid d = Inr (index_of sid [], d\<lparr>ld_index := Some (index_of sid [])\<rparr>)"
  by (simp add: rebuild_index_def build_session_log_index_def segment_paths_def index_of_def empty_index_def
      message_count_def)

lemma index_current_last:
  assumes "chunked sid (cs @ [c])" "ld_files d = files_of 1 cs @ [(segment_path (1 + int (length (concat cs))), bs)]"
  shows "index_current d (index_of sid (cs @ [c])) \<longleftrightarrow> length bs = length (frames c)"
proof -
  have "dict_keys (ld_files d) = dict_keys (files_of 1 (cs @ [c]))" by (simp add: assms(2) files_append)
  then have "distinct (dict_keys (ld_files d))" using chunked_files(1) [OF assms(1)] by simp
  then have "map_of (ld_files d) (segment_path (1 + int (length (concat cs)))) = Some bs"
    by (rule map_of_is_SomeI) (simp add: assms(2))
  then show ?thesis by (simp add: index_current_def index_of_def segments_append segment_of_def)
qed

lemma recover_stored:
  assumes "chunked sid cs" "ld_files d = files_of 1 cs" "ld_index d = Some (index_of sid cs) \<or> ld_index d = None \<and> cs = []"
  shows "recover_session_log sid False d = Inr (index_of sid cs, d\<lparr>ld_index := Some (index_of sid cs)\<rparr>)"
proof (cases cs rule: rev_cases)
  case Nil
  then have "\<not> index_current d (index_of sid cs)" by (simp add: index_current_def index_of_def)
  then show ?thesis using assms(2,3) Nil by (auto simp: recover_session_log_def rebuild_nothing)
next
  case (snoc cs' c)
  have "index_current d (index_of sid cs)"
    using index_current_last [of sid cs' c d "frames c"] assms(1,2) by (simp add: snoc files_append)
  moreover have "ld_index d = Some (index_of sid cs)" using assms(3) snoc by simp
  moreover from this have "d\<lparr>ld_index := Some (index_of sid cs)\<rparr> = d" by (metis log_dir.surjective log_dir.update_convs(1))
  ultimately show ?thesis by (simp add: recover_session_log_def)
qed

subsection \<open>Appending refines appending to the list\<close>

lemma check_pending_numbered:
  assumes "check_pending sid k es = Inr ()" "\<forall>e \<in> set es. entry_fits e"
  shows "numbered sid k (map canonical es)"
  using assms
proof (induction es arbitrary: k)
  case (Cons e es)
  have "json_ok (JDict e)" "entry_fits e" using Cons.prems(2) by (simp_all add: entry_fits_def)
  then show ?case using Cons by (auto simp: canonical_fits canonical_fields split: if_splits)
qed simp

lemma frame_comp_canonical [simp]: "frame \<circ> canonical = frame"
  by (simp add: fun_eq_iff)

lemma message_count_canonical: "\<forall>e \<in> set es. entry_fits e \<Longrightarrow> message_count (map canonical es) = message_count es"
  unfolding message_count_def by (induction es) (auto simp: entry_fits_def canonical_fields)

lemma encode_fitting: "\<forall>e \<in> set es. entry_fits e \<Longrightarrow> encode_frames es = Inr (frames es)"
  by (induction es) (auto simp: entry_fits_def encode_frame_iff [THEN iffD2])

lemma change_segment_last:
  "si_path s = si_path new \<Longrightarrow> \<forall>x \<in> set ss. si_path x \<noteq> si_path new \<Longrightarrow> change_segment new f (ss @ [s]) = ss @ [f s]"
  by (induction ss) auto

lemma change_segment_new:
  "\<forall>x \<in> set ss. si_path x \<noteq> si_path new \<Longrightarrow> change_segment new f ss = ss @ [f new]"
  by (induction ss) auto

lemma segment_path_nonempty [simp]: "segment_path k \<noteq> []"
  by (simp add: segment_path_def)

lemma frames_empty: "frames c = [] \<longleftrightarrow> c = []"
  using header_positive by (cases c) (auto simp: frame_def dest: arg_cong [where f = length])

lemma pending_ends:
  assumes "numbered sid k (map canonical es)" "es \<noteq> []" "\<forall>e \<in> set es. entry_fits e"
  shows "entry_seq (hd es) = k" "entry_seq (last es) = k + int (length es) - 1"
proof -
  have "entry_seq (canonical (hd es)) = entry_seq (hd es)" "entry_seq (canonical (last es)) = entry_seq (last es)"
    using assms(2,3) by (simp_all add: canonical_fields(1) entry_fits_def del: json_ok.simps)
  then show "entry_seq (hd es) = k" "entry_seq (last es) = k + int (length es) - 1"
    using numbered_ends [OF assms(1)] assms(2) by (simp_all add: hd_map last_map)
qed

text \<open>The two places the frames go to: the last segment, or a new one.\<close>

lemma append_to_last:
  assumes "chunked sid (cs @ [c @ map canonical new])" "new \<noteq> []" "\<forall>e \<in> set new. entry_fits e"
  shows "index_appended (segment_path (1 + int (length (concat cs)))) (length (frames c)) (length (frames new)) new
    (int (length (concat (cs @ [c])))) (index_of sid (cs @ [c])) = index_of sid (cs @ [c @ map canonical new])"
proof -
  have n: "numbered sid (1 + int (length (concat cs)) + int (length c)) (map canonical new)"
    using assms(1) by (simp add: chunked_def numbered_append)
  note e = pending_ends [OF n assms(2,3)]
  have "distinct (map si_path (segments_of 1 (cs @ [c @ map canonical new])))"
    using chunked_files(1) [OF assms(1)] by (simp only: files_keys)
  then have "\<forall>x \<in> set (segments_of 1 cs). si_path x \<noteq> segment_path (1 + int (length (concat cs)))"
    by (force simp: segments_append segment_of_def)
  then show ?thesis
    using e message_count_canonical [OF assms(3)]
    by (simp add: index_appended_def index_of_def segments_append change_segment_last segment_of_def)
qed

lemma append_to_new:
  assumes "chunked sid (cs @ [map canonical new])" "new \<noteq> []" "\<forall>e \<in> set new. entry_fits e"
  shows "index_appended (segment_path (1 + int (length (concat cs)))) 0 (length (frames new)) new
    (int (length (concat cs))) (index_of sid cs) = index_of sid (cs @ [map canonical new])"
proof -
  have n: "numbered sid (1 + int (length (concat cs))) (map canonical new)"
    using assms(1) by (simp add: chunked_def numbered_append)
  note e = pending_ends [OF n assms(2,3)]
  have "distinct (map si_path (segments_of 1 (cs @ [map canonical new])))"
    using chunked_files(1) [OF assms(1)] by (simp only: files_keys)
  then have "\<forall>x \<in> set (segments_of 1 cs). si_path x \<noteq> segment_path (1 + int (length (concat cs)))"
    by (force simp: segments_append segment_of_def)
  then show ?thesis
    using e message_count_canonical [OF assms(3)]
    by (simp add: index_appended_def index_of_def segments_append change_segment_new segment_of_def)
qed

lemma chunked_extend:
  assumes "chunked sid (cs @ [c])" "numbered sid (1 + int (length (concat (cs @ [c])))) new"
    "int (length (concat (cs @ [c])) + length new) \<le> MAX_ENTRIES"
  shows "chunked sid (cs @ [c @ new])" "c \<noteq> [] \<Longrightarrow> chunked sid (cs @ [c] @ [new])"
proof -
  have ok: "chunks_ok (xs @ [x]) \<Longrightarrow> chunks_ok (xs @ [y])" for xs :: "entry list list" and x y
    by (induction xs) auto
  have ok2: "chunks_ok (xs @ [x]) \<Longrightarrow> x \<noteq> [] \<Longrightarrow> chunks_ok (xs @ [x] @ [y])" for xs :: "entry list list" and x y
    by (induction xs) auto
  show "chunked sid (cs @ [c @ new])"
    using assms ok [of cs c "c @ new"] by (auto simp: chunked_def numbered_append add_ac)
  show "c \<noteq> [] \<Longrightarrow> chunked sid (cs @ [c] @ [new])"
    using assms ok2 [of cs c new] by (auto simp: chunked_def numbered_append add_ac)
qed

lemma append_stored:
  assumes cs: "chunked sid cs" "ld_files d = files_of 1 cs"
      "ld_index d = Some (index_of sid cs) \<or> ld_index d = None \<and> cs = []"
    and new: "new = filter (\<lambda>e. entry_seq e > int (length (concat cs))) entries" "\<forall>e \<in> set new. entry_fits e"
      "check_pending sid (int (length (concat cs)) + 1) new = Inr ()"
      "int (length (concat cs) + length new) \<le> MAX_ENTRIES" "new \<noteq> []"
  shows "\<exists>cs'. concat cs' = concat cs @ map canonical new \<and> chunked sid cs' \<and>
    append_session_log_entries sid entries d
      = Inr (d\<lparr>ld_files := files_of 1 cs', ld_index := Some (index_of sid cs')\<rparr>)"
proof -
  let ?n = "length (concat cs)"
  let ?d = "d\<lparr>ld_index := Some (index_of sid cs)\<rparr>"
  have num: "numbered sid (int ?n + 1) (map canonical new)" by (rule check_pending_numbered [OF new(3,2)])
  have hd: "entry_seq (hd new) = int ?n + 1" by (rule pending_ends [OF num new(5,2)])
  have ne: "entries \<noteq> []" using new(1,5) by auto
  define path existing where "path = fst (target_segment ?d (index_of sid cs) (int ?n + 1) (length (frames new)))"
    and "existing = snd (target_segment ?d (index_of sid cs) (int ?n + 1) (length (frames new)))"
  have app: "append_session_log_entries sid entries d
    = Inr ((write_file path (file_bytes ?d path @ frames new) ?d)
        \<lparr>ld_index := Some (index_appended path existing (length (frames new)) new (int ?n) (index_of sid cs))\<rparr>)"
    using recover_stored [OF cs] ne new(1) [symmetric] new(3,5)
    by (simp add: append_session_log_entries_def index_of_def encode_fitting [OF new(2)] hd path_def existing_def
        case_prod_beta Let_def)
  show ?thesis
  proof (cases cs rule: rev_cases)
    case Nil
    have ch: "chunked sid [map canonical new]"
      using num new(4) by (simp add: chunked_def Nil)
    have "target_segment ?d (index_of sid cs) 1 (length (frames new)) = (segment_path 1, 0)"
      using cs(2) by (simp add: target_segment_def active_segment_path_def index_of_def Nil file_bytes_def)
    then have p: "path = segment_path 1" "existing = 0" by (simp_all add: path_def existing_def Nil)
    have "index_appended (segment_path 1) 0 (length (frames new)) new 0 (index_of sid []) = index_of sid [map canonical new]"
      using append_to_new [of sid "[]" new] ch new(5,2) by simp
    then have "append_session_log_entries sid entries d = Inr (d\<lparr>ld_files := files_of 1 [map canonical new],
        ld_index := Some (index_of sid [map canonical new])\<rparr>)"
      unfolding app p using cs(2) by (simp add: Nil write_file_def file_bytes_def)
    then show ?thesis using ch by (intro exI [of _ "[map canonical new]"]) (simp add: Nil)
  next
    case (snoc cs0 c)
    let ?last = "segment_path (1 + int (length (concat cs0)))"
    have files: "ld_files d = files_of 1 cs0 @ [(?last, frames c)]" by (simp add: cs(2) snoc files_append)
    have dist: "distinct (dict_keys (ld_files d))" using chunked_files(1) [OF cs(1)] by (simp only: cs(2))
    have bytes: "file_bytes ?d ?last = frames c" by (rule file_bytes_mem) (use dist in \<open>simp_all add: files\<close>)
    have absent: "?last \<notin> set (dict_keys (files_of 1 cs0))" using dist by (simp add: files)
    have active: "active_segment_path (index_of sid cs) k = ?last" for k
      by (simp add: active_segment_path_def index_of_def snoc segments_append segment_of_def)
    note ext = chunked_extend [OF cs(1) [unfolded snoc], of "map canonical new"]
    have n: "numbered sid (1 + int (length (concat (cs0 @ [c])))) (map canonical new)"
      using num by (simp add: snoc add_ac)
    have le: "int (length (concat (cs0 @ [c])) + length (map canonical new)) \<le> MAX_ENTRIES"
      using new(4) by (simp add: snoc)
    show ?thesis
    proof (cases "length (frames c) \<noteq> 0 \<and> length (frames c) + length (frames new) > MAX_SEGMENT_BYTES")
      case True
      then have "c \<noteq> []" by auto
      then have ch: "chunked sid (cs0 @ [c] @ [map canonical new])" using ext(2) n le by simp
      have p: "path = segment_path (int ?n + 1)" "existing = 0"
        using True by (simp_all add: path_def existing_def target_segment_def active bytes Let_def)
      have keys: "segment_path (int ?n + 1) \<notin> set (dict_keys (files_of 1 cs))"
        using chunked_files(1) [OF ch] by (auto simp: snoc files_append add_ac)
      have fb: "file_bytes ?d (segment_path (int ?n + 1)) = []"
      proof -
        have "map_of (files_of 1 cs) (segment_path (int ?n + 1)) = None" using keys by (simp add: map_of_eq_None_iff)
        then show ?thesis by (simp add: file_bytes_def cs(2))
      qed
      have "index_appended (segment_path (int ?n + 1)) 0 (length (frames new)) new (int ?n) (index_of sid cs)
          = index_of sid (cs @ [map canonical new])"
        using append_to_new [of sid cs new] ch new(5,2) by (simp add: snoc add_ac)
      then have "append_session_log_entries sid entries d = Inr (d\<lparr>ld_files := files_of 1 (cs @ [map canonical new]),
          ld_index := Some (index_of sid (cs @ [map canonical new]))\<rparr>)"
        unfolding app p fb using keys
        by (simp add: write_file_def cs(2) update_absent files_append add_ac)
      then show ?thesis using ch by (intro exI [of _ "cs @ [map canonical new]"]) (simp add: snoc)
    next
      case False
      have ch: "chunked sid (cs0 @ [c @ map canonical new])" using ext(1) n le by simp
      have p: "path = ?last" "existing = length (frames c)"
        using False by (auto simp: path_def existing_def target_segment_def active bytes Let_def)
      have "append_session_log_entries sid entries d = Inr (d\<lparr>ld_files := files_of 1 (cs0 @ [c @ map canonical new]),
          ld_index := Some (index_of sid (cs0 @ [c @ map canonical new]))\<rparr>)"
        unfolding app p bytes using append_to_last [OF ch new(5,2)] absent
        by (simp add: write_file_def files update_last files_append snoc)
      then show ?thesis using ch by (intro exI [of _ "cs0 @ [c @ map canonical new]"]) (simp add: snoc)
    qed
  qed
qed

subsection \<open>Reading\<close>

lemma scan_files:
  assumes "numbered sid k (concat cs)" "\<forall>(p, bs) \<in> set (files_of k cs). file_bytes d p = bs"
  shows "map (\<lambda>s. fst (fst (scan_segment False (file_bytes d (si_path s))))) (segments_of k cs) = cs"
  using assms
proof (induction cs arbitrary: k)
  case (Cons c cs)
  then have "numbered sid k c" "numbered sid (k + int (length c)) (concat cs)" by (simp_all add: numbered_append)
  then show ?case
    using Cons scan_chunk [of sid k c "[]" False False] by (simp add: segment_of_def)
qed simp

text \<open>A range of a numbered log is one stretch of it.\<close>

lemma range_from_start:
  assumes "numbered sid k es" "\<And>n. a = Some n \<Longrightarrow> n \<le> k"
  shows "\<exists>ys zs. es = ys @ zs \<and> filter (\<lambda>e. in_range a b (entry_seq e)) es = ys"
  using assms
proof (induction es arbitrary: k)
  case (Cons e es)
  show ?case
  proof (cases "in_range a b k")
    case True
    have "\<And>n. a = Some n \<Longrightarrow> n \<le> k + 1" using Cons.prems(2) by fastforce
    moreover have "numbered sid (k + 1) es" using Cons.prems(1) by simp
    ultimately obtain ys zs where "es = ys @ zs" "filter (\<lambda>e. in_range a b (entry_seq e)) es = ys"
      using Cons.IH [of "k + 1"] by blast
    then show ?thesis using True Cons.prems(1)
      by - (rule exI [of _ "e # ys"], rule exI [of _ zs], simp)
  next
    case False
    have "\<not> in_range a b (entry_seq x)" if "x \<in> set (e # es)" for x
      using False Cons.prems numbered_range [OF Cons.prems(1) that]
      by (auto simp: in_range_def split: option.splits)
    then have "filter (\<lambda>e. in_range a b (entry_seq e)) (e # es) = []" by (simp only: filter_empty_conv) blast
    then show ?thesis by - (rule exI [of _ "[]"], rule exI [of _ "e # es"], simp only: append.simps simp_thms)
  qed
qed simp

lemma range_stretch:
  "numbered sid k es \<Longrightarrow> \<exists>xs ys zs. es = xs @ ys @ zs \<and> filter (\<lambda>e. in_range a b (entry_seq e)) es = ys"
proof (induction es arbitrary: k)
  case (Cons e es)
  show ?case
  proof (cases "\<exists>n. a = Some n \<and> k < n")
    case True
    have "numbered sid (k + 1) es" using Cons.prems by simp
    then obtain xs ys zs where "es = xs @ ys @ zs" "filter (\<lambda>e. in_range a b (entry_seq e)) es = ys"
      using Cons.IH by blast
    moreover have "\<not> in_range a b (entry_seq e)" using True Cons.prems by (auto simp: in_range_def)
    ultimately show ?thesis by - (rule exI [of _ "e # xs"], rule exI [of _ ys], rule exI [of _ zs], simp)
  next
    case False
    then show ?thesis using range_from_start [OF Cons.prems, of a b] by (metis append_Nil not_less)
  qed
qed simp

lemma validate_range:
  assumes "numbered sid k es" "filter (\<lambda>e. in_range a b (entry_seq e)) es = e # ys"
  shows "validate_sequence sid (entry_seq e) (e # ys) = Inr ()"
proof -
  obtain xs zs where "es = xs @ (e # ys) @ zs"
    using range_stretch [OF assms(1), of a b] assms(2) by metis
  then have "numbered sid (k + int (length xs)) (e # ys)" using assms(1) by (simp add: numbered_append)
  then show ?thesis by (auto intro: validate_numbered)
qed

text \<open>The segments a range needs hold all its entries.\<close>

lemma range_segments:
  assumes "numbered sid k (concat cs)" "\<forall>(p, bs) \<in> set (files_of k cs). file_bytes d p = bs"
  shows "filter (\<lambda>e. in_range a b (entry_seq e)) (concat (map (\<lambda>s. fst (fst (scan_segment False (file_bytes d (si_path s)))))
      (filter (segment_in_range a b) (segments_of k cs))))
    = filter (\<lambda>e. in_range a b (entry_seq e)) (concat cs)"
  using assms
proof (induction cs arbitrary: k)
  case (Cons c cs)
  then have n: "numbered sid k c" "numbered sid (k + int (length c)) (concat cs)" by (simp_all add: numbered_append)
  have scan: "fst (fst (scan_segment False (file_bytes d (segment_path k)))) = c"
    using scan_chunk [OF n(1) scan_nothing, of False] Cons.prems(2) by simp
  have "filter (\<lambda>e. in_range a b (entry_seq e)) c = []" if "\<not> segment_in_range a b (segment_of k c)"
    using that numbered_range [OF n(1)]
    by (fastforce simp: filter_empty_conv segment_in_range_def segment_of_def in_range_def split: option.splits)
  then show ?case using Cons.IH [OF n(2)] Cons.prems(2) scan by (simp add: segment_of_def)
qed simp

lemma read_stored:
  assumes "log_holds sid d es"
  shows "read_session_log sid a b d = Inr (filter (\<lambda>e. in_range a b (entry_seq e)) es)"
proof -
  obtain cs where cs: "concat cs = es" "chunked sid cs" "ld_files d = files_of 1 cs"
    and i: "ld_index d = Some (index_of sid cs) \<or> ld_index d = None \<and> cs = []"
    using assms by (auto simp: log_holds_def)
  have n: "numbered sid 1 (concat cs)" using cs(2) by (simp add: chunked_def)
  have bytes: "\<forall>(p, bs) \<in> set (files_of 1 cs). file_bytes d p = bs"
    using chunked_files(1) [OF cs(2)] file_bytes_mem [of d] by (auto simp: cs(3))
  have paths: "segment_paths d = map si_path (segments_of 1 cs)"
    using chunked_files(2) [OF cs(2)] by (simp add: segment_paths_def cs(3) files_keys)
  have "filter (\<lambda>e. in_range a b (entry_seq e)) (concat (map (\<lambda>p. fst (fst (scan_segment False (file_bytes d p))))
      (segment_paths_for_range a b d))) = filter (\<lambda>e. in_range a b (entry_seq e)) es"
  proof (cases "ld_index d = None \<or> a = None \<and> b = None")
    case True
    then have "segment_paths_for_range a b d = map si_path (segments_of 1 cs)"
      by (auto simp: segment_paths_for_range_def paths split: option.splits)
    then show ?thesis using scan_files [OF n bytes] by (simp add: comp_def cs(1))
  next
    case False
    then have "segment_paths_for_range a b d = map si_path (filter (segment_in_range a b) (segments_of 1 cs))"
      using i by (auto simp: segment_paths_for_range_def index_of_def)
    then show ?thesis using range_segments [OF n bytes, of a b] by (simp add: comp_def cs(1))
  qed
  then show ?thesis
    using validate_range [OF n [unfolded cs(1)], of a b]
    by (auto simp: read_session_log_def Let_def neq_Nil_conv split: list.splits)
qed

subsection \<open>The contract of the storage\<close>

text \<open>C34: The storage of a session's log is a list: when the entries past the stored ones continue the sequence
  and fit a frame, appending stores them after the others and nothing else, appending entries that are already
  stored changes nothing, and reading a range returns exactly the stored entries of the range, whichever
  segments they are in.\<close>

theorem log_storage_refines_list:
  assumes "log_holds sid d es" "new = filter (\<lambda>e. entry_seq e > int (length es)) entries"
    "\<forall>e \<in> set new. entry_fits e" "check_pending sid (int (length es) + 1) new = Inr ()"
    "int (length es + length new) \<le> MAX_ENTRIES"
  shows "\<exists>d'. append_session_log_entries sid entries d = Inr d' \<and> log_holds sid d' (es @ map canonical new)
    \<and> (\<forall>a b. read_session_log sid a b d'
         = Inr (filter (\<lambda>e. in_range a b (entry_seq e)) (es @ map canonical new)))"
proof -
  obtain cs where cs: "concat cs = es" "chunked sid cs" "ld_files d = files_of 1 cs"
    and i: "ld_index d = Some (index_of sid cs) \<or> ld_index d = None \<and> cs = []"
    using assms(1) by (auto simp: log_holds_def)
  have "\<exists>d'. append_session_log_entries sid entries d = Inr d' \<and> log_holds sid d' (es @ map canonical new)"
  proof (cases "new = []")
    case True
    have "append_session_log_entries sid entries d = Inr d
        \<or> append_session_log_entries sid entries d = Inr (d\<lparr>ld_index := Some (index_of sid cs)\<rparr>)"
      using recover_stored [OF cs(2,3) i] assms(2) True
      by (simp add: append_session_log_entries_def index_of_def cs(1))
    moreover have "log_holds sid (d\<lparr>ld_index := Some (index_of sid cs)\<rparr>) es"
      using cs unfolding log_holds_def by (intro exI [of _ cs]) simp
    ultimately show ?thesis using assms(1) True by auto
  next
    case False
    obtain cs' where "concat cs' = es @ map canonical new" "chunked sid cs'"
      "append_session_log_entries sid entries d
        = Inr (d\<lparr>ld_files := files_of 1 cs', ld_index := Some (index_of sid cs')\<rparr>)"
      using append_stored [OF cs(2,3) i, of new entries] assms(2-5) False by (auto simp: cs(1))
    then show ?thesis unfolding log_holds_def by (intro exI conjI) (assumption | simp)+
  qed
  then show ?thesis using read_stored by blast
qed

text \<open>The segment an append writes to when it does not start a new one.\<close>

definition open_segment :: "log_dir \<Rightarrow> string" where
  "open_segment d = active_segment_path (case ld_index d of None \<Rightarrow> empty_index [] | Some i \<Rightarrow> i) 1"

lemma open_segment_stored:
  assumes "ld_index d = Some (index_of sid cs) \<or> ld_index d = None \<and> cs = []"
  shows "cs = [] \<Longrightarrow> open_segment d = segment_path 1"
    "cs = xs @ [c] \<Longrightarrow> open_segment d = segment_path (1 + int (length (concat xs)))"
  using assms
  by (auto simp: open_segment_def active_segment_path_def index_of_def empty_index_def segments_append segment_of_def)

lemma recover_by_rebuild:
  assumes "\<And>i. ld_index d = Some i \<Longrightarrow> \<not> index_current d i"
  shows "recover_session_log sid False d = rebuild_index sid d"
  using assms by (auto simp: recover_session_log_def split: option.splits)

lemma torn_tail:
  assumes "\<forall>e \<in> set new. entry_fits e" "prefix p (frames new)"
  obtains k q where "k \<le> length new" "p = frames (take k new) @ q" "scan_frames q = ([], 0, q \<noteq> [])"
    "k < length new \<longrightarrow> length p < length (frames (take (Suc k) new))"
proof -
  obtain k q where k: "k \<le> length new" and p: "p = frames (take k new) @ q"
    and q: "q = [] \<or> (k < length new \<and> strict_prefix q (frame (new ! k)))"
    using assms(2) by (rule prefix_of_frames)
  have "scan_frames q = ([], 0, q \<noteq> [])"
  proof (cases "q = []")
    case False
    then have "k < length new" "strict_prefix q (frame (new ! k))" using q by auto
    then show ?thesis using scan_torn [of "new ! k" q] assms(1) False by simp
  qed simp
  moreover have "length p < length (frames (take (Suc k) new))" if "k < length new"
  proof -
    have "length q < length (frame (new ! k))"
      using q header_positive by (auto simp: length_frame dest: prefix_length_less)
    then show ?thesis using that by (simp add: p take_Suc_conv_app_nth)
  qed
  ultimately show ?thesis using that [OF k p] by blast
qed

lemma rebuilt_holds:
  assumes "chunked sid (cs @ [c])" "ld_files d = files_of 1 cs @ [(segment_path (1 + int (length (concat cs))), frames c @ q)]"
    "scan_frames q = ([], 0, q \<noteq> [])"
  shows "\<exists>d'. rebuild_index sid d = Inr (index_of sid (cs @ [c]), d') \<and> log_holds sid d' (concat cs @ c)"
proof -
  have "ld_files d = files_of 1 (cs @ [c])" if "q = []" using that by (simp add: assms(2) files_append)
  then show ?thesis
    unfolding rebuild_torn [OF assms(1,3,2)] log_holds_def using assms(1)
    by (intro exI [of _ "_ :: log_dir"] conjI refl exI [of _ "cs @ [c]"]) auto
qed

text \<open>C35: A crash in the middle of an append to the open segment is repaired when the log is opened again:
  whatever part \<open>p\<close> of the new frames reached the file, recovery succeeds, and the log then holds the
  entries from before and the first \<open>k\<close> new ones, where \<open>k\<close> is the number of frames that were written
  completely.\<close>

theorem crash_recovery:
  assumes "log_holds sid d es" "numbered sid (int (length es) + 1) new" "int (length es + length new) \<le> MAX_ENTRIES"
    "prefix p (frames new)"
  shows "\<exists>k i d'. recover_session_log sid False (write_file (open_segment d) (file_bytes d (open_segment d) @ p) d) = Inr (i, d')
    \<and> k \<le> length new \<and> log_holds sid d' (es @ take k new) \<and> li_latest_seq i = int (length es + k)
    \<and> prefix (frames (take k new)) p \<and> (k < length new \<longrightarrow> length p < length (frames (take (Suc k) new)))"
proof -
  obtain cs where cs: "concat cs = es" "chunked sid cs" "ld_files d = files_of 1 cs"
    and i: "ld_index d = Some (index_of sid cs) \<or> ld_index d = None \<and> cs = []"
    using assms(1) by (auto simp: log_holds_def)
  have fits: "\<forall>e \<in> set new. entry_fits e" using numbered_mem [OF assms(2)] by blast
  obtain k q where k: "k \<le> length new" "p = frames (take k new) @ q" "scan_frames q = ([], 0, q \<noteq> [])"
    "k < length new \<longrightarrow> length p < length (frames (take (Suc k) new))"
    by (rule torn_tail [OF fits assms(4)])
  have tk: "numbered sid (int (length es) + 1) (take k new)"
    using assms(2) numbered_append [of sid _ "take k new" "drop k new"] by simp
  let ?d = "write_file (open_segment d) (file_bytes d (open_segment d) @ p) d"
  have goal: ?thesis if "recover_session_log sid False ?d = Inr (index_of sid cs', d')" "log_holds sid d' (es @ take k new)"
    "concat cs' = es @ take k new" for cs' d'
    using that k by (intro exI [of _ k] exI [of _ "index_of sid cs'"] exI [of _ d']) (auto simp: index_of_def)
  show ?thesis
  proof (cases cs rule: rev_cases)
    case Nil
    note o = open_segment_stored(1) [OF i Nil]
    have files: "ld_files ?d = files_of 1 [] @ [(segment_path (1 + int (length (concat [] :: entry list))), frames (take k new) @ q)]"
      using cs(3) by (simp add: o Nil write_file_def file_bytes_def k(2))
    have ch: "chunked sid ([] @ [take k new])" using tk assms(3) k(1) cs(1) by (simp add: chunked_def Nil)
    obtain d' where "rebuild_index sid ?d = Inr (index_of sid ([] @ [take k new]), d')"
      "log_holds sid d' (concat [] @ take k new)"
      using rebuilt_holds [OF ch files k(3)] by blast
    moreover have "recover_session_log sid False ?d = rebuild_index sid ?d"
      by (rule recover_by_rebuild) (use i in \<open>auto simp: Nil write_file_def index_current_def index_of_def\<close>)
    ultimately show ?thesis using goal [of "[take k new]" d'] cs(1) by (simp add: Nil)
  next
    case (snoc cs0 c)
    let ?last = "segment_path (1 + int (length (concat cs0)))"
    have o: "open_segment d = ?last" by (rule open_segment_stored(2) [OF i snoc])
    have files: "ld_files d = files_of 1 cs0 @ [(?last, frames c)]" by (simp add: cs(3) snoc files_append)
    have dist: "distinct (dict_keys (ld_files d))" using chunked_files(1) [OF cs(2)] by (simp only: cs(3))
    have bytes: "file_bytes d ?last = frames c" by (rule file_bytes_mem [OF dist]) (simp add: files)
    have absent: "?last \<notin> set (dict_keys (files_of 1 cs0))" using dist by (simp add: files)
    have files': "ld_files ?d = files_of 1 cs0 @ [(?last, frames (c @ take k new) @ q)]"
      using absent by (simp add: o bytes write_file_def files update_last k(2))
    have ch: "chunked sid (cs0 @ [c @ take k new])"
      using tk assms(3) k(1) cs(1) by (intro chunked_extend(1) [OF cs(2) [unfolded snoc]]) (auto simp: snoc add_ac)
    show ?thesis
    proof (cases "p = []")
      case True
      then have tn: "take k new = []" and same: "?d = d"
        using k(2) frames_empty [of "take k new"] absent by (auto simp: o bytes write_file_def files update_last)
      have "recover_session_log sid False d = Inr (index_of sid cs, d\<lparr>ld_index := Some (index_of sid cs)\<rparr>)"
        by (rule recover_stored [OF cs(2,3) i])
      moreover have "log_holds sid (d\<lparr>ld_index := Some (index_of sid cs)\<rparr>) es"
        unfolding log_holds_def using cs by (intro exI [of _ cs]) simp
      ultimately show ?thesis
        by (intro goal [of cs "d\<lparr>ld_index := Some (index_of sid cs)\<rparr>"]) (simp_all only: same tn append_Nil2 cs(1))
    next
      case False
      have "ld_index ?d = Some (index_of sid (cs0 @ [c]))" using i by (simp add: snoc write_file_def)
      moreover have "\<not> index_current ?d (index_of sid (cs0 @ [c]))"
        using index_current_last [of sid cs0 c ?d "frames (c @ take k new) @ q"] cs(2) files' False k(2) by (auto simp: snoc)
      ultimately have "recover_session_log sid False ?d = rebuild_index sid ?d" by (intro recover_by_rebuild) auto
      moreover obtain d' where "rebuild_index sid ?d = Inr (index_of sid (cs0 @ [c @ take k new]), d')"
        "log_holds sid d' (concat cs0 @ c @ take k new)"
        using rebuilt_holds [OF ch files' k(3)] by blast
      moreover have "es @ take k new = concat cs0 @ c @ take k new" using cs(1) by (simp add: snoc)
      ultimately show ?thesis by (intro goal [of "cs0 @ [c @ take k new]" d']) simp_all
    qed
  qed
qed

subsection \<open>A crash while a new segment is started\<close>

text \<open>The storage after the frames of a new segment were written, before the index was.\<close>

definition rollover_crash :: "int \<Rightarrow> entry list \<Rightarrow> log_dir \<Rightarrow> log_dir" where
  "rollover_crash n new d = write_file (segment_path (n + 1)) (frames new) d"

lemma read_segments:
  assumes "ld_files d = files_of 1 cs @ [(p1, frames c1), (p2, frames c2)]"
    "dict_keys (ld_files d) = dict_keys (files_of 1 (cs @ [x] @ [y]))" "chunked sid (cs @ [x] @ [y])"
    "numbered sid 1 (concat cs)" "numbered sid k1 c1" "numbered sid k2 c2"
  shows "concat (map (\<lambda>p. fst (fst (scan_segment False (file_bytes d p)))) (segment_paths d)) = concat cs @ c1 @ c2"
proof -
  note dist = chunked_files [OF assms(3), folded assms(2)]
  have paths: "segment_paths d = map si_path (segments_of 1 cs) @ [p1, p2]"
    unfolding segment_paths_def dist(2) by (simp add: assms(1) files_keys)
  have "\<forall>(p, bs) \<in> set (files_of 1 cs). file_bytes d p = bs"
    using file_bytes_mem [OF dist(1)] by (auto simp: assms(1))
  from scan_files [OF assms(4) this] have "concat (map (\<lambda>p. fst (fst (scan_segment False (file_bytes d p))))
      (map si_path (segments_of 1 cs))) = concat cs" by (simp add: comp_def)
  moreover have "file_bytes d p1 = frames c1" "file_bytes d p2 = frames c2"
    by (rule file_bytes_mem [OF dist(1)], simp add: assms(1))+
  moreover have "fst (fst (scan_segment False (frames c1))) = c1" "fst (fst (scan_segment False (frames c2))) = c2"
    using scan_chunk [OF assms(5) scan_nothing, of False] scan_chunk [OF assms(6) scan_nothing, of False] by simp_all
  ultimately show ?thesis by (simp add: paths)
qed

lemma validate_repeated:
  assumes "numbered sid k xs" "numbered sid j ys" "ys \<noteq> []" "j \<noteq> k + int (length xs)"
  shows "\<exists>e. validate_sequence sid k (xs @ ys) = Inl e"
  using assms(1,4)
proof (induction xs arbitrary: k)
  case Nil
  then show ?case using assms(2,3) by (cases ys) auto
qed (simp add: add_ac)


end
