(* ===== verification/Log_Writer_Rules.thy ===== *)
theory Log_Writer_Rules
  imports Log_Store_Rules
begin

section \<open>A directory written at once\<close>

text \<open>
  The directory the migration writes holds its records, provided every record fits a frame; a larger one
  is written all the same and is never read back.
\<close>

lemma raw_frame: "raw_frame = frame"
  by (rule ext) (simp add: raw_frame_def frame_def)

definition record_of :: "entry list \<Rightarrow> segment_index" where
  "record_of c = \<lparr>si_path = segment_path (entry_seq (hd c)), si_start_seq = entry_seq (hd c),
     si_end_seq = entry_seq (last c), si_records = length c, si_bytes = length (frames c)\<rparr>"

lemma write_segments_chunks:
  "\<exists>cs. concat cs = es \<and> [] \<notin> set cs \<and> write_segments es
     = (map (\<lambda>c. (segment_path (entry_seq (hd c)), frames c)) cs, map record_of cs)"
proof (induction es rule: write_segments.induct)
  case (1 es)
  show ?case
  proof (cases es)
    case Nil
    then show ?thesis by (intro exI [of _ "[]"]) (simp add: write_segments.simps)
  next
    case (Cons e es0)
    obtain c rest where f: "fill_segment 0 es = (c, rest)" by (cases "fill_segment 0 es")
    have parts: "es = c @ rest" "c \<noteq> []"
      using fill_segment_parts [OF f] fill_segment_takes [of e es0 c rest] f by (simp_all add: Cons)
    then have hd: "hd c = e" using Cons by (cases c) auto
    obtain cs where cs: "concat cs = rest" "[] \<notin> set cs" "write_segments rest
        = (map (\<lambda>c. (segment_path (entry_seq (hd c)), frames c)) cs, map record_of cs)"
      using 1 [OF Cons refl f [symmetric]] by blast
    have "write_segments es = (map (\<lambda>c. (segment_path (entry_seq (hd c)), frames c)) (c # cs), map record_of (c # cs))"
      using f by (subst write_segments.simps) (simp add: Cons cs(3) record_of_def raw_frame hd Let_def)
    then show ?thesis using cs(1,2) parts by (intro exI [of _ "c # cs"]) auto
  qed
qed

lemma nonempty_chunks: "[] \<notin> set cs \<Longrightarrow> chunks_ok cs"
  by (induction cs) auto

lemma numbered_files:
  assumes "numbered sid k (concat cs)" "[] \<notin> set cs"
  shows "map (\<lambda>c. (segment_path (entry_seq (hd c)), frames c)) cs = files_of k cs"
    "map record_of cs = segments_of k cs"
  using assms
proof (induction cs arbitrary: k)
  case (Cons c cs)
  case 1
  then have n: "numbered sid k c" "numbered sid (k + int (length c)) (concat cs)" "c \<noteq> []" "[] \<notin> set cs"
    by (auto simp: numbered_append)
  then show ?case using Cons.IH(1) numbered_ends [OF n(1,3)] by simp
next
  case (Cons c cs)
  case 2
  then have n: "numbered sid k c" "numbered sid (k + int (length c)) (concat cs)" "c \<noteq> []" "[] \<notin> set cs"
    by (auto simp: numbered_append)
  then show ?case using Cons.IH(2) numbered_ends [OF n(1,3)] by (simp add: record_of_def segment_of_def)
qed simp_all

text \<open>The writer of a migrated log stores it: a directory written from a numbered log of entries that fit holds
  exactly these entries, however they were spread over segments, so reading, appending and recovering
  go on from there.\<close>

theorem written_directory_holds:
  assumes "numbered sid 1 es" "es \<noteq> []" "int (length es) \<le> MAX_ENTRIES"
  shows "log_holds sid (write_session_directory es) es"
proof -
  obtain cs where cs: "concat cs = es" "[] \<notin> set cs" "write_segments es
      = (map (\<lambda>c. (segment_path (entry_seq (hd c)), frames c)) cs, map record_of cs)"
    using write_segments_chunks by blast
  have n: "numbered sid 1 (concat cs)" using assms(1) cs(1) by simp
  have w: "write_segments es = (files_of 1 cs, segments_of 1 cs)"
    unfolding cs(3) numbered_files [OF n cs(2)] ..
  have "(case es of [] \<Rightarrow> [] | e # _ \<Rightarrow> entry_session e) = sid" using assms(1,2) by (cases es) auto
  moreover have "entry_seq (last es) = int (length es)" using numbered_ends(2) [OF assms(1,2)] by simp
  ultimately have "write_session_directory es = \<lparr>ld_index = Some (index_of sid cs), ld_files = files_of 1 cs\<rparr>"
    using assms(2) by (simp add: write_session_directory_def w index_of_def cs(1) split: list.splits)
  moreover have "chunked sid cs" using n nonempty_chunks [OF cs(2)] assms(3) by (simp add: chunked_def cs(1))
  ultimately show ?thesis unfolding log_holds_def using cs(1) by (intro exI [of _ cs]) simp
qed

lemma scan_oversized:
  assumes "MAX_FRAME_BYTES < length (entry_bytes e)" "length (entry_bytes e) < 256 ^ 8"
  shows "scan_frames (frame e) = ([], 0, True)"
proof -
  let ?p = "entry_bytes e"
  have m: "length FRAME_MAGIC = 8" by (simp add: FRAME_MAGIC_def)
  have ne: "frame e \<noteq> []" using frames_empty [of "[e]"] by simp
  have h: "take FRAME_HEADER_SIZE (frame e) = pack_header (length ?p) (crc32 ?p)" by (simp add: frame_def)
  have u: "unpack_header (pack_header (length ?p) (crc32 ?p)) = (FRAME_MAGIC, length ?p,
      bytes_value (big_endian 4 (unat (crc32 ?p))))"
    using bytes_value_big_endian [OF assms(2)] by (simp add: unpack_header_def pack_header_def m)
  show ?thesis
    unfolding scan_frames.simps [of "frame e"] if_not_P [OF ne] Let_def h u prod.case using assms(1) by simp
qed

text \<open>A record too large for a frame is lost by the writer: it does not bound the payload as an append does, so
  the log that ends in such a record reads without it, while the index counts it as the latest entry.\<close>

theorem oversized_record_lost:
  assumes "numbered sid 1 es" "entry_seq e = int (length es) + 1" "int (length es) + 1 \<le> MAX_ENTRIES"
    "MAX_FRAME_BYTES < length (entry_bytes e)" "length (entry_bytes e) < 256 ^ 8"
  shows "read_session_log sid None None (write_session_directory (es @ [e])) = Inr es
    \<and> latest_log_seq (write_session_directory (es @ [e])) = int (length es) + 1
    \<and> encode_frame e \<noteq> Inr f"
proof -
  let ?d = "write_session_directory (es @ [e])"
  obtain ds where ds: "concat ds = es @ [e]" "[] \<notin> set ds" "write_segments (es @ [e])
      = (map (\<lambda>c. (segment_path (entry_seq (hd c)), frames c)) ds, map record_of ds)"
    using write_segments_chunks by blast
  obtain cs x where x: "ds = cs @ [x]" using ds(1) by (cases ds rule: rev_cases) auto
  have "x \<noteq> []" using ds(2) x by auto
  then obtain c where c: "x = c @ [e]" "concat cs @ c = es" using ds(1) x by (cases x rule: rev_cases) auto
  have n: "numbered sid 1 (concat cs)" "numbered sid (1 + int (length (concat cs))) c"
    using assms(1) unfolding c(2) [symmetric] by (simp_all add: numbered_append)
  have hd: "entry_seq (hd x) = 1 + int (length (concat cs))"
    using n(2) assms(2) c by (cases c) auto
  have files: "ld_files ?d = files_of 1 cs @ [(segment_path (1 + int (length (concat cs))), frames x)]"
    using numbered_files(1) [OF n(1)] ds(2) hd by (simp add: write_session_directory_def ds(3) x)
  have "sorted_wrt (<) (dict_keys (files_of 1 (cs @ [x])))"
    using nonempty_chunks [of "cs @ [x]"] ds(2) x assms(3) c
    by (intro files_sorted) (auto simp: MAX_ENTRIES_def ds(1))
  then have sorted: "distinct (dict_keys (ld_files ?d))" "sort (dict_keys (ld_files ?d)) = dict_keys (ld_files ?d)"
    by (auto simp: files files_append strict_sorted_iff sorted_sort_id)
  have "\<forall>(p, bs) \<in> set (files_of 1 cs). file_bytes ?d p = bs"
    using file_bytes_mem [OF sorted(1)] by (auto simp: files)
  from scan_files [OF n(1) this] have first: "concat (map (\<lambda>p. fst (fst (scan_segment False (file_bytes ?d p))))
      (dict_keys (files_of 1 cs))) = concat cs" by (simp add: files_keys comp_def)
  have "file_bytes ?d (segment_path (1 + int (length (concat cs)))) = frames c @ frame e"
    by (rule file_bytes_mem [OF sorted(1)]) (simp add: files c)
  then have last: "fst (fst (scan_segment False (file_bytes ?d (segment_path (1 + int (length (concat cs))))))) = c"
    using scan_chunk [OF n(2) scan_oversized [OF assms(4,5)], of False] by simp
  have "segment_paths_for_range None None ?d = dict_keys (ld_files ?d)"
    using sorted(2) by (simp add: segment_paths_for_range_def segment_paths_def split: option.splits)
  then have all: "concat (map (\<lambda>p. fst (fst (scan_segment False (file_bytes ?d p))))
      (segment_paths_for_range None None ?d)) = es"
    using first last by (simp add: files c)
  have "read_session_log sid None None ?d = Inr es"
    unfolding read_session_log_def Let_def all
    using validate_numbered [OF assms(1)] numbered_ends(1) [OF assms(1)] by (cases "es = []") (simp_all add: in_range_def)
  moreover have "latest_log_seq ?d = int (length es) + 1"
    by (simp add: latest_log_seq_def write_session_directory_def assms(2) case_prod_beta)
  moreover have "encode_frame e \<noteq> Inr f" using assms(4) by (simp add: encode_frame_iff)
  ultimately show ?thesis by blast
qed

end
