(* ===== verification/Log_Store_Example.thy ===== *)
theory Log_Store_Example
  imports Log_Writer_Rules
begin

section \<open>The storage theorems at concrete logs\<close>

text \<open>
  The records of a session \<open>s\<close> with a text of \<open>n\<close> letters. Their frames are bounded by lemmas, so the large ones
  never have to be computed.
\<close>

definition padded :: "nat \<Rightarrow> int \<Rightarrow> entry" where
  "padded n k = [(''pad'', JText (replicate n (CHR ''a''))), (''seq'', JNum k), (''session_id'', JText ''s'')]"

lemma padded_entry [simp]: "entry_seq (padded n k) = k" "entry_session (padded n k) = ''s''"
  by (simp_all add: padded_def entry_seq_def entry_session_def)

lemma keys_sorted: "''pad'' \<le> (''seq'' :: string)" "''pad'' \<le> (''session_id'' :: string)" "''seq'' \<le> (''session_id'' :: string)"
  by code_simp+

lemma sorted_padded: "sort_keys (JDict (padded n k)) = JDict (padded n k)"
  using keys_sorted by (simp add: padded_def)

lemma canonical_padded [simp]: "canonical (padded n k) = padded n k"
  by (simp add: canonical_def sorted_padded del: sort_keys.simps)

lemma plain_letters: "concat (replicate n (escape_char (CHR ''a''))) = replicate n (CHR ''a'')"
proof -
  have "escape_char (CHR ''a'') = [CHR ''a'']" by code_simp
  then show ?thesis by (simp only:) (induction n, simp_all)
qed

lemma written_padded: "dumps (JDict (padded n k))
    = CHR ''{'' # CHR 0x22 # ''pad'' @ CHR 0x22 # CHR '':'' # CHR 0x22 # replicate n (CHR ''a'') @ CHR 0x22 # CHR '',''
      # CHR 0x22 # ''seq'' @ CHR 0x22 # CHR '':'' # dec_int k @ CHR '','' # CHR 0x22 # ''session_id'' @ CHR 0x22 # CHR '':''
      # CHR 0x22 # CHR ''s'' # CHR 0x22 # ''}''"
proof -
  have t: "text_literal ''pad'' = CHR 0x22 # ''pad'' @ [CHR 0x22]" "text_literal ''seq'' = CHR 0x22 # ''seq'' @ [CHR 0x22]"
    "text_literal ''session_id'' = CHR 0x22 # ''session_id'' @ [CHR 0x22]" "text_literal ''s'' = [CHR 0x22, CHR ''s'', CHR 0x22]"
    by code_simp+
  show ?thesis
    unfolding dumps_def sorted_padded unfolding padded_def
    by (simp add: t text_literal_def [of "replicate n _"] plain_letters py_join_Cons)
qed

lemma utf8_length: "length t \<le> length (utf8_encode t)" "length (utf8_encode t) \<le> 2 * length t"
  by (induction t) (auto simp: utf8_encode_def utf8_char_def Let_def)

lemma padded_length:
  "n + 34 + length (dec_int k) \<le> length (entry_bytes (padded n k))"
  "length (entry_bytes (padded n k)) \<le> 2 * (n + 34 + length (dec_int k))"
proof -
  have "length (dumps (JDict (padded n k))) = n + 34 + length (dec_int k)" by (simp add: written_padded)
  then show "n + 34 + length (dec_int k) \<le> length (entry_bytes (padded n k))"
    "length (entry_bytes (padded n k)) \<le> 2 * (n + 34 + length (dec_int k))"
    using utf8_length [of "dumps (JDict (padded n k))"] by (simp_all add: entry_bytes_def)
qed

lemma short_numbers: "length (dec_int 1) = 1" "length (dec_int 2) = 1" "length (dec_int 3) = 1" "length (dec_int 4) = 1"
  "length (dec_int 5) = 1" "length (dec_int 6) = 1" "length (dec_int 7) = 1" "length (dec_int 8) = 1"
  "length (dec_int 9) = 1" "length (dec_int 10) = 2"
  by code_simp+

lemma padded_fits: "length (dec_int k) \<le> 2 \<Longrightarrow> n \<le> 8000000 \<Longrightarrow> entry_fits (padded n k)"
  using padded_length(2) [of n k] by (simp add: entry_fits_def padded_def MAX_FRAME_BYTES_def)

abbreviation no_log :: log_dir where
  "no_log \<equiv> \<lparr>ld_index = None, ld_files = []\<rparr>"

lemma no_log_holds: "log_holds ''s'' no_log []"
  by (auto simp: log_holds_def chunked_def MAX_ENTRIES_def intro: exI [of _ "[]"])

text \<open>A flipped byte of the magic.\<close>

theorem damaged_frame_rejected_witness:
  "scan_frames (concat (map frame [padded 0 1]) @ (frame (padded 0 2))[0 := 0])
    = ([padded 0 1], length (frame (padded 0 1)), True)"
proof -
  have "frame (padded 0 2) ! 0 \<noteq> 0" by (simp add: frame_def pack_header_def FRAME_MAGIC_def)
  moreover have "0 < length (frame (padded 0 2))" by (simp add: length_frame FRAME_HEADER_SIZE_def)
  ultimately show ?thesis
    using damaged_frame_rejected [of "[padded 0 1]" "padded 0 2" 0 0 "[]"] by (simp add: padded_fits short_numbers)
qed

text \<open>Two entries appended to the log of a new session.\<close>

theorem log_storage_refines_list_witness:
  "\<exists>d'. append_session_log_entries ''s'' [padded 0 1, padded 0 2] no_log = Inr d'
     \<and> log_holds ''s'' d' [padded 0 1, padded 0 2] \<and> read_session_log ''s'' (Some 2) None d' = Inr [padded 0 2]"
  using log_storage_refines_list [of "''s''" no_log "[]" "[padded 0 1, padded 0 2]" "[padded 0 1, padded 0 2]"] no_log_holds
  by (auto simp: padded_fits short_numbers MAX_ENTRIES_def in_range_def)

text \<open>A crash that wrote the first of two frames and three bytes of the second.\<close>

theorem crash_recovery_witness:
  "\<exists>k i d'. recover_session_log ''s'' False
       (write_file (open_segment no_log) (frame (padded 0 1) @ take 3 (frame (padded 0 2))) no_log) = Inr (i, d')
     \<and> log_holds ''s'' d' (take k [padded 0 1, padded 0 2]) \<and> li_latest_seq i = int k"
proof -
  have "prefix (frame (padded 0 1) @ take 3 (frame (padded 0 2))) (frames [padded 0 1, padded 0 2])"
    by (simp add: take_is_prefix)
  then show ?thesis
    using crash_recovery [of "''s''" no_log "[]" "[padded 0 1, padded 0 2]" "frame (padded 0 1) @ take 3 (frame (padded 0 2))"]
      no_log_holds
    by (auto simp: padded_fits short_numbers MAX_ENTRIES_def file_bytes_def)
qed

text \<open>Entries of eight million letters: the crash leaves 2 to 10 in a second segment, the index still ends at 1.\<close>

definition large_entries :: "int list \<Rightarrow> entry list" where
  "large_entries ks = map (padded 8000000) ks"

lemma large_frame: "8000000 \<le> length (frame (padded 8000000 k))"
  using padded_length(1) [of 8000000 k] by (simp add: length_frame)

lemma small_frame: "length (dec_int k) = 1 \<Longrightarrow> length (frame (padded 0 k)) \<le> 90"
  using padded_length(2) [of 0 k] by (simp add: length_frame FRAME_HEADER_SIZE_def)

lemma large_frames: "length ks * 8000000 \<le> length (frames (large_entries ks))"
  using large_frame by (induction ks) (auto simp: large_entries_def intro: add_mono)


text \<open>A record of seventeen million letters.\<close>

theorem oversized_record_lost_witness:
  "read_session_log ''s'' None None (write_session_directory [padded 17000000 1]) = Inr []
     \<and> latest_log_seq (write_session_directory [padded 17000000 1]) = 1"
proof -
  have "17000000 \<le> length (entry_bytes (padded 17000000 1))" "length (entry_bytes (padded 17000000 1)) \<le> 40000000"
    using padded_length [of 17000000 1] short_numbers by simp_all
  then show ?thesis
    using oversized_record_lost [of "''s''" "[]" "padded 17000000 1"] by (simp add: MAX_FRAME_BYTES_def MAX_ENTRIES_def)
qed

text \<open>A migrated session with two entries.\<close>

theorem written_directory_holds_witness:
  "log_holds ''s'' (write_session_directory [padded 0 1, padded 0 2]) [padded 0 1, padded 0 2]"
  by (rule written_directory_holds) (simp_all add: padded_fits short_numbers MAX_ENTRIES_def)

end
