(* ===== verification/State_Files.thy ===== *)
theory State_Files
  imports Log_Store Kernel_Defs
begin

section \<open>The files of the state\<close>

text \<open>
  The rest of kernel/storage.py: every item of a collection is a JSON file of its own, the other values are one
  JSON file each, long texts of agent threads and dispatch runs are moved to artifact files, and stores of
  older versions are migrated. A file is named by its path below the state root (a list of names) and holds
  a text; \<open>dk\_logs\<close> are the session directories, \<open>dk\_dirs\<close> the data directories that exist. The state is the
  dictionary the code passes around. SHA-256 is the argument \<open>digest\<close>. Permissions, fsync, temporary files
  and what a failing operation leaves on the disk are not modelled; nor is the text of a \<open>JSONDecodeError\<close>.
\<close>

record disk =
  dk_files :: "(string list \<times> string) list"
  dk_logs :: "(string list \<times> log_dir) list"
  dk_dirs :: "string list"

record storage =
  sg_root :: "string list"
  sg_item_collections :: "(string \<times> string) list"
  sg_value_collections :: "(string \<times> json) list"
  sg_dir_names :: "(string \<times> string) list"
  sg_data_name :: string

subsection \<open>Python values\<close>

text \<open>\<open>repr\<close> and \<open>str\<close> of what \<open>json.load\<close> returns.\<close>

definition repr_char :: "char \<Rightarrow> char \<Rightarrow> string" where
  "repr_char quote c =
     (let n = code_point c in
      if c = quote \<or> n = 92 then [CHR 0x5C, c]
      else if n = 10 then [CHR 0x5C, CHR ''n'']
      else if n = 13 then [CHR 0x5C, CHR ''r'']
      else if n = 9 then [CHR 0x5C, CHR ''t'']
      else if n < 32 \<or> (127 \<le> n \<and> n \<le> 160) \<or> n = 173 then CHR 0x5C # CHR ''x'' # pad0 2 (digits_base 16 n)
      else [c])"

definition repr_text :: "string \<Rightarrow> string" where
  "repr_text s =
     (let q = (if CHR 0x27 \<in> set s \<and> CHR 0x22 \<notin> set s then CHR 0x22 else CHR 0x27)
      in q # concat (map (repr_char q) s) @ [q])"

fun py_repr :: "json \<Rightarrow> string" where
  "py_repr JNone = ''None''"
| "py_repr (JFlag b) = (if b then ''True'' else ''False'')"
| "py_repr (JNum i) = dec_int i"
| "py_repr (JText s) = repr_text s"
| "py_repr (JList vs) = ''['' @ py_join '', '' (map py_repr vs) @ '']''"
| "py_repr (JDict kvs) =
     ''{'' @ py_join '', '' (map (\<lambda>kv. repr_text (fst kv) @ '': '' @ py_repr (snd kv)) kvs) @ ''}''"

definition py_str :: "json \<Rightarrow> string" where
  "py_str v = (case v of JText s \<Rightarrow> s | _ \<Rightarrow> py_repr v)"

definition falsy :: "json \<Rightarrow> bool" where
  "falsy v \<longleftrightarrow> v \<in> {JNone, JFlag False, JNum 0, JText [], JList [], JDict []}"

text \<open>\<open>str(d.get(k) or "")\<close>.\<close>

definition text_of :: "entry \<Rightarrow> string \<Rightarrow> string" where
  "text_of d k = (case map_of d k of None \<Rightarrow> [] | Some v \<Rightarrow> if falsy v then [] else py_str v)"

text \<open>\<open>v != n\<close>; \<open>True\<close> equals 1.\<close>

definition differs :: "json option \<Rightarrow> int \<Rightarrow> bool" where
  "differs v n \<longleftrightarrow> v \<noteq> Some (JNum n) \<and> \<not> (n = 1 \<and> v = Some (JFlag True)) \<and> \<not> (n = 0 \<and> v = Some (JFlag False))"

definition py_iter :: "json \<Rightarrow> json list res" where
  "py_iter v =
     (case v of
        JList vs \<Rightarrow> Inr vs
      | JText s \<Rightarrow> Inr (map (\<lambda>c. JText [c]) s)
      | JDict kvs \<Rightarrow> Inr (map (\<lambda>kv. JText (fst kv)) kvs)
      | _ \<Rightarrow> Inl (TypeError ''object is not iterable''))"

definition dict_items :: "json \<Rightarrow> entry res" where
  "dict_items v = (case v of JDict kvs \<Rightarrow> Inr kvs | _ \<Rightarrow> Inl (AttributeError ''items''))"

subsection \<open>Paths and files\<close>

definition path_text :: "string list \<Rightarrow> string" where
  "path_text p = py_join ''/'' p"

fun path_parts :: "string \<Rightarrow> string \<Rightarrow> string list" where
  "path_parts acc [] = [rev acc]"
| "path_parts acc (c # cs) = (if c = CHR ''/'' then rev acc # path_parts [] cs else path_parts (c # acc) cs)"

definition metadata_root :: "storage \<Rightarrow> string list" where
  "metadata_root s = [sg_data_name s, ''metadata'']"

definition runtime_root :: "storage \<Rightarrow> string list" where
  "runtime_root s = [sg_data_name s, ''runtime'']"

definition session_storage_path :: "storage \<Rightarrow> (string \<Rightarrow> string) \<Rightarrow> string \<Rightarrow> string list" where
  "session_storage_path s digest sid =
     [sg_data_name s, ''sessions'', take 80 (safe_id_part sid ''session'') @ ''-'' @ take 12 (digest sid)]"

definition item_collection_root :: "storage \<Rightarrow> string \<Rightarrow> string list" where
  "item_collection_root s name =
     (if name \<in> {''agent_threads'', ''dispatch_runs''} then runtime_root s else metadata_root s)
     @ [dict_get name (sg_dir_names s) name]"

definition value_collection_path :: "storage \<Rightarrow> string \<Rightarrow> string list" where
  "value_collection_path s name =
     (if name \<in> {''dispatch_readiness'', ''endpoint_cursors''} then runtime_root s else metadata_root s)
     @ [name @ ''.json'']"

definition manifest_path :: "string list" where
  "manifest_path = [''manifest.json'']"

definition json_bytes :: "json \<Rightarrow> string" where
  "json_bytes v = dumps_pretty v @ [CHR 0x0A]"

definition read_json :: "string list \<Rightarrow> disk \<Rightarrow> json res" where
  "read_json p d =
     (case map_of (dk_files d) p of
        None \<Rightarrow> Inl (StoreError (''state file is missing: '' @ path_text p))
      | Some t \<Rightarrow>
          (case loads t of
             None \<Rightarrow> Inl (StoreError (''invalid state JSON: '' @ path_text p))
           | Some v \<Rightarrow> Inr v))"

definition read_json_object :: "string list \<Rightarrow> disk \<Rightarrow> entry res" where
  "read_json_object p d =
     bindR (read_json p d) (\<lambda>v.
       case v of JDict kvs \<Rightarrow> Inr kvs | _ \<Rightarrow> Inl (StoreError (''state file must contain an object: '' @ path_text p)))"

definition write_text :: "string list \<Rightarrow> string \<Rightarrow> disk \<Rightarrow> disk" where
  "write_text p t d = d\<lparr>dk_files := AList.update p t (dk_files d)\<rparr>"

definition write_json_atomic :: "string list \<Rightarrow> json \<Rightarrow> disk \<Rightarrow> disk" where
  "write_json_atomic p v d = write_text p (json_bytes v) d"

definition write_json_if_changed :: "string list \<Rightarrow> json \<Rightarrow> disk \<Rightarrow> disk" where
  "write_json_if_changed p v d =
     (if map_of (dk_files d) p = Some (json_bytes v) then d else write_json_atomic p v d)"

definition prepare_data_directories :: "storage \<Rightarrow> disk \<Rightarrow> disk" where
  "prepare_data_directories s d = d\<lparr>dk_dirs := List.insert (sg_data_name s) (dk_dirs d)\<rparr>"

text \<open>\<open>sorted(root.glob("*.json"))\<close>.\<close>

definition json_name :: "string \<Rightarrow> bool" where
  "json_name x \<longleftrightarrow> drop (length x - 5) x = ''.json''"

definition in_directory :: "string list \<Rightarrow> string list \<Rightarrow> bool" where
  "in_directory root p \<longleftrightarrow> p \<noteq> [] \<and> butlast p = root \<and> json_name (last p)"

definition json_paths :: "string list \<Rightarrow> disk \<Rightarrow> string list list" where
  "json_paths root d = sort (filter (in_directory root) (map fst (dk_files d)))"

subsection \<open>Artifacts\<close>

text \<open>
  \<open>\_externalize\_field\<close> moves a text of a record to the file named by its digest, \<open>\_hydrate\_field\<close> puts it back.
\<close>

definition artifact_path :: "storage \<Rightarrow> string \<Rightarrow> string list" where
  "artifact_path s digest_text = [sg_data_name s, ''artifacts'', take 2 digest_text, digest_text @ ''.txt'']"

definition externalize_field ::
  "storage \<Rightarrow> (string \<Rightarrow> string) \<Rightarrow> string \<Rightarrow> string \<Rightarrow> entry \<Rightarrow> disk \<Rightarrow> entry \<times> disk" where
  "externalize_field s digest field path_field r d =
     (let r1 = AList.delete field r in
      case map_of r field of
        None \<Rightarrow> (r1, d)
      | Some JNone \<Rightarrow> (r1, d)
      | Some v \<Rightarrow>
          let t = py_str v;
              p = artifact_path s (digest t);
              d1 = (if p \<in> set (map fst (dk_files d)) then d else write_text p t d)
          in (AList.update (field @ ''_chars'') (JNum (int (length t)))
                (AList.update path_field (JText (path_text p)) r1), d1))"

fun externalize_fields ::
  "storage \<Rightarrow> (string \<Rightarrow> string) \<Rightarrow> (string \<times> string) list \<Rightarrow> entry \<Rightarrow> disk \<Rightarrow> entry \<times> disk" where
  "externalize_fields s digest [] r d = (r, d)"
| "externalize_fields s digest ((field, path_field) # fs) r d =
     (let (r1, d1) = externalize_field s digest field path_field r d in externalize_fields s digest fs r1 d1)"

fun externalize_parts ::
  "storage \<Rightarrow> (string \<Rightarrow> string) \<Rightarrow> (string \<times> string) list \<Rightarrow> json list \<Rightarrow> disk \<Rightarrow> json list \<times> disk" where
  "externalize_parts s digest fs [] d = ([], d)"
| "externalize_parts s digest fs (v # vs) d =
     (let (v1, d1) = (case v of JDict r \<Rightarrow> let (r1, d1) = externalize_fields s digest fs r d in (JDict r1, d1)
                      | _ \<Rightarrow> (v, d));
          (ws, d2) = externalize_parts s digest fs vs d1
      in (v1 # ws, d2))"

text \<open>The parts of an item whose texts are moved.\<close>

definition item_texts :: "string \<Rightarrow> (string \<times> (string \<times> string) list) option" where
  "item_texts name =
     (if name = ''agent_threads'' then
        Some (''turns'', [(''prompt'', ''prompt_path''), (''result'', ''result_path'')])
      else if name = ''dispatch_runs'' then Some (''steps'', [(''output'', ''output_path'')])
      else None)"

text \<open>
  \<open>(root / relative).resolve()\<close> for a directory tree without symbolic links; the result is a list of names
  from the file system's root.
\<close>

definition resolve_step :: "string \<Rightarrow> string list \<Rightarrow> string list" where
  "resolve_step x p = (if x = [] \<or> x = ''.'' then p else if x = ''..'' then butlast p else p @ [x])"

definition resolve_path :: "storage \<Rightarrow> string \<Rightarrow> string list" where
  "resolve_path s relative =
     fold resolve_step (path_parts [] relative) (if starts_with ''/'' relative then [] else sg_root s)"

definition hydrate_field :: "storage \<Rightarrow> disk \<Rightarrow> string \<Rightarrow> string \<Rightarrow> entry \<Rightarrow> entry res" where
  "hydrate_field s d field path_field r =
     (if field \<in> set (dict_keys r) then Inr r
      else
        case map_of r path_field of
          Some (JText relative) \<Rightarrow>
            if relative = [] then Inr r
            else
              let p = resolve_path s relative in
              if take (length (sg_root s)) p \<noteq> sg_root s then
                Inl (StoreError (''artifact path escapes state root: '' @ relative))
              else
                (case map_of (dk_files d) (drop (length (sg_root s)) p) of
                   Some t \<Rightarrow> Inr (AList.update field (JText t) r)
                 | None \<Rightarrow> Inl (StoreError (''missing state artifact: '' @ relative)))
        | _ \<Rightarrow> Inr r)"

text \<open>A part that is not a dictionary: \<open>field in part\<close> is a test on a text or a list as well.\<close>

definition hydrate_value :: "storage \<Rightarrow> disk \<Rightarrow> string \<Rightarrow> string \<Rightarrow> json \<Rightarrow> json res" where
  "hydrate_value s d field path_field v =
     (case v of
        JDict r \<Rightarrow> bindR (hydrate_field s d field path_field r) (\<lambda>r1. Inr (JDict r1))
      | JText t \<Rightarrow> if sublist field t then Inr v else Inl (AttributeError ''get'')
      | JList vs \<Rightarrow> if JText field \<in> set vs then Inr v else Inl (AttributeError ''get'')
      | _ \<Rightarrow> Inl (TypeError ''argument is not iterable''))"

definition hydrate_values ::
  "storage \<Rightarrow> disk \<Rightarrow> (string \<times> string) list \<Rightarrow> json \<Rightarrow> json res" where
  "hydrate_values s d fs v = foldR (\<lambda>(field, path_field). hydrate_value s d field path_field) fs v"

fun mapR :: "('a \<Rightarrow> 'b res) \<Rightarrow> 'a list \<Rightarrow> 'b list res" where
  "mapR f [] = Inr []"
| "mapR f (x # xs) = bindR (f x) (\<lambda>y. bindR (mapR f xs) (\<lambda>ys. Inr (y # ys)))"

text \<open>\<open>hydrate\_agent\_threads\<close> and \<open>hydrate\_dispatch\_runs\<close> on one item of the collection \<open>name\<close>.\<close>

definition hydrate_item :: "storage \<Rightarrow> disk \<Rightarrow> string \<Rightarrow> entry \<Rightarrow> entry res" where
  "hydrate_item s d name item =
     (case item_texts name of
        None \<Rightarrow> Inr item
      | Some (parts, fs) \<Rightarrow>
          (case map_of item parts of
             None \<Rightarrow> Inr item
           | Some v \<Rightarrow>
               bindR (py_iter v) (\<lambda>vs.
               bindR (mapR (hydrate_values s d fs) vs) (\<lambda>ws.
                 Inr (case v of JList _ \<Rightarrow> AList.update parts (JList ws) item | _ \<Rightarrow> item)))))"

definition hydrate_agent_threads :: "storage \<Rightarrow> disk \<Rightarrow> entry list \<Rightarrow> entry list res" where
  "hydrate_agent_threads s d threads = mapR (hydrate_item s d ''agent_threads'') threads"

definition hydrate_dispatch_runs :: "storage \<Rightarrow> disk \<Rightarrow> entry list \<Rightarrow> entry list res" where
  "hydrate_dispatch_runs s d runs = mapR (hydrate_item s d ''dispatch_runs'') runs"

subsection \<open>Collections\<close>

definition persist_item ::
  "storage \<Rightarrow> (string \<Rightarrow> string) \<Rightarrow> string \<Rightarrow> string \<Rightarrow> string \<Rightarrow> entry \<Rightarrow> disk \<Rightarrow> (entry \<times> disk) res" where
  "persist_item s digest name identity_key key item d =
     (let persisted = dict_setdefault identity_key (JText key) item in
      case item_texts name of
        None \<Rightarrow> Inr (persisted, d)
      | Some (parts, fs) \<Rightarrow>
          (case map_of persisted parts of
             None \<Rightarrow> Inr (persisted, d)
           | Some v \<Rightarrow>
               bindR (py_iter v) (\<lambda>vs.
                 let (ws, d1) = externalize_parts s digest fs vs d
                 in Inr (case v of JList _ \<Rightarrow> AList.update parts (JList ws) persisted | _ \<Rightarrow> persisted, d1))))"

definition item_path :: "storage \<Rightarrow> (string \<Rightarrow> string) \<Rightarrow> string \<Rightarrow> string \<Rightarrow> string list" where
  "item_path s digest name key = item_collection_root s name @ [digest key @ ''.json'']"

definition save_item ::
  "storage \<Rightarrow> (string \<Rightarrow> string) \<Rightarrow> string \<Rightarrow> string \<Rightarrow> string \<times> json \<Rightarrow> disk \<Rightarrow> disk res" where
  "save_item s digest name identity_key kv d =
     (case snd kv of
        JDict item \<Rightarrow>
          bindR (persist_item s digest name identity_key (fst kv) item d) (\<lambda>(persisted, d1).
            Inr (write_json_if_changed (item_path s digest name (fst kv)) (JDict persisted) d1))
      | _ \<Rightarrow> Inl (StoreError (''state item '' @ name @ '':'' @ fst kv @ '' must be an object'')))"

definition save_item_collection ::
  "storage \<Rightarrow> (string \<Rightarrow> string) \<Rightarrow> string \<Rightarrow> string \<Rightarrow> entry \<Rightarrow> disk \<Rightarrow> disk res" where
  "save_item_collection s digest name identity_key collection d =
     bindR (foldR (save_item s digest name identity_key) collection d) (\<lambda>d1.
       let expected = map (\<lambda>kv. item_path s digest name (fst kv)) collection
       in Inr (d1\<lparr>dk_files := filter (\<lambda>(p, _). in_directory (item_collection_root s name) p \<longrightarrow> p \<in> set expected)
                                (dk_files d1)\<rparr>))"

definition load_item :: "string \<Rightarrow> disk \<Rightarrow> string list \<Rightarrow> entry \<Rightarrow> entry res" where
  "load_item identity_key d p collection =
     bindR (read_json_object p d) (\<lambda>item.
       let key = text_of item identity_key in
       if key = [] then Inl (StoreError (''state item has no '' @ identity_key @ '': '' @ path_text p))
       else Inr (AList.update key (JDict item) collection))"

definition load_item_collection :: "storage \<Rightarrow> string \<Rightarrow> string \<Rightarrow> disk \<Rightarrow> entry res" where
  "load_item_collection s name identity_key d =
     foldR (load_item identity_key d) (json_paths (item_collection_root s name) d) []"

subsection \<open>Session directories\<close>

definition log_at :: "string list \<Rightarrow> disk \<Rightarrow> log_dir" where
  "log_at p d = (case map_of (dk_logs d) p of None \<Rightarrow> \<lparr>ld_index = None, ld_files = []\<rparr> | Some l \<Rightarrow> l)"

definition set_log :: "string list \<Rightarrow> log_dir \<Rightarrow> disk \<Rightarrow> disk" where
  "set_log p l d = d\<lparr>dk_logs := AList.update p l (dk_logs d)\<rparr>"

definition entry_of :: "json \<Rightarrow> entry res" where
  "entry_of v = (case v of JDict e \<Rightarrow> Inr e | _ \<Rightarrow> Inl (AttributeError ''get''))"

definition append_entries ::
  "storage \<Rightarrow> (string \<Rightarrow> string) \<Rightarrow> string \<Rightarrow> json list \<Rightarrow> disk \<Rightarrow> disk res" where
  "append_entries s digest sid vs d =
     bindR (mapR entry_of vs) (\<lambda>es.
       let p = session_storage_path s digest sid in
       bindR (append_session_log_entries sid es (log_at p d)) (\<lambda>l. Inr (set_log p l d)))"

definition replace_session_log ::
  "storage \<Rightarrow> (string \<Rightarrow> string) \<Rightarrow> string \<Rightarrow> json list \<Rightarrow> disk \<Rightarrow> disk res" where
  "replace_session_log s digest sid vs d =
     bindR (mapR entry_of vs) (\<lambda>es. Inr (set_log (session_storage_path s digest sid) (write_session_directory es) d))"

text \<open>The directories that have an index, in the order the file system lists them.\<close>

definition indexed_logs :: "storage \<Rightarrow> disk \<Rightarrow> log_index list" where
  "indexed_logs s d =
     List.map_filter (\<lambda>(p, l). if take 2 p = [sg_data_name s, ''sessions''] then ld_index l else None) (dk_logs d)"

definition recover_all_session_logs ::
  "storage \<Rightarrow> (string \<Rightarrow> string) \<Rightarrow> disk \<Rightarrow> ((string \<times> int) list \<times> disk) res" where
  "recover_all_session_logs s digest d =
     foldR (\<lambda>i (recovered, d).
       let sid = li_session_id i; p = session_storage_path s digest sid in
       if sid = [] then Inr (recovered, d)
       else bindR (recover_session_log sid True (log_at p d)) (\<lambda>(rebuilt, l).
         Inr (AList.update sid (li_latest_seq rebuilt) recovered, set_log p l d)))
       (indexed_logs s d) ([], d)"

definition session_log_ids :: "storage \<Rightarrow> disk \<Rightarrow> string list" where
  "session_log_ids s d = sorted_list_of_set (set (filter (\<lambda>x. x \<noteq> []) (map li_session_id (indexed_logs s d))))"

definition session_log_stats :: "storage \<Rightarrow> (string \<Rightarrow> string) \<Rightarrow> disk \<Rightarrow> (nat \<times> nat) res" where
  "session_log_stats s digest d =
     foldR (\<lambda>sid (records, messages).
       case ld_index (log_at (session_storage_path s digest sid) d) of
         None \<Rightarrow> Inl (StoreError (''state file is missing: ''
                    @ path_text (session_storage_path s digest sid @ [''log.index.json''])))
       | Some i \<Rightarrow> Inr (records + li_record_count i, messages + li_message_count i))
       (session_log_ids s d) (0, 0)"

subsection \<open>Saving and loading\<close>

definition STORAGE_VERSION :: int where
  "STORAGE_VERSION = 2"

definition STATE_VERSION :: int where
  "STATE_VERSION = 1"

definition unsupported :: "string \<Rightarrow> json option \<Rightarrow> error" where
  "unsupported what v = StoreError (''unsupported '' @ what @ '' version: ''
     @ (case v of None \<Rightarrow> ''None'' | Some v \<Rightarrow> py_str v))"

definition write_manifest :: "storage \<Rightarrow> entry \<Rightarrow> disk \<Rightarrow> disk" where
  "write_manifest s state d =
     write_json_atomic manifest_path
       (JDict [(''storage_version'', JNum STORAGE_VERSION), (''state_version'', JNum STATE_VERSION),
               (''created_at'', JText (text_of state ''created_at'')), (''data_dir'', JText (sg_data_name s))]) d"

definition save_logs :: "storage \<Rightarrow> (string \<Rightarrow> string) \<Rightarrow> entry \<Rightarrow> disk \<Rightarrow> disk res" where
  "save_logs s digest state d =
     bindR (dict_items (dict_get (JDict []) state ''session_logs'')) (\<lambda>logs.
       foldR (\<lambda>(sid, v) d. case v of JList vs \<Rightarrow> append_entries s digest sid vs d | _ \<Rightarrow> Inr d) logs d)"

definition save_items :: "storage \<Rightarrow> (string \<Rightarrow> string) \<Rightarrow> entry \<Rightarrow> disk \<Rightarrow> disk res" where
  "save_items s digest state d =
     foldR (\<lambda>(name, identity_key) d.
       case dict_get (JDict []) state name of
         JDict collection \<Rightarrow> save_item_collection s digest name identity_key collection d
       | _ \<Rightarrow> Inl (StoreError (''state collection '' @ name @ '' must be an object'')))
       (sg_item_collections s) d"

definition save_values :: "storage \<Rightarrow> entry \<Rightarrow> disk \<Rightarrow> disk" where
  "save_values s state d =
     fold (\<lambda>(name, default). write_json_if_changed (value_collection_path s name) (dict_get default state name))
       (sg_value_collections s) d"

definition save_state :: "storage \<Rightarrow> (string \<Rightarrow> string) \<Rightarrow> entry \<Rightarrow> disk \<Rightarrow> disk res" where
  "save_state s digest state d =
     (if differs (map_of state ''version'') STATE_VERSION then
        Inl (unsupported ''state'' (map_of state ''version''))
      else
        bindR (save_logs s digest state (prepare_data_directories s d)) (\<lambda>d1.
        bindR (save_items s digest state d1) (\<lambda>d2.
          let d3 = save_values s state d2 in
          Inr (if manifest_path \<in> set (map fst (dk_files d3)) then d3 else write_manifest s state d3))))"

definition initialize :: "storage \<Rightarrow> (string \<Rightarrow> string) \<Rightarrow> entry \<Rightarrow> disk \<Rightarrow> disk res" where
  "initialize s digest state d =
     (if manifest_path \<in> set (map fst (dk_files d)) then
        Inl (StoreError (''state already initialized: '' @ path_text manifest_path))
      else
        bindR (save_state s digest state (prepare_data_directories s d)) (\<lambda>d1. Inr (write_manifest s state d1)))"

definition load_items :: "storage \<Rightarrow> disk \<Rightarrow> entry \<Rightarrow> entry res" where
  "load_items s d state =
     foldR (\<lambda>(name, identity_key) state.
       bindR (load_item_collection s name identity_key d) (\<lambda>collection.
         Inr (AList.update name (JDict collection) state))) (sg_item_collections s) state"

definition load_values :: "storage \<Rightarrow> disk \<Rightarrow> entry \<Rightarrow> entry res" where
  "load_values s d state =
     foldR (\<lambda>(name, default) state.
       let p = value_collection_path s name in
       bindR (if p \<in> set (map fst (dk_files d)) then read_json p d else Inr default) (\<lambda>v.
         Inr (AList.update name v state))) (sg_value_collections s) state"

definition load_state :: "storage \<Rightarrow> disk \<Rightarrow> entry res" where
  "load_state s d =
     bindR (read_json_object manifest_path d) (\<lambda>manifest.
       if differs (map_of manifest ''storage_version'') STORAGE_VERSION then
         Inl (unsupported ''storage'' (map_of manifest ''storage_version''))
       else if differs (map_of manifest ''state_version'') STATE_VERSION then
         Inl (unsupported ''state'' (map_of manifest ''state_version''))
       else
         case (map_of manifest ''state_version'', map_of manifest ''created_at'') of
           (Some version, Some created_at) \<Rightarrow>
             bindR (load_items s d [(''version'', version), (''created_at'', created_at)]) (\<lambda>state1.
             bindR (load_values s d state1) (\<lambda>state2.
               Inr (AList.update ''session_logs'' (JDict []) (AList.update ''messages'' (JList []) state2))))
         | _ \<Rightarrow> Inl (KeyError ''created_at''))"

subsection \<open>The store of the program\<close>

text \<open>The collections of goal/store.py.\<close>

definition STATE_ITEM_COLLECTIONS :: "(string \<times> string) list" where
  "STATE_ITEM_COLLECTIONS =
     [(''users'', ''username''), (''units'', ''unit_id''), (''sessions'', ''session_id''), (''goals'', ''goal_id''),
      (''agent_profiles'', ''role''), (''agent_threads'', ''thread_id''), (''dispatch_runs'', ''run_id'')]"

definition STATE_VALUE_COLLECTIONS :: "(string \<times> json) list" where
  "STATE_VALUE_COLLECTIONS =
     [(''session_edges'', JList []), (''dispatch_readiness'', JList []), (''runtime_settings'', JDict []),
      (''endpoint_cursors'', JDict [])]"

definition STATE_COLLECTION_DIR_NAMES :: "(string \<times> string) list" where
  "STATE_COLLECTION_DIR_NAMES = [(''users'', ''accounts'')]"

definition store_storage :: "string list \<Rightarrow> storage" where
  "store_storage root =
     \<lparr>sg_root = root, sg_item_collections = STATE_ITEM_COLLECTIONS, sg_value_collections = STATE_VALUE_COLLECTIONS,
      sg_dir_names = STATE_COLLECTION_DIR_NAMES, sg_data_name = ''store''\<rparr>"

end
