(* ===== verification/State_Files_Rules.thy ===== *)
theory State_Files_Rules
  imports State_Files
begin

section \<open>The state is read back as it was saved\<close>

text \<open>
  The files an operation touches, and what follows for loading: items and values are read back, externalised texts
  are restored, and what the migration of an old store leaves behind.
\<close>

subsection \<open>Files\<close>

abbreviation content :: "disk \<Rightarrow> string list \<Rightarrow> string option" where
  "content d \<equiv> map_of (dk_files d)"

abbreviation disk_ok :: "disk \<Rightarrow> bool" where
  "disk_ok d \<equiv> distinct (map fst (dk_files d))"

lemma file_exists: "p \<in> set (map fst (dk_files d)) \<longleftrightarrow> content d p \<noteq> None"
  by (simp add: map_of_eq_None_iff)

lemma content_write [simp]: "content (write_text p t d) q = (if q = p then Some t else content d q)"
  by (simp add: write_text_def update_conv')

lemma content_write_json [simp]:
  "content (write_json_atomic p v d) q = (if q = p then Some (json_bytes v) else content d q)"
  "content (write_json_if_changed p v d) q = (if q = p then Some (json_bytes v) else content d q)"
  by (auto simp: write_json_atomic_def write_json_if_changed_def)

lemma update_distinct [simp]: "distinct (map fst (AList.update k v d)) = distinct (map fst d)"
  by (induction d) (auto simp: dom_update)

lemma write_keeps [simp]:
  "disk_ok (write_text p t d) = disk_ok d" "dk_logs (write_text p t d) = dk_logs d" "dk_dirs (write_text p t d) = dk_dirs d"
  "disk_ok (write_json_atomic p v d) = disk_ok d" "dk_dirs (write_json_atomic p v d) = dk_dirs d"
  "disk_ok (write_json_if_changed p v d) = disk_ok d"
  "dk_dirs (write_json_if_changed p v d) = dk_dirs d"
  by (simp_all add: write_text_def write_json_atomic_def write_json_if_changed_def)

lemma read_written:
  assumes "json_ok v" "content d p = Some (json_bytes v)"
  shows "read_json p d = Inr (sort_keys v)"
  using loads_pretty [OF assms(1)] assms(2) by (simp add: read_json_def json_bytes_def new_line_def)

lemma read_object_written:
  assumes "json_ok (JDict e)" "content d p = Some (json_bytes (JDict e))"
  shows "read_json_object p d = Inr (canonical e)"
  using read_written [OF assms] by (simp add: read_json_object_def sort_keys_dict del: sort_keys.simps)

subsection \<open>Artifacts\<close>

text \<open>Two disks that differ in artifacts only.\<close>

definition same_but_artifacts :: "storage \<Rightarrow> disk \<Rightarrow> disk \<Rightarrow> bool" where
  "same_but_artifacts s d d' \<longleftrightarrow>
     (disk_ok d \<longrightarrow> disk_ok d') \<and> (\<forall>q. (\<forall>x. q \<noteq> artifact_path s x) \<longrightarrow> content d' q = content d q)
     \<and> dk_dirs d' = dk_dirs d"

lemma same_refl [simp]: "same_but_artifacts s d d"
  by (simp add: same_but_artifacts_def)

lemma same_trans: "same_but_artifacts s a b \<Longrightarrow> same_but_artifacts s b c \<Longrightarrow> same_but_artifacts s a c"
  by (auto simp: same_but_artifacts_def)

lemma same_field: "same_but_artifacts s d (snd (externalize_field s digest f pf r d))"
  by (auto simp: same_but_artifacts_def externalize_field_def Let_def split: option.splits json.splits)

lemma same_fields: "same_but_artifacts s d (snd (externalize_fields s digest fs r d))"
proof (induction fs arbitrary: r d)
  case (Cons f fs)
  obtain field pf where f: "f = (field, pf)" by (cases f)
  obtain r1 d1 where one: "externalize_field s digest field pf r d = (r1, d1)" by (cases "externalize_field s digest field pf r d")
  have "same_but_artifacts s d d1" using same_field [of s d digest field pf r] by (simp add: one)
  from same_trans [OF this Cons.IH [of d1 r1]] show ?case by (simp add: f one)
qed simp

definition externalize_value ::
  "storage \<Rightarrow> (string \<Rightarrow> string) \<Rightarrow> (string \<times> string) list \<Rightarrow> json \<Rightarrow> disk \<Rightarrow> json \<times> disk" where
  "externalize_value s digest fs v d =
     (case v of JDict r \<Rightarrow> (JDict (fst (externalize_fields s digest fs r d)), snd (externalize_fields s digest fs r d))
      | _ \<Rightarrow> (v, d))"

lemma externalize_parts_Cons: "externalize_parts s digest fs (v # vs) d =
    (fst (externalize_value s digest fs v d)
       # fst (externalize_parts s digest fs vs (snd (externalize_value s digest fs v d))),
     snd (externalize_parts s digest fs vs (snd (externalize_value s digest fs v d))))"
  by (cases v) (simp_all add: externalize_value_def case_prod_beta Let_def)

lemma same_value: "same_but_artifacts s d (snd (externalize_value s digest fs v d))"
  by (cases v) (simp_all add: externalize_value_def same_fields)

lemma same_parts: "same_but_artifacts s d (snd (externalize_parts s digest fs vs d))"
proof (induction vs arbitrary: d)
  case (Cons v vs)
  from same_trans [OF same_value [of s d digest fs v] Cons.IH] show ?case unfolding externalize_parts_Cons by simp
qed simp

lemma field_record: "fst (externalize_field s digest f pf r d) = fst (externalize_field s digest f pf r d')"
  by (auto simp: externalize_field_def Let_def split: option.splits json.splits)

lemma fields_record: "fst (externalize_fields s digest fs r d) = fst (externalize_fields s digest fs r d')"
proof (induction fs arbitrary: r d d')
  case (Cons f fs)
  show ?case using field_record [of s digest "fst f" "snd f" r d d'] Cons.IH
    by (cases f) (simp add: case_prod_beta Let_def)
qed simp

lemma value_record: "fst (externalize_value s digest fs v d) = fst (externalize_value s digest fs v d')"
  using fields_record [of s digest fs _ d d'] by (cases v) (auto simp: externalize_value_def)

lemma parts_record: "fst (externalize_parts s digest fs vs d) = fst (externalize_parts s digest fs vs d')"
proof (induction vs arbitrary: d d')
  case (Cons v vs)
  show ?case unfolding externalize_parts_Cons fst_conv value_record [of s digest fs v d d']
    using Cons.IH by (rule arg_cong)
qed simp

text \<open>The record of an item that is written; it does not depend on the disk.\<close>

definition no_files :: disk where
  "no_files = \<lparr>dk_files = [], dk_logs = [], dk_dirs = []\<rparr>"

definition persisted :: "storage \<Rightarrow> (string \<Rightarrow> string) \<Rightarrow> string \<Rightarrow> string \<Rightarrow> string \<Rightarrow> entry \<Rightarrow> entry res" where
  "persisted s digest name ik k item = bindR (persist_item s digest name ik k item no_files) (\<lambda>(p, _). Inr p)"

lemma persist_item_cases:
  assumes "persist_item s digest name ik k item d = Inr (p, d')"
  shows "persisted s digest name ik k item = Inr p \<and> same_but_artifacts s d d'"
proof -
  note defs = persisted_def persist_item_def Let_def case_prod_beta bindR_Inr_iff
  have pieces: "fst (externalize_parts s digest fs vs d) = fst (externalize_parts s digest fs vs no_files)"
    "same_but_artifacts s d (snd (externalize_parts s digest fs vs d))" for fs vs
    by (rule parts_record, rule same_parts)
  show ?thesis
  proof (cases "item_texts name")
    case None
    then show ?thesis using assms by (simp add: defs)
  next
    case (Some t)
    show ?thesis
    proof (cases "map_of (dict_setdefault ik (JText k) item) (fst t)")
      case None
      then show ?thesis using assms Some by (simp add: defs)
    next
      case (Some v)
      then show ?thesis using assms \<open>item_texts name = Some t\<close> pieces
        by (cases v) (auto simp: defs)
    qed
  qed
qed

subsection \<open>A collection\<close>

lemma item_not_artifact [simp]: "item_path s digest name k \<noteq> artifact_path s x"
  "value_collection_path s name \<noteq> artifact_path s x" "manifest_path \<noteq> artifact_path s x"
  by (simp_all add: item_path_def item_collection_root_def runtime_root_def metadata_root_def artifact_path_def
      value_collection_path_def manifest_path_def)

lemma item_path_eq [simp]: "item_path s digest name k = item_path s digest name l \<longleftrightarrow> digest k = digest l"
  by (simp add: item_path_def)

lemma item_in_directory [simp]: "in_directory (item_collection_root s name) (item_path s digest name k)"
  by (simp add: in_directory_def item_path_def json_name_def)

lemma map_of_filter_keys: "map_of (filter (\<lambda>(p, _). P p) xs) q = (if P q then map_of xs q else None)"
  by (induction xs) auto

lemma saved_item:
  assumes "save_item s digest name ik (k, v) d = Inr d'"
  obtains item p d1 where "v = JDict item" "persisted s digest name ik k item = Inr p" "same_but_artifacts s d d1"
    "d' = write_json_if_changed (item_path s digest name k) (JDict p) d1"
proof (cases v)
  case (JDict item)
  from assms obtain p d1 where p: "persist_item s digest name ik k item d = Inr (p, d1)"
    "d' = write_json_if_changed (item_path s digest name k) (JDict p) d1"
    by (auto simp: save_item_def JDict bindR_Inr_iff)
  show ?thesis using persist_item_cases [OF p(1)] JDict p(2) that by blast
qed (use assms in \<open>simp_all add: save_item_def\<close>)

text \<open>What is known of the disk after the items of a collection were written.\<close>

definition items_written ::
  "storage \<Rightarrow> (string \<Rightarrow> string) \<Rightarrow> string \<Rightarrow> string \<Rightarrow> entry \<Rightarrow> disk \<Rightarrow> bool" where
  "items_written s digest name ik coll d \<longleftrightarrow>
     (\<forall>(k, v) \<in> set coll. \<exists>item p. v = JDict item \<and> persisted s digest name ik k item = Inr p
        \<and> content d (item_path s digest name k) = Some (json_bytes (JDict p)))"

lemma saved_items:
  assumes "foldR (save_item s digest name ik) coll d = Inr d'" "distinct (dict_keys coll)"
    "inj_on digest (set (dict_keys coll))"
  shows "items_written s digest name ik coll d' \<and> (disk_ok d \<longrightarrow> disk_ok d') \<and> dk_dirs d' = dk_dirs d
    \<and> (\<forall>q. (\<forall>x. q \<noteq> artifact_path s x) \<longrightarrow> q \<notin> item_path s digest name ` set (dict_keys coll)
         \<longrightarrow> content d' q = content d q)"
  using assms
proof (induction coll arbitrary: d)
  case (Cons kv coll)
  obtain k v where kv: "kv = (k, v)" by (cases kv)
  from Cons.prems(1) obtain d2 where d2: "save_item s digest name ik (k, v) d = Inr d2"
    "foldR (save_item s digest name ik) coll d2 = Inr d'" by (auto simp: kv bindR_Inr_iff)
  obtain item p d1 where one: "v = JDict item" "persisted s digest name ik k item = Inr p" "same_but_artifacts s d d1"
    "d2 = write_json_if_changed (item_path s digest name k) (JDict p) d1" using d2(1) by (rule saved_item)
  have rest: "items_written s digest name ik coll d' \<and> (disk_ok d2 \<longrightarrow> disk_ok d') \<and> dk_dirs d' = dk_dirs d2
      \<and> (\<forall>q. (\<forall>x. q \<noteq> artifact_path s x) \<longrightarrow> q \<notin> item_path s digest name ` set (dict_keys coll)
         \<longrightarrow> content d' q = content d2 q)"
    using Cons.prems(2,3) d2(2) by (intro Cons.IH) (simp_all add: kv)
  have "item_path s digest name k \<notin> item_path s digest name ` set (dict_keys coll)"
    using Cons.prems(2,3) by (auto simp: kv inj_on_def image_iff)
  then have "content d' (item_path s digest name k) = content d2 (item_path s digest name k)" using rest by simp
  then show ?case using rest one by (auto simp: kv items_written_def same_but_artifacts_def)
qed (simp add: items_written_def)

lemma saved_collection:
  assumes "save_item_collection s digest name ik coll d = Inr d'" "distinct (dict_keys coll)"
    "inj_on digest (set (dict_keys coll))" "disk_ok d"
  shows "items_written s digest name ik coll d'" "disk_ok d'" "dk_dirs d' = dk_dirs d"
    "in_directory (item_collection_root s name) q \<Longrightarrow>
       content d' q \<noteq> None \<longleftrightarrow> q \<in> item_path s digest name ` set (dict_keys coll)"
    "\<not> in_directory (item_collection_root s name) q \<Longrightarrow> (\<And>x. q \<noteq> artifact_path s x) \<Longrightarrow> content d' q = content d q"
proof -
  let ?e = "map (\<lambda>kv. item_path s digest name (fst kv)) coll"
  let ?P = "\<lambda>p. in_directory (item_collection_root s name) p \<longrightarrow> p \<in> set ?e"
  have e: "set ?e = item_path s digest name ` set (dict_keys coll)" by (simp add: image_image)
  from assms(1) obtain d1 where d1: "foldR (save_item s digest name ik) coll d = Inr d1"
    "d' = d1\<lparr>dk_files := filter (\<lambda>(p, _). ?P p) (dk_files d1)\<rparr>"
    by (auto simp: save_item_collection_def bindR_Inr_iff Let_def)
  note one = saved_items [OF d1(1) assms(2,3)]
  have c: "content d' q = (if ?P q then content d1 q else None)" for q
    unfolding d1(2) by (simp add: map_of_filter_keys)
  show "disk_ok d'" using one assms(4) by (simp add: d1(2) distinct_map_filter)
  show "dk_dirs d' = dk_dirs d" using one by (simp add: d1(2))
  have "content d' (item_path s digest name k) = content d1 (item_path s digest name k)" if "(k, v) \<in> set coll" for k v
    using that by (simp add: c) force
  then show w: "items_written s digest name ik coll d'" using one unfolding items_written_def by fastforce
  show "content d' q \<noteq> None \<longleftrightarrow> q \<in> item_path s digest name ` set (dict_keys coll)"
    if "in_directory (item_collection_root s name) q"
  proof
    assume "content d' q \<noteq> None"
    then show "q \<in> item_path s digest name ` set (dict_keys coll)" using that e by (auto simp: c split: if_splits)
  next
    assume "q \<in> item_path s digest name ` set (dict_keys coll)"
    then show "content d' q \<noteq> None" using w by (fastforce simp: items_written_def)
  qed
  show "content d' q = content d q" if "\<not> in_directory (item_collection_root s name) q" "\<And>x. q \<noteq> artifact_path s x"
  proof -
    have "q \<notin> item_path s digest name ` set (dict_keys coll)" using that(1) by auto
    then show ?thesis using one that by (simp add: c)
  qed
qed

subsection \<open>Records stay JSON\<close>

lemma json_ok_dict: "json_ok (JDict e) \<longleftrightarrow> distinct (map fst e) \<and> (\<forall>k v. map_of e k = Some v \<longrightarrow> json_ok v)"
  by (cases "distinct (map fst e)") (fastforce simp: map_of_eq_Some_iff)+

lemma json_ok_update: "json_ok (JDict e) \<Longrightarrow> json_ok v \<Longrightarrow> json_ok (JDict (AList.update k v e))"
  unfolding json_ok_dict by simp

lemma json_ok_delete: "json_ok (JDict e) \<Longrightarrow> json_ok (JDict (AList.delete k e))"
  unfolding json_ok_dict by (simp add: distinct_delete)

lemma json_ok_setdefault: "json_ok (JDict e) \<Longrightarrow> json_ok v \<Longrightarrow> json_ok (JDict (dict_setdefault k v e))"
  by (auto simp: dict_setdefault_def json_ok_update simp del: json_ok.simps split: option.splits)

lemma json_ok_field: "json_ok (JDict r) \<Longrightarrow> json_ok (JDict (fst (externalize_field s digest f pf r d)))"
  by (auto simp: externalize_field_def Let_def json_ok_update json_ok_delete simp del: json_ok.simps(2)
      split: option.splits json.splits)

lemma json_ok_fields: "json_ok (JDict r) \<Longrightarrow> json_ok (JDict (fst (externalize_fields s digest fs r d)))"
proof (induction fs arbitrary: r d)
  case (Cons f fs)
  then show ?case using json_ok_field [of r s digest "fst f" "snd f" d]
    by (cases f) (simp add: case_prod_beta Let_def del: json_ok.simps)
qed simp

lemma json_ok_parts: "(\<forall>v \<in> set vs. json_ok v) \<Longrightarrow> \<forall>v \<in> set (fst (externalize_parts s digest fs vs d)). json_ok v"
proof (induction vs arbitrary: d)
  case (Cons v vs)
  have "json_ok (fst (externalize_value s digest fs v d))"
    using Cons.prems json_ok_fields by (cases v) (auto simp: externalize_value_def simp del: json_ok.simps(2))
  then show ?case using Cons unfolding externalize_parts_Cons by auto
qed simp

lemma json_ok_iter: "json_ok v \<Longrightarrow> py_iter v = Inr vs \<Longrightarrow> \<forall>w \<in> set vs. json_ok w"
  by (cases v) (auto simp: py_iter_def)

lemma persisted_ok:
  assumes "persisted s digest name ik k item = Inr p" "json_ok (JDict item)" "map_of item ik = Some (JText k)"
    "ik \<notin> {''turns'', ''steps''}"
  shows "json_ok (JDict p)" "map_of p ik = Some (JText k)"
proof -
  have d: "dict_setdefault ik (JText k) item = item" using assms(3) by (simp add: dict_setdefault_def)
  have t: "fst t \<noteq> ik" if "item_texts name = Some t" for t
    using that assms(4) by (auto simp: item_texts_def split: if_splits)
  have v: "json_ok v" if "map_of item parts = Some v" for parts v
    using assms(2) that unfolding json_ok_dict by blast
  have "p = item \<or> (\<exists>parts fs vs. item_texts name = Some (parts, fs) \<and> map_of item parts = Some (JList vs)
      \<and> p = AList.update parts (JList (fst (externalize_parts s digest fs vs no_files))) item)"
  proof (cases "item_texts name")
    case None
    then show ?thesis using assms(1) by (simp add: persisted_def persist_item_def d)
  next
    case (Some t)
    note t = this
    show ?thesis
    proof (cases "map_of item (fst t)")
      case None
      then show ?thesis using assms(1) t by (simp add: persisted_def persist_item_def d case_prod_beta)
    next
      case (Some v)
      then show ?thesis using assms(1) t
        by (cases t; cases v) (auto simp: persisted_def persist_item_def d Let_def case_prod_beta py_iter_def)
    qed
  qed
  then consider "p = item" | parts fs vs where "item_texts name = Some (parts, fs)" "map_of item parts = Some (JList vs)"
      "p = AList.update parts (JList (fst (externalize_parts s digest fs vs no_files))) item" by blast
  then have "json_ok (JDict p) \<and> map_of p ik = Some (JText k)"
  proof cases
    case 2
    have "json_ok (JList vs)" by (rule v [OF 2(2)])
    then have "\<forall>v \<in> set vs. json_ok v" by simp
    from json_ok_parts [OF this, of s digest fs no_files]
    have "json_ok (JList (fst (externalize_parts s digest fs vs no_files)))" by simp
    then show ?thesis using 2 t [OF 2(1)] assms(2,3) by (auto intro: json_ok_update simp del: json_ok.simps)
  qed (use assms in simp)
  then show "json_ok (JDict p)" "map_of p ik = Some (JText k)" by auto
qed

subsection \<open>Loading a collection\<close>

lemma map_of_fold_update:
  assumes "inj_on ky (set ps)"
  shows "p \<in> set ps \<Longrightarrow> map_of (fold (\<lambda>p. AList.update (ky p) (f p)) ps acc) (ky p) = Some (f p)"
    "k \<notin> ky ` set ps \<Longrightarrow> map_of (fold (\<lambda>p. AList.update (ky p) (f p)) ps acc) k = map_of acc k"
  using assms
proof (induction ps arbitrary: acc p k)
  case (Cons q ps)
  case 1
  show ?case
  proof (cases "p \<in> set ps")
    case True
    then show ?thesis using 1 Cons.IH(1) by simp
  next
    case False
    then have "p = q" "ky q \<notin> ky ` set ps" using 1 by (auto simp: inj_on_def)
    then show ?thesis using 1 Cons.IH(2) [of "ky q" "AList.update (ky q) (f q) acc"] by simp
  qed
next
  case (Cons q ps)
  case 2
  then show ?case using Cons.IH(2) [of k "AList.update (ky q) (f q) acc"] by auto
qed simp_all

lemma load_items_fold:
  assumes "\<And>p. p \<in> set ps \<Longrightarrow> read_json_object p d = Inr (it p) \<and> text_of (it p) ik = ky p \<and> ky p \<noteq> []"
  shows "foldR (load_item ik d) ps acc = Inr (fold (\<lambda>p. AList.update (ky p) (JDict (it p))) ps acc)"
  using assms by (induction ps arbitrary: acc) (simp_all add: load_item_def)

text \<open>A collection that can be stored, and the record an item is read back as.\<close>

definition item_ok :: "string \<Rightarrow> string \<times> json \<Rightarrow> bool" where
  "item_ok ik kv \<longleftrightarrow> fst kv \<noteq> [] \<and> json_ok (snd kv)
     \<and> (case snd kv of JDict item \<Rightarrow> map_of item ik = Some (JText (fst kv)) | _ \<Rightarrow> False)"

definition collection_ok :: "(string \<Rightarrow> string) \<Rightarrow> string \<Rightarrow> entry \<Rightarrow> bool" where
  "collection_ok digest ik coll \<longleftrightarrow>
     distinct (dict_keys coll) \<and> inj_on digest (set (dict_keys coll)) \<and> (\<forall>kv \<in> set coll. item_ok ik kv)"

definition stored_item :: "storage \<Rightarrow> (string \<Rightarrow> string) \<Rightarrow> string \<Rightarrow> string \<Rightarrow> string \<Rightarrow> json \<Rightarrow> json" where
  "stored_item s digest name ik k v =
     (case v of JDict item \<Rightarrow> (case persisted s digest name ik k item of Inr p \<Rightarrow> JDict (canonical p) | Inl _ \<Rightarrow> v) | _ \<Rightarrow> v)"

lemma loaded_collection:
  assumes "items_written s digest name ik coll d" "collection_ok digest ik coll" "ik \<notin> {''turns'', ''steps''}"
    "\<And>q. in_directory (item_collection_root s name) q \<Longrightarrow>
       content d q \<noteq> None \<longleftrightarrow> q \<in> item_path s digest name ` set (dict_keys coll)"
  shows "\<exists>coll'. load_item_collection s name ik d = Inr coll'
    \<and> (\<forall>k. map_of coll' k = map_option (stored_item s digest name ik k) (map_of coll k))"
proof -
  let ?path = "item_path s digest name" and ?keys = "set (dict_keys coll)"
  let ?ps = "json_paths (item_collection_root s name) d"
  have keys: "distinct (dict_keys coll)" "inj_on digest ?keys" using assms(2) by (auto simp: collection_ok_def)
  have inj: "inj_on ?path ?keys" using keys(2) by (auto simp: inj_on_def)
  have ps: "set ?ps = ?path ` ?keys"
  proof -
    have "set ?ps = {q. in_directory (item_collection_root s name) q \<and> content d q \<noteq> None}"
      using file_exists [of _ d] by (auto simp: json_paths_def)
    also have "\<dots> = ?path ` ?keys" using assms(4) item_in_directory by blast
    finally show ?thesis .
  qed
  define ky where "ky = the_inv_into ?keys ?path"
  define it where "it q = (case stored_item s digest name ik (ky q) (the (map_of coll (ky q))) of JDict e \<Rightarrow> e | _ \<Rightarrow> [])" for q
  have ky: "ky (?path k) = k" if "k \<in> ?keys" for k unfolding ky_def by (rule the_inv_into_f_f [OF inj that])
  have one: "read_json_object q d = Inr (it q) \<and> text_of (it q) ik = ky q \<and> ky q \<noteq> []
      \<and> JDict (it q) = stored_item s digest name ik (ky q) (the (map_of coll (ky q)))" if "q \<in> set ?ps" for q
  proof -
    from that ps obtain k v where k: "q = ?path k" "(k, v) \<in> set coll" by auto
    then have m: "map_of coll k = Some v" "ky q = k" using keys(1) ky by force+
    have w: "\<exists>item p. v = JDict item \<and> persisted s digest name ik k item = Inr p
        \<and> content d q = Some (json_bytes (JDict p))" using assms(1) k by (auto simp: items_written_def)
    then obtain item p where p: "v = JDict item" "persisted s digest name ik k item = Inr p"
      "content d q = Some (json_bytes (JDict p))" by blast
    have "item_ok ik (k, v)" using assms(2) k(2) by (auto simp: collection_ok_def)
    then have item: "json_ok (JDict item)" "map_of item ik = Some (JText k)" "k \<noteq> []"
      by (simp_all add: item_ok_def p(1))
    note ok = persisted_ok [OF p(2) item(1,2) assms(3)]
    have s: "stored_item s digest name ik k v = JDict (canonical p)" by (simp add: stored_item_def p(1,2))
    from map_of_canonical [OF ok(1), of ik] have "text_of (canonical p) ik = k"
      using ok(2) item(3) by (simp add: text_of_def falsy_def py_str_def)
    then show ?thesis
      using read_object_written [OF ok(1) p(3)] item(3) by (simp add: it_def m s)
  qed
  have "load_item_collection s name ik d = Inr (fold (\<lambda>p. AList.update (ky p) (JDict (it p))) ?ps [])"
    unfolding load_item_collection_def by (rule load_items_fold) (use one in blast)
  moreover have "map_of (fold (\<lambda>p. AList.update (ky p) (JDict (it p))) ?ps []) k
      = map_option (stored_item s digest name ik k) (map_of coll k)" for k
  proof -
    have ip: "inj_on ky (set ?ps)" unfolding ps using ky by (auto simp: inj_on_def)
    have kp: "ky ` set ?ps = ?keys" unfolding ps using ky by (auto simp: image_image)
    show ?thesis
    proof (cases "k \<in> ?keys")
      case True
      then have q: "?path k \<in> set ?ps" "ky (?path k) = k" using ps ky by auto
      obtain v where "map_of coll k = Some v" using True by (cases "map_of coll k") (auto simp: map_of_eq_None_iff)
      then show ?thesis using map_of_fold_update(1) [OF ip q(1), of "\<lambda>p. JDict (it p)" "[]"] one [OF q(1)] q(2) by simp
    next
      case False
      then have "map_of coll k = None" by (simp add: map_of_eq_None_iff)
      then show ?thesis using map_of_fold_update(2) [OF ip, of k "\<lambda>p. JDict (it p)" "[]"] False kp by simp
    qed
  qed
  ultimately show ?thesis by blast
qed

subsection \<open>The whole state\<close>

definition layout_ok :: "storage \<Rightarrow> bool" where
  "layout_ok s \<longleftrightarrow>
     distinct (map fst (sg_item_collections s) @ map fst (sg_value_collections s))
     \<and> inj_on (item_collection_root s) (set (map fst (sg_item_collections s)))
     \<and> set (map fst (sg_item_collections s) @ map fst (sg_value_collections s))
         \<inter> {''version'', ''created_at'', ''messages'', ''session_logs''} = {}
     \<and> (\<forall>(_, ik) \<in> set (sg_item_collections s). ik \<notin> {''turns'', ''steps''})"

definition storable :: "storage \<Rightarrow> (string \<Rightarrow> string) \<Rightarrow> entry \<Rightarrow> bool" where
  "storable s digest state \<longleftrightarrow>
     (\<forall>(name, ik) \<in> set (sg_item_collections s). \<exists>coll. dict_get (JDict []) state name = JDict coll
        \<and> collection_ok digest ik coll)
     \<and> (\<forall>(name, v0) \<in> set (sg_value_collections s). json_ok (dict_get v0 state name))"

definition collection_saved ::
  "storage \<Rightarrow> (string \<Rightarrow> string) \<Rightarrow> string \<Rightarrow> string \<Rightarrow> entry \<Rightarrow> disk \<Rightarrow> bool" where
  "collection_saved s digest name ik coll d \<longleftrightarrow>
     items_written s digest name ik coll d
     \<and> (\<forall>q. in_directory (item_collection_root s name) q \<longrightarrow>
          (content d q \<noteq> None \<longleftrightarrow> q \<in> item_path s digest name ` set (dict_keys coll)))"

lemma collection_saved_cong:
  assumes "\<And>q. in_directory (item_collection_root s name) q \<Longrightarrow> content d' q = content d q"
  shows "collection_saved s digest name ik coll d' = collection_saved s digest name ik coll d"
  using assms [OF item_in_directory] assms unfolding collection_saved_def items_written_def by auto

lemma not_in_directory [simp]:
  "\<not> in_directory (item_collection_root s name) (value_collection_path s m)"
  "\<not> in_directory (item_collection_root s name) manifest_path"
  "\<not> in_directory (item_collection_root s name) (artifact_path s x)"
  "value_collection_path s m \<noteq> manifest_path"
  by (auto simp: in_directory_def item_collection_root_def value_collection_path_def manifest_path_def artifact_path_def
      runtime_root_def metadata_root_def)

lemma value_path_eq [simp]: "value_collection_path s m = value_collection_path s n \<longleftrightarrow> m = n"
  by (auto simp: value_collection_path_def)

lemma one_directory: "in_directory r q \<Longrightarrow> in_directory r' q \<Longrightarrow> r = r'"
  by (simp add: in_directory_def)

abbreviation save_one :: "storage \<Rightarrow> (string \<Rightarrow> string) \<Rightarrow> entry \<Rightarrow> string \<times> string \<Rightarrow> disk \<Rightarrow> disk res" where
  "save_one s digest state \<equiv> \<lambda>(name, identity_key) d.
     case dict_get (JDict []) state name of
       JDict collection \<Rightarrow> save_item_collection s digest name identity_key collection d
     | _ \<Rightarrow> Inl (StoreError (''state collection '' @ name @ '' must be an object''))"

lemma saved_collections:
  assumes "foldR (save_one s digest state) its d = Inr d'" "disk_ok d" "distinct (map fst its)"
    "inj_on (item_collection_root s) (set (map fst its))"
    "\<And>name ik. (name, ik) \<in> set its \<Longrightarrow> dict_get (JDict []) state name = JDict (coll name) \<and> collection_ok digest ik (coll name)"
  shows "(\<forall>(name, ik) \<in> set its. collection_saved s digest name ik (coll name) d') \<and> disk_ok d' \<and> dk_dirs d' = dk_dirs d
    \<and> (\<forall>q. (\<forall>x. q \<noteq> artifact_path s x) \<longrightarrow> (\<forall>name \<in> set (map fst its). \<not> in_directory (item_collection_root s name) q)
         \<longrightarrow> content d' q = content d q)"
  using assms
proof (induction its arbitrary: d)
  case (Cons it its)
  obtain name ik where it: "it = (name, ik)" by (cases it)
  have c: "dict_get (JDict []) state name = JDict (coll name)" "collection_ok digest ik (coll name)"
    using Cons.prems(5) [of name ik] by (simp_all add: it)
  obtain d1 where d1: "save_item_collection s digest name ik (coll name) d = Inr d1" "foldR (save_one s digest state) its d1 = Inr d'"
    using Cons.prems(1) c(1) by (auto simp: it bindR_Inr_iff)
  note k = c(2) [unfolded collection_ok_def]
  have one: "items_written s digest name ik (coll name) d1" "disk_ok d1" "dk_dirs d1 = dk_dirs d"
    "\<And>q. in_directory (item_collection_root s name) q \<Longrightarrow>
       content d1 q \<noteq> None \<longleftrightarrow> q \<in> item_path s digest name ` set (dict_keys (coll name))"
    "\<And>q. \<not> in_directory (item_collection_root s name) q \<Longrightarrow> (\<And>x. q \<noteq> artifact_path s x) \<Longrightarrow> content d1 q = content d q"
    using saved_collection [OF d1(1) _ _ Cons.prems(2)] k by blast+
  have rest: "(\<forall>(name, ik) \<in> set its. collection_saved s digest name ik (coll name) d') \<and> disk_ok d' \<and> dk_dirs d' = dk_dirs d1
      \<and> (\<forall>q. (\<forall>x. q \<noteq> artifact_path s x) \<longrightarrow> (\<forall>name \<in> set (map fst its). \<not> in_directory (item_collection_root s name) q)
         \<longrightarrow> content d' q = content d1 q)"
    using Cons.prems by (intro Cons.IH [OF d1(2) one(2)]) (auto simp: it inj_on_insert)
  have "content d' q = content d1 q" if q: "in_directory (item_collection_root s name) q" for q
  proof -
    have "item_collection_root s name \<noteq> item_collection_root s m" if "m \<in> set (map fst its)" for m
      using Cons.prems(3,4) that unfolding it by (auto simp: inj_on_def)
    then have "\<forall>m \<in> set (map fst its). \<not> in_directory (item_collection_root s m) q" using one_directory [OF q] by blast
    moreover have "\<forall>x. q \<noteq> artifact_path s x" using q by auto
    ultimately show ?thesis using rest by blast
  qed
  then have "collection_saved s digest name ik (coll name) d' = collection_saved s digest name ik (coll name) d1"
    by (rule collection_saved_cong)
  then have "collection_saved s digest name ik (coll name) d'" using one(1,4) by (simp add: collection_saved_def)
  then show ?case using rest one by (auto simp: it)
qed simp

abbreviation save_value :: "storage \<Rightarrow> entry \<Rightarrow> string \<times> json \<Rightarrow> disk \<Rightarrow> disk" where
  "save_value s state \<equiv> \<lambda>(name, v0). write_json_if_changed (value_collection_path s name) (dict_get v0 state name)"

lemma saved_values_frame:
  "q \<notin> value_collection_path s ` set (map fst vs) \<Longrightarrow> content (fold (save_value s state) vs d) q = content d q"
  "disk_ok (fold (save_value s state) vs d) = disk_ok d" "dk_dirs (fold (save_value s state) vs d) = dk_dirs d"
  by (induction vs arbitrary: d) auto

lemma saved_values:
  "distinct (map fst vs) \<Longrightarrow> (name, v0) \<in> set vs
     \<Longrightarrow> content (fold (save_value s state) vs d) (value_collection_path s name) = Some (json_bytes (dict_get v0 state name))"
proof (induction vs arbitrary: d)
  case (Cons v vs)
  show ?case
  proof (cases "(name, v0) \<in> set vs")
    case True
    then show ?thesis using Cons by simp
  next
    case False
    with Cons.prems have v: "v = (name, v0)" "name \<notin> set (map fst vs)"
      by (auto simp: rev_image_eqI)
    have "value_collection_path s name \<notin> value_collection_path s ` set (map fst vs)"
      using v(2) by (simp only: image_iff value_path_eq) blast
    from saved_values_frame(1) [OF this] show ?thesis by (simp add: v(1))
  qed
qed simp

lemma saved_logs:
  assumes "save_logs s digest state d = Inr d'"
  shows "dk_files d' = dk_files d \<and> dk_dirs d' = dk_dirs d"
proof -
  obtain logs where logs: "foldR (\<lambda>(sid, v) d. case v of JList vs \<Rightarrow> append_entries s digest sid vs d | _ \<Rightarrow> Inr d) logs d = Inr d'"
    using assms by (auto simp: save_logs_def bindR_Inr_iff)
  show ?thesis
    by (rule foldR_invariant [OF logs, of "\<lambda>x. dk_files x = dk_files d \<and> dk_dirs x = dk_dirs d"])
      (auto simp: append_entries_def bindR_Inr_iff Let_def set_log_def split: json.splits)
qed

text \<open>What saving leaves on the disk.\<close>

lemma saved_state:
  assumes "save_state s digest state d = Inr d'" "disk_ok d" "layout_ok s" "storable s digest state"
  shows "disk_ok d'"
    "\<And>name ik. (name, ik) \<in> set (sg_item_collections s) \<Longrightarrow>
       \<exists>coll. dict_get (JDict []) state name = JDict coll \<and> collection_ok digest ik coll
         \<and> collection_saved s digest name ik coll d'"
    "\<And>name v0. (name, v0) \<in> set (sg_value_collections s) \<Longrightarrow>
       content d' (value_collection_path s name) = Some (json_bytes (dict_get v0 state name))"
    "content d' manifest_path = (case content d manifest_path of Some t \<Rightarrow> Some t
       | None \<Rightarrow> content (write_manifest s state d) manifest_path)"
proof -
  let ?its = "sg_item_collections s" and ?vs = "sg_value_collections s"
  have "\<not> differs (map_of state ''version'') STATE_VERSION"
    using assms(1) by (auto simp: save_state_def split: if_splits)
  with assms(1) obtain d1 d2 where d1: "save_logs s digest state (prepare_data_directories s d) = Inr d1"
    and d2: "foldR (save_one s digest state) ?its d1 = Inr d2"
    and d': "d' = (let d3 = fold (save_value s state) ?vs d2 in
        if manifest_path \<in> set (map fst (dk_files d3)) then d3 else write_manifest s state d3)"
    by (auto simp: save_state_def save_items_def save_values_def bindR_Inr_iff Let_def simp del: file_exists)
  let ?d3 = "fold (save_value s state) ?vs d2"
  have files: "dk_files d1 = dk_files d" using saved_logs [OF d1] by (simp add: prepare_data_directories_def)
  have ok1: "disk_ok d1" using assms(2) by (simp add: files)
  define coll where "coll name = (case dict_get (JDict []) state name of JDict c \<Rightarrow> c | _ \<Rightarrow> [])" for name
  have coll: "dict_get (JDict []) state name = JDict (coll name) \<and> collection_ok digest ik (coll name)"
    if "(name, ik) \<in> set ?its" for name ik
    using assms(4) that by (fastforce simp: storable_def coll_def)
  have dist: "distinct (map fst ?its)" "distinct (map fst ?vs)" "inj_on (item_collection_root s) (set (map fst ?its))"
    using assms(3) by (auto simp: layout_ok_def)
  note items = saved_collections [OF d2 ok1 dist(1,3) coll]
  have d'_content: "content d' q = content ?d3 q" if "q \<noteq> manifest_path" for q
    using that by (simp add: d' Let_def write_manifest_def)
  show "disk_ok d'" using items by (simp add: d' Let_def write_manifest_def saved_values_frame(2))
  show "content d' (value_collection_path s name) = Some (json_bytes (dict_get v0 state name))"
    if "(name, v0) \<in> set ?vs" for name v0
    using saved_values [OF dist(2) that] by (simp add: d'_content)
  show "\<exists>coll. dict_get (JDict []) state name = JDict coll \<and> collection_ok digest ik coll
         \<and> collection_saved s digest name ik coll d'" if "(name, ik) \<in> set ?its" for name ik
  proof -
    have "content d' q = content d2 q" if q: "in_directory (item_collection_root s name) q" for q
    proof -
      have "q \<noteq> manifest_path" "q \<notin> value_collection_path s ` set (map fst ?vs)" using q by auto
      from d'_content [OF this(1)] saved_values_frame(1) [OF this(2), of state d2] show ?thesis by simp
    qed
    then have "collection_saved s digest name ik (coll name) d' = collection_saved s digest name ik (coll name) d2"
      by (rule collection_saved_cong)
    moreover have "collection_saved s digest name ik (coll name) d2" using items that by blast
    ultimately show ?thesis using coll [OF that] by blast
  qed
  have m: "content ?d3 manifest_path = content d manifest_path"
  proof -
    have "manifest_path \<notin> value_collection_path s ` set (map fst ?vs)" by (metis imageE not_in_directory(4))
    then have "content ?d3 manifest_path = content d2 manifest_path" by (rule saved_values_frame(1))
    also have "\<dots> = content d1 manifest_path" using items by (simp add: item_not_artifact)
    finally show ?thesis by (simp add: files)
  qed
  show "content d' manifest_path = (case content d manifest_path of Some t \<Rightarrow> Some t
       | None \<Rightarrow> content (write_manifest s state d) manifest_path)"
    using m file_exists [of manifest_path ?d3] unfolding d' Let_def
    by (auto simp: write_manifest_def simp del: map_of_eq_None_iff split: option.splits)
qed

subsection \<open>Loading what was saved\<close>

lemma bindR_assoc: "bindR (bindR m f) g = bindR m (\<lambda>x. bindR (f x) g)"
  by (cases m) simp_all

lemma foldR_updates:
  assumes "\<And>p. p \<in> set ps \<Longrightarrow> g p = Inr (v p)"
  shows "foldR (\<lambda>p st. bindR (g p) (\<lambda>x. Inr (AList.update (fst p) x st))) ps st
    = Inr (fold (\<lambda>p. AList.update (fst p) (v p)) ps st)"
  using assms by (induction ps arbitrary: st) simp_all

lemma load_items_updates: "load_items s d st = foldR (\<lambda>p st.
    bindR (bindR (load_item_collection s (fst p) (snd p) d) (\<lambda>c. Inr (JDict c)))
      (\<lambda>x. Inr (AList.update (fst p) x st))) (sg_item_collections s) st"
  by (simp add: load_items_def bindR_assoc case_prod_beta')

lemma load_values_updates: "load_values s d st = foldR (\<lambda>p st.
    bindR (if value_collection_path s (fst p) \<in> set (map fst (dk_files d))
           then read_json (value_collection_path s (fst p)) d else Inr (snd p))
      (\<lambda>x. Inr (AList.update (fst p) x st))) (sg_value_collections s) st"
  by (simp add: load_values_def case_prod_beta' Let_def)

lemma fold_updates:
  assumes "distinct (map fst ps)"
  shows "p \<in> set ps \<Longrightarrow> map_of (fold (\<lambda>p. AList.update (fst p) (v p)) ps st) (fst p) = Some (v p)"
    "k \<notin> set (map fst ps) \<Longrightarrow> map_of (fold (\<lambda>p. AList.update (fst p) (v p)) ps st) k = map_of st k"
proof -
  have i: "inj_on fst (set ps)" using assms by (simp add: distinct_map)
  show "p \<in> set ps \<Longrightarrow> map_of (fold (\<lambda>p. AList.update (fst p) (v p)) ps st) (fst p) = Some (v p)"
    by (rule map_of_fold_update(1) [OF i])
  show "k \<notin> set (map fst ps) \<Longrightarrow> map_of (fold (\<lambda>p. AList.update (fst p) (v p)) ps st) k = map_of st k"
    using map_of_fold_update(2) [OF i] by simp
qed

lemma loaded_manifest:
  assumes "content d manifest_path = content (write_manifest s state d0) manifest_path"
  shows "\<exists>m. read_json_object manifest_path d = Inr m \<and> map_of m ''storage_version'' = Some (JNum STORAGE_VERSION)
    \<and> map_of m ''state_version'' = Some (JNum STATE_VERSION) \<and> map_of m ''created_at'' = Some (JText (text_of state ''created_at''))"
proof -
  let ?m = "[(''storage_version'', JNum STORAGE_VERSION), (''state_version'', JNum STATE_VERSION),
    (''created_at'', JText (text_of state ''created_at'')), (''data_dir'', JText (sg_data_name s))]"
  have ok: "json_ok (JDict ?m)" by simp
  have "content d manifest_path = Some (json_bytes (JDict ?m))" using assms by (simp add: write_manifest_def)
  from read_object_written [OF ok this] have "read_json_object manifest_path d = Inr (canonical ?m)" .
  moreover have "map_of (canonical ?m) k = map_option sort_keys (map_of ?m k)" for k by (rule map_of_canonical [OF ok])
  ultimately show ?thesis by simp
qed

lemma stored_plain:
  "item_texts name = None \<Longrightarrow> item_ok ik (k, v) \<Longrightarrow> stored_item s digest name ik k v = sort_keys v"
  by (cases v) (auto simp: item_ok_def stored_item_def persisted_def persist_item_def dict_setdefault_def sort_keys_dict
      simp del: sort_keys.simps)


end
