(* ===== verification/State_Migration.thy ===== *)
theory State_Migration
  imports State_Files
begin

section \<open>Migration of older stores\<close>

text \<open>
  What kernel/storage.py does with a store of storage version 1 and with the older \<open>state.json\<close>: the state is read,
  its messages are put into the session logs, and all of it is written below a staging name that then
  replaces the data directory. The staging name is an argument, as is the time in the name of a backup.
\<close>

text \<open>\<open>staging.data\_root.replace(self.data\_root)\<close>: the first name of every path below it changes.\<close>

definition moved :: "string \<Rightarrow> string \<Rightarrow> string list \<Rightarrow> string list" where
  "moved old new p = (case p of [] \<Rightarrow> [] | x # xs \<Rightarrow> if x = old then new # xs else p)"

definition rename_data_root :: "string \<Rightarrow> string \<Rightarrow> disk \<Rightarrow> disk" where
  "rename_data_root old new d =
     d\<lparr>dk_files := map (\<lambda>(p, t). (moved old new p, t)) (dk_files d),
       dk_logs := map (\<lambda>(p, l). (moved old new p, l)) (dk_logs d),
       dk_dirs := map (\<lambda>x. if x = old then new else x) (dk_dirs d)\<rparr>"

text \<open>The storage the migration writes to is built without the directory names.\<close>

definition staging_storage :: "string \<Rightarrow> storage \<Rightarrow> storage" where
  "staging_storage staging_name s = s\<lparr>sg_dir_names := [], sg_data_name := staging_name\<rparr>"

definition replace_logs :: "storage \<Rightarrow> (string \<Rightarrow> string) \<Rightarrow> entry \<Rightarrow> disk \<Rightarrow> disk res" where
  "replace_logs s digest state d =
     bindR (dict_items (dict_get (JDict []) state ''session_logs'')) (\<lambda>logs.
       foldR (\<lambda>(sid, v) d.
         case v of JList (x # xs) \<Rightarrow> replace_session_log s digest sid (x # xs) d | _ \<Rightarrow> Inr d) logs d)"

definition install_migrated_state ::
  "storage \<Rightarrow> (string \<Rightarrow> string) \<Rightarrow> string \<Rightarrow> entry \<Rightarrow> entry option \<Rightarrow> disk \<Rightarrow> disk res" where
  "install_migrated_state s digest staging_name state backup_manifest d =
     (let staging = staging_storage staging_name s in
      bindR (replace_logs staging digest state (prepare_data_directories staging d)) (\<lambda>d1.
      bindR (save_state staging digest state d1) (\<lambda>d2.
        if sg_data_name s \<in> set (dk_dirs d2) then
          Inl (StoreError (''target storage already exists: '' @ sg_data_name s))
        else
          let d3 = rename_data_root staging_name (sg_data_name s) d2;
              d4 = (case backup_manifest of
                      None \<Rightarrow> d3
                    | Some m \<Rightarrow> write_json_atomic [''manifest.v1.json''] (JDict m) d3)
          in Inr (write_manifest s state d4))))"

definition load_generation_state :: "entry \<Rightarrow> disk \<Rightarrow> entry res" where
  "load_generation_state manifest d =
     (if differs (map_of manifest ''state_version'') STATE_VERSION then
        Inl (unsupported ''state'' (map_of manifest ''state_version''))
      else
        let root = [''state-data'', ''generations'']
              @ filter (\<lambda>x. x \<notin> {[], ''.''}) (path_parts [] (text_of manifest ''generation'')) in
        bindR (read_json_object (root @ [''snapshot.json'']) d) (\<lambda>snapshot.
          case map_of snapshot ''collections'' of
            Some (JList names) \<Rightarrow>
              (case (map_of manifest ''state_version'', map_of manifest ''created_at'') of
                 (Some version, Some created_at) \<Rightarrow>
                   foldR (\<lambda>v state.
                     case v of
                       JText name \<Rightarrow>
                         bindR (read_json (root @ [''collections'', name @ ''.json'']) d) (\<lambda>w.
                           Inr (AList.update name w state))
                     | _ \<Rightarrow> Inl (StoreError ''legacy collection name must be a string''))
                     names [(''version'', version), (''created_at'', created_at)]
               | _ \<Rightarrow> Inl (KeyError ''created_at''))
          | _ \<Rightarrow> Inl (StoreError ''legacy snapshot collections must be an array'')))"

text \<open>A collection of items is hydrated and keyed by the identity its items carry.\<close>

definition hydrate_collection ::
  "storage \<Rightarrow> disk \<Rightarrow> string \<Rightarrow> string \<Rightarrow> entry \<Rightarrow> entry res" where
  "hydrate_collection s d name identity_key state =
     (case map_of state name of
        Some (JDict items) \<Rightarrow>
          bindR (mapR (\<lambda>(_, v). bindR (entry_of v) (hydrate_item s d name)) items) (\<lambda>hydrated.
            Inr (AList.update name
                  (JDict (fold (\<lambda>item. AList.update (text_of item identity_key) (JDict item)) hydrated [])) state))
      | _ \<Rightarrow> Inr state)"

definition hydrate_legacy_transcripts :: "storage \<Rightarrow> disk \<Rightarrow> entry \<Rightarrow> entry res" where
  "hydrate_legacy_transcripts s d state =
     bindR (hydrate_collection s d ''agent_threads'' ''thread_id'' state)
       (hydrate_collection s d ''dispatch_runs'' ''run_id'')"

definition embed_message :: "(string \<times> entry) list \<Rightarrow> json \<Rightarrow> json" where
  "embed_message messages v =
     (case v of
        JDict e \<Rightarrow>
          if map_of e ''kind'' \<noteq> Some (JText ''Message'') then v
          else (case map_of messages (text_of e ''message_id'') of
                  None \<Rightarrow> v
                | Some m \<Rightarrow> JDict (AList.update ''message'' (JDict m) e))
      | _ \<Rightarrow> v)"

definition embed_legacy_messages :: "entry \<Rightarrow> entry res" where
  "embed_legacy_messages state =
     bindR (py_iter (dict_get (JList []) state ''messages'')) (\<lambda>vs.
     let messages = fold (\<lambda>v ms. case v of JDict m \<Rightarrow> AList.update (text_of m ''message_id'') m ms | _ \<Rightarrow> ms) vs [] in
     bindR (dict_items (dict_get (JDict []) state ''session_logs'')) (\<lambda>logs.
       let logs1 = map (\<lambda>(sid, v). (sid, case v of JList es \<Rightarrow> JList (map (embed_message messages) es) | _ \<Rightarrow> v)) logs
       in Inr (case map_of state ''session_logs'' of
                 None \<Rightarrow> state
               | Some _ \<Rightarrow> AList.update ''session_logs'' (JDict logs1) state)))"

text \<open>The result says whether a migration was made.\<close>

definition ensure_current_format ::
  "storage \<Rightarrow> (string \<Rightarrow> string) \<Rightarrow> string \<Rightarrow> disk \<Rightarrow> (bool \<times> disk) res" where
  "ensure_current_format s digest staging_name d =
     (if manifest_path \<notin> set (map fst (dk_files d)) then Inr (False, d)
      else
        bindR (read_json_object manifest_path d) (\<lambda>manifest.
          let version = map_of manifest ''storage_version'' in
          if \<not> differs version STORAGE_VERSION then Inr (False, d)
          else if differs version 1 then Inl (unsupported ''storage'' version)
          else
            bindR (load_generation_state manifest d) (\<lambda>state.
            bindR (hydrate_legacy_transcripts s d state) (\<lambda>state1.
            bindR (embed_legacy_messages state1) (\<lambda>state2.
            bindR (install_migrated_state s digest staging_name state2 (Some manifest) d) (\<lambda>d1.
              Inr (True, d1)))))))"

definition migrate_legacy_state_json ::
  "storage \<Rightarrow> (string \<Rightarrow> string) \<Rightarrow> string \<Rightarrow> string \<Rightarrow> disk \<Rightarrow> (string list \<times> disk) res" where
  "migrate_legacy_state_json s digest staging_name clock_ns d =
     bindR (read_json_object [''state.json''] d) (\<lambda>state.
       if differs (map_of state ''version'') STATE_VERSION then
         Inl (StoreError (''unsupported legacy state version: ''
                @ (case map_of state ''version'' of None \<Rightarrow> ''None'' | Some v \<Rightarrow> py_str v)))
       else
         bindR (embed_legacy_messages state) (\<lambda>state1.
         bindR (install_migrated_state s digest staging_name state1 None d) (\<lambda>d1.
           let backup = (if [''state.v1.json''] \<in> set (map fst (dk_files d1))
                         then [''state.v1-'' @ clock_ns @ ''.json''] else [''state.v1.json'']);
               content = (case map_of (dk_files d1) [''state.json''] of None \<Rightarrow> [] | Some t \<Rightarrow> t)
           in Inr (backup, (write_text backup content d1)\<lparr>dk_files := AList.delete [''state.json'']
                              (dk_files (write_text backup content d1))\<rparr>))))"

end
