(* ===== verification/State_Migration_Rules.thy ===== *)
theory State_Migration_Rules
  imports State_Files_Rules State_Migration
begin

section \<open>Loaded states, restored texts and migrated stores\<close>

text \<open>
  What any load returns, whatever the files hold; that an externalised text is restored; and what the migration
  of an old store loses: its accounts, and everything when it is interrupted.
\<close>

subsection \<open>A loaded state is well typed\<close>

definition typed_collection :: "string \<Rightarrow> entry \<Rightarrow> bool" where
  "typed_collection ik coll \<longleftrightarrow>
     distinct (dict_keys coll)
     \<and> (\<forall>(k, v) \<in> set coll. k \<noteq> [] \<and> (case v of JDict item \<Rightarrow> text_of item ik = k | _ \<Rightarrow> False))"

lemma typed_update:
  assumes "typed_collection ik coll" "text_of item ik = k" "k \<noteq> []"
  shows "typed_collection ik (AList.update k (JDict item) coll)"
proof -
  have "set (AList.update k v c) \<subseteq> insert (k, v) (set c)" for v and c :: entry by (induction c) auto
  then show ?thesis using assms by (fastforce simp: typed_collection_def)
qed

lemma load_item_typed:
  assumes "load_item_collection s name ik d = Inr coll"
  shows "typed_collection ik coll"
  by (rule foldR_invariant [OF assms [unfolded load_item_collection_def], of "typed_collection ik"])
    (auto simp: typed_collection_def [of ik "[]"] load_item_def bindR_Inr_iff Let_def intro: typed_update split: if_splits)

lemma foldR_updated:
  assumes "foldR (\<lambda>p st. bindR (g p) (\<lambda>x. Inr (AList.update (fst p) x st))) ps st = Inr st'" "distinct (map fst ps)"
  shows "p \<in> set ps \<Longrightarrow> \<exists>x. g p = Inr x \<and> map_of st' (fst p) = Some x"
    "k \<notin> set (map fst ps) \<Longrightarrow> map_of st' k = map_of st k"
proof -
  have "\<forall>p \<in> set ps. \<exists>x. g p = Inr x"
    using assms(1) by (induction ps arbitrary: st) (auto simp: bindR_Inr_iff)
  then obtain v where v: "\<And>p. p \<in> set ps \<Longrightarrow> g p = Inr (v p)" by metis
  have st': "st' = fold (\<lambda>p. AList.update (fst p) (v p)) ps st" using assms(1) foldR_updates [of ps g v st] v by simp
  show "p \<in> set ps \<Longrightarrow> \<exists>x. g p = Inr x \<and> map_of st' (fst p) = Some x"
    using v fold_updates(1) [OF assms(2), of p v st] by (auto simp: st')
  show "k \<notin> set (map fst ps) \<Longrightarrow> map_of st' k = map_of st k"
    using fold_updates(2) [OF assms(2), of k v st] by (simp add: st')
qed

lemma load_state_collections:
  assumes "load_state s d = Inr st" "layout_ok s" "(name, ik) \<in> set (sg_item_collections s)"
  shows "\<exists>coll. load_item_collection s name ik d = Inr coll \<and> map_of st name = Some (JDict coll)"
proof -
  from assms(1) obtain m where "read_json_object manifest_path d = Inr m"
    by (auto simp: load_state_def bindR_Inr_iff)
  with assms(1) obtain version created where "bindR (load_items s d [(''version'', version), (''created_at'', created)])
      (\<lambda>state1. bindR (load_values s d state1) (\<lambda>state2.
         Inr (AList.update ''session_logs'' (JDict []) (AList.update ''messages'' (JList []) state2)))) = Inr st"
    by (cases "map_of m ''state_version''"; cases "map_of m ''created_at''"; simp add: load_state_def split: if_splits)
  then obtain st0 st1 st2 where st: "load_items s d st0 = Inr st1" "load_values s d st1 = Inr st2"
    "st = AList.update ''session_logs'' (JDict []) (AList.update ''messages'' (JList []) st2)"
    by (auto simp: bindR_Inr_iff)
  have l: "distinct (map fst (sg_item_collections s))" "distinct (map fst (sg_value_collections s))"
    "(set (map fst (sg_item_collections s)) \<union> set (map fst (sg_value_collections s))) \<inter> {''messages'', ''session_logs''} = {}"
    "set (map fst (sg_item_collections s)) \<inter> set (map fst (sg_value_collections s)) = {}"
    using assms(2) by (auto simp: layout_ok_def)
  have "name \<in> set (map fst (sg_item_collections s))" unfolding set_map by (rule image_eqI [OF _ assms(3)]) simp
  then have n: "name \<notin> set (map fst (sg_value_collections s))" "name \<noteq> ''messages''" "name \<noteq> ''session_logs''"
    using l(3,4) by blast+
  from foldR_updated(1) [OF st(1) [unfolded load_items_updates] l(1) assms(3)]
  obtain coll where c: "load_item_collection s name ik d = Inr coll" "map_of st1 name = Some (JDict coll)"
    by (auto simp: bindR_Inr_iff)
  moreover have "map_of st2 name = map_of st1 name"
    by (rule foldR_updated(2) [OF st(2) [unfolded load_values_updates] l(2) n(1)])
  ultimately show ?thesis using st(3) n(2,3) by simp
qed

text \<open>C39: Whatever the files hold, a load that succeeds returns a well-typed state: every collection of items is a
  dictionary of dictionaries, each stored once and under the identity it carries.\<close>

theorem loaded_state_typed:
  assumes "load_state s d = Inr st" "layout_ok s" "(name, ik) \<in> set (sg_item_collections s)"
  shows "\<exists>coll. map_of st name = Some (JDict coll) \<and> typed_collection ik coll"
  using load_state_collections [OF assms] load_item_typed by blast

subsection \<open>Externalised texts\<close>

definition plain_name :: "string \<Rightarrow> bool" where
  "plain_name x \<longleftrightarrow> x \<noteq> [] \<and> x \<noteq> ''.'' \<and> x \<noteq> ''..'' \<and> CHR ''/'' \<notin> set x"

lemma path_parts_name: "CHR ''/'' \<notin> set x \<Longrightarrow> path_parts acc x = [rev acc @ x]"
  by (induction x arbitrary: acc) auto

lemma path_parts_first: "CHR ''/'' \<notin> set x \<Longrightarrow> path_parts acc (x @ CHR ''/'' # cs) = (rev acc @ x) # path_parts [] cs"
  by (induction x arbitrary: acc) auto

lemma path_parts_text: "p \<noteq> [] \<Longrightarrow> \<forall>x \<in> set p. plain_name x \<Longrightarrow> path_parts [] (path_text p) = p"
  unfolding path_text_def
proof (induction p)
  case (Cons x p)
  then show ?case by (cases p) (simp_all add: path_parts_name path_parts_first plain_name_def)
qed simp

lemma resolve_plain: "\<forall>x \<in> set p. plain_name x \<Longrightarrow> fold resolve_step p q = q @ p"
  by (induction p arbitrary: q) (auto simp: resolve_step_def plain_name_def)

lemma resolve_text:
  assumes "p \<noteq> []" "\<forall>x \<in> set p. plain_name x"
  shows "resolve_path s (path_text p) = sg_root s @ p"
proof -
  obtain x xs where p: "p = x # xs" using assms(1) by (cases p) auto
  then obtain c cs where "x = c # cs" "c \<noteq> CHR ''/''" using assms(2) by (cases x) (auto simp: plain_name_def)
  then have "\<not> starts_with ''/'' (path_text p)" unfolding p by (cases xs) (simp_all add: path_text_def starts_with_def)
  then show ?thesis using resolve_plain [OF assms(2)] path_parts_text [OF assms] by (simp add: resolve_path_def)
qed

text \<open>The names of artifact files contain no separator, as those of SHA-256 digests.\<close>

definition plain_digest :: "(string \<Rightarrow> string) \<Rightarrow> bool" where
  "plain_digest digest \<longleftrightarrow> (\<forall>t. plain_name (take 2 (digest t)) \<and> plain_name (digest t @ ''.txt''))"

lemma artifact_plain: "plain_digest digest \<Longrightarrow> plain_name (sg_data_name s) \<Longrightarrow> \<forall>x \<in> set (artifact_path s (digest t)). plain_name x"
  by (auto simp: artifact_path_def plain_digest_def plain_name_def)

lemma externalized:
  assumes "map_of r f = Some v" "v \<noteq> JNone"
  shows "externalize_field s digest f pf r d =
    (AList.update (f @ ''_chars'') (JNum (int (length (py_str v))))
       (AList.update pf (JText (path_text (artifact_path s (digest (py_str v))))) (AList.delete f r)),
     if artifact_path s (digest (py_str v)) \<in> set (map fst (dk_files d)) then d
     else write_text (artifact_path s (digest (py_str v))) (py_str v) d)"
  using assms by (cases v) (simp_all add: externalize_field_def Let_def)

lemma externalized_record:
  assumes "externalize_field s digest f pf r d = (r1, d1)" "map_of r f = Some v" "v \<noteq> JNone" "pf \<noteq> f" "pf \<noteq> f @ ''_chars''"
  shows "map_of r1 pf = Some (JText (path_text (artifact_path s (digest (py_str v)))))" "f \<notin> set (dict_keys r1)"
proof -
  have r1: "r1 = AList.update (f @ ''_chars'') (JNum (int (length (py_str v))))
       (AList.update pf (JText (path_text (artifact_path s (digest (py_str v))))) (AList.delete f r))"
    using assms(1) externalized [OF assms(2,3), of s digest pf d] by simp
  show "map_of r1 pf = Some (JText (path_text (artifact_path s (digest (py_str v)))))" using assms(5) by (simp add: r1)
  have "map_of r1 f = None" using assms(4) by (simp add: r1)
  then show "f \<notin> set (dict_keys r1)" by (simp add: map_of_eq_None_iff)
qed

text \<open>A text that was moved to its artifact file is restored: if the artifact files hold the texts their names are the
  digests of, hydrating an externalised record returns the text that was taken out.\<close>

theorem externalized_text_restored:
  assumes "externalize_field s digest f pf r d = (r1, d1)" "map_of r f = Some v" "v \<noteq> JNone"
    "pf \<noteq> f" "pf \<noteq> f @ ''_chars''" "plain_digest digest" "plain_name (sg_data_name s)"
    "\<And>t. content d (artifact_path s (digest t)) \<in> {None, Some t}"
  shows "hydrate_field s d1 f pf r1 = Inr (AList.update f (JText (py_str v)) r1)"
proof -
  let ?t = "py_str v" and ?p = "artifact_path s (digest (py_str v))"
  note r1 = externalized_record [OF assms(1-5)]
  have d1: "d1 = (if ?p \<in> set (map fst (dk_files d)) then d else write_text ?p ?t d)"
    using assms(1) externalized [OF assms(2,3), of s digest pf d] by simp
  have c: "content d1 ?p = Some ?t" using assms(8) [of ?t] unfolding d1 file_exists by auto
  have res: "resolve_path s (path_text ?p) = sg_root s @ ?p"
    by (rule resolve_text) (use artifact_plain [OF assms(6,7)] in \<open>auto simp: artifact_path_def\<close>)
  have "path_text ?p \<noteq> []" using assms(7) by (simp add: path_text_def artifact_path_def plain_name_def)
  then show ?thesis using r1 c res by (simp add: hydrate_field_def)
qed

subsection \<open>Migrated stores\<close>

lemma store_layout: "layout_ok (store_storage root)"
  by (simp add: layout_ok_def store_storage_def STATE_ITEM_COLLECTIONS_def STATE_VALUE_COLLECTIONS_def
      STATE_COLLECTION_DIR_NAMES_def item_collection_root_def dict_get_def runtime_root_def metadata_root_def)

text \<open>The files a save may write beside the manifest.\<close>

abbreviation paths :: "disk \<Rightarrow> string list set" where
  "paths d \<equiv> set (map fst (dk_files d))"

definition storage_paths :: "storage \<Rightarrow> (string \<Rightarrow> string) \<Rightarrow> string list set" where
  "storage_paths s digest = range (artifact_path s)
     \<union> {item_path s digest name k | name k. name \<in> set (map fst (sg_item_collections s))}
     \<union> value_collection_path s ` set (map fst (sg_value_collections s))"

lemma paths_update: "set (map fst (AList.update k v d)) = insert k (set (map fst d))"
  by (induction d) auto

lemma paths_write [simp]: "paths (write_json_atomic p v d) = insert p (paths d)"
  unfolding write_json_atomic_def write_text_def by (simp add: paths_update del: set_map)

lemma paths_write_changed: "paths (write_json_if_changed p v d) \<subseteq> insert p (paths d)"
  unfolding write_json_if_changed_def using paths_write [of p v d] by auto

lemma paths_artifacts: "same_but_artifacts s d d' \<Longrightarrow> paths d' \<subseteq> paths d \<union> range (artifact_path s)"
proof
  fix p assume same: "same_but_artifacts s d d'" and p: "p \<in> paths d'"
  show "p \<in> paths d \<union> range (artifact_path s)"
  proof (cases "\<exists>x. p = artifact_path s x")
    case False
    then have "content d' p = content d p" using same by (auto simp: same_but_artifacts_def)
    then have "p \<in> paths d" using p unfolding file_exists by simp
    then show ?thesis ..
  qed auto
qed

lemma paths_collection:
  assumes "save_item_collection s digest name ik coll d = Inr d'" "name \<in> set (map fst (sg_item_collections s))"
    "paths d \<subseteq> P \<union> storage_paths s digest"
  shows "paths d' \<subseteq> P \<union> storage_paths s digest"
proof -
  from assms(1) obtain d1 where d1: "foldR (save_item s digest name ik) coll d = Inr d1"
    "d' = d1\<lparr>dk_files := filter (\<lambda>(p, _). in_directory (item_collection_root s name) p
        \<longrightarrow> p \<in> set (map (\<lambda>kv. item_path s digest name (fst kv)) coll)) (dk_files d1)\<rparr>"
    by (auto simp: save_item_collection_def bindR_Inr_iff Let_def)
  have "paths d' \<subseteq> paths d1" unfolding d1(2) by auto
  moreover  have "paths d1 \<subseteq> P \<union> storage_paths s digest"
  proof (rule foldR_invariant [OF d1(1), of "\<lambda>x. paths x \<subseteq> P \<union> storage_paths s digest"])
    show "paths y \<subseteq> P \<union> storage_paths s digest"
      if x: "paths x \<subseteq> P \<union> storage_paths s digest" and y: "save_item s digest name ik kv x = Inr y" for kv x y
    proof -
      obtain item p z where "same_but_artifacts s x z"
        "y = write_json_if_changed (item_path s digest name (fst kv)) (JDict p) z"
        using y by (cases kv) (auto elim: saved_item)
      then have "paths y \<subseteq> insert (item_path s digest name (fst kv)) (paths x \<union> range (artifact_path s))"
        using paths_write_changed paths_artifacts by blast
      moreover have "item_path s digest name (fst kv) \<in> storage_paths s digest" using assms(2) by (auto simp: storage_paths_def)
      moreover have "range (artifact_path s) \<subseteq> storage_paths s digest" by (auto simp: storage_paths_def)
      ultimately show ?thesis using x by blast
    qed
  qed (fact assms(3))
  ultimately show ?thesis by blast
qed

lemma saved_paths:
  assumes "save_state s digest state d = Inr d'"
  obtains d3 where "paths d3 \<subseteq> paths d \<union> storage_paths s digest"
    "d' = (if manifest_path \<in> paths d3 then d3 else write_manifest s state d3)"
proof -
  have "\<not> differs (map_of state ''version'') STATE_VERSION"
    using assms(1) by (auto simp: save_state_def split: if_splits)
  with assms(1) obtain d1 d2 where d1: "save_logs s digest state (prepare_data_directories s d) = Inr d1"
    and d2: "foldR (save_one s digest state) (sg_item_collections s) d1 = Inr d2"
    and d': "d' = (let d3 = save_values s state d2 in
        if manifest_path \<in> paths d3 then d3 else write_manifest s state d3)"
    by (auto simp: save_state_def save_items_def bindR_Inr_iff Let_def simp del: file_exists)
  let ?I = "\<lambda>x. paths x \<subseteq> paths d \<union> storage_paths s digest"
  have "dk_files d1 = dk_files d" using saved_logs [OF d1] by (simp add: prepare_data_directories_def)
  then have "?I d1" by simp
  then have "?I d2"
  proof (rule foldR_invariant [OF d2, of ?I])
    show "?I y" if it: "it \<in> set (sg_item_collections s)" and x: "?I x" and y: "save_one s digest state it x = Inr y"
      for it x y
    proof -
      obtain coll where "save_item_collection s digest (fst it) (snd it) coll x = Inr y"
        using y by (cases it) (auto split: json.splits)
      moreover have "fst it \<in> set (map fst (sg_item_collections s))" using it by simp
      ultimately show ?thesis using paths_collection x by blast
    qed
  qed
  then have "?I (save_values s state d2)"
    unfolding save_values_def
  proof (rule fold_invariant)
    show "?I (save_value s state v x)" if v: "v \<in> set (sg_value_collections s)" and x: "?I x" for v x
    proof -
      have "value_collection_path s (fst v) \<in> storage_paths s digest" using v by (auto simp: storage_paths_def)
      moreover have "paths (save_value s state v x) \<subseteq> insert (value_collection_path s (fst v)) (paths x)"
        by (cases v) (simp only: prod.case fst_conv paths_write_changed)
      ultimately show ?thesis using x by blast
    qed
  qed
  then show ?thesis using that d' by (simp only: Let_def)
qed

lemma saved_dirs:
  assumes "save_state s digest state d = Inr d'"
  shows "dk_dirs d' = List.insert (sg_data_name s) (dk_dirs d)"
proof -
  have one: "dk_dirs y = dk_dirs x" if y: "save_item_collection s digest name ik coll x = Inr y" for name ik coll x y
  proof -
    obtain z where z: "foldR (save_item s digest name ik) coll x = Inr z" "dk_dirs y = dk_dirs z"
      using y by (auto simp: save_item_collection_def bindR_Inr_iff Let_def)
    have "dk_dirs z = dk_dirs x"
    proof (rule foldR_invariant [OF z(1), of "\<lambda>z. dk_dirs z = dk_dirs x"])
      show "dk_dirs b = dk_dirs x" if a: "dk_dirs a = dk_dirs x" and b: "save_item s digest name ik kv a = Inr b" for kv a b
        using b a by (cases kv) (auto elim!: saved_item simp: same_but_artifacts_def)
    qed simp
    then show ?thesis using z(2) by simp
  qed
  have "\<not> differs (map_of state ''version'') STATE_VERSION"
    using assms(1) by (auto simp: save_state_def split: if_splits)
  with assms(1) obtain d1 d2 where d1: "save_logs s digest state (prepare_data_directories s d) = Inr d1"
    and d2: "foldR (save_one s digest state) (sg_item_collections s) d1 = Inr d2"
    and d': "d' = (let d3 = save_values s state d2 in
        if manifest_path \<in> paths d3 then d3 else write_manifest s state d3)"
    by (auto simp: save_state_def save_items_def bindR_Inr_iff Let_def simp del: file_exists)
  have "dk_dirs d2 = dk_dirs d1"
  proof (rule foldR_invariant [OF d2, of "\<lambda>z. dk_dirs z = dk_dirs d1"])
    show "dk_dirs b = dk_dirs d1" if a: "dk_dirs a = dk_dirs d1" and b: "save_one s digest state it a = Inr b" for it a b
      using b a one by (cases it) (auto split: json.splits)
  qed simp
  moreover have "dk_dirs (save_values s state d2) = dk_dirs d2" unfolding save_values_def by (rule saved_values_frame(3))
  ultimately show ?thesis using saved_logs [OF d1] by (simp add: d' Let_def write_manifest_def prepare_data_directories_def)
qed

abbreviation staging_store :: "string list \<Rightarrow> string \<Rightarrow> storage" where
  "staging_store root staging \<equiv> staging_storage staging (store_storage root)"

lemma staging_paths:
  assumes "p \<in> storage_paths (staging_store root staging) digest"
  shows "take 1 p = [staging] \<and> take 3 p \<noteq> [staging, ''metadata'', ''accounts'']"
  using assms
  by (auto simp: storage_paths_def artifact_path_def item_path_def item_collection_root_def value_collection_path_def
      staging_storage_def store_storage_def STATE_ITEM_COLLECTIONS_def STATE_VALUE_COLLECTIONS_def runtime_root_def
      metadata_root_def dict_get_def)

lemma replaced_logs:
  assumes "replace_logs s digest state d = Inr d'"
  shows "dk_files d' = dk_files d"
proof -
  obtain logs where logs: "foldR (\<lambda>(sid, v) d. case v of JList (x # xs) \<Rightarrow> replace_session_log s digest sid (x # xs) d
      | _ \<Rightarrow> Inr d) logs d = Inr d'"
    using assms by (auto simp: replace_logs_def bindR_Inr_iff)
  show ?thesis
    by (rule foldR_invariant [OF logs, of "\<lambda>x. dk_files x = dk_files d"])
      (auto simp: replace_session_log_def bindR_Inr_iff set_log_def split: json.splits list.splits)
qed

lemma empty_directory:
  assumes "\<And>p. p \<in> paths d \<Longrightarrow> take 3 p \<noteq> item_collection_root s name"
  shows "load_item_collection s name ik d = Inr []"
proof -
  have "take 3 p = item_collection_root s name" if "in_directory (item_collection_root s name) p" for p
    using that by (cases p rule: rev_cases)
      (auto simp: in_directory_def item_collection_root_def runtime_root_def metadata_root_def)
  then have "filter (in_directory (item_collection_root s name)) (map fst (dk_files d)) = []"
    using assms unfolding filter_empty_conv by blast
  then show ?thesis by (simp only: load_item_collection_def json_paths_def sort_key_simps foldR.simps)
qed

text \<open>C40: The migration of an older store loses its accounts: the storage it writes to does not know that users are kept
  below \<open>accounts\<close>, so whatever users the migrated state had, the users of the new store are loaded as
  none (and the program then creates root again, with its default password).\<close>

theorem migration_loses_accounts:
  assumes "install_migrated_state (store_storage root) digest staging state backup d = Inr d'"
    "\<And>p. p \<in> paths d \<Longrightarrow> take 1 p \<notin> {[staging], [''store'']}"
  shows "load_item_collection (store_storage root) ''users'' ''username'' d' = Inr []"
proof -
  let ?s = "store_storage root" and ?t = "staging_store root staging"
  let ?root = "[''store'', ''metadata'', ''accounts'']"
  from assms(1) obtain d1 d2 where d1: "replace_logs ?t digest state (prepare_data_directories ?t d) = Inr d1"
    and d2: "save_state ?t digest state d1 = Inr d2"
    and d': "d' = write_manifest ?s state (case backup of None \<Rightarrow> rename_data_root staging ''store'' d2
        | Some m \<Rightarrow> write_json_atomic [''manifest.v1.json''] (JDict m) (rename_data_root staging ''store'' d2))"
    by (auto simp: install_migrated_state_def Let_def bindR_Inr_iff store_storage_def split: if_splits)
  have d1_files: "dk_files d1 = dk_files d" using replaced_logs [OF d1] by (simp add: prepare_data_directories_def)
  obtain d3 where "paths d3 \<subseteq> paths d1 \<union> storage_paths ?t digest"
    "d2 = (if manifest_path \<in> paths d3 then d3 else write_manifest ?t state d3)" using d2 by (rule saved_paths)
  then have "paths d2 \<subseteq> insert manifest_path (paths d \<union> storage_paths ?t digest)"
    unfolding d1_files by (auto simp: write_manifest_def simp del: set_map)
  then have "take 3 (moved staging ''store'' p) \<noteq> ?root" if "p \<in> paths d2" for p
    using that assms(2) [of p] staging_paths [of p staging root digest]
    by (cases p) (auto simp: moved_def manifest_path_def simp del: set_map split: if_splits)
  moreover have "paths (rename_data_root staging ''store'' d2) = moved staging ''store'' ` paths d2"
    by (simp add: rename_data_root_def case_prod_beta' image_image)
  ultimately have "take 3 p \<noteq> ?root" if "p \<in> paths d'" for p
    using that by (cases backup) (auto simp: d' write_manifest_def manifest_path_def simp del: set_map)
  moreover have "item_collection_root ?s ''users'' = ?root"
    by (simp add: item_collection_root_def store_storage_def STATE_COLLECTION_DIR_NAMES_def dict_get_def metadata_root_def)
  ultimately show ?thesis by (intro empty_directory) simp
qed

text \<open>An interrupted migration of a \<open>state.json\<close> loses the state: the manifest of the new format is written while
  the data is still below its staging name. If the program stops there, the next start finds a current
  manifest, migrates nothing, and loads empty collections.\<close>

theorem interrupted_migration_loads_nothing:
  assumes "save_state (staging_store root staging) digest state d = Inr d'" "manifest_path \<notin> paths d"
    "\<And>p. p \<in> paths d \<Longrightarrow> take 1 p \<noteq> [''store'']" "staging \<noteq> ''store''"
  shows "ensure_current_format (store_storage root) digest other d' = Inr (False, d')
    \<and> (\<exists>loaded. load_state (store_storage root) d' = Inr loaded
         \<and> (\<forall>(name, _) \<in> set STATE_ITEM_COLLECTIONS. map_of loaded name = Some (JDict [])))"
proof -
  let ?s = "store_storage root" and ?t = "staging_store root staging"
  obtain d3 where d3: "paths d3 \<subseteq> paths d \<union> storage_paths ?t digest"
    "d' = (if manifest_path \<in> paths d3 then d3 else write_manifest ?t state d3)" using assms(1) by (rule saved_paths)
  have "manifest_path \<notin> storage_paths ?t digest"
    by (auto simp: storage_paths_def item_path_def item_collection_root_def manifest_path_def artifact_path_def
        value_collection_path_def runtime_root_def metadata_root_def)
  then have d': "d' = write_manifest ?t state d3" using d3 assms(2) by (auto simp del: set_map)
  then have "content d' manifest_path = content (write_manifest ?t state d3) manifest_path" by simp
  from loaded_manifest [OF this] obtain m c where m: "read_json_object manifest_path d' = Inr m"
    "map_of m ''storage_version'' = Some (JNum STORAGE_VERSION)" "map_of m ''state_version'' = Some (JNum STATE_VERSION)"
    "map_of m ''created_at'' = Some c" by blast
  have "manifest_path \<in> paths d'" unfolding d' write_manifest_def by (simp del: set_map)
  then have current: "ensure_current_format ?s digest other d' = Inr (False, d')"
    using m by (simp add: ensure_current_format_def differs_def Let_def del: set_map)
  have none: "take 1 p \<noteq> [''store'']" if "p \<in> paths d'" for p
    using that d3(1) assms(3) [of p] assms(4) staging_paths [of p staging root digest]
    unfolding d' write_manifest_def by (auto simp: manifest_path_def simp del: set_map)
  have coll: "load_item_collection ?s name ik d' = Inr []" for name ik
  proof (rule empty_directory)
    fix p assume "p \<in> paths d'"
    from none [OF this] show "take 3 p \<noteq> item_collection_root ?s name"
      by (cases p) (auto simp: item_collection_root_def runtime_root_def metadata_root_def store_storage_def)
  qed
  have "value_collection_path ?s name \<notin> paths d'" for name
    using none [of "value_collection_path ?s name"]
    by (auto simp: value_collection_path_def runtime_root_def metadata_root_def store_storage_def simp del: set_map)
  then have vals: "load_values ?s d' st = Inr (fold (\<lambda>p. AList.update (fst p) (snd p)) (sg_value_collections ?s) st)" for st
    unfolding load_values_updates by (intro foldR_updates) simp
  have items: "load_items ?s d' st = Inr (fold (\<lambda>p. AList.update (fst p) (JDict [])) (sg_item_collections ?s) st)" for st
    unfolding load_items_updates by (intro foldR_updates) (simp add: coll)
  obtain loaded where loaded: "load_state ?s d' = Inr loaded"
    using m items vals by (simp add: load_state_def differs_def)
  have "map_of loaded name = Some (JDict [])" if "(name, ik) \<in> set STATE_ITEM_COLLECTIONS" for name ik
    using load_state_collections [OF loaded store_layout, of name ik] that coll [of name ik] by (simp add: store_storage_def)
  then show ?thesis using current loaded by blast
qed

text \<open>Neither are the long texts of a migrated store found: their records name the staging directory.\<close>

theorem migrated_text_missing:
  assumes "externalize_field (staging_store root staging) digest f pf r d0 = (r1, d1)" "map_of r f = Some v" "v \<noteq> JNone"
    "pf \<noteq> f" "pf \<noteq> f @ ''_chars''" "plain_digest digest" "plain_name staging" "staging \<noteq> ''store''"
  shows "\<exists>e. hydrate_field (store_storage root) (rename_data_root staging ''store'' d) f pf r1 = Inl e"
proof -
  let ?t = "staging_store root staging" and ?s = "store_storage root"
  let ?p = "artifact_path ?t (digest (py_str v))"
  note r1 = externalized_record [OF assms(1-5)]
  have data: "sg_data_name ?t = staging" by (simp add: staging_storage_def)
  have res: "resolve_path ?s (path_text ?p) = sg_root ?s @ ?p"
    by (rule resolve_text) (use artifact_plain [OF assms(6), of ?t] assms(7) data in \<open>auto simp: artifact_path_def\<close>)
  have "paths (rename_data_root staging ''store'' d) = moved staging ''store'' ` paths d"
    by (simp add: rename_data_root_def case_prod_beta' image_image)
  moreover have "moved staging ''store'' q \<noteq> ?p" for q
    using assms(8) by (cases q) (auto simp: moved_def artifact_path_def data)
  ultimately have "?p \<notin> paths (rename_data_root staging ''store'' d)" by (simp only: image_iff) metis
  then have "content (rename_data_root staging ''store'' d) ?p = None" unfolding file_exists by simp
  moreover have "path_text ?p \<noteq> []" using assms(7) by (simp add: path_text_def artifact_path_def plain_name_def data)
  ultimately show ?thesis using r1 res by (simp add: hydrate_field_def)
qed

end
