(* ===== verification/State_Example.thy ===== *)
theory State_Example
  imports State_Migration_Rules
begin

section \<open>The theorems on the files of the state at a small store\<close>

text \<open>One account and nothing else; the digest stands for SHA-256 by the length of the text.\<close>

definition demo_state :: entry where
  "demo_state = [(''version'', JNum 1), (''created_at'', JText ''t''),
     (''users'', JDict [(''al'', JDict [(''username'', JText ''al''), (''groups'', JList [JText ''user''])])])]"

definition demo_digest :: "string \<Rightarrow> string" where
  "demo_digest t = ''d'' @ dec (length t)"

abbreviation demo_store :: storage where
  "demo_store \<equiv> store_storage [''srv'']"

lemma demo_saves:
  assumes "sg_item_collections s = STATE_ITEM_COLLECTIONS"
  shows "\<exists>d'. save_state s demo_digest demo_state d = Inr d'"
  using assms
  by (simp add: save_state_def save_logs_def save_items_def save_item_collection_def save_item_def persist_item_def
      item_texts_def demo_state_def dict_get_def dict_items_def differs_def STATE_VERSION_def STATE_ITEM_COLLECTIONS_def Let_def)

lemma demo_storable: "storable demo_store demo_digest demo_state"
  by (simp add: storable_def store_storage_def STATE_ITEM_COLLECTIONS_def STATE_VALUE_COLLECTIONS_def demo_state_def
      dict_get_def collection_ok_def item_ok_def)


text \<open>A store that has one account only.\<close>

definition account_disk :: disk where
  "account_disk = write_json_atomic [''store'', ''metadata'', ''accounts'', ''x.json''] (JDict [(''username'', JText ''al'')])
     (write_manifest demo_store demo_state no_files)"

lemma account_loads: "\<exists>st. load_state demo_store account_disk = Inr st"
proof -
  let ?p = "[''store'', ''metadata'', ''accounts'', ''x.json'']" and ?e = "[(''username'', JText ''al'')]"
  have ok: "json_ok (JDict ?e)" by simp
  have "content account_disk ?p = Some (json_bytes (JDict ?e))" by (simp add: account_disk_def)
  from read_object_written [OF ok this] have user: "read_json_object ?p account_disk = Inr (canonical ?e)" .
  have "text_of (canonical ?e) ''username'' = ''al''"
    using map_of_canonical [of ?e "''username''"] by (simp add: text_of_def falsy_def py_str_def)
  note one = user this
  have "content account_disk manifest_path = content (write_manifest demo_store demo_state no_files) manifest_path"
    by (simp add: account_disk_def manifest_path_def)
  from loaded_manifest [OF this] obtain m c where m: "read_json_object manifest_path account_disk = Inr m"
    "map_of m ''storage_version'' = Some (JNum STORAGE_VERSION)" "map_of m ''state_version'' = Some (JNum STATE_VERSION)"
    "map_of m ''created_at'' = Some c" by blast
  have files: "map fst (dk_files account_disk) = [manifest_path, ?p]"
    by (simp add: account_disk_def write_manifest_def write_json_atomic_def write_text_def no_files_def manifest_path_def)
  have paths: "json_paths (item_collection_root demo_store name) account_disk = (if name = ''users'' \<or> name = ''accounts'' then [?p] else [])" for name
    by (simp add: json_paths_def files in_directory_def item_collection_root_def store_storage_def runtime_root_def
        metadata_root_def manifest_path_def dict_get_def STATE_COLLECTION_DIR_NAMES_def json_name_def)
  have "load_item_collection demo_store name ik account_disk
      = (if name = ''users'' \<or> name = ''accounts'' then load_item ik account_disk ?p [] else Inr [])" for name ik
    unfolding load_item_collection_def paths by (cases "load_item ik account_disk ?p []") simp_all
  moreover have "load_item ''username'' account_disk ?p [] = Inr [(''al'', JDict (canonical ?e))]"
    using one by (simp add: load_item_def Let_def)
  ultimately have "\<exists>st1. load_items demo_store account_disk st0 = Inr st1" for st0
    by (simp add: load_items_def store_storage_def STATE_ITEM_COLLECTIONS_def)
  moreover have "value_collection_path demo_store name \<notin> set (map fst (dk_files account_disk))" for name
    by (simp add: files value_collection_path_def runtime_root_def metadata_root_def manifest_path_def)
  then have "\<exists>st2. load_values demo_store account_disk st1 = Inr st2" for st1
    by (simp add: load_values_def store_storage_def STATE_VALUE_COLLECTIONS_def Let_def)
  ultimately show ?thesis using m by (auto simp: load_state_def differs_def bindR_Inr_iff) metis
qed

theorem loaded_state_typed_witness:
  "\<exists>st coll. load_state demo_store account_disk = Inr st \<and> map_of st ''users'' = Some (JDict coll)
     \<and> typed_collection ''username'' coll"
proof -
  obtain st where "load_state demo_store account_disk = Inr st" using account_loads by blast
  from loaded_state_typed [OF this store_layout, of "''users''" "''username''"] this show ?thesis
    by (auto simp: store_storage_def STATE_ITEM_COLLECTIONS_def)
qed

lemma demo_digest_plain: "plain_digest demo_digest"
proof -
  have d: "CHR ''/'' \<notin> set (dec n)" for n
    using dec_digits [of n] by (auto simp: list_all_iff py_isdigit_def)
  then have "CHR ''/'' \<notin> set (take k (dec n))" for k n using set_take_subset by fastforce
  with d show ?thesis by (auto simp: plain_digest_def plain_name_def demo_digest_def)
qed

theorem externalized_text_restored_witness:
  "case externalize_field demo_store demo_digest ''prompt'' ''prompt_path'' [(''prompt'', JText ''hello'')] no_files of
     (r1, d1) \<Rightarrow> hydrate_field demo_store d1 ''prompt'' ''prompt_path'' r1 = Inr (AList.update ''prompt'' (JText ''hello'') r1)"
proof -
  obtain r1 d1 where e: "externalize_field demo_store demo_digest ''prompt'' ''prompt_path'' [(''prompt'', JText ''hello'')] no_files
      = (r1, d1)" by (rule prod.exhaust)
  have "hydrate_field demo_store d1 ''prompt'' ''prompt_path'' r1 = Inr (AList.update ''prompt'' (JText (py_str (JText ''hello''))) r1)"
    by (rule externalized_text_restored [OF e _ _ _ _ demo_digest_plain])
      (simp_all add: plain_name_def store_storage_def no_files_def)
  then show ?thesis by (simp add: e py_str_def)
qed

theorem migration_loses_accounts_witness:
  "\<exists>d. install_migrated_state demo_store demo_digest ''stage'' demo_state None no_files = Inr d
     \<and> load_item_collection demo_store ''users'' ''username'' d = Inr []"
proof -
  let ?t = "staging_store [''srv''] ''stage''"
  obtain d2 where d2: "save_state ?t demo_digest demo_state (prepare_data_directories ?t no_files) = Inr d2"
    using demo_saves [of ?t] by (auto simp: staging_storage_def store_storage_def)
  have "dk_dirs d2 = [''stage'']"
    using saved_dirs [OF d2] by (simp add: prepare_data_directories_def no_files_def staging_storage_def)
  then have "\<exists>d. install_migrated_state demo_store demo_digest ''stage'' demo_state None no_files = Inr d"
    using d2 by (simp add: install_migrated_state_def replace_logs_def dict_items_def dict_get_def demo_state_def
        store_storage_def)
  then show ?thesis using migration_loses_accounts [of "[''srv'']" demo_digest "''stage''" demo_state None no_files]
    by (auto simp: no_files_def)
qed

theorem interrupted_migration_loads_nothing_witness:
  "\<exists>d loaded. save_state (staging_store [''srv''] ''stage'') demo_digest demo_state no_files = Inr d
     \<and> ensure_current_format demo_store demo_digest ''other'' d = Inr (False, d)
     \<and> load_state demo_store d = Inr loaded \<and> map_of loaded ''users'' = Some (JDict [])"
proof -
  obtain d where d: "save_state (staging_store [''srv''] ''stage'') demo_digest demo_state no_files = Inr d"
    using demo_saves [of "staging_store [''srv''] ''stage''"] by (auto simp: staging_storage_def store_storage_def)
  show ?thesis
    using interrupted_migration_loads_nothing [OF d, of "''other''"] d by (auto simp: no_files_def STATE_ITEM_COLLECTIONS_def)
qed

end
