(* ===== verification/Store_Defaults.thy ===== *)
theory Store_Defaults
  imports Units
begin

section \<open>The defaults of a loaded store\<close>

text \<open>
  \<open>ensure\_defaults\<close> of goal/store.py, which every load runs: the root Unit, session and user, the service
  accounts, a home session for every account, the parent edges of sessions, the agent profiles, and the
  normal form of schedules, triggers and policies. Each function returns whether it changed anything, as in
  the code. A record of the model has all its fields, so the tests for a missing key are gone; workspaces
  and the constant capabilities of a session are not in the model. The password hash and the random salt
  are arguments.
\<close>

type_synonym 'a changed = "bool \<times> 'a"

definition DEFAULT_ROOT_PASSWORD :: string where
  "DEFAULT_ROOT_PASSWORD = ''root''"

subsection \<open>Root\<close>

definition ensure_root_unit :: "string \<Rightarrow> state \<Rightarrow> state changed" where
  "ensure_root_unit timestamp st =
     (case map_of (st_units st) ROOT_UNIT_ID of
        None \<Rightarrow>
          (True, st\<lparr>st_units := AList.update ROOT_UNIT_ID
             ((new_unit ROOT_UNIT_ID timestamp ''singleton'')\<lparr>un_singleton_session_id := ROOT_SESSION_ID\<rparr>) (st_units st)\<rparr>)
      | Some u \<Rightarrow>
          (un_instance_policy u \<noteq> ''singleton'' \<or> un_singleton_session_id u \<noteq> ROOT_SESSION_ID,
           upd_unit ROOT_UNIT_ID
             (\<lambda>u. u\<lparr>un_instance_policy := ''singleton'', un_singleton_session_id := ROOT_SESSION_ID\<rparr>) st))"

text \<open>The triggers of a Unit in the form of the raw dictionary they are stored as.\<close>

definition raw_triggers :: "triggers option \<Rightarrow> bool dict" where
  "raw_triggers t =
     (case t of None \<Rightarrow> []
      | Some t \<Rightarrow> [(''manual'', tr_manual t), (''scheduled'', tr_scheduled t), (''startup'', tr_startup t)])"

definition ensure_unit_fields :: "string \<Rightarrow> state changed \<Rightarrow> state changed res" where
  "ensure_unit_fields unit_id acc =
     (let (changed, st) = acc in
      case map_of (st_units st) unit_id of
        None \<Rightarrow> Inr acc
      | Some u \<Rightarrow>
          bindR (normalize_unit_schedule (un_schedule u) 0 st) (\<lambda>schedule.
          bindR (normalize_unit_activation_triggers (raw_triggers (un_activation_triggers u)) schedule) (\<lambda>t.
            Inr (changed \<or> schedule \<noteq> un_schedule u \<or> un_activation_triggers u \<noteq> Some t,
                 upd_unit unit_id (\<lambda>u. u\<lparr>un_schedule := schedule, un_activation_triggers := Some t\<rparr>) st))))"

definition ensure_root_session :: "string \<Rightarrow> state \<Rightarrow> state changed res" where
  "ensure_root_session timestamp st =
     (case get_session st ROOT_SESSION_ID of
        None \<Rightarrow>
          Inr (True, st\<lparr>st_sessions := AList.update ROOT_SESSION_ID
                 (new_session ROOT_SESSION_ID ROOT_UNIT_ID timestamp ROOT_SESSION_ID True) (st_sessions st)\<rparr>)
      | Some s \<Rightarrow>
          if s_unit_id s \<noteq> ROOT_UNIT_ID then Inl (StoreError ''root session exists but is not owned by root unit'')
          else Inr (\<not> s_singleton s, upd_session ROOT_SESSION_ID (\<lambda>s. s\<lparr>s_singleton := True\<rparr>) st))"

subsection \<open>Accounts\<close>

definition ensure_root_user :: "(string \<Rightarrow> string \<Rightarrow> string) \<Rightarrow> string \<Rightarrow> string \<Rightarrow> state \<Rightarrow> state changed" where
  "ensure_root_user hash salt timestamp st =
     (case map_of (st_users st) ROOT_USERNAME of
        None \<Rightarrow>
          (True, st\<lparr>st_users := AList.update ROOT_USERNAME
             (new_user ROOT_USERNAME (hash DEFAULT_ROOT_PASSWORD salt) salt [''root'', ''admin''] timestamp ''active'' [])
             (st_users st)\<rparr>)
      | Some _ \<Rightarrow> (False, st))"

definition ensure_service_account :: "string \<Rightarrow> string \<times> service_account_spec \<Rightarrow> state changed \<Rightarrow> state changed" where
  "ensure_service_account now spec acc =
     (let (changed, st) = acc; account = spec_account (snd spec) in
      case map_of (st_users st) account of
        Some _ \<Rightarrow> acc
      | None \<Rightarrow>
          (True, st\<lparr>st_users := AList.update account
             (new_user account [] [] (spec_groups (snd spec)) now ''service'' (fst spec)) (st_users st)\<rparr>))"

definition ensure_service_accounts :: "string \<Rightarrow> state \<Rightarrow> state changed" where
  "ensure_service_accounts now st =
     fold (ensure_service_account now) (sort_key fst PROVIDER_SERVICE_ACCOUNTS) (False, st)"

text \<open>
  \<open>\_rename\_session\_id\<close>. A renamed key moves to the end of its dictionary. The list \<open>messages\<close> of a loaded state is
  empty, so no message is renamed.
\<close>

definition rename_key :: "string \<Rightarrow> string \<Rightarrow> ('v \<Rightarrow> 'v) \<Rightarrow> 'v dict \<Rightarrow> 'v dict" where
  "rename_key old new f d =
     (case map_of d old of None \<Rightarrow> d | Some v \<Rightarrow> AList.update new (f v) (AList.delete old d))"

definition renamed :: "string \<Rightarrow> string \<Rightarrow> string \<Rightarrow> string" where
  "renamed old new x = (if x = old then new else x)"

definition rename_thread :: "string \<Rightarrow> string \<Rightarrow> string \<times> agent_thread \<Rightarrow> agent_thread dict \<Rightarrow> agent_thread dict" where
  "rename_thread old new kv threads =
     (let (key, thread) = kv in
      if th_session_id thread \<noteq> old then threads
      else let new_key = new @ '':'' @ role_name (th_role thread)
           in AList.update new_key (thread\<lparr>th_session_id := new, th_thread_id := new_key\<rparr>) (AList.delete key threads))"

definition rename_in_unit :: "string \<Rightarrow> string \<Rightarrow> unit_rec \<Rightarrow> unit_rec" where
  "rename_in_unit old new u =
     u\<lparr>un_singleton_session_id := renamed old new (un_singleton_session_id u),
       un_schedule := map_option (\<lambda>s. s\<lparr>sch_next_run_required_by := map_option (renamed old new) (sch_next_run_required_by s),
           sch_next_run_set_by_session_id := map_option (renamed old new) (sch_next_run_set_by_session_id s)\<rparr>)
         (un_schedule u)\<rparr>"

definition rename_session_id :: "string \<Rightarrow> string \<Rightarrow> state \<Rightarrow> state changed res" where
  "rename_session_id old new st =
     (if old = new \<or> get_session st old = None then Inr (False, st)
      else if get_session st new \<noteq> None then Inl (StoreError (''account home session already exists: '' @ new))
      else
        Inr (True, st\<lparr>
          st_sessions := rename_key old new (\<lambda>s. s\<lparr>s_session_id := new\<rparr>) (st_sessions st),
          st_session_edges := map (\<lambda>e. e\<lparr>e_parent := renamed old new (e_parent e), e_child := renamed old new (e_child e)\<rparr>)
            (st_session_edges st),
          st_goals := map (\<lambda>(k, g). (k, g\<lparr>g_session_id := renamed old new (g_session_id g)\<rparr>)) (st_goals st),
          st_dispatch_readiness := map (\<lambda>e. e\<lparr>rd_session_id := renamed old new (rd_session_id e)\<rparr>) (st_dispatch_readiness st),
          st_dispatch_runs := map (\<lambda>(k, r). (k, r\<lparr>r_session_id := renamed old new (r_session_id r)\<rparr>)) (st_dispatch_runs st),
          st_endpoint_cursors := rename_key (session_endpoint old) (session_endpoint new) (\<lambda>c. c) (st_endpoint_cursors st),
          st_session_logs := rename_key old new (\<lambda>es. es) (st_session_logs st),
          st_agent_threads := fold (rename_thread old new) (st_agent_threads st) (st_agent_threads st),
          st_units := map (\<lambda>(k, u). (k, rename_in_unit old new u)) (st_units st)\<rparr>))"

subsection \<open>Home sessions\<close>

definition rename_home_session :: "user \<Rightarrow> string \<Rightarrow> state \<Rightarrow> state changed res" where
  "rename_home_session u home st =
     (let previous = py_strip (u_home_session_id u) in
      bindR (if previous \<noteq> [] \<and> previous \<noteq> home then rename_session_id previous home st else Inr (False, st))
        (\<lambda>(changed, st1).
          Inr (changed \<or> previous \<noteq> home,
               if previous \<noteq> home
               then st1\<lparr>st_users := AList.map_entry (u_username u) (\<lambda>u. u\<lparr>u_home_session_id := home\<rparr>) (st_users st1)\<rparr>
               else st1)))"

definition rename_home_unit :: "user \<Rightarrow> string \<Rightarrow> state \<Rightarrow> state changed res" where
  "rename_home_unit u home st =
     (let previous = py_strip (u_home_unit_id u) in
      bindR (if previous \<noteq> [] \<and> previous \<noteq> home \<and> map_of (st_units st) previous \<noteq> None then
               (if map_of (AList.delete previous (st_units st)) home \<noteq> None then
                  Inl (StoreError (''account home unit already exists: '' @ home))
                else Inr (True, st\<lparr>st_units := rename_key previous home (\<lambda>x. x\<lparr>un_unit_id := home\<rparr>) (st_units st)\<rparr>))
             else Inr (False, st))
        (\<lambda>(changed, st1).
          Inr (changed \<or> previous \<noteq> home,
               if previous \<noteq> home
               then st1\<lparr>st_users := AList.map_entry (u_username u) (\<lambda>u. u\<lparr>u_home_unit_id := home\<rparr>) (st_users st1)\<rparr>
               else st1)))"

definition home_unit :: "string \<Rightarrow> string \<Rightarrow> string \<Rightarrow> unit_rec" where
  "home_unit username home timestamp =
     (new_unit home timestamp ''singleton'')\<lparr>un_singleton_session_id := home,
        un_display_name := username @ '' account root'', un_description := ''Account root singleton Unit.'',
        un_activation_triggers := Some \<lparr>tr_manual = True, tr_scheduled = False, tr_startup = False\<rparr>,
        un_owner_account := username\<rparr>"

definition ensure_home_unit :: "string \<Rightarrow> string \<Rightarrow> string \<Rightarrow> state \<Rightarrow> state changed" where
  "ensure_home_unit username home timestamp st =
     (case map_of (st_units st) home of
        None \<Rightarrow> (True, st\<lparr>st_units := AList.update home (home_unit username home timestamp) (st_units st)\<rparr>)
      | Some u \<Rightarrow>
          (un_instance_policy u \<noteq> ''singleton'' \<or> un_singleton_session_id u \<noteq> home \<or> un_owner_account u \<noteq> username,
           upd_unit home (\<lambda>u. u\<lparr>un_instance_policy := ''singleton'', un_singleton_session_id := home,
                                un_owner_account := username\<rparr>) st))"

definition ensure_home_session :: "string \<Rightarrow> string \<Rightarrow> string \<Rightarrow> state \<Rightarrow> state changed" where
  "ensure_home_session username home timestamp st =
     (case get_session st home of
        None \<Rightarrow>
          (True, st\<lparr>st_sessions := AList.update home
             (new_session home home timestamp (username @ '' home'') True) (st_sessions st)\<rparr>)
      | Some s \<Rightarrow>
          (s_unit_id s \<noteq> home \<or> \<not> s_singleton s \<or> py_strip (s_title s) = [],
           upd_session home (\<lambda>s. s\<lparr>s_unit_id := home, s_singleton := True,
                s_title := (if py_strip (s_title s) = [] then username @ '' home'' else s_title s)\<rparr>) st))"

text \<open>One round of \<open>\_ensure\_user\_home\_sessions\<close>; a home Unit has the identifier of the home session.\<close>

definition ensure_user_home :: "string \<Rightarrow> string \<Rightarrow> state changed \<Rightarrow> state changed res" where
  "ensure_user_home timestamp username acc =
     (let (changed, st) = acc in
      case map_of (st_users st) username of
        None \<Rightarrow> Inr acc
      | Some u \<Rightarrow>
          if u_status u = ''service'' then Inr acc
          else
            let home = account_home_session_id username in
            bindR (rename_home_session (u\<lparr>u_username := username\<rparr>) home st) (\<lambda>(c1, st1).
            bindR (rename_home_unit (u\<lparr>u_username := username\<rparr>) (account_home_unit_id username) st1) (\<lambda>(c2, st2).
              if home = ROOT_SESSION_ID then Inl (StoreError ''account home session cannot be the system root session'')
              else
                let (c3, st3) = ensure_home_unit username (account_home_unit_id username) timestamp st2;
                    (c4, st4) = ensure_home_session username home timestamp st3
                in if has_path (st_session_edges st4) ROOT_SESSION_ID home
                   then Inr (changed \<or> c1 \<or> c2 \<or> c3 \<or> c4, st4)
                   else bindR (link_sessions_in_state ROOT_SESSION_ID home st4) (\<lambda>(_, st5). Inr (True, st5)))))"

definition ensure_user_home_sessions :: "string \<Rightarrow> state \<Rightarrow> state changed res" where
  "ensure_user_home_sessions timestamp st =
     foldR (ensure_user_home timestamp) (sort (dict_keys (st_users st))) (False, st)"

subsection \<open>Parents\<close>

text \<open>The home session of the account that owns the Unit of a session, when it has one.\<close>

definition owner_home :: "state \<Rightarrow> session \<Rightarrow> (string \<times> string) option" where
  "owner_home st s =
     (case map_of (st_units st) (py_strip (s_unit_id s)) of
        None \<Rightarrow> None
      | Some u \<Rightarrow>
          (case map_of (st_users st) (py_strip (un_owner_account u)) of
             None \<Rightarrow> None
           | Some owner \<Rightarrow>
               if py_strip (u_home_session_id owner) = [] then None
               else Some (py_strip (un_owner_account u), py_strip (u_home_session_id owner))))"

text \<open>One round of \<open>\_ensure\_unit\_session\_owner\_parents\<close>.\<close>

definition ensure_owner_parent :: "string \<Rightarrow> state changed \<Rightarrow> state changed res" where
  "ensure_owner_parent session_id acc =
     (let (changed, st) = acc in
      case get_session st session_id of
        None \<Rightarrow> Inr acc
      | Some s \<Rightarrow>
          (case owner_home st s of
             None \<Rightarrow> Inr acc
           | Some (owner, home) \<Rightarrow>
               if home = session_id then Inr acc
               else if get_session st home = None then
                 Inl (StoreError (''owner user has no home session: '' @ owner))
               else
                 bindR (if List.find (same_edge home session_id) (st_session_edges st) \<noteq> None then Inr (changed, st)
                        else bindR (link_sessions_in_state home session_id st) (\<lambda>(_, st1). Inr (True, st1))) (\<lambda>(c1, st1).
                   let retained = filter (\<lambda>e. \<not> same_edge ROOT_SESSION_ID session_id e) (st_session_edges st1)
                   in Inr (c1 \<or> length retained \<noteq> length (st_session_edges st1), st1\<lparr>st_session_edges := retained\<rparr>))))"

definition ensure_unit_session_owner_parents :: "state \<Rightarrow> state changed res" where
  "ensure_unit_session_owner_parents st =
     foldR ensure_owner_parent (dict_keys (st_sessions st)) (False, st)"

text \<open>A session that cannot be reached from the root session becomes a child of it.\<close>

definition ensure_root_parent :: "string \<Rightarrow> string \<Rightarrow> state changed \<Rightarrow> state changed" where
  "ensure_root_parent timestamp session_id acc =
     (let (changed, st) = acc in
      if session_id = ROOT_SESSION_ID \<or> has_path (st_session_edges st) ROOT_SESSION_ID session_id then acc
      else (True, st\<lparr>st_session_edges := st_session_edges st
              @ [\<lparr>e_parent = ROOT_SESSION_ID, e_child = session_id, e_created_at = timestamp\<rparr>]\<rparr>))"

subsection \<open>Profiles and sessions\<close>

definition default_profile_account :: "string \<Rightarrow> string option" where
  "default_profile_account provider =
     map_option spec_account (map_of PROVIDER_SERVICE_ACCOUNTS (py_lower (py_strip provider)))"

definition ensure_profile :: "string \<Rightarrow> role \<Rightarrow> state changed \<Rightarrow> state changed" where
  "ensure_profile timestamp role acc =
     (let (changed, st) = acc in
      case map_of (st_agent_profiles st) (role_name role) of
        Some _ \<Rightarrow> acc
      | None \<Rightarrow>
          (True, st\<lparr>st_agent_profiles := AList.update (role_name role)
             \<lparr>ap_role = role, ap_provider = DEFAULT_AGENT_PROVIDER,
              ap_accounts = (case default_profile_account DEFAULT_AGENT_PROVIDER of None \<Rightarrow> [] | Some a \<Rightarrow> [a]),
              ap_status = ''active'', ap_default_assignment = True, ap_created_at = timestamp, ap_updated_at = []\<rparr>
             (st_agent_profiles st)\<rparr>))"

definition ensure_session_policy :: "string \<Rightarrow> state changed \<Rightarrow> state changed" where
  "ensure_session_policy session_id acc =
     (let (changed, st) = acc in
      case get_session st session_id of
        None \<Rightarrow> acc
      | Some s \<Rightarrow>
          (changed \<or> pol_class (s_policy s) = [],
           upd_session session_id (\<lambda>s. s\<lparr>s_policy := (s_policy s)\<lparr>pol_class :=
             (if pol_class (s_policy s) = [] then ''normal'' else pol_class (s_policy s))\<rparr>\<rparr>) st))"

definition ensure_session_log_default :: "string \<Rightarrow> state changed \<Rightarrow> state changed" where
  "ensure_session_log_default session_id acc =
     (let (changed, st) = acc; (c, st1) = sync_session_current_state session_id st in (changed \<or> c, st1))"

subsection \<open>All defaults\<close>

definition ensure_defaults :: "(string \<Rightarrow> string \<Rightarrow> string) \<Rightarrow> string \<Rightarrow> string \<Rightarrow> state \<Rightarrow> state changed res" where
  "ensure_defaults hash salt timestamp st =
     (let (c1, st1) = ensure_root_unit timestamp st in
      bindR (foldR ensure_unit_fields (dict_keys (st_units st1)) (c1, st1)) (\<lambda>(c2, st2).
      bindR (ensure_root_session timestamp st2) (\<lambda>(c3, st3).
      let (c4, st4) = ensure_root_user hash salt timestamp st3;
          (c5, st5) = ensure_service_accounts timestamp st4
      in bindR (ensure_user_home_sessions timestamp st5) (\<lambda>(c6, st6).
         bindR (ensure_unit_session_owner_parents st6) (\<lambda>(c7, st7).
           let (c8, st8) = fold (ensure_root_parent timestamp) (dict_keys (st_sessions st7)) (False, st7);
               (c9, st9) = fold (ensure_profile timestamp) [GoalManager, WorkerAgent] (False, st8);
               (c10, st10) = fold ensure_session_policy (dict_keys (st_sessions st9)) (False, st9);
               (c11, st11) = fold ensure_session_log_default (dict_keys (st_sessions st10)) (False, st10)
           in Inr (c2 \<or> c3 \<or> c4 \<or> c5 \<or> c6 \<or> c7 \<or> c8 \<or> c9 \<or> c10 \<or> c11, st11))))))"

end
