(* ===== verification/Store_Defaults_Rules.thy ===== *)
theory Store_Defaults_Rules
  imports Store_Defaults
begin

section \<open>What the defaults establish\<close>

text \<open>
  After the defaults every session can be reached from the root session, the graph is still acyclic, and every
  account has its home. The lemmas follow the steps of \<open>ensure\_defaults\<close>; an account is settled when it has no home
  under another name, as it is once the old names have been renamed.
\<close>

definition settled :: "state \<Rightarrow> bool" where
  "settled st \<longleftrightarrow> (\<forall>n u. map_of (st_users st) n = Some u \<longrightarrow>
     py_strip (u_home_session_id u) \<in> {[], account_home_session_id n}
     \<and> py_strip (u_home_unit_id u) \<in> {[], account_home_unit_id n})"

text \<open>The root Unit belongs to no account, and the root session to the root Unit.\<close>

definition root_unowned :: "state \<Rightarrow> bool" where
  "root_unowned st \<longleftrightarrow>
     (\<forall>u. map_of (st_units st) ROOT_UNIT_ID = Some u \<longrightarrow> py_strip (un_owner_account u) = [])
     \<and> map_of (st_users st) [] = None"

definition root_session_ok :: "state \<Rightarrow> bool" where
  "root_session_ok st \<longleftrightarrow> (\<forall>s. get_session st ROOT_SESSION_ID = Some s \<longrightarrow> s_unit_id s = ROOT_UNIT_ID)"

definition rooted :: "state \<Rightarrow> bool" where
  "rooted st \<longleftrightarrow> acyclic (graph st) \<and> (\<forall>p. (p, ROOT_SESSION_ID) \<notin> graph st)"

lemma home_names [simp]: "account_home_session_id n \<noteq> ROOT_SESSION_ID" "account_home_unit_id n = account_home_session_id n"
  "py_strip (account_home_session_id n) = account_home_session_id n \<Longrightarrow> True"
  by (simp_all add: account_home_session_id_def account_home_unit_id_def)

lemma rooted_link:
  assumes "link_sessions_in_state p c st = Inr (e, st')" "rooted st" "c \<noteq> ROOT_SESSION_ID"
  shows "rooted st'"
  using assms session_graph.link_acyclic [OF assms(1)] session_graph.link_adds [OF assms(1)] by (auto simp: rooted_def)

lemma rooted_subset: "graph st' \<subseteq> graph st \<Longrightarrow> rooted st \<Longrightarrow> rooted st'"
  unfolding rooted_def by (metis acyclic_subset subsetD)

subsection \<open>The steps before the accounts\<close>

lemma ensure_root_unit_facts:
  assumes "ensure_root_unit t st = (c, st')"
  shows "st_session_edges st' = st_session_edges st" "st_users st' = st_users st" "st_sessions st' = st_sessions st"
    "root_unowned st \<Longrightarrow> root_unowned st'"
  using assms by (auto simp: ensure_root_unit_def root_unowned_def upd_unit_def new_unit_def py_strip_def strip_by_def
      split: option.splits)

lemma ensure_unit_fields_step:
  assumes "ensure_unit_fields uid (c, x) = Inr (c', y)"
  shows "y = x \<or> (\<exists>sch t. y = upd_unit uid (\<lambda>u. u\<lparr>un_schedule := sch, un_activation_triggers := Some t\<rparr>) x)"
  using assms by (cases "map_of (st_units x) uid") (auto simp: ensure_unit_fields_def bindR_Inr_iff)

lemma root_unowned_upd:
  "(\<And>u. un_owner_account (f u) = un_owner_account u) \<Longrightarrow> root_unowned st \<Longrightarrow> root_unowned (upd_unit uid f st)"
  by (auto simp: root_unowned_def upd_unit_def)

lemma ensure_unit_fields_facts:
  assumes "foldR ensure_unit_fields ids (c, st) = Inr (c', st')"
  shows "st_session_edges st' = st_session_edges st" "st_users st' = st_users st" "st_sessions st' = st_sessions st"
    "root_unowned st \<Longrightarrow> root_unowned st'"
proof -
  let ?J = "\<lambda>x. st_session_edges x = st_session_edges st \<and> st_users x = st_users st \<and> st_sessions x = st_sessions st
      \<and> (root_unowned st \<longrightarrow> root_unowned x)"
  have "?J (snd (c', st'))"
  proof (rule foldR_invariant [OF assms, of "\<lambda>a. ?J (snd a)"])
    fix uid a b assume a: "?J (snd a)" and s: "ensure_unit_fields uid a = Inr b"
    obtain ca x where ax: "a = (ca, x)" by (cases a)
    obtain cb y where bx: "b = (cb, y)" by (cases b)
    from ensure_unit_fields_step [OF s [unfolded ax bx]] show "?J (snd b)"
    proof
      assume "y = x" then show ?thesis using a by (simp add: ax bx)
    next
      assume "\<exists>sch t. y = upd_unit uid (\<lambda>u. u\<lparr>un_schedule := sch, un_activation_triggers := Some t\<rparr>) x"
      then show ?thesis using a root_unowned_upd by (auto simp: ax bx) (auto simp: upd_unit_def)
    qed
  qed simp
  then show "st_session_edges st' = st_session_edges st" "st_users st' = st_users st" "st_sessions st' = st_sessions st"
    "root_unowned st \<Longrightarrow> root_unowned st'" by simp_all
qed

lemma ensure_root_session_facts:
  assumes "ensure_root_session t st = Inr (c, st')"
  shows "st_session_edges st' = st_session_edges st" "st_users st' = st_users st" "st_units st' = st_units st"
    "root_session_ok st'"
  using assms by (auto simp: ensure_root_session_def upd_session_def root_session_ok_def new_session_def
      split: option.splits if_splits)

lemma settled_new_user:
  "settled st \<Longrightarrow> settled (st\<lparr>st_users := AList.update n (new_user n h s g t status p) (st_users st)\<rparr>)"
  by (auto simp: settled_def new_user_def py_strip_def strip_by_def)

lemma ensure_root_user_facts:
  assumes "ensure_root_user hash salt t st = (c, st')"
  shows "st_session_edges st' = st_session_edges st" "st_units st' = st_units st" "st_sessions st' = st_sessions st"
    "settled st \<Longrightarrow> settled st'" "root_unowned st \<Longrightarrow> root_unowned st'"
  using assms settled_new_user by (auto simp: ensure_root_user_def root_unowned_def split: option.splits)

lemma ensure_service_account_step:
  "snd (ensure_service_account t spec (c, x)) = x
   \<or> snd (ensure_service_account t spec (c, x)) = x\<lparr>st_users := AList.update (spec_account (snd spec))
        (new_user (spec_account (snd spec)) [] [] (spec_groups (snd spec)) t ''service'' (fst spec)) (st_users x)\<rparr>"
  by (simp add: ensure_service_account_def Let_def split: option.splits)

lemma ensure_service_accounts_facts:
  assumes "ensure_service_accounts t st = (c, st')"
  shows "st_session_edges st' = st_session_edges st" "st_units st' = st_units st" "st_sessions st' = st_sessions st"
    "settled st \<Longrightarrow> settled st'" "root_unowned st \<Longrightarrow> root_unowned st'"
proof -
  let ?J = "\<lambda>x. st_session_edges x = st_session_edges st \<and> st_units x = st_units st \<and> st_sessions x = st_sessions st
      \<and> (settled st \<longrightarrow> settled x) \<and> (root_unowned st \<longrightarrow> root_unowned x)"
  have keep: "?J (x\<lparr>st_users := AList.update n (new_user n [] [] g t ''service'' p) (st_users x)\<rparr>)"
    if "?J x" "n \<noteq> []" for x n g p
  proof (intro conjI impI)
    show "settled (x\<lparr>st_users := AList.update n (new_user n [] [] g t ''service'' p) (st_users x)\<rparr>)" if "settled st"
      using that \<open>?J x\<close> by (intro settled_new_user) blast
    show "root_unowned (x\<lparr>st_users := AList.update n (new_user n [] [] g t ''service'' p) (st_users x)\<rparr>)" if r: "root_unowned st"
    proof -
      have "root_unowned x" using r \<open>?J x\<close> by blast
      then show ?thesis using \<open>n \<noteq> []\<close> unfolding root_unowned_def by simp
    qed
  qed (use that in simp_all)
  have named: "\<forall>spec \<in> set (sort_key fst PROVIDER_SERVICE_ACCOUNTS). spec_account (snd spec) \<noteq> []"
  proof -
    have "\<forall>spec \<in> set PROVIDER_SERVICE_ACCOUNTS. spec_account (snd spec) \<noteq> []"
      by (simp add: PROVIDER_SERVICE_ACCOUNTS_def)
    then show ?thesis by (simp only: set_sort)
  qed
  have "?J (snd (fold (ensure_service_account t) (sort_key fst PROVIDER_SERVICE_ACCOUNTS) (False, st)))"
  proof (rule fold_invariant [of "\<lambda>a. ?J (snd a)"])
    fix spec and a :: "state changed" assume spec: "spec \<in> set (sort_key fst PROVIDER_SERVICE_ACCOUNTS)" and a: "?J (snd a)"
    obtain ca x where ax: "a = (ca, x)" by (cases a)
    have "spec_account (snd spec) \<noteq> []" using named spec by blast
    then show "?J (snd (ensure_service_account t spec a))"
      using ensure_service_account_step [of t spec ca x] a keep [of x] unfolding ax by (elim disjE) simp_all
  qed simp
  then show "st_session_edges st' = st_session_edges st" "st_units st' = st_units st" "st_sessions st' = st_sessions st"
    "settled st \<Longrightarrow> settled st'" "root_unowned st \<Longrightarrow> root_unowned st'"
    using assms by (simp_all add: ensure_service_accounts_def)
qed

subsection \<open>Homes\<close>

lemma map_entry_id: "AList.map_entry k (\<lambda>v. v) d = d"
  by (induction d) auto

text \<open>The home of an account, as the defaults leave it.\<close>

definition home_open :: "state \<Rightarrow> string \<Rightarrow> bool" where
  "home_open st home \<longleftrightarrow>
     (\<exists>s. get_session st home = Some s \<and> s_unit_id s = home \<and> s_singleton s)
     \<and> (\<exists>x. map_of (st_units st) home = Some x \<and> un_instance_policy x = ''singleton'' \<and> un_singleton_session_id x = home)"

definition has_home :: "state \<Rightarrow> string \<Rightarrow> bool" where
  "has_home st n \<longleftrightarrow>
     (\<forall>u. map_of (st_users st) n = Some u \<longrightarrow> u_status u \<noteq> ''service'' \<longrightarrow>
        py_strip (u_home_session_id u) = account_home_session_id n \<and> home_open st (account_home_session_id n))"

lemma safe_char_printed: "\<not> py_isspace (safe_char c)"
proof -
  have "py_isalnum c \<Longrightarrow> \<not> py_isspace c" by (auto simp: py_isalnum_def py_isspace_def Let_def)
  moreover have "\<not> py_isspace (CHR ''-'')" "\<not> py_isspace (CHR ''_'')" by (simp_all add: py_isspace_def)
  ultimately show ?thesis by (auto simp: safe_char_def)
qed

lemma home_strip [simp]: "py_strip (account_home_session_id n) = account_home_session_id n"
proof -
  have u: "\<forall>c \<in> set ''account-user''. \<not> py_isspace c" by (simp add: py_isspace_def)
  have "\<not> py_isspace c" if "c \<in> set (safe_id_part x ''user'')" for c x
    using that u set_strip_by [of _ "map safe_char x"] safe_char_printed
    by (fastforce simp: safe_id_part_def Let_def split: if_splits)
  with u have "\<forall>c \<in> set (account_home_session_id n). \<not> py_isspace c"
    by (auto simp: account_home_session_id_def)
  then show ?thesis by (rule py_strip_none)
qed

lemma settled_homes:
  assumes "settled st" "map_of (st_users st) n = Some u"
  shows "rename_home_session (u\<lparr>u_username := n\<rparr>) (account_home_session_id n) st = Inr (c, st1) \<Longrightarrow>
      \<exists>f. st1 = st\<lparr>st_users := AList.map_entry n f (st_users st)\<rparr> \<and> py_strip (u_home_session_id (f u)) = account_home_session_id n
        \<and> u_home_unit_id (f u) = u_home_unit_id u \<and> u_status (f u) = u_status u"
    "rename_home_unit (u\<lparr>u_username := n\<rparr>) (account_home_session_id n) st = Inr (c, st1) \<Longrightarrow>
      \<exists>f. st1 = st\<lparr>st_users := AList.map_entry n f (st_users st)\<rparr> \<and> py_strip (u_home_unit_id (f u)) = account_home_session_id n
        \<and> u_home_session_id (f u) = u_home_session_id u \<and> u_status (f u) = u_status u"
proof -
  have home: "py_strip (u_home_session_id u) = [] \<or> py_strip (u_home_session_id u) = account_home_session_id n"
    "py_strip (u_home_unit_id u) = [] \<or> py_strip (u_home_unit_id u) = account_home_session_id n"
    using assms by (auto simp: settled_def)
  have same: "st = st\<lparr>st_users := AList.map_entry n (\<lambda>u. u) (st_users st)\<rparr>" by (simp add: map_entry_id)
  show "rename_home_session (u\<lparr>u_username := n\<rparr>) (account_home_session_id n) st = Inr (c, st1) \<Longrightarrow>
      \<exists>f. st1 = st\<lparr>st_users := AList.map_entry n f (st_users st)\<rparr> \<and> py_strip (u_home_session_id (f u)) = account_home_session_id n
        \<and> u_home_unit_id (f u) = u_home_unit_id u \<and> u_status (f u) = u_status u"
    using home(1) same
    by (cases "py_strip (u_home_session_id u) = account_home_session_id n")
      (auto simp: rename_home_session_def Let_def intro: exI [of _ "\<lambda>u. u"] exI [of _ "\<lambda>u. u\<lparr>u_home_session_id := account_home_session_id n\<rparr>"])
  show "rename_home_unit (u\<lparr>u_username := n\<rparr>) (account_home_session_id n) st = Inr (c, st1) \<Longrightarrow>
      \<exists>f. st1 = st\<lparr>st_users := AList.map_entry n f (st_users st)\<rparr> \<and> py_strip (u_home_unit_id (f u)) = account_home_session_id n
        \<and> u_home_session_id (f u) = u_home_session_id u \<and> u_status (f u) = u_status u"
    using home(2) same
    by (cases "py_strip (u_home_unit_id u) = account_home_session_id n")
      (auto simp: rename_home_unit_def Let_def intro: exI [of _ "\<lambda>u. u"] exI [of _ "\<lambda>u. u\<lparr>u_home_unit_id := account_home_session_id n\<rparr>"])
qed

lemma users_changed:
  assumes "map_of (st_users st) n = Some u" "u_status (f u) = u_status u"
    "py_strip (u_home_session_id (f u)) \<in> {[], account_home_session_id n}"
    "py_strip (u_home_unit_id (f u)) \<in> {[], account_home_session_id n}" "settled st"
    "x = st\<lparr>st_users := AList.map_entry n f (st_users st)\<rparr>"
  shows "settled x" "root_unowned st \<Longrightarrow> root_unowned x" "m \<noteq> n \<Longrightarrow> has_home st m \<Longrightarrow> has_home x m"
    "graph x = graph st" "get_session x = get_session st" "map_of (st_units x) = map_of (st_units st)"
    "map_of (st_users x) n = Some (f u)" "dom (map_of (st_users x)) = dom (map_of (st_users st))"
  using assms by (auto simp: settled_def root_unowned_def has_home_def home_open_def dom_def)

lemma ensure_home_unit_facts:
  assumes "ensure_home_unit n home t st = (c, x)" "home \<noteq> ROOT_UNIT_ID"
  shows "st_users x = st_users st" "st_sessions x = st_sessions st" "graph x = graph st"
    "root_unowned st \<Longrightarrow> root_unowned x"
    "\<exists>y. map_of (st_units x) = (map_of (st_units st))(home \<mapsto> y) \<and> un_instance_policy y = ''singleton''
       \<and> un_singleton_session_id y = home"
  using assms
  by (auto simp: ensure_home_unit_def home_unit_def root_unowned_def upd_unit_def new_unit_def fun_eq_iff split: option.splits)

lemma ensure_home_session_facts:
  assumes "ensure_home_session n home t st = (c, x)" "home \<noteq> ROOT_SESSION_ID"
  shows "st_users x = st_users st" "st_units x = st_units st" "graph x = graph st"
    "root_session_ok st \<Longrightarrow> root_session_ok x"
    "\<exists>y. get_session x = (get_session st)(home \<mapsto> y) \<and> s_unit_id y = home \<and> s_singleton y"
  using assms
  by (auto simp: ensure_home_session_def root_session_ok_def upd_session_def new_session_def fun_eq_iff split: option.splits)

text \<open>What a round of the loop over the accounts keeps and gives.\<close>

definition home_step :: "state \<Rightarrow> state \<Rightarrow> bool" where
  "home_step st st' \<longleftrightarrow>
     settled st' \<and> (root_unowned st \<longrightarrow> root_unowned st') \<and> (root_session_ok st \<longrightarrow> root_session_ok st')
     \<and> (rooted st \<longrightarrow> rooted st') \<and> (\<forall>m. has_home st m \<longrightarrow> has_home st' m)
     \<and> dom (map_of (st_users st')) = dom (map_of (st_users st))"

lemma link_keeps_entities:
  assumes "link_sessions_in_state p c st = Inr (e, st')"
  shows "st_users st' = st_users st" "st_units st' = st_units st" "st_sessions st' = st_sessions st"
  using assms by (cases rule: link_sessions_cases; simp add: utc_now_def)+

lemma rename_home_unit_cong:
  "u_username a = u_username b \<Longrightarrow> u_home_unit_id a = u_home_unit_id b \<Longrightarrow> rename_home_unit a = rename_home_unit b"
  by (rule ext)+ (simp only: rename_home_unit_def)

lemma ensure_user_home_parts:
  assumes "ensure_user_home t n (c, st) = Inr (c', st')" "map_of (st_users st) n = Some u" "u_status u \<noteq> ''service''"
  obtains c1 st1 c2 st2 c3 st3 c4 st4
  where "rename_home_session (u\<lparr>u_username := n\<rparr>) (account_home_session_id n) st = Inr (c1, st1)"
    "rename_home_unit (u\<lparr>u_username := n\<rparr>) (account_home_session_id n) st1 = Inr (c2, st2)"
    "ensure_home_unit n (account_home_session_id n) t st2 = (c3, st3)"
    "ensure_home_session n (account_home_session_id n) t st3 = (c4, st4)"
    "st' = st4 \<or> (\<exists>e. link_sessions_in_state ROOT_SESSION_ID (account_home_session_id n) st4 = Inr (e, st'))"
proof -
  let ?h = "account_home_session_id n"
  have "ensure_user_home t n (c, st) = bindR (rename_home_session (u\<lparr>u_username := n\<rparr>) ?h st) (\<lambda>(c1, st1).
          bindR (rename_home_unit (u\<lparr>u_username := n\<rparr>) ?h st1) (\<lambda>(c2, st2).
              let (c3, st3) = ensure_home_unit n ?h t st2; (c4, st4) = ensure_home_session n ?h t st3
              in if has_path (st_session_edges st4) ROOT_SESSION_ID ?h then Inr (c \<or> c1 \<or> c2 \<or> c3 \<or> c4, st4)
                 else bindR (link_sessions_in_state ROOT_SESSION_ID ?h st4) (\<lambda>(_, st5). Inr (True, st5))))"
    using assms(2,3) by (simp add: ensure_user_home_def Let_def)
  with assms(1) obtain c1 st1 c2 st2 where st1: "rename_home_session (u\<lparr>u_username := n\<rparr>) ?h st = Inr (c1, st1)"
    and st2: "rename_home_unit (u\<lparr>u_username := n\<rparr>) ?h st1 = Inr (c2, st2)"
    and rest: "(let (c3, st3) = ensure_home_unit n ?h t st2; (c4, st4) = ensure_home_session n ?h t st3
              in if has_path (st_session_edges st4) ROOT_SESSION_ID ?h then Inr (c \<or> c1 \<or> c2 \<or> c3 \<or> c4, st4)
                 else bindR (link_sessions_in_state ROOT_SESSION_ID ?h st4) (\<lambda>(_, st5). Inr (True, st5))) = Inr (c', st')"
    by (auto simp: bindR_Inr_iff simp del: bindR.simps)
  obtain c3 st3 where st3: "ensure_home_unit n ?h t st2 = (c3, st3)" by (cases "ensure_home_unit n ?h t st2")
  obtain c4 st4 where st4: "ensure_home_session n ?h t st3 = (c4, st4)" by (cases "ensure_home_session n ?h t st3")
  have st': "st' = st4 \<or> (\<exists>e. link_sessions_in_state ROOT_SESSION_ID ?h st4 = Inr (e, st'))"
    using rest by (auto simp: st3 st4 bindR_Inr_iff split: if_splits)
  from st1 st2 st3 st4 st' show ?thesis by (rule that)
qed

lemma ensure_user_home_step:
  assumes "ensure_user_home t n (c, st) = Inr (c', st')" "settled st"
  shows "home_step st st' \<and> has_home st' n"
proof (cases "map_of (st_users st) n")
  case None
  then show ?thesis using assms by (simp add: ensure_user_home_def home_step_def has_home_def)
next
  case (Some u)
  show ?thesis
  proof (cases "u_status u = ''service''")
    case True
    then show ?thesis using assms Some by (simp add: ensure_user_home_def home_step_def has_home_def)
  next
    case False
    let ?h = "account_home_session_id n"
    obtain c1 st1 c2 st2 c3 st3 c4 st4
      where st1: "rename_home_session (u\<lparr>u_username := n\<rparr>) ?h st = Inr (c1, st1)"
        and st2: "rename_home_unit (u\<lparr>u_username := n\<rparr>) ?h st1 = Inr (c2, st2)"
        and st3: "ensure_home_unit n ?h t st2 = (c3, st3)" and st4: "ensure_home_session n ?h t st3 = (c4, st4)"
        and st': "st' = st4 \<or> (\<exists>e. link_sessions_in_state ROOT_SESSION_ID ?h st4 = Inr (e, st'))"
      by (rule ensure_user_home_parts [OF assms(1) Some False])
    have u: "py_strip (u_home_session_id u) \<in> {[], ?h}" "py_strip (u_home_unit_id u) \<in> {[], ?h}"
      using assms(2) Some by (auto simp: settled_def)
    obtain f where f: "st1 = st\<lparr>st_users := AList.map_entry n f (st_users st)\<rparr>" "py_strip (u_home_session_id (f u)) = ?h"
      "u_home_unit_id (f u) = u_home_unit_id u" "u_status (f u) = u_status u"
      using settled_homes(1) [OF assms(2) Some st1] by blast
    have f1: "py_strip (u_home_session_id (f u)) \<in> {[], ?h}" "py_strip (u_home_unit_id (f u)) \<in> {[], ?h}"
      using f u by auto
    note one = users_changed [OF Some f(4) f1 assms(2) f(1)]
    have st2': "rename_home_unit ((f u)\<lparr>u_username := n\<rparr>) ?h st1 = Inr (c2, st2)"
      using st2 rename_home_unit_cong [of "(f u)\<lparr>u_username := n\<rparr>" "u\<lparr>u_username := n\<rparr>"] f(3) by simp
    obtain g where g: "st2 = st1\<lparr>st_users := AList.map_entry n g (st_users st1)\<rparr>" "py_strip (u_home_unit_id (g (f u))) = ?h"
      "u_home_session_id (g (f u)) = u_home_session_id (f u)" "u_status (g (f u)) = u_status (f u)"
      using settled_homes(2) [OF one(1) one(7) st2'] by blast
    have g1: "py_strip (u_home_session_id (g (f u))) \<in> {[], ?h}" "py_strip (u_home_unit_id (g (f u))) \<in> {[], ?h}"
      using g f by auto
    note two = users_changed [OF one(7) g(4) g1 one(1) g(1)]
    have root: "?h \<noteq> ROOT_UNIT_ID" "?h \<noteq> ROOT_SESSION_ID" by simp_all
    note three = ensure_home_unit_facts [OF st3 root(1)] and four = ensure_home_session_facts [OF st4 root(2)]
    have us: "st_users st4 = st_users st2" using three(1) four(1) by simp
    have keep: "settled st4"
      using two(1) unfolding settled_def us .
    have keep2: "root_unowned st4" if "root_unowned st"
      using three(4) [OF two(2) [OF one(2) [OF that]]] unfolding root_unowned_def four(1,2) .
    have keep3: "root_session_ok st4" if "root_session_ok st"
      using that by (intro four(4)) (simp add: root_session_ok_def three(2) two(5) one(5))
    have keep4: "graph st4 = graph st" "dom (map_of (st_users st4)) = dom (map_of (st_users st))"
      using one(4,8) two(4,8) three(3) four(3) us by simp_all
    have open4: "home_open st4 h" if "h = ?h \<or> home_open st h" for h
      using that one(5,6) two(5,6) three(2,5) four(2,5) by (auto simp: home_open_def)
    have users4: "map_of (st_users st4) m = (if m = n then Some (g (f u)) else map_of (st_users st) m)" for m
      using one(7) two(7) by (simp add: three(1) four(1) g(1) f(1) Some)
    have home4: "has_home st4 m" if "m = n \<or> has_home st m" for m
      using that open4 f(2) g(3) by (auto simp: has_home_def users4)
    show ?thesis using st'
    proof
      assume "st' = st4"
      then show ?thesis using keep keep2 keep3 keep4 home4 by (simp add: home_step_def rooted_def)
    next
      assume "\<exists>e. link_sessions_in_state ROOT_SESSION_ID ?h st4 = Inr (e, st')"
      then obtain e where e: "link_sessions_in_state ROOT_SESSION_ID ?h st4 = Inr (e, st')" by blast
      have "rooted st4 \<Longrightarrow> rooted st'" by (rule rooted_link [OF e _ root(2)])
      then have "rooted st \<Longrightarrow> rooted st'" using keep4(1) by (simp add: rooted_def)
      moreover note fr = link_keeps_entities [OF e]
      have "settled st' = settled st4" "root_unowned st' = root_unowned st4" "root_session_ok st' = root_session_ok st4"
        "\<And>m. has_home st' m = has_home st4 m" "dom (map_of (st_users st')) = dom (map_of (st_users st4))"
        by (simp_all only: settled_def root_unowned_def root_session_ok_def has_home_def home_open_def fr)
      ultimately show ?thesis using keep keep2 keep3 keep4(2) home4 unfolding home_step_def by blast
    qed
  qed
qed

lemma home_step_trans: "home_step a b \<Longrightarrow> home_step b c \<Longrightarrow> home_step a c"
  by (simp add: home_step_def)

lemma ensure_homes:
  assumes "foldR (ensure_user_home t) ns (c, st) = Inr (c', st')" "settled st"
  shows "home_step st st' \<and> (\<forall>n \<in> set ns. has_home st' n)"
  using assms
proof (induction ns arbitrary: c st)
  case Nil
  then show ?case by (simp add: home_step_def)
next
  case (Cons n ns)
  from Cons.prems(1) obtain c1 st1 where one: "ensure_user_home t n (c, st) = Inr (c1, st1)"
    "foldR (ensure_user_home t) ns (c1, st1) = Inr (c', st')" by (auto simp: bindR_Inr_iff)
  note step = ensure_user_home_step [OF one(1) Cons.prems(2)]
  then have "settled st1" by (simp add: home_step_def)
  from Cons.IH [OF one(2) this] step home_step_trans [of st st1 st'] show ?case by (auto simp: home_step_def)
qed

subsection \<open>Parents\<close>

definition same_entities :: "state \<Rightarrow> state \<Rightarrow> bool" where
  "same_entities st st' \<longleftrightarrow> st_users st' = st_users st \<and> st_units st' = st_units st \<and> st_sessions st' = st_sessions st"

lemma root_without_owner:
  assumes "root_unowned st" "root_session_ok st" "get_session st ROOT_SESSION_ID = Some s"
  shows "owner_home st s = None"
proof -
  have "py_strip ROOT_UNIT_ID = ROOT_UNIT_ID" by (rule py_strip_none) (simp add: py_isspace_def)
  then show ?thesis using assms by (auto simp: owner_home_def root_unowned_def root_session_ok_def split: option.splits)
qed

lemma ensure_owner_parent_step:
  assumes "ensure_owner_parent sid (c, st) = Inr (c', st')"
  shows "same_entities st st'" "root_unowned st \<Longrightarrow> root_session_ok st \<Longrightarrow> rooted st \<Longrightarrow> rooted st'"
proof -
  let ?cut = "\<lambda>x. x\<lparr>st_session_edges := filter (\<lambda>e. \<not> same_edge ROOT_SESSION_ID sid e) (st_session_edges x)\<rparr>"
  have "st' = st \<or> (\<exists>s owner home st1. get_session st sid = Some s \<and> owner_home st s = Some (owner, home)
      \<and> (st1 = st \<or> (\<exists>e. link_sessions_in_state home sid st = Inr (e, st1))) \<and> st' = ?cut st1)"
  proof (cases "get_session st sid")
    case None
    then show ?thesis using assms by (simp add: ensure_owner_parent_def)
  next
    case (Some s)
    note s = this
    show ?thesis
    proof (cases "owner_home st s")
      case None
      then show ?thesis using assms s by (simp add: ensure_owner_parent_def)
    next
      case (Some oh)
      obtain owner home where oh: "owner_home st s = Some (owner, home)" using Some by (cases oh) auto
      have "st' = st \<or> (\<exists>st1. (st1 = st \<or> (\<exists>e. link_sessions_in_state home sid st = Inr (e, st1))) \<and> st' = ?cut st1)"
        using assms s oh by (auto simp: ensure_owner_parent_def Let_def bindR_Inr_iff split: if_splits)
      then show ?thesis using s oh by blast
    qed
  qed
  then consider "st' = st" | s owner home st1 where "get_session st sid = Some s" "owner_home st s = Some (owner, home)"
      "st1 = st \<or> (\<exists>e. link_sessions_in_state home sid st = Inr (e, st1))" "st' = ?cut st1" by blast
  then have "same_entities st st' \<and> (root_unowned st \<longrightarrow> root_session_ok st \<longrightarrow> rooted st \<longrightarrow> rooted st')"
  proof cases
    case 1
    then show ?thesis by (simp add: same_entities_def)
  next
    case 2
    have "same_entities st st1" using 2(3) link_keeps_entities by (auto simp: same_entities_def)
    then have "same_entities st st'" by (simp add: same_entities_def 2(4))
    moreover have "rooted st'" if r: "root_unowned st" "root_session_ok st" "rooted st"
    proof -
      have "sid \<noteq> ROOT_SESSION_ID" using root_without_owner [OF r(1,2)] 2(1,2) by auto
      then have "rooted st1" using 2(3) r(3) rooted_link by blast
      moreover have "graph st' \<subseteq> graph st1" by (auto simp: 2(4) edge_rel_def)
      ultimately show ?thesis using rooted_subset by blast
    qed
    ultimately show ?thesis by blast
  qed
  then show "same_entities st st'" "root_unowned st \<Longrightarrow> root_session_ok st \<Longrightarrow> rooted st \<Longrightarrow> rooted st'" by auto
qed

lemma ensure_owner_parents:
  assumes "foldR ensure_owner_parent ids (c, st) = Inr (c', st')" "root_unowned st" "root_session_ok st" "rooted st"
  shows "same_entities st st' \<and> rooted st'"
  using assms
proof (induction ids arbitrary: c st)
  case Nil
  then show ?case by (simp add: same_entities_def)
next
  case (Cons i ids)
  from Cons.prems(1) obtain c1 st1 where one: "ensure_owner_parent i (c, st) = Inr (c1, st1)"
    "foldR ensure_owner_parent ids (c1, st1) = Inr (c', st')" by (auto simp: bindR_Inr_iff)
  note step = ensure_owner_parent_step [OF one(1)]
  have "root_unowned st1" "root_session_ok st1"
    using step(1) Cons.prems(2,3) by (simp_all add: same_entities_def root_unowned_def root_session_ok_def)
  from Cons.IH [OF one(2) this step(2) [OF Cons.prems(2-4)]] step(1) show ?case by (simp add: same_entities_def)
qed

lemma ensure_root_parent_step:
  assumes "ensure_root_parent t sid (c, st) = (c', st')"
  shows "same_entities st st'" "graph st \<subseteq> graph st'" "(ROOT_SESSION_ID, sid) \<in> (graph st')\<^sup>*" "rooted st \<Longrightarrow> rooted st'"
proof -
  consider "st' = st" "(ROOT_SESSION_ID, sid) \<in> (graph st)\<^sup>*"
    | "sid \<noteq> ROOT_SESSION_ID" "st' = st\<lparr>st_session_edges := st_session_edges st
         @ [\<lparr>e_parent = ROOT_SESSION_ID, e_child = sid, e_created_at = t\<rparr>]\<rparr>"
    using assms by (auto simp: ensure_root_parent_def has_path_iff split: if_splits)
  then have "same_entities st st' \<and> graph st \<subseteq> graph st' \<and> (ROOT_SESSION_ID, sid) \<in> (graph st')\<^sup>* \<and> (rooted st \<longrightarrow> rooted st')"
  proof cases
    case 2
    have g: "graph st' = insert (ROOT_SESSION_ID, sid) (graph st)" by (simp add: 2(2))
    have "(sid, ROOT_SESSION_ID) \<notin> (graph st)\<^sup>*" if "rooted st"
    proof
      assume "(sid, ROOT_SESSION_ID) \<in> (graph st)\<^sup>*"
      then show False using that 2(1) by (cases rule: rtranclE) (auto simp: rooted_def)
    qed
    then show ?thesis using 2(1) by (auto simp: g rooted_def same_entities_def 2(2) acyclic_insert)
  qed (simp add: same_entities_def)
  then show "same_entities st st'" "graph st \<subseteq> graph st'" "(ROOT_SESSION_ID, sid) \<in> (graph st')\<^sup>*" "rooted st \<Longrightarrow> rooted st'"
    by auto
qed

lemma ensure_root_parents:
  assumes "fold (ensure_root_parent t) ids (c, st) = (c', st')"
  shows "same_entities st st' \<and> graph st \<subseteq> graph st' \<and> (\<forall>sid \<in> set ids. (ROOT_SESSION_ID, sid) \<in> (graph st')\<^sup>*)
    \<and> (rooted st \<longrightarrow> rooted st')"
  using assms
proof (induction ids arbitrary: c st)
  case Nil
  then show ?case by (simp add: same_entities_def)
next
  case (Cons i ids)
  obtain c1 st1 where one: "ensure_root_parent t i (c, st) = (c1, st1)" by (cases "ensure_root_parent t i (c, st)")
  then have "fold (ensure_root_parent t) ids (c1, st1) = (c', st')" using Cons.prems by simp
  note rest = Cons.IH [OF this] and step = ensure_root_parent_step [OF one]
  have "(ROOT_SESSION_ID, i) \<in> (graph st')\<^sup>*" using step(3) rest rtrancl_mono by blast
  then show ?case using step rest by (auto simp: same_entities_def)
qed

subsection \<open>The whole\<close>

text \<open>The last steps change neither the accounts and the graph nor what makes a session a home.\<close>

definition keeps_homes :: "state \<Rightarrow> state \<Rightarrow> bool" where
  "keeps_homes st st' \<longleftrightarrow>
     st_users st' = st_users st \<and> st_units st' = st_units st \<and> graph st' = graph st
     \<and> dict_keys (st_sessions st') = dict_keys (st_sessions st) \<and> (\<forall>h. home_open st h \<longrightarrow> home_open st' h)"

lemma keeps_homes_trans: "keeps_homes a b \<Longrightarrow> keeps_homes b c \<Longrightarrow> keeps_homes a c"
  by (simp add: keeps_homes_def)

lemma keeps_homes_refl [simp]: "keeps_homes st st"
  by (simp add: keeps_homes_def)

lemma keeps_homes_fold:
  assumes "\<And>x c st. keeps_homes st (snd (f x (c, st)))"
  shows "keeps_homes st (snd (fold f xs (c, st)))"
proof (induction xs arbitrary: c st)
  case (Cons x xs)
  show ?case using keeps_homes_trans [OF assms Cons.IH [of "snd (f x (c, st))" "fst (f x (c, st))"]] by simp
qed simp

lemma keeps_homes_upd_session:
  "(\<And>s. s_unit_id (f s) = s_unit_id s \<and> s_singleton (f s) = s_singleton s) \<Longrightarrow> keeps_homes st (upd_session sid f st)"
  by (auto simp: keeps_homes_def upd_session_def home_open_def)

lemma ensure_profile_keeps: "keeps_homes st (snd (ensure_profile t r (c, st)))"
  by (auto simp: keeps_homes_def ensure_profile_def home_open_def split: option.splits)

lemma ensure_session_policy_keeps: "keeps_homes st (snd (ensure_session_policy sid (c, st)))"
  by (auto simp: ensure_session_policy_def split: option.splits intro: keeps_homes_upd_session)

lemma ensure_session_log_default_keeps: "keeps_homes st (snd (ensure_session_log_default sid (c, st)))"
  by (auto simp: ensure_session_log_default_def sync_session_current_state_def Let_def split: option.splits prod.splits
      intro: keeps_homes_upd_session)

lemma has_home_keeps: "keeps_homes st st' \<Longrightarrow> has_home st n \<Longrightarrow> has_home st' n"
  by (simp add: keeps_homes_def has_home_def)

lemma defaults_facts:
  assumes "ensure_defaults hash salt t st = Inr (c, st')" "settled st" "root_unowned st" "rooted st"
  shows "rooted st'" "\<forall>sid \<in> set (dict_keys (st_sessions st')). (ROOT_SESSION_ID, sid) \<in> (graph st')\<^sup>*"
    "\<forall>n \<in> set (dict_keys (st_users st')). has_home st' n"
    "\<exists>c2 st2 c3 st3 c6 st6. foldR ensure_unit_fields (dict_keys (st_units (snd (ensure_root_unit t st)))) (ensure_root_unit t st)
        = Inr (c2, st2) \<and> ensure_root_session t st2 = Inr (c3, st3)
      \<and> ensure_user_home_sessions t (snd (ensure_service_accounts t (snd (ensure_root_user hash salt t st3)))) = Inr (c6, st6)
      \<and> st_users st' = st_users st6"
proof -
  obtain c1 st1 where st1: "ensure_root_unit t st = (c1, st1)" by (cases "ensure_root_unit t st")
  from assms(1) obtain c2 st2 where st2: "foldR ensure_unit_fields (dict_keys (st_units st1)) (c1, st1) = Inr (c2, st2)"
    by (auto simp: ensure_defaults_def st1 bindR_Inr_iff)
  from assms(1) st2 obtain c3 st3 where st3: "ensure_root_session t st2 = Inr (c3, st3)"
    by (auto simp: ensure_defaults_def st1 bindR_Inr_iff)
  obtain c4 st4 where st4: "ensure_root_user hash salt t st3 = (c4, st4)" by (cases "ensure_root_user hash salt t st3")
  obtain c5 st5 where st5: "ensure_service_accounts t st4 = (c5, st5)" by (cases "ensure_service_accounts t st4")
  from assms(1) st2 st3 obtain c6 st6 where st6: "ensure_user_home_sessions t st5 = Inr (c6, st6)"
    by (auto simp: ensure_defaults_def st1 st4 st5 bindR_Inr_iff)
  from assms(1) st2 st3 st6 obtain c7 st7 where st7: "ensure_unit_session_owner_parents st6 = Inr (c7, st7)"
    by (auto simp: ensure_defaults_def st1 st4 st5 bindR_Inr_iff)
  obtain c8 st8 where st8: "fold (ensure_root_parent t) (dict_keys (st_sessions st7)) (False, st7) = (c8, st8)"
    by (cases "fold (ensure_root_parent t) (dict_keys (st_sessions st7)) (False, st7)")
  obtain c9 st9 where st9: "fold (ensure_profile t) [GoalManager, WorkerAgent] (False, st8) = (c9, st9)"
    by (cases "fold (ensure_profile t) [GoalManager, WorkerAgent] (False, st8)")
  obtain c10 st10 where st10: "fold ensure_session_policy (dict_keys (st_sessions st9)) (False, st9) = (c10, st10)"
    by (cases "fold ensure_session_policy (dict_keys (st_sessions st9)) (False, st9)")
  obtain c11 where st11: "fold ensure_session_log_default (dict_keys (st_sessions st10)) (False, st10) = (c11, st')"
    using assms(1) st2 st3 st6 st7
    by (auto simp: ensure_defaults_def st1 st4 st5 st8 st9 [simplified] st10 bindR_Inr_iff split: prod.splits)
  note one = ensure_root_unit_facts [OF st1] and two = ensure_unit_fields_facts [OF st2]
    and three = ensure_root_session_facts [OF st3] and four = ensure_root_user_facts [OF st4]
    and five = ensure_service_accounts_facts [OF st5]
  have g5: "graph st5 = graph st" using one(1) two(1) three(1) four(1) five(1) by simp
  have "settled st3" using assms(2) one(2) two(2) three(2) by (simp add: settled_def)
  then have s5: "settled st5" by (intro five(4) four(4))
  have "root_unowned st2" using assms(3) by (intro two(4) one(4))
  then have "root_unowned st3" using three(2,3) by (simp add: root_unowned_def)
  then have u5: "root_unowned st5" by (intro five(5) four(5))
  have r5: "root_session_ok st5" using three(4) four(3) five(3) by (simp add: root_session_ok_def)
  have "rooted st5" using assms(4) g5 by (simp add: rooted_def)
  note homes = ensure_homes [OF st6 [unfolded ensure_user_home_sessions_def] s5]
  then have six: "root_unowned st6" "root_session_ok st6" "rooted st6"
    using u5 r5 \<open>rooted st5\<close> by (auto simp: home_step_def)
  have home6: "has_home st6 n" if "n \<in> set (dict_keys (st_users st6))" for n
    using homes that by (auto simp: home_step_def dom_map_of_conv_image_fst)
  note seven = ensure_owner_parents [OF st7 [unfolded ensure_unit_session_owner_parents_def] six]
  note eight = ensure_root_parents [OF st8]
  have entities: "same_entities st6 st8" using seven eight by (simp add: same_entities_def)
  have later: "keeps_homes st8 st'"
    using keeps_homes_fold [of "ensure_profile t", OF ensure_profile_keeps, of st8 "[GoalManager, WorkerAgent]" False]
      keeps_homes_fold [of ensure_session_policy, OF ensure_session_policy_keeps, of st9 "dict_keys (st_sessions st9)" False]
      keeps_homes_fold [of ensure_session_log_default, OF ensure_session_log_default_keeps, of st10 "dict_keys (st_sessions st10)" False]
    unfolding st9 st10 st11 snd_conv using keeps_homes_trans by blast
  show "rooted st'" using seven eight later by (simp add: rooted_def keeps_homes_def)
  show "\<forall>sid \<in> set (dict_keys (st_sessions st')). (ROOT_SESSION_ID, sid) \<in> (graph st')\<^sup>*"
    using eight later unfolding same_entities_def keeps_homes_def by (metis (no_types, lifting))
  show "\<forall>n \<in> set (dict_keys (st_users st')). has_home st' n"
  proof
    fix n assume "n \<in> set (dict_keys (st_users st'))"
    then have "n \<in> set (dict_keys (st_users st6))" using entities later by (simp add: same_entities_def keeps_homes_def)
    from home6 [OF this] have "has_home st8 n" using entities by (simp add: has_home_def home_open_def same_entities_def)
    then show "has_home st' n" by (rule has_home_keeps [OF later])
  qed
  have "st_users st' = st_users st6" using entities later by (simp add: same_entities_def keeps_homes_def)
  then show "\<exists>c2 st2 c3 st3 c6 st6. foldR ensure_unit_fields (dict_keys (st_units (snd (ensure_root_unit t st)))) (ensure_root_unit t st)
        = Inr (c2, st2) \<and> ensure_root_session t st2 = Inr (c3, st3)
      \<and> ensure_user_home_sessions t (snd (ensure_service_accounts t (snd (ensure_root_user hash salt t st3)))) = Inr (c6, st6)
      \<and> st_users st' = st_users st6"
    using st2 st3 st6 by (simp add: st1 st4 st5)
qed

text \<open>The steps of \<open>ensure\_defaults\<close> that can raise are four; when they return, so does the whole.\<close>

lemma ensure_defaults_returns:
  assumes "foldR ensure_unit_fields (dict_keys (st_units (snd (ensure_root_unit t st)))) (ensure_root_unit t st) = Inr (c2, st2)"
    "ensure_root_session t st2 = Inr (c3, st3)"
    "ensure_user_home_sessions t (snd (ensure_service_accounts t (snd (ensure_root_user hash salt t st3)))) = Inr (c6, st6)"
    "ensure_unit_session_owner_parents st6 = Inr (c7, st7)"
  shows "\<exists>c st'. ensure_defaults hash salt t st = Inr (c, st')"
  using assms by (simp add: ensure_defaults_def split_def Let_def)

text \<open>C32: Whenever \<open>ensure\_defaults\<close> returns, every session of the store can be reached from the root session by parent
  links, the graph is acyclic and nothing is above the root. It may start from any acyclic graph with nothing
  above the root, in which accounts have no home under a foreign name and none owns the root Unit.
\<close>

theorem defaults_connect_sessions:
  assumes "ensure_defaults hash salt timestamp st = Inr (c, st')" "settled st" "root_unowned st" "rooted st"
  shows "rooted st' \<and> (\<forall>sid s. get_session st' sid = Some s \<longrightarrow> (ROOT_SESSION_ID, sid) \<in> (graph st')\<^sup>*)"
proof -
  have "sid \<in> set (dict_keys (st_sessions st'))" if "get_session st' sid = Some s" for sid s
    using that by (auto intro: rev_image_eqI dest: map_of_SomeD)
  then show ?thesis using defaults_facts(1,2) [OF assms] by blast
qed

text \<open>C33: Whenever \<open>ensure\_defaults\<close> returns on such a store, every account that is not a service account has its home:
  a singleton session of the account's own name, in the singleton Unit of the same name that refers back to it,
  below the root session.
\<close>

theorem defaults_give_homes:
  assumes "ensure_defaults hash salt timestamp st = Inr (c, st')" "settled st" "root_unowned st" "rooted st"
    "map_of (st_users st') username = Some u" "u_status u \<noteq> ''service''"
  shows "\<exists>s x. get_session st' (account_home_session_id username) = Some s
      \<and> s_unit_id s = account_home_unit_id username \<and> s_singleton s
      \<and> map_of (st_units st') (account_home_unit_id username) = Some x
      \<and> un_instance_policy x = ''singleton'' \<and> un_singleton_session_id x = account_home_session_id username
      \<and> py_strip (u_home_session_id u) = account_home_session_id username
      \<and> (ROOT_SESSION_ID, account_home_session_id username) \<in> (graph st')\<^sup>*"
proof -
  have "username \<in> set (dict_keys (st_users st'))"
    using assms(5) by (auto intro: rev_image_eqI dest: map_of_SomeD)
  with defaults_facts(3) [OF assms(1-4)] have home: "has_home st' username" by blast
  then obtain s x where "get_session st' (account_home_session_id username) = Some s"
      "s_unit_id s = account_home_session_id username" "s_singleton s"
      "map_of (st_units st') (account_home_session_id username) = Some x"
      "un_instance_policy x = ''singleton''" "un_singleton_session_id x = account_home_session_id username"
      "py_strip (u_home_session_id u) = account_home_session_id username"
    using assms(5,6) unfolding has_home_def home_open_def by blast
  moreover from this(1) have "account_home_session_id username \<in> set (dict_keys (st_sessions st'))"
    by (auto intro: rev_image_eqI dest: map_of_SomeD)
  ultimately show ?thesis using defaults_facts(2) [OF assms(1-4)] by (simp only: home_names(2)) blast
qed

end
