(* ===== verification/Store_Defaults_Example.thy ===== *)
theory Store_Defaults_Example
  imports Store_Defaults_Rules
begin

section \<open>The defaults of a small store\<close>

text \<open>One account, one Unit of its own, and a session of that Unit that is linked to nothing.\<close>

definition loose_store :: state where
  "loose_store = (blank_state (\<lambda>_. 86400000000) (\<lambda>i. i))\<lparr>
     st_users := [(''ann'', new_user ''ann'' ''h'' ''s'' [''user''] ''t'' ''active'' [])],
     st_units := [(''u1'', (new_unit ''u1'' ''t'' ''multi'')\<lparr>un_owner_account := ''ann''\<rparr>)],
     st_sessions := [(''s1'', new_session ''s1'' ''u1'' ''t'' ''work'' False)]\<rparr>"

lemma loose_store_ok: "settled loose_store" "root_unowned loose_store" "rooted loose_store"
proof -
  have g: "graph loose_store = {}" by (simp add: loose_store_def blank_state_def edge_rel_def)
  show "settled loose_store"
    by (auto simp: loose_store_def settled_def blank_state_def new_user_def py_strip_def strip_by_def)
  show "root_unowned loose_store" by (auto simp: loose_store_def root_unowned_def blank_state_def)
  show "rooted loose_store" unfolding rooted_def g by (simp add: acyclic_def)
qed

text \<open>The steps that may raise do not.\<close>

definition before_homes :: state where
  "before_homes =
     (case bindR (foldR ensure_unit_fields (dict_keys (st_units (snd (ensure_root_unit ''t'' loose_store))))
                   (ensure_root_unit ''t'' loose_store)) (\<lambda>(_, st2). ensure_root_session ''t'' st2) of
        Inl _ \<Rightarrow> loose_store
      | Inr (_, st3) \<Rightarrow> snd (ensure_service_accounts ''t'' (snd (ensure_root_user (\<lambda>p s. s @ p) ''salt'' ''t'' st3))))"

lemma loose_runs:
  "\<not> isl (bindR (foldR ensure_unit_fields (dict_keys (st_units (snd (ensure_root_unit ''t'' loose_store))))
                   (ensure_root_unit ''t'' loose_store)) (\<lambda>(_, st2). ensure_root_session ''t'' st2))"
  "\<not> isl (bindR (ensure_user_home_sessions ''t'' before_homes) (\<lambda>(_, st6). ensure_unit_session_owner_parents st6))"
  "map_option u_status (map_of (st_users (snd (projr (ensure_user_home_sessions ''t'' before_homes)))) ''ann'') = Some ''active''"
  by code_simp+

lemma loose_steps:
  obtains c2 st2 c3 st3 c6 st6 c7 st7
  where "foldR ensure_unit_fields (dict_keys (st_units (snd (ensure_root_unit ''t'' loose_store))))
      (ensure_root_unit ''t'' loose_store) = Inr (c2, st2)"
    "ensure_root_session ''t'' st2 = Inr (c3, st3)"
    "before_homes = snd (ensure_service_accounts ''t'' (snd (ensure_root_user (\<lambda>p s. s @ p) ''salt'' ''t'' st3)))"
    "ensure_user_home_sessions ''t'' before_homes = Inr (c6, st6)"
    "ensure_unit_session_owner_parents st6 = Inr (c7, st7)"
proof -
  have right: "\<exists>y. x = Inr y" if "\<not> isl x" for x :: "'a res" using that by (cases x) simp_all
  from right [OF loose_runs(1)] obtain c2 st2 c3 st3
    where two: "foldR ensure_unit_fields (dict_keys (st_units (snd (ensure_root_unit ''t'' loose_store))))
      (ensure_root_unit ''t'' loose_store) = Inr (c2, st2)" "ensure_root_session ''t'' st2 = Inr (c3, st3)"
    by (auto simp: bindR_Inr_iff)
  then have "before_homes = snd (ensure_service_accounts ''t'' (snd (ensure_root_user (\<lambda>p s. s @ p) ''salt'' ''t'' st3)))"
    by (simp add: before_homes_def)
  moreover from right [OF loose_runs(2)] obtain c6 st6 c7 st7 where "ensure_user_home_sessions ''t'' before_homes = Inr (c6, st6)"
      "ensure_unit_session_owner_parents st6 = Inr (c7, st7)"
    by (auto simp: bindR_Inr_iff)
  ultimately show ?thesis using two by (intro that)
qed

lemma loose_defaults: "\<exists>c st'. ensure_defaults (\<lambda>p s. s @ p) ''salt'' ''t'' loose_store = Inr (c, st')"
  by (rule loose_steps) (metis ensure_defaults_returns)

lemma loose_account:
  assumes "ensure_defaults (\<lambda>p s. s @ p) ''salt'' ''t'' loose_store = Inr (c, st')"
  shows "\<exists>u. map_of (st_users st') ''ann'' = Some u \<and> u_status u = ''active''"
proof -
  from defaults_facts(4) [OF assms loose_store_ok] obtain c2 st2 c3 st3 c6 st6
    where s: "foldR ensure_unit_fields (dict_keys (st_units (snd (ensure_root_unit ''t'' loose_store))))
      (ensure_root_unit ''t'' loose_store) = Inr (c2, st2)" "ensure_root_session ''t'' st2 = Inr (c3, st3)"
      "ensure_user_home_sessions ''t'' (snd (ensure_service_accounts ''t'' (snd (ensure_root_user (\<lambda>p s. s @ p) ''salt'' ''t'' st3))))
        = Inr (c6, st6)" "st_users st' = st_users st6" by blast
  then have "before_homes = snd (ensure_service_accounts ''t'' (snd (ensure_root_user (\<lambda>p s. s @ p) ''salt'' ''t'' st3)))"
    by (simp add: before_homes_def)
  then have "ensure_user_home_sessions ''t'' before_homes = Inr (c6, st6)" using s(3) by simp
  then show ?thesis using loose_runs(3) s(4) by auto
qed

theorem defaults_connect_sessions_witness:
  "\<exists>c st'. ensure_defaults (\<lambda>p s. s @ p) ''salt'' ''t'' loose_store = Inr (c, st')
     \<and> rooted st' \<and> (\<forall>sid s. get_session st' sid = Some s \<longrightarrow> (ROOT_SESSION_ID, sid) \<in> (graph st')\<^sup>*)"
  using loose_defaults defaults_connect_sessions [OF _ loose_store_ok] by blast

theorem defaults_give_homes_witness:
  "\<exists>c st' s. ensure_defaults (\<lambda>p s. s @ p) ''salt'' ''t'' loose_store = Inr (c, st')
     \<and> get_session st' ''account-ann'' = Some s \<and> s_singleton s \<and> (ROOT_SESSION_ID, ''account-ann'') \<in> (graph st')\<^sup>*"
proof -
  obtain c st' where d: "ensure_defaults (\<lambda>p s. s @ p) ''salt'' ''t'' loose_store = Inr (c, st')"
    using loose_defaults by blast
  from loose_account [OF this] obtain u where u: "map_of (st_users st') ''ann'' = Some u" "u_status u = ''active''" by blast
  have "account_home_session_id ''ann'' = ''account-ann''" by code_simp
  then show ?thesis using defaults_give_homes [OF d loose_store_ok u(1)] u(2) d by auto
qed

end
