(* ===== verification/Log_Recovery.thy ===== *)
theory Log_Recovery
  imports Readiness Store_Defaults
begin

section \<open>Recovery from the session logs\<close>

text \<open>
  The part of goal/log.py that runs when the program starts: \<open>\_reconcile\_state\_from\_session\_logs\<close> replays every
  log over the state, \<open>record\_runtime\_recovery\_signals\<close> takes back the leases of agents that died with the last
  process and wakes the goals they worked on. \<open>init\<close> of goal/store.py composes them for a store that exists.
\<close>

subsection \<open>Replaying a log\<close>

text \<open>
  One entry. The session and its goal are those found before the replay, so they are named by their keys. A
  message that is no user input ends the round before the time stamp of the session is moved.
\<close>

definition replay_goal_state :: "transition \<Rightarrow> string \<Rightarrow> goal \<Rightarrow> goal" where
  "replay_goal_state t created_at g =
     g\<lparr>g_completion_state := t_completion_state t, g_completion_reason := t_reason t,
       g_completion_reason_updated_at := created_at,
       g_completed_at := (if t_completion_state t = Complete then Some created_at else None),
       g_last_incomplete_at := (if t_completion_state t = Complete then None else Some created_at)\<rparr>"

definition replay_user_input :: "message \<Rightarrow> string \<Rightarrow> goal \<Rightarrow> goal" where
  "replay_user_input m created_at g =
     g\<lparr>g_completion_state := Incomplete,
       g_completion_reason := ''UserInput message '' @ m_message_id m @ '' requires Session processing.'',
       g_completion_reason_updated_at := created_at, g_last_incomplete_at := Some created_at, g_completed_at := None\<rparr>"

definition touch_session :: "string \<Rightarrow> string \<Rightarrow> state changed \<Rightarrow> state changed" where
  "touch_session session_id created_at acc =
     (let (changed, st) = acc in
      case get_session st session_id of
        None \<Rightarrow> acc
      | Some s \<Rightarrow>
          if created_at \<noteq> [] \<and> s_updated_at s < created_at
          then (True, upd_session session_id (\<lambda>s. s\<lparr>s_updated_at := created_at\<rparr>) st) else acc)"

definition replay_entry :: "string \<Rightarrow> string option \<Rightarrow> log_entry \<Rightarrow> state changed \<Rightarrow> state changed" where
  "replay_entry session_id goal_id e acc =
     (let (changed, st) = acc; created_at = le_created_at e;
          goal = (case goal_id of None \<Rightarrow> None | Some gid \<Rightarrow> get_goal st gid) in
      case (le_item e, goal) of
        (LSessionActiveChanged _ active _ _, _) \<Rightarrow>
          touch_session session_id created_at
            (changed \<or> map_option s_active (get_session st session_id) \<noteq> Some active,
             upd_session session_id (\<lambda>s. s\<lparr>s_active := active\<rparr>) st)
      | (LGoalStateChanged t, Some g) \<Rightarrow>
          if t_completion_state t = Waiting then acc
          else touch_session session_id created_at
            (changed \<or> g_completion_state g \<noteq> t_completion_state t \<or> g_completion_reason g \<noteq> t_reason t,
             upd_goal (the goal_id) (replay_goal_state t created_at) st)
      | (LMessage _, Some g) \<Rightarrow>
          (case message_for_log_entry e of
             None \<Rightarrow> acc
           | Some m \<Rightarrow>
               if \<not> pl_user_input (m_payload m) then acc
               else touch_session session_id created_at
                 (if g_completion_state g = Complete
                  then (True, upd_goal (the goal_id) (replay_user_input m created_at) st) else acc))
      | _ \<Rightarrow> touch_session session_id created_at acc)"

definition reconcile_session_from_log :: "string \<Rightarrow> state changed \<Rightarrow> state changed" where
  "reconcile_session_from_log session_id acc =
     (let (changed, st) = acc in
      case get_session st session_id of
        None \<Rightarrow> acc
      | Some s \<Rightarrow>
          let (entries, st1) = session_log_entries session_id st;
              latest = last_seq entries;
              past = (\<lambda>r. s_role_cursors s r > latest);
              st2 = upd_session session_id (\<lambda>s. s\<lparr>s_role_cursors := (\<lambda>r. min (s_role_cursors s r) latest)\<rparr>) st1;
              goal_id = map_option g_goal_id (current_goal_for_session st2 session_id);
              (c3, st3) = fold (replay_entry session_id goal_id) entries
                            (changed \<or> past GoalManager \<or> past WorkerAgent, st2);
              (c4, st4) = sync_session_current_state session_id st3
          in (c3 \<or> c4, st4))"

definition reconcile_state_from_session_logs :: "state \<Rightarrow> state changed" where
  "reconcile_state_from_session_logs st =
     fold reconcile_session_from_log (all_session_log_ids st) (False, st)"

subsection \<open>Starting on an existing store\<close>

text \<open>
  \<open>init\<close> once the files are in the current layout and the logs recovered; the loaded state is the argument. Whether
  anything changed decides whether the state is saved; \<open>load\<close> has run \<open>ensure\_defaults\<close> already.
\<close>

definition init_existing :: "(string \<Rightarrow> string \<Rightarrow> string) \<Rightarrow> string \<Rightarrow> state \<Rightarrow> state res" where
  "init_existing hash salt st =
     (let (now, st0) = utc_now st in
      bindR (ensure_defaults hash salt now st0) (\<lambda>(c1, st1).
      let (c2, st2) = reconcile_state_from_session_logs st1 in
      bindR (refresh_dispatch_readiness st2) (\<lambda>(c3, st3).
      bindR (if c1 \<or> c2 \<or> c3 then save st3 else Inr st3) (\<lambda>st4. Inr (clear_session_log_cache st4)))))"

subsection \<open>Recovering the work of agents that died\<close>

definition active_session :: "state \<Rightarrow> string \<Rightarrow> bool" where
  "active_session st session_id = (case get_session st session_id of None \<Rightarrow> False | Some s \<Rightarrow> s_active s)"

definition recoverable_goals :: "state \<Rightarrow> goal dict" where
  "recoverable_goals st =
     fold (\<lambda>g. AList.update (g_goal_id g) g)
       (filter (\<lambda>g. g_completion_state g = Incomplete \<and> g_archived_at g = [] \<and> active_session st (g_session_id g))
         (current_goals st)) []"

definition drop_undispatchable :: "string \<Rightarrow> string list \<Rightarrow> state \<Rightarrow> state" where
  "drop_undispatchable now goal_ids st =
     upd_readiness (\<lambda>e. rd_status e = Acquired \<and> rd_goal_id e \<notin> set goal_ids)
       (stale_entry now ''runtime recovered stale acquired readiness for non-dispatchable goal'')
       (st\<lparr>st_dispatch_runs := map (\<lambda>(k, r).
            (k, if r_lease_state r = LeaseAcquired \<and> r_goal_id r \<notin> set goal_ids
                then interrupt_run now ''runtime recovered stale acquired run for non-dispatchable goal'' r else r))
          (st_dispatch_runs st)\<rparr>)"

definition interrupted_runs :: "string \<Rightarrow> state \<Rightarrow> run list" where
  "interrupted_runs session_id st =
     filter (\<lambda>r. r_session_id r = session_id \<and> r_lease_state r = LeaseAcquired) (dict_values (st_dispatch_runs st))"

definition add_new :: "'a \<Rightarrow> 'a list \<Rightarrow> 'a list" where
  "add_new x xs = (if x \<in> set xs then xs else xs @ [x])"

definition recover_entry :: "string \<Rightarrow> string list \<Rightarrow> readiness \<Rightarrow> readiness" where
  "recover_entry now readiness_ids e =
     (if rd_readiness_id e \<in> set readiness_ids
      then e\<lparr>rd_status := Ready, rd_recovered_at := now, rd_acquired_at := None\<rparr>
      else stale_entry now ''runtime recovered acquired readiness without a matching acquired run'' e)"

definition recover_goal :: "string \<Rightarrow> string \<Rightarrow> goal \<Rightarrow> log_entry list \<times> state \<Rightarrow> log_entry list \<times> state" where
  "recover_goal context_text now g acc =
     (let (signals, st) = acc; session_id = g_session_id g in
      if g_completion_state g \<noteq> Incomplete \<or> g_archived_at g \<noteq> [] \<or> \<not> active_session st session_id then acc
      else
        let runs = interrupted_runs session_id st;
            interrupted_roles = fold add_new (map r_role runs) [];
            readiness_ids = filter (\<lambda>i. i \<noteq> []) (map r_readiness_id runs);
            st1 = st\<lparr>st_dispatch_runs := map (\<lambda>(k, r).
                    (k, if r_session_id r = session_id \<and> r_lease_state r = LeaseAcquired
                        then r\<lparr>r_lease_state := LeaseInterrupted, r_interrupted_at := now, r_current_phase := None\<rparr>
                        else r)) (st_dispatch_runs st)\<rparr>;
            st2 = upd_readiness (\<lambda>e. rd_session_id e = session_id \<and> rd_status e = Acquired)
                    (recover_entry now readiness_ids) st1;
            target_roles = fold add_new interrupted_roles [GoalManager];
            (signal, st3) = log_system_signal session_id ''RuntimeRecovered''
              (if context_text \<noteq> [] then context_text
               else ''AIze runtime started or restarted. ''
                    @ ''Continue the active incomplete SessionGoal from persisted SessionLog state.'')
              target_roles ''runtime'' []
              [(''goal_id'', JStr (g_goal_id g)), (''interrupted_roles'', JStrs (map role_name interrupted_roles))]
              now st2
        in (signals @ [signal], st3))"

definition record_runtime_recovery_signals :: "string \<Rightarrow> state \<Rightarrow> (log_entry list \<times> state) res" where
  "record_runtime_recovery_signals context_text st =
     (let (now, st1) = utc_now st;
          goals = recoverable_goals st1;
          st2 = drop_undispatchable now (dict_keys goals) st1;
          (signals, st3) = fold (recover_goal context_text now) (dict_values goals) ([], st2)
      in bindR (save st3) (\<lambda>st4. Inr (signals, st4)))"

end
