(* ===== verification/Log_Recovery_Rules.thy ===== *)
theory Log_Recovery_Rules
  imports Log_Recovery Liveness_Pass
begin

section \<open>What recovery from the logs restores\<close>

text \<open>
  The replay is compared with a reference that reads a log once, for the last entry that decides a value. After the
  recovery at a start nothing is leased, and every goal at work has a durable signal its GoalManager will read.
\<close>

subsection \<open>The reference: the last entry that decides\<close>

definition entry_active :: "log_entry \<Rightarrow> bool option" where
  "entry_active e = (case le_item e of LSessionActiveChanged _ a _ _ \<Rightarrow> Some a | _ \<Rightarrow> None)"

definition entry_completion :: "log_entry \<Rightarrow> completion_state option" where
  "entry_completion e =
     (case le_item e of
        LGoalStateChanged t \<Rightarrow> if t_completion_state t = Waiting then None else Some (t_completion_state t)
      | LMessage m \<Rightarrow> if m_message_id m \<noteq> [] \<and> pl_user_input (m_payload m) then Some Incomplete else None
      | _ \<Rightarrow> None)"

definition last_decision :: "(log_entry \<Rightarrow> 'a option) \<Rightarrow> 'a \<Rightarrow> log_entry list \<Rightarrow> 'a" where
  "last_decision f d es = (case last_opt (List.map_filter f es) of None \<Rightarrow> d | Some x \<Rightarrow> x)"

lemma last_decision_Nil [simp]: "last_decision f d [] = d"
  by (simp add: last_decision_def)

lemma last_opt_map_filter_Cons:
  "last_opt (List.map_filter f (e # es)) = (case last_opt (List.map_filter f es) of None \<Rightarrow> f e | Some x \<Rightarrow> Some x)"
  by (cases "f e") (simp_all add: List.map_filter_def last_opt_Cons split: option.split)

lemma last_decision_Cons [simp]:
  "last_decision f d (e # es) = last_decision f (case f e of None \<Rightarrow> d | Some x \<Rightarrow> x) es"
  unfolding last_decision_def last_opt_map_filter_Cons by (simp split: option.splits)

subsection \<open>What a replay leaves alone\<close>

definition replay_frame :: "string \<Rightarrow> string option \<Rightarrow> state \<Rightarrow> state \<Rightarrow> bool" where
  "replay_frame sid gid st st' \<longleftrightarrow>
     st_session_logs st' = st_session_logs st \<and> st_disk_logs st' = st_disk_logs st \<and> st_log_full_ids st' = st_log_full_ids st
     \<and> (\<forall>x. x \<noteq> sid \<longrightarrow> get_session st' x = get_session st x)
     \<and> (\<forall>y. gid \<noteq> Some y \<longrightarrow> get_goal st' y = get_goal st y)
     \<and> (goals_ok st \<longrightarrow> goals_ok st'
          \<and> (\<forall>x. map_option g_goal_id (current_goal_for_session st' x) = map_option g_goal_id (current_goal_for_session st x)))"

lemma replay_frame_refl [simp]: "replay_frame sid gid st st"
  by (simp add: replay_frame_def)

lemma replay_frame_trans: "replay_frame sid gid a b \<Longrightarrow> replay_frame sid gid b c \<Longrightarrow> replay_frame sid gid a c"
  by (simp add: replay_frame_def)

lemma replay_frame_session: "replay_frame sid gid st (upd_session sid f st)"
  by (simp add: replay_frame_def upd_session_def goals_ok_def current_goal_for_session_def)

lemma replay_frame_touch: "replay_frame sid gid st (snd (touch_session sid t (c, st)))"
  by (auto simp: touch_session_def intro: replay_frame_session split: option.splits)

lemma replay_frame_goal:
  assumes "\<And>g. g_session_id (h g) = g_session_id g" "\<And>g. g_goal_id (h g) = g_goal_id g"
    "\<And>g. g_archived_at (h g) = g_archived_at g" "\<And>g. g_created_at (h g) = g_created_at g"
  shows "replay_frame sid (Some y) st (upd_goal y h st)"
proof -
  have "goals_ok (upd_goal y h st)
      \<and> (\<forall>x. map_option g_goal_id (current_goal_for_session (upd_goal y h st) x) = map_option g_goal_id (current_goal_for_session st x))"
    if ok: "goals_ok st"
  proof
    show "goals_ok (upd_goal y h st)"
      using ok assms(2) by (fastforce simp: goals_ok_def upd_goal_def dest: mem_map_entry)
    show "\<forall>x. map_option g_goal_id (current_goal_for_session (upd_goal y h st) x) = map_option g_goal_id (current_goal_for_session st x)"
      using assms by (simp add: current_goal_map_entry [OF ok, of _ y h] upd_goal_def option.map_comp comp_def if_distrib cong: if_cong)
  qed
  then show ?thesis by (auto simp: replay_frame_def upd_goal_def)
qed

lemma replay_entry_frame: "replay_frame sid gid st (snd (replay_entry sid gid e (c, st)))"
proof -
  have g: "replay_frame sid (Some x) st (snd (touch_session sid a (b, upd_goal x (replay_goal_state t a') st)))"
    "replay_frame sid (Some x) st (snd (touch_session sid a (b, upd_goal x (replay_user_input m a') st)))" for x a a' b t m
    by (rule replay_frame_trans [OF replay_frame_goal replay_frame_touch]; simp add: replay_goal_state_def replay_user_input_def)+
  have s: "replay_frame sid gid st (snd (touch_session sid a (b, upd_session sid f st)))" for a b f
    by (rule replay_frame_trans [OF replay_frame_session replay_frame_touch])
  show ?thesis
    by (cases "le_item e"; cases "case gid of None \<Rightarrow> None | Some x \<Rightarrow> get_goal st x")
      (auto simp: replay_entry_def Let_def g s replay_frame_touch split: option.splits)
qed

lemma replay_entries_frame: "replay_frame sid gid st (snd (fold (replay_entry sid gid) es (c, st)))"
proof (induction es arbitrary: c st)
  case (Cons e es)
  show ?case
    using replay_frame_trans [OF replay_entry_frame Cons.IH [of "snd (replay_entry sid gid e (c, st))" "fst (replay_entry sid gid e (c, st))"]]
    by simp
qed simp

subsection \<open>What a replay decides\<close>

lemma touch_session_session:
  assumes "get_session st sid = Some s"
  shows "\<exists>s'. get_session (snd (touch_session sid t (c, st))) sid = Some s' \<and> s_active s' = s_active s
    \<and> s_role_cursors s' = s_role_cursors s"
  using assms by (auto simp: touch_session_def upd_session_def)

lemma touch_session_goals [simp]: "st_goals (snd (touch_session sid t (c, st))) = st_goals st"
  by (auto simp: touch_session_def upd_session_def split: option.splits)

lemma replay_entry_session:
  assumes "get_session st sid = Some s"
  shows "\<exists>s'. get_session (snd (replay_entry sid gid e (c, st))) sid = Some s'
    \<and> s_active s' = (case entry_active e of None \<Rightarrow> s_active s | Some a \<Rightarrow> a) \<and> s_role_cursors s' = s_role_cursors s"
proof -
  have t: "\<exists>s'. get_session (snd (touch_session sid a (b, x))) sid = Some s' \<and> s_active s' = s_active s1
      \<and> s_role_cursors s' = s_role_cursors s1" if "get_session x sid = Some s1" for a b x s1
    using that by (rule touch_session_session)
  show ?thesis
  proof (cases "le_item e")
    case (LSessionActiveChanged p a u v)
    have "get_session (upd_session sid (\<lambda>s. s\<lparr>s_active := a\<rparr>) st) sid = Some (s\<lparr>s_active := a\<rparr>)"
      using assms by (simp add: upd_session_def)
    from t [OF this] show ?thesis by (simp add: replay_entry_def entry_active_def LSessionActiveChanged)
  qed (use assms t in \<open>auto simp: replay_entry_def entry_active_def Let_def upd_goal_def split: option.split\<close>)
qed

lemma replay_entries_session:
  assumes "get_session st sid = Some s"
  shows "\<exists>s'. get_session (snd (fold (replay_entry sid gid) es (c, st))) sid = Some s'
    \<and> s_active s' = last_decision entry_active (s_active s) es \<and> s_role_cursors s' = s_role_cursors s"
  using assms
proof (induction es arbitrary: c st s)
  case (Cons e es)
  obtain s1 where s1: "get_session (snd (replay_entry sid gid e (c, st))) sid = Some s1"
    "s_active s1 = (case entry_active e of None \<Rightarrow> s_active s | Some a \<Rightarrow> a)" "s_role_cursors s1 = s_role_cursors s"
    using replay_entry_session [OF Cons.prems, of gid e c] by blast
  show ?case using Cons.IH [OF s1(1), of "fst (replay_entry sid gid e (c, st))"] s1(2,3) by simp
qed simp

lemma replay_entry_goal:
  assumes "get_goal st gid = Some g" "g_completion_state g \<noteq> Waiting"
  shows "\<exists>g'. get_goal (snd (replay_entry sid (Some gid) e (c, st))) gid = Some g'
    \<and> g_completion_state g' = (case entry_completion e of None \<Rightarrow> g_completion_state g | Some x \<Rightarrow> x)
    \<and> g_completion_state g' \<noteq> Waiting"
proof (cases "le_item e")
  case (LGoalStateChanged t)
  then show ?thesis using assms by (simp add: replay_entry_def entry_completion_def upd_goal_def replay_goal_state_def Let_def)
next
  case (LMessage m)
  then show ?thesis using assms
    by (cases "g_completion_state g")
      (simp_all add: replay_entry_def entry_completion_def upd_goal_def replay_user_input_def message_for_log_entry_def Let_def)
qed (use assms in \<open>simp_all add: replay_entry_def entry_completion_def Let_def upd_session_def\<close>)

lemma replay_entries_goal:
  assumes "get_goal st gid = Some g" "g_completion_state g \<noteq> Waiting"
  shows "\<exists>g'. get_goal (snd (fold (replay_entry sid (Some gid)) es (c, st))) gid = Some g'
    \<and> g_completion_state g' = last_decision entry_completion (g_completion_state g) es"
  using assms
proof (induction es arbitrary: c st g)
  case (Cons e es)
  obtain g1 where g1: "get_goal (snd (replay_entry sid (Some gid) e (c, st))) gid = Some g1"
    "g_completion_state g1 = (case entry_completion e of None \<Rightarrow> g_completion_state g | Some x \<Rightarrow> x)" "g_completion_state g1 \<noteq> Waiting"
    using replay_entry_goal [OF Cons.prems, of sid e c] by blast
  show ?case using Cons.IH [OF g1(1,3), of "fst (replay_entry sid (Some gid) e (c, st))"] g1(2) by simp
qed simp

subsection \<open>One session\<close>

definition replayed :: "state \<Rightarrow> state \<Rightarrow> string \<Rightarrow> bool" where
  "replayed st st' sid \<longleftrightarrow>
     (\<forall>s. get_session st sid = Some s \<longrightarrow>
        (\<exists>s'. get_session st' sid = Some s' \<and> s_active s' = last_decision entry_active (s_active s) (log_view st sid)
          \<and> (\<forall>r. s_role_cursors s' r = min (s_role_cursors s r) (length (log_view st sid))))
        \<and> (\<forall>g. current_goal_for_session st sid = Some g \<longrightarrow> g_completion_state g \<noteq> Waiting \<longrightarrow>
             (\<exists>g'. current_goal_for_session st' sid = Some g' \<and> g_goal_id g' = g_goal_id g
                \<and> g_completion_state g' = last_decision entry_completion (g_completion_state g) (log_view st sid))))"

definition untouched :: "state \<Rightarrow> state \<Rightarrow> string \<Rightarrow> bool" where
  "untouched st st' x \<longleftrightarrow>
     get_session st' x = get_session st x \<and> current_goal_for_session st' x = current_goal_for_session st x"

lemma logs_kept:
  assumes "st_session_logs st' = st_session_logs st" "st_disk_logs st' = st_disk_logs st" "st_log_full_ids st' = st_log_full_ids st"
  shows "log_inv st' = log_inv st" "log_view st' x = log_view st x"
  unfolding log_inv_def log_view_def pending_log_def disk_log_def assms by (rule refl)+

lemma replay_frame_logs:
  assumes "replay_frame sid gid st st'"
  shows "log_inv st' = log_inv st" "log_view st' x = log_view st x"
proof -
  have "st_session_logs st' = st_session_logs st" "st_disk_logs st' = st_disk_logs st" "st_log_full_ids st' = st_log_full_ids st"
    using assms unfolding replay_frame_def by blast+
  from logs_kept [OF this] show "log_inv st' = log_inv st" "log_view st' x = log_view st x" .
qed

lemma replay_frame_current:
  assumes "replay_frame sid (map_option g_goal_id (current_goal_for_session st sid)) st st'" "goals_ok st" "x \<noteq> sid"
  shows "current_goal_for_session st' x = current_goal_for_session st x"
proof -
  have ids: "map_option g_goal_id (current_goal_for_session st' x) = map_option g_goal_id (current_goal_for_session st x)"
    and ok: "goals_ok st'" using assms by (simp_all add: replay_frame_def)
  show ?thesis
  proof (cases "current_goal_for_session st x")
    case None
    then show ?thesis using ids by simp
  next
    case (Some g)
    then obtain g' where g': "current_goal_for_session st' x = Some g'" "g_goal_id g' = g_goal_id g" using ids by auto
    have g: "get_goal st (g_goal_id g) = Some g" "g_session_id g = x"
      using current_goal_mem [OF Some assms(2)] by simp_all
    have "map_option g_goal_id (current_goal_for_session st sid) \<noteq> Some (g_goal_id g)"
    proof
      assume "map_option g_goal_id (current_goal_for_session st sid) = Some (g_goal_id g)"
      then obtain h where h: "current_goal_for_session st sid = Some h" "g_goal_id h = g_goal_id g" by auto
      from current_goal_mem(1,2) [OF h(1) assms(2)] g h(2) assms(3) show False by (metis option.inject)
    qed
    then have "get_goal st' (g_goal_id g) = Some g" using assms(1) g(1) by (simp add: replay_frame_def)
    then show ?thesis using current_goal_mem(1) [OF g'(1) ok] g' Some by simp
  qed
qed

lemma replay_frame_sync: "replay_frame sid gid st (snd (sync_session_current_state sid st))"
  by (auto simp: sync_session_current_state_def Let_def intro: replay_frame_session split: option.splits)

lemma sync_session_kept:
  "get_session st sid = Some s \<Longrightarrow> \<exists>s'. get_session (snd (sync_session_current_state sid st)) sid = Some s'
     \<and> s_active s' = s_active s \<and> s_role_cursors s' = s_role_cursors s"
  by (auto simp: sync_session_current_state_def Let_def upd_session_def split: option.splits)

lemma sync_goals [simp]: "st_goals (snd (sync_session_current_state sid st)) = st_goals st"
  by (auto simp: sync_session_current_state_def Let_def upd_session_def split: option.splits)

lemma log_read_frame:
  "st_sessions (snd (session_log_entries sid st)) = st_sessions st" "st_goals (snd (session_log_entries sid st)) = st_goals st"
  "st_uid (snd (session_log_entries sid st)) = st_uid st"
  by (simp_all add: session_log_entries_def Let_def)

lemma reconcile_session_facts:
  assumes "reconcile_session_from_log sid (c, st) = (c', st')" "log_inv st" "goals_ok st"
  shows "log_inv st'" "goals_ok st'" "log_view st' x = log_view st x" "x \<noteq> sid \<Longrightarrow> untouched st st' x" "replayed st st' sid"
proof -
  have all: "log_inv st' \<and> goals_ok st' \<and> (\<forall>x. log_view st' x = log_view st x) \<and> (\<forall>x. x \<noteq> sid \<longrightarrow> untouched st st' x)
    \<and> replayed st st' sid"
  proof (cases "get_session st sid")
    case None
    then show ?thesis using assms by (simp add: reconcile_session_from_log_def untouched_def replayed_def)
  next
    case (Some s)
    let ?es = "log_view st sid" and ?n = "length (log_view st sid)"
    obtain st1 where st1: "session_log_entries sid st = (?es, st1)"
      using session_log_entries_view [OF assms(2), of sid] by (metis prod.collapse)
    then have s1: "st_sessions st1 = st_sessions st" "st_goals st1 = st_goals st" "st_uid st1 = st_uid st"
      using log_read_frame [of sid st] by simp_all
    have l1: "log_inv st1" "log_view st1 x = log_view st x" for x
      using session_log_entries_inv [OF assms(2), of sid] session_log_entries_log_view [OF assms(2), of sid] st1 by simp_all
    have ok1: "goals_ok st1" using assms(3) s1 by (simp add: goals_ok_def)
    have latest: "last_seq ?es = ?n" using log_invD(1) [OF assms(2)] by (simp add: last_seq_one)
    define st2 where "st2 = upd_session sid (\<lambda>s. s\<lparr>s_role_cursors := (\<lambda>r. min (s_role_cursors s r) ?n)\<rparr>) st1"
    define gid where "gid = map_option g_goal_id (current_goal_for_session st2 sid)"
    have gid: "gid = map_option g_goal_id (current_goal_for_session st sid)"
      "gid = map_option g_goal_id (current_goal_for_session st1 sid)"
      by (simp_all add: gid_def st2_def upd_session_def current_goal_for_session_def s1)
    obtain b c3 st3 where st3: "fold (replay_entry sid gid) ?es (b, st2) = (c3, st3)"
      and st': "st' = snd (sync_session_current_state sid st3)"
    proof -
      let ?b = "c \<or> s_role_cursors s GoalManager > ?n \<or> s_role_cursors s WorkerAgent > ?n"
      obtain c3 st3 where f: "fold (replay_entry sid gid) ?es (?b, st2) = (c3, st3)"
        by (cases "fold (replay_entry sid gid) ?es (?b, st2)")
      moreover have "st' = snd (sync_session_current_state sid st3)"
        using assms(1) Some f [unfolded gid_def st2_def]
        by (simp add: reconcile_session_from_log_def st1 latest Let_def split: prod.splits)
      ultimately show ?thesis by (rule that)
    qed
    have f2: "replay_frame sid gid st1 st2" unfolding st2_def by (rule replay_frame_session)
    have f3: "replay_frame sid gid st2 st3" using replay_entries_frame [of sid gid st2 ?es b] st3 by simp
    have f4: "replay_frame sid gid st3 st'" unfolding st' by (rule replay_frame_sync)
    have frame: "replay_frame sid gid st1 st'"
      by (rule replay_frame_trans [OF f2 replay_frame_trans [OF f3 f4]])
    then have logs: "log_inv st'" "log_view st' x = log_view st x" for x
      using replay_frame_logs [OF frame] l1 by simp_all
    have ok: "goals_ok st'" using frame ok1 by (simp add: replay_frame_def)
    have others: "untouched st st' x" if "x \<noteq> sid" for x
      using that frame replay_frame_current [OF frame [unfolded gid(2)] ok1 that]
      by (simp add: untouched_def replay_frame_def s1 current_goal_for_session_def)
    have "get_session st2 sid = Some (s\<lparr>s_role_cursors := (\<lambda>r. min (s_role_cursors s r) ?n)\<rparr>)"
      using Some by (simp add: st2_def upd_session_def s1)
    from replay_entries_session [OF this, of gid ?es b] obtain s3 where s3: "get_session st3 sid = Some s3"
      "s_active s3 = last_decision entry_active (s_active s) ?es" "s_role_cursors s3 = (\<lambda>r. min (s_role_cursors s r) ?n)"
      by (auto simp: st3)
    from sync_session_kept [OF s3(1)] obtain s' where s': "get_session st' sid = Some s'"
      "s_active s' = last_decision entry_active (s_active s) ?es" "s_role_cursors s' = (\<lambda>r. min (s_role_cursors s r) ?n)"
      using s3 by (auto simp: st')
    have "\<exists>g'. current_goal_for_session st' sid = Some g' \<and> g_goal_id g' = g_goal_id g
        \<and> g_completion_state g' = last_decision entry_completion (g_completion_state g) ?es"
      if g: "current_goal_for_session st sid = Some g" "g_completion_state g \<noteq> Waiting" for g
    proof -
      have "get_goal st2 (g_goal_id g) = Some g"
        using current_goal_mem(1) [OF g(1) assms(3)] by (simp add: st2_def upd_session_def s1)
      from replay_entries_goal [OF this g(2), of sid ?es b] obtain g3 where g3: "get_goal st3 (g_goal_id g) = Some g3"
        "g_completion_state g3 = last_decision entry_completion (g_completion_state g) ?es"
        using g(1) gid(1) st3 by auto
      have "map_option g_goal_id (current_goal_for_session st' sid) = Some (g_goal_id g)"
        using frame ok1 gid g(1) by (simp add: replay_frame_def)
      then obtain g' where g': "current_goal_for_session st' sid = Some g'" "g_goal_id g' = g_goal_id g" by auto
      have "g' = g3" using current_goal_mem(1) [OF g'(1) ok] g' g3(1) by (simp add: st')
      then show ?thesis using g' g3(2) by simp
    qed
    then show ?thesis using logs ok others s' Some by (simp add: replayed_def)
  qed
  then show "log_inv st'" "goals_ok st'" "log_view st' x = log_view st x" "x \<noteq> sid \<Longrightarrow> untouched st st' x" "replayed st st' sid"
    by auto
qed

subsection \<open>All sessions\<close>

lemma reconcile_sessions:
  assumes "fold reconcile_session_from_log ids (c, st) = (c', st')" "distinct ids" "log_inv st" "goals_ok st"
  shows "log_inv st' \<and> goals_ok st' \<and> (\<forall>x. log_view st' x = log_view st x)
    \<and> (\<forall>x. if x \<in> set ids then replayed st st' x else untouched st st' x)"
  using assms
proof (induction ids arbitrary: c st)
  case Nil
  then show ?case by (simp add: untouched_def)
next
  case (Cons i ids)
  obtain c1 st1 where one: "reconcile_session_from_log i (c, st) = (c1, st1)" by (cases "reconcile_session_from_log i (c, st)")
  note f = reconcile_session_facts [OF one Cons.prems(3,4)]
  have rest: "log_inv st' \<and> goals_ok st' \<and> (\<forall>x. log_view st' x = log_view st1 x)
    \<and> (\<forall>x. if x \<in> set ids then replayed st1 st' x else untouched st1 st' x)"
    using Cons.IH [of c1 st1] Cons.prems(1,2) one f(1,2) by simp
  have "if x \<in> set (i # ids) then replayed st st' x else untouched st st' x" for x
  proof (cases "x = i")
    case True
    then have "untouched st1 st' x" using rest Cons.prems(2) by (auto split: if_splits)
    with f(5) True show ?thesis unfolding replayed_def untouched_def by simp
  next
    case False
    then have u: "untouched st st1 x" by (rule f(4))
    show ?thesis
    proof (cases "x \<in> set ids")
      case True
      then have "replayed st1 st' x" using rest by (auto split: if_splits)
      with u True show ?thesis unfolding replayed_def untouched_def f(3) by simp
    next
      case False
      then have "untouched st1 st' x" using rest by (auto split: if_splits)
      with u False \<open>x \<noteq> i\<close> show ?thesis by (simp add: untouched_def)
    qed
  qed
  then show ?case using rest f(3) by simp
qed

lemma log_view_ids: "log_view st sid \<noteq> [] \<Longrightarrow> sid \<in> set (all_session_log_ids st)"
proof -
  assume "log_view st sid \<noteq> []"
  then have "disk_log st sid \<noteq> [] \<or> pending_log st sid \<noteq> []" by (auto simp: log_view_def split: if_splits)
  then show ?thesis
    by (force simp: all_session_log_ids_def disk_log_def pending_log_def dict_get_def split: option.splits
        dest: map_of_SomeD)
qed


subsection \<open>Leases of dead agents\<close>

abbreviation goals_at_work :: "state \<Rightarrow> goal list" where
  "goals_at_work st \<equiv> filter (\<lambda>g. g_completion_state g = Incomplete \<and> g_archived_at g = [] \<and> active_session st (g_session_id g))
     (current_goals st)"

lemma fold_update_new:
  "distinct (map k gs @ dict_keys d) \<Longrightarrow> fold (\<lambda>g. AList.update (k g) g) gs d = d @ map (\<lambda>g. (k g, g)) gs"
proof (induction gs arbitrary: d)
  case (Cons g gs)
  have "AList.update (k g) g d = d @ [(k g, g)]" using Cons.prems by (induction d) auto
  then show ?case using Cons by simp
qed simp

lemma recoverable_goals_list:
  assumes "goals_ok st"
  shows "recoverable_goals st = map (\<lambda>g. (g_goal_id g, g)) (goals_at_work st)"
proof -
  have "inj_on g_goal_id (set (current_goals st))"
    using current_goals_mem(1) [OF _ assms] by (auto intro!: inj_onI) (metis option.inject)
  moreover have "distinct (current_goals st)" using current_goals_distinct [of st] by (simp add: distinct_map)
  ultimately have "distinct (map g_goal_id (goals_at_work st))" by (simp add: distinct_map inj_on_def)
  then show ?thesis unfolding recoverable_goals_def by (subst fold_update_new) simp_all
qed

text \<open>What the recovery of one goal does: it takes back the leases of the session, and appends one signal.\<close>

lemma recover_goal_facts:
  assumes "recover_goal ctx now g (sgs, st) = (sgs', st')" "log_ok st"
    "g_completion_state g = Incomplete" "g_archived_at g = []" "active_session st (g_session_id g)"
  shows "log_ok st'" "st_sessions st' = st_sessions st" "st_goals st' = st_goals st"
    "\<And>k r. (k, r) \<in> set (st_dispatch_runs st') \<Longrightarrow> r_lease_state r = LeaseAcquired \<Longrightarrow>
       (k, r) \<in> set (st_dispatch_runs st) \<and> r_session_id r \<noteq> g_session_id g"
    "\<And>e. e \<in> set (st_dispatch_readiness st') \<Longrightarrow> rd_status e = Acquired \<Longrightarrow>
       e \<in> set (st_dispatch_readiness st) \<and> rd_session_id e \<noteq> g_session_id g"
    "\<exists>e. sgs' = sgs @ [e] \<and> targets GoalManager e
       \<and> (\<forall>x. log_view st' x = (if x = g_session_id g then log_view st x @ [e] else log_view st x))"
proof -
  let ?sid = "g_session_id g"
  define st2 where "st2 = upd_readiness (\<lambda>e. rd_session_id e = ?sid \<and> rd_status e = Acquired)
      (recover_entry now (filter (\<lambda>i. i \<noteq> []) (map r_readiness_id (interrupted_runs ?sid st))))
      (st\<lparr>st_dispatch_runs := map (\<lambda>(k, r). (k, if r_session_id r = ?sid \<and> r_lease_state r = LeaseAcquired
         then r\<lparr>r_lease_state := LeaseInterrupted, r_interrupted_at := now, r_current_phase := None\<rparr> else r)) (st_dispatch_runs st)\<rparr>)"
  define roles where "roles = fold add_new (map r_role (interrupted_runs ?sid st)) []"
  define ro where "ro = fold add_new roles [GoalManager]"
  define ctx' where "ctx' = (if ctx \<noteq> [] then ctx else ''AIze runtime started or restarted. ''
      @ ''Continue the active incomplete SessionGoal from persisted SessionLog state.'')"
  define d where "d = [(''goal_id'', JStr (g_goal_id g)), (''interrupted_roles'', JStrs (map role_name roles))]"
  have s: "(sgs', st') = (let (signal, st3) = log_system_signal ?sid ''RuntimeRecovered'' ctx' ro ''runtime'' [] d now st2
      in (sgs @ [signal], st3))"
    using assms(1,3,4,5) unfolding recover_goal_def Let_def ctx'_def ro_def d_def roles_def st2_def by (simp only: prod.case) simp
  have "x \<in> set (fold add_new ys xs)" if "x \<in> set xs" for x :: role and xs ys
    using that by (induction ys arbitrary: xs) (simp_all add: add_new_def)
  then have ro: "GoalManager \<in> set ro" by (simp add: ro_def)
  have st': "st' = snd (log_system_signal ?sid ''RuntimeRecovered'' ctx' ro ''runtime'' [] d now st2)"
    and sgs': "sgs' = sgs @ [fst (log_system_signal ?sid ''RuntimeRecovered'' ctx' ro ''runtime'' [] d now st2)]"
    using s by (simp_all add: case_prod_beta)
  have "log_grows st st2" by (rule log_grows_frame) (simp_all add: st2_def upd_readiness_def)
  then have ok2: "log_ok st2" and v2: "log_view st2 = log_view st"
    using assms(2) by (simp_all add: log_growsD(1) st2_def upd_readiness_def log_view_def pending_log_def disk_log_def fun_eq_iff)
  show "log_ok st'" unfolding st' by (rule log_ok_evolves [OF evolves_log_signal ok2])
  show "st_sessions st' = st_sessions st" "st_goals st' = st_goals st"
    by (simp_all add: st' st2_def upd_readiness_def)
  show "(k, r) \<in> set (st_dispatch_runs st) \<and> r_session_id r \<noteq> ?sid"
    if "(k, r) \<in> set (st_dispatch_runs st')" "r_lease_state r = LeaseAcquired" for k r
    using that by (auto simp: st' st2_def upd_readiness_def split: if_splits)
  show "e \<in> set (st_dispatch_readiness st) \<and> rd_session_id e \<noteq> ?sid"
    if "e \<in> set (st_dispatch_readiness st')" "rd_status e = Acquired" for e
    using that by (auto simp: st' st2_def upd_readiness_def recover_entry_def stale_entry_def split: if_splits)
  show "\<exists>e. sgs' = sgs @ [e] \<and> targets GoalManager e
       \<and> (\<forall>x. log_view st' x = (if x = ?sid then log_view st x @ [e] else log_view st x))"
  proof -
    have "targets GoalManager (fst (log_system_signal ?sid ''RuntimeRecovered'' ctx' ro ''runtime'' [] d now st2))"
      using ro by (intro log_system_signal_view(2) [OF ok2]) auto
    then show ?thesis using log_system_signal_view(1) [OF ok2] by (auto simp: sgs' st' v2)
  qed
qed

lemma recover_goals_facts:
  assumes "fold (recover_goal ctx now) gs (sgs, st) = (sgs', st')" "log_ok st" "distinct (map g_session_id gs)"
    "\<forall>g \<in> set gs. g_completion_state g = Incomplete \<and> g_archived_at g = [] \<and> active_session st (g_session_id g)"
  shows "log_ok st' \<and> st_sessions st' = st_sessions st \<and> length sgs' = length sgs + length gs \<and> set sgs \<subseteq> set sgs'
    \<and> (\<forall>(k, r) \<in> set (st_dispatch_runs st'). r_lease_state r = LeaseAcquired \<longrightarrow>
         (k, r) \<in> set (st_dispatch_runs st) \<and> r_session_id r \<notin> g_session_id ` set gs)
    \<and> (\<forall>e \<in> set (st_dispatch_readiness st'). rd_status e = Acquired \<longrightarrow>
         e \<in> set (st_dispatch_readiness st) \<and> rd_session_id e \<notin> g_session_id ` set gs)
    \<and> (\<forall>g \<in> set gs. \<exists>e \<in> set sgs'. targets GoalManager e \<and> log_view st' (g_session_id g) = log_view st (g_session_id g) @ [e])
    \<and> (\<forall>x. x \<notin> g_session_id ` set gs \<longrightarrow> log_view st' x = log_view st x)"
  using assms
proof (induction gs arbitrary: sgs st)
  case Nil
  then show ?case by auto
next
  case (Cons g gs)
  obtain sgs1 st1 where one: "recover_goal ctx now g (sgs, st) = (sgs1, st1)" by (cases "recover_goal ctx now g (sgs, st)")
  have g: "g_completion_state g = Incomplete" "g_archived_at g = []" "active_session st (g_session_id g)" using Cons.prems(4) by simp_all
  note f = recover_goal_facts [OF one Cons.prems(2) g]
  have act: "active_session st1 x = active_session st x" for x by (simp add: active_session_def f(2))
  obtain e where e: "sgs1 = sgs @ [e]" "targets GoalManager e"
    "\<And>x. log_view st1 x = (if x = g_session_id g then log_view st x @ [e] else log_view st x)" using f(6) by auto
  from Cons.IH [of sgs1 st1] Cons.prems one f(1) act
  have rest: "log_ok st' \<and> st_sessions st' = st_sessions st1 \<and> length sgs' = length sgs1 + length gs \<and> set sgs1 \<subseteq> set sgs'"
    "\<forall>(k, r) \<in> set (st_dispatch_runs st'). r_lease_state r = LeaseAcquired \<longrightarrow>
         (k, r) \<in> set (st_dispatch_runs st1) \<and> r_session_id r \<notin> g_session_id ` set gs"
    "\<forall>e \<in> set (st_dispatch_readiness st'). rd_status e = Acquired \<longrightarrow>
         e \<in> set (st_dispatch_readiness st1) \<and> rd_session_id e \<notin> g_session_id ` set gs"
    "\<forall>g \<in> set gs. \<exists>e \<in> set sgs'. targets GoalManager e \<and> log_view st' (g_session_id g) = log_view st1 (g_session_id g) @ [e]"
    "\<forall>x. x \<notin> g_session_id ` set gs \<longrightarrow> log_view st' x = log_view st1 x" by simp_all
  have new: "g_session_id g \<notin> g_session_id ` set gs" using Cons.prems(3) by simp
  have runs: "\<forall>(k, r) \<in> set (st_dispatch_runs st'). r_lease_state r = LeaseAcquired \<longrightarrow>
      (k, r) \<in> set (st_dispatch_runs st) \<and> r_session_id r \<notin> g_session_id ` set (g # gs)"
    using rest(2) f(4) by fastforce
  have ready: "\<forall>e \<in> set (st_dispatch_readiness st'). rd_status e = Acquired \<longrightarrow>
      e \<in> set (st_dispatch_readiness st) \<and> rd_session_id e \<notin> g_session_id ` set (g # gs)"
    using rest(3) f(5) by fastforce
  have head: "\<exists>e \<in> set sgs'. targets GoalManager e \<and> log_view st' (g_session_id g) = log_view st (g_session_id g) @ [e]"
    using rest(1,5) new e by (intro bexI [of _ e]) auto
  have tail: "\<exists>e \<in> set sgs'. targets GoalManager e \<and> log_view st' (g_session_id h) = log_view st (g_session_id h) @ [e]"
    if "h \<in> set gs" for h
    using bspec [OF rest(4) that] that new e(3) by (metis image_eqI)
  have out: "\<forall>x. x \<notin> g_session_id ` set (g # gs) \<longrightarrow> log_view st' x = log_view st x" using rest(5) e(3) by simp
  have "length sgs' = length sgs + length (g # gs)" "set sgs \<subseteq> set sgs'" "st_sessions st' = st_sessions st"
    using rest(1) e(1) f(2) by auto
  then show ?case using rest(1) runs ready head tail out by simp
qed

subsection \<open>The recovery as a whole\<close>

text \<open>A lease of a goal is held in the session of the goal.\<close>

definition leases_at_home :: "state \<Rightarrow> bool" where
  "leases_at_home st \<longleftrightarrow>
     (\<forall>(k, r) \<in> set (st_dispatch_runs st). r_lease_state r = LeaseAcquired \<longrightarrow>
        (\<forall>g. get_goal st (r_goal_id r) = Some g \<longrightarrow> r_session_id r = g_session_id g))
     \<and> (\<forall>e \<in> set (st_dispatch_readiness st). rd_status e = Acquired \<longrightarrow>
        (\<forall>g. get_goal st (rd_goal_id e) = Some g \<longrightarrow> rd_session_id e = g_session_id g))"

lemma leases_at_homeD:
  assumes "leases_at_home st"
  shows "(k, r) \<in> set (st_dispatch_runs st) \<Longrightarrow> r_lease_state r = LeaseAcquired \<Longrightarrow> get_goal st (r_goal_id r) = Some g
      \<Longrightarrow> r_session_id r = g_session_id g"
    "e \<in> set (st_dispatch_readiness st) \<Longrightarrow> rd_status e = Acquired \<Longrightarrow> get_goal st (rd_goal_id e) = Some g
      \<Longrightarrow> rd_session_id e = g_session_id g"
  using assms by (auto simp: leases_at_home_def)

lemma record_recovery_steps:
  assumes "log_ok st" "goals_ok st"
  obtains st1 st2 sgs st3 st' where "record_runtime_recovery_signals ctx st = Inr (sgs, st')" "save st3 = Inr st'"
    "st1 = snd (utc_now st)" "st2 = drop_undispatchable (fst (utc_now st)) (map g_goal_id (goals_at_work st1)) st1"
    "fold (recover_goal ctx (fst (utc_now st))) (goals_at_work st1) ([], st2) = (sgs, st3)" "goals_at_work st1 = goals_at_work st"
    "log_ok st2" "goals_ok st1" "log_view st2 = log_view st" "log_ok st3"
proof -
  let ?now = "fst (utc_now st)"
  define st1 where "st1 = snd (utc_now st)"
  have f1: "st_goals st1 = st_goals st" "st_sessions st1 = st_sessions st" by (simp_all add: st1_def utc_now_def)
  have ok1: "goals_ok st1" unfolding st1_def by (rule goals_ok_evolves [OF evolves_utc_now assms(2)])
  have w: "goals_at_work st1 = goals_at_work st" using current_goals_cong [OF f1(1)] by (simp add: active_session_def f1(2))
  define st2 where "st2 = drop_undispatchable ?now (map g_goal_id (goals_at_work st1)) st1"
  have "log_grows st st2"
    by (rule log_grows_frame) (simp_all add: st2_def drop_undispatchable_def upd_readiness_def st1_def utc_now_def)
  then have ok2: "log_ok st2" using assms(1) by (rule log_growsD(1))
  have v2: "log_view st2 = log_view st"
    by (simp add: st2_def drop_undispatchable_def upd_readiness_def st1_def utc_now_def log_view_def pending_log_def disk_log_def fun_eq_iff)
  obtain sgs st3 where f: "fold (recover_goal ctx ?now) (goals_at_work st1) ([], st2) = (sgs, st3)"
    by (cases "fold (recover_goal ctx ?now) (goals_at_work st1) ([], st2)")
  have a2: "active_session st2 x = active_session st1 x" for x
    by (simp add: active_session_def st2_def drop_undispatchable_def upd_readiness_def)
  have "distinct (map g_session_id (goals_at_work st1))"
    using current_goals_distinct [of st1] by (simp add: distinct_map inj_on_def)
  from recover_goals_facts [OF f ok2 this] have ok3: "log_ok st3" by (simp add: a2)
  obtain st' where s: "save st3 = Inr st'" using save_total [OF log_ok_inv [OF ok3]] by blast
  have "record_runtime_recovery_signals ctx st = Inr (sgs, st')"
    using f s recoverable_goals_list [OF ok1]
    by (simp add: record_runtime_recovery_signals_def case_prod_beta Let_def st1_def [symmetric] st2_def comp_def)
  then show ?thesis using that s st1_def st2_def f w ok2 ok1 v2 ok3 by blast
qed

text \<open>C29: After the recovery at a start no lease of the last process is left: no run and no readiness entry is
  acquired, whether its goal is still at work or not, so every slot can be dispatched again. The leases of a
  goal are taken to be held in the session of that goal.\<close>

theorem recovery_ends_leases:
  assumes "record_runtime_recovery_signals ctx st = Inr (sgs, st')" "log_ok st" "goals_ok st" "leases_at_home st"
  shows "(\<forall>(k, r) \<in> set (st_dispatch_runs st'). r_lease_state r \<noteq> LeaseAcquired)
    \<and> (\<forall>e \<in> set (st_dispatch_readiness st'). rd_status e \<noteq> Acquired)"
proof -
  obtain st1 st2 st3 where r: "save st3 = Inr st'" "st1 = snd (utc_now st)"
      "st2 = drop_undispatchable (fst (utc_now st)) (map g_goal_id (goals_at_work st1)) st1"
      "fold (recover_goal ctx (fst (utc_now st))) (goals_at_work st1) ([], st2) = (sgs, st3)" "log_ok st2" "goals_ok st1"
    using assms(1) by - (rule record_recovery_steps [OF assms(2,3), of ctx], simp)
  have s3: "st_dispatch_runs st' = st_dispatch_runs st3" "st_dispatch_readiness st' = st_dispatch_readiness st3"
    using save_frame [OF r(1)] by auto
  have runs1: "st_dispatch_runs st1 = st_dispatch_runs st" "st_dispatch_readiness st1 = st_dispatch_readiness st"
    "st_goals st1 = st_goals st" by (simp_all add: r(2) utc_now_def)
  have a2: "active_session st2 x = active_session st1 x" for x
    by (simp add: active_session_def r(3) drop_undispatchable_def upd_readiness_def)
  have "distinct (map g_session_id (goals_at_work st1))"
    using current_goals_distinct [of st1] by (simp add: distinct_map inj_on_def)
  from recover_goals_facts [OF r(4,5) this] a2
  have runs3: "\<forall>(k, r) \<in> set (st_dispatch_runs st3). r_lease_state r = LeaseAcquired \<longrightarrow>
         (k, r) \<in> set (st_dispatch_runs st2) \<and> r_session_id r \<notin> g_session_id ` set (goals_at_work st1)"
    and ready3: "\<forall>e \<in> set (st_dispatch_readiness st3). rd_status e = Acquired \<longrightarrow>
         e \<in> set (st_dispatch_readiness st2) \<and> rd_session_id e \<notin> g_session_id ` set (goals_at_work st1)" by simp_all
  have runs2: "\<exists>g \<in> set (goals_at_work st1). r_session_id x = g_session_id g"
    if "(k, x) \<in> set (st_dispatch_runs st2)" "r_lease_state x = LeaseAcquired" for k x
  proof -
    have "r_goal_id x \<in> g_goal_id ` set (goals_at_work st1)" "(k, x) \<in> set (st_dispatch_runs st)"
      using that runs1(1) by (auto simp: r(3) drop_undispatchable_def upd_readiness_def interrupt_run_def split: if_splits)
    then obtain g where g: "g \<in> set (goals_at_work st1)" "r_goal_id x = g_goal_id g" "(k, x) \<in> set (st_dispatch_runs st)" by blast
    then have "get_goal st (r_goal_id x) = Some g" using current_goals_mem(1) [OF _ r(6), of g] runs1(3) by simp
    from leases_at_homeD(1) [OF assms(4) g(3) that(2) this] g(1) show ?thesis by blast
  qed
  have ready2: "\<exists>g \<in> set (goals_at_work st1). rd_session_id x = g_session_id g"
    if "x \<in> set (st_dispatch_readiness st2)" "rd_status x = Acquired" for x
  proof -
    have "rd_goal_id x \<in> g_goal_id ` set (goals_at_work st1)" "x \<in> set (st_dispatch_readiness st)"
      using that runs1(2) by (auto simp: r(3) drop_undispatchable_def upd_readiness_def stale_entry_def split: if_splits)
    then obtain g where g: "g \<in> set (goals_at_work st1)" "rd_goal_id x = g_goal_id g" "x \<in> set (st_dispatch_readiness st)" by blast
    then have "get_goal st (rd_goal_id x) = Some g" using current_goals_mem(1) [OF _ r(6), of g] runs1(3) by simp
    from leases_at_homeD(2) [OF assms(4) g(3) that(2) this] g(1) show ?thesis by blast
  qed
  show ?thesis unfolding s3 using runs3 runs2 ready3 ready2 by fast
qed


subsection \<open>A renamed home\<close>

text \<open>C31: Renaming an account's home session leaves its durable log under the old name but keeps its role cursors: on a
  freshly loaded state the log of the renamed session is empty, and the next entry written to it is not past the
  cursor of any role that had read something, so no role ever sees it.\<close>

theorem renamed_home_misses_log:
  assumes "rename_session_id old new st = Inr (True, st')" "get_session st old = Some s" "log_inv st"
    "st_session_logs st = []" "st_log_full_ids st = []" "disk_log st new = []"
  shows "disk_log st' old = disk_log st old \<and> log_view st' new = []
    \<and> (\<exists>s'. get_session st' new = Some s' \<and> s_role_cursors s' = s_role_cursors s)
    \<and> (s_role_cursors s role > 0 \<longrightarrow>
         session_log_entries_after_cursor (snd (append_session_log_entry new item c k st')) new role = [])"
proof -
  have f: "st_session_logs st' = st_session_logs st" "st_disk_logs st' = st_disk_logs st" "st_log_full_ids st' = st_log_full_ids st"
    using assms(1,4) by (auto simp: rename_session_id_def rename_key_def split: if_splits)
  have inv: "log_inv st'" using logs_kept(1) [OF f] assms(3) by simp
  have disk: "disk_log st' x = disk_log st x" for x by (simp add: disk_log_def f(2))
  have v: "log_view st' new = []" "pending_log st' new = []"
    using assms(4-6) by (simp_all add: log_view_def pending_log_def disk f dict_get_def)
  obtain s' where s': "get_session st' new = Some s'" "s_role_cursors s' = s_role_cursors s"
    using assms(1,2) by (auto simp: rename_session_id_def rename_key_def split: if_splits)
  let ?st2 = "snd (append_session_log_entry new item c k st')"
  have "\<not> duplicate_entry (pending_log st' new) item k" by (simp add: v(2) duplicate_entry_def split: option.splits)
  then have "length (log_view ?st2 new) = 1" using append_log_view [OF inv, of new item c k new] v(1) by simp
  moreover have "session_log_entries_after_cursor ?st2 new role = drop (s_role_cursors s role) (log_view ?st2 new)"
    unfolding session_log_entries_after_cursor_def session_log_after_cursor_view [OF log_inv_append [OF inv]] using s' by simp
  ultimately show ?thesis using disk v(1) s' by auto
qed

end
