(* ===== verification/Recovery_Example.thy ===== *)
theory Recovery_Example
  imports Dispatch_Example Log_Recovery_Rules
begin

section \<open>Recovery at small stores\<close>

text \<open>A start that finds a worker's lease of the last process, and one that finds a log ahead of the state.\<close>

lemma at_work_current: "current_goals (at_work role body) = [work_goal\<lparr>g_body := body\<rparr>]"
  by (simp add: at_work_def current_goals_def work_goal_def new_goal_def)

lemma at_work_leases: "leases_at_home (at_work role body)"
  by (simp add: at_work_def leases_at_home_def work_run_def new_run_def work_goal_def new_goal_def acquired_entry_def queued_entry_def)

theorem recovery_ends_leases_witness:
  "\<exists>sgs st'. record_runtime_recovery_signals [] (at_work WorkerAgent ''work'') = Inr (sgs, st')
     \<and> (\<exists>r \<in> set (dict_values (st_dispatch_runs (at_work WorkerAgent ''work''))). r_lease_state r = LeaseAcquired)
     \<and> (\<forall>(k, r) \<in> set (st_dispatch_runs st'). r_lease_state r \<noteq> LeaseAcquired)"
proof -
  obtain sgs st' where r: "record_runtime_recovery_signals [] (at_work WorkerAgent ''work'') = Inr (sgs, st')"
    by (rule record_recovery_steps [OF at_work_ok])
  have "r_lease_state (work_run WorkerAgent) = LeaseAcquired" by (simp add: work_run_def new_run_def)
  moreover have "dict_values (st_dispatch_runs (at_work WorkerAgent ''work'')) = [work_run WorkerAgent]" by (simp add: at_work_def)
  ultimately show ?thesis using r recovery_ends_leases [OF r at_work_ok at_work_leases] by auto
qed


text \<open>The stored state says active and incomplete; the log goes on.\<close>

definition log_ahead :: state where
  "log_ahead = (blank_state (\<lambda>_. 86400000000) (\<lambda>i. i))\<lparr>
     st_sessions := [(''s'', new_session ''s'' [] [] ''S'' False)],
     st_goals := [(''g'', work_goal)],
     st_disk_logs := [(''s'',
       [\<lparr>le_log_id = ''l1'', le_seq = 1, le_session_id = ''s'', le_created_at = first_instant,
          le_item = LGoalStateChanged \<lparr>t_previous_state = Some Incomplete, t_completion_state = Complete, t_reason = ''done'',
             t_actor = [], t_run_id = [], t_created_at = first_instant, t_defer_goal_manager = False\<rparr>, le_event_key = ''k1''\<rparr>,
        \<lparr>le_log_id = ''l2'', le_seq = 2, le_session_id = ''s'', le_created_at = first_instant,
          le_item = LSessionActiveChanged True False [] first_instant, le_event_key = ''k2''\<rparr>])]\<rparr>"

lemma log_ahead_ok: "log_inv log_ahead" "goals_ok log_ahead"
  by (auto simp: log_ahead_def blank_state_def log_inv_def log_view_def pending_log_def disk_log_def seq_from_def
      dict_get_def goals_ok_def work_goal_def new_goal_def id_of_def)


text \<open>A home session under its old name, of which the GoalManager has read the one entry.\<close>

definition old_home :: state where
  "old_home = (blank_state (\<lambda>_. 86400000000) (\<lambda>i. i))\<lparr>
     st_sessions := [(''home-ann'', (new_session ''home-ann'' [] [] ''S'' False)\<lparr>s_role_cursors := (\<lambda>_. 1)\<rparr>)],
     st_disk_logs := [(''home-ann'', [wake_signal\<lparr>le_session_id := ''home-ann''\<rparr>])]\<rparr>"

theorem renamed_home_misses_log_witness:
  "\<exists>st'. rename_session_id ''home-ann'' ''account-ann'' old_home = Inr (True, st') \<and> log_view st' ''account-ann'' = []
     \<and> session_log_entries_after_cursor (snd (append_session_log_entry ''account-ann'' (le_item wake_signal) ''t'' [] st'))
          ''account-ann'' GoalManager = []"
proof -
  obtain st' where r: "rename_session_id ''home-ann'' ''account-ann'' old_home = Inr (True, st')"
    by (simp add: rename_session_id_def old_home_def)
  have inv: "log_inv old_home"
    by (auto simp: old_home_def wake_signal_def blank_state_def log_inv_def log_view_def pending_log_def disk_log_def seq_from_def dict_get_def)
  have s: "get_session old_home ''home-ann'' = Some ((new_session ''home-ann'' [] [] ''S'' False)\<lparr>s_role_cursors := (\<lambda>_. 1)\<rparr>)"
    "st_session_logs old_home = []" "st_log_full_ids old_home = []" "disk_log old_home ''account-ann'' = []"
    by (simp_all add: old_home_def blank_state_def disk_log_def dict_get_def)
  from renamed_home_misses_log [OF r s(1) inv s(2-4)] r show ?thesis by auto
qed

end
