(* ===== verification/Graph_Queries.thy ===== *)
theory Graph_Queries
  imports Readiness
begin

section \<open>Distances in the session graph and the context of a goal\<close>

text \<open>
  The graph queries of goal/query.py. \<open>\_session\_graph\_distances\<close> is a breadth-first search that relaxes a distance it
  finds too large; it ends on every graph, since a relaxation either gives a node its first distance or lowers one.
\<close>

subsection \<open>The search\<close>

definition relax :: "nat \<Rightarrow> string \<Rightarrow> nat dict \<times> string list \<Rightarrow> nat dict \<times> string list" where
  "relax next_distance adjacent acc =
     (let (distances, pending) = acc in
      case map_of distances adjacent of
        Some n \<Rightarrow>
          if n \<le> next_distance then acc
          else (AList.update adjacent next_distance distances, pending @ [adjacent])
      | None \<Rightarrow> (AList.update adjacent next_distance distances, pending @ [adjacent]))"

text \<open>What makes the search end: the targets without a distance, then the sum of the distances.\<close>

definition graph_targets :: "string list dict \<Rightarrow> string set" where
  "graph_targets adjacency = set (concat (dict_values adjacency))"

definition unset :: "string list dict \<Rightarrow> nat dict \<Rightarrow> nat" where
  "unset adjacency d = card {a \<in> graph_targets adjacency. map_of d a = None}"

definition total :: "string list dict \<Rightarrow> nat dict \<Rightarrow> nat" where
  "total adjacency d = (\<Sum>a \<in> graph_targets adjacency. dict_get 0 d a)"

lemma finite_targets [simp]: "finite (graph_targets adjacency)"
  by (simp add: graph_targets_def)

lemma dict_get_targets: "set (dict_get [] adjacency c) \<subseteq> graph_targets adjacency"
  by (cases "map_of adjacency c") (auto simp: graph_targets_def dict_get_def dest!: map_of_SomeD)

definition lower :: "string list dict \<Rightarrow> nat dict \<Rightarrow> nat dict \<Rightarrow> bool" where
  "lower adjacency d' d \<longleftrightarrow>
     unset adjacency d' < unset adjacency d \<or> unset adjacency d' = unset adjacency d \<and> total adjacency d' < total adjacency d"

lemma relax_lower:
  assumes "a \<in> graph_targets adjacency" "relax n a (d, p) = (d', p')"
  shows "(d', p') = (d, p) \<or> lower adjacency d' d"
proof (cases "map_of d a")
  case None
  then have d': "d' = AList.update a n d" using assms(2) by (simp add: relax_def)
  have "{x \<in> graph_targets adjacency. map_of d' x = None} \<subset> {x \<in> graph_targets adjacency. map_of d x = None}"
    using assms(1) None by (auto simp: d')
  then have "unset adjacency d' < unset adjacency d"
    unfolding unset_def by (intro psubset_card_mono) simp_all
  then show ?thesis by (simp add: lower_def)
next
  case (Some m)
  show ?thesis
  proof (cases "m \<le> n")
    case True
    then show ?thesis using assms(2) Some by (simp add: relax_def)
  next
    case False
    then have d': "d' = AList.update a n d" using assms(2) Some by (simp add: relax_def)
    have "{x \<in> graph_targets adjacency. map_of d' x = None} = {x \<in> graph_targets adjacency. map_of d x = None}"
      using Some by (auto simp: d')
    then have "unset adjacency d' = unset adjacency d" by (simp add: unset_def)
    moreover have "total adjacency d' < total adjacency d"
      unfolding total_def
    proof (rule sum_strict_mono_ex1)
      show "\<forall>x \<in> graph_targets adjacency. dict_get 0 d' x \<le> dict_get 0 d x"
        using False Some by (simp add: d' dict_get_def)
      show "\<exists>x \<in> graph_targets adjacency. dict_get 0 d' x < dict_get 0 d x"
        using False Some assms(1) by (intro bexI [of _ a]) (simp_all add: d' dict_get_def)
    qed simp
    ultimately show ?thesis by (simp add: lower_def)
  qed
qed

lemma relax_all_lower:
  assumes "set xs \<subseteq> graph_targets adjacency" "fold (relax n) xs (d, p) = (d', p')"
  shows "(d', p') = (d, p) \<or> lower adjacency d' d"
  using assms
proof (induction xs arbitrary: d p)
  case (Cons x xs)
  obtain d1 p1 where one: "relax n x (d, p) = (d1, p1)" by (cases "relax n x (d, p)")
  have "(d1, p1) = (d, p) \<or> lower adjacency d1 d" using Cons.prems(1) by (intro relax_lower [OF _ one]) simp
  moreover have "(d', p') = (d1, p1) \<or> lower adjacency d' d1" using Cons one by simp
  ultimately show ?case by (auto simp: lower_def)
qed simp

text \<open>A pending session always has a distance; the lookup is total with 0 in its place.\<close>

function search_distances :: "string list dict \<Rightarrow> nat dict \<Rightarrow> string list \<Rightarrow> nat dict" where
  "search_distances adjacency distances [] = distances"
| "search_distances adjacency distances (current # pending) =
     (let (distances', pending') =
        fold (relax (dict_get 0 distances current + 1)) (dict_get [] adjacency current) (distances, pending)
      in search_distances adjacency distances' pending')"
  by pat_completeness auto

termination
proof (relation "measures [\<lambda>(adj, d, p). unset adj d, \<lambda>(adj, d, p). total adj d, \<lambda>(adj, d, p). length p]", goal_cases)
  case (2 adjacency distances current pending x distances' pending')
  then have "(distances', pending') = (distances, pending) \<or> lower adjacency distances' distances"
    by (intro relax_all_lower [OF dict_get_targets]) simp
  then show ?case by (auto simp: lower_def)
qed simp

definition session_graph_distances :: "string list dict \<Rightarrow> string \<Rightarrow> nat dict" where
  "session_graph_distances adjacency start = search_distances adjacency [(start, 0)] [start]"

subsection \<open>The search finds shortest distances\<close>

lemma relax_props:
  assumes "relax n a (d, p) = (d', p')"
  shows "\<exists>k \<le> n. map_of d' a = Some k" "map_of d x = Some k \<Longrightarrow> \<exists>k' \<le> k. map_of d' x = Some k'"
    "set p \<subseteq> set p'" "map_of d' x \<noteq> map_of d x \<Longrightarrow> x = a \<and> map_of d' x = Some n \<and> x \<in> set p'"
  using assms by (auto simp: relax_def split: option.splits if_splits)

lemma relax_all_props:
  assumes "fold (relax n) xs (d, p) = (d', p')"
  shows "\<forall>a \<in> set xs. \<exists>k \<le> n. map_of d' a = Some k"
    and "map_of d x = Some k \<Longrightarrow> \<exists>k' \<le> k. map_of d' x = Some k'"
    and "set p \<subseteq> set p'"
    and "map_of d' x \<noteq> map_of d x \<Longrightarrow> x \<in> set xs \<and> map_of d' x = Some n \<and> x \<in> set p'"
proof -
  have "(\<forall>a \<in> set xs. \<exists>k \<le> n. map_of d' a = Some k) \<and> (\<forall>x k. map_of d x = Some k \<longrightarrow> (\<exists>k' \<le> k. map_of d' x = Some k'))
    \<and> set p \<subseteq> set p' \<and> (\<forall>x. map_of d' x \<noteq> map_of d x \<longrightarrow> x \<in> set xs \<and> map_of d' x = Some n \<and> x \<in> set p')"
    using assms
  proof (induction xs arbitrary: d p)
    case (Cons a xs)
    obtain d1 p1 where one: "relax n a (d, p) = (d1, p1)" by (cases "relax n a (d, p)")
    then have rest: "fold (relax n) xs (d1, p1) = (d', p')" using Cons.prems by simp
    note IH = Cons.IH [OF rest] and f = relax_props [OF one]
    have "\<exists>k \<le> n. map_of d' a = Some k" using f(1) IH by (meson order_trans)
    moreover have "\<forall>x k. map_of d x = Some k \<longrightarrow> (\<exists>k' \<le> k. map_of d' x = Some k')" using f(2) IH by (meson order_trans)
    moreover have "\<forall>x. map_of d' x \<noteq> map_of d x \<longrightarrow> x \<in> set (a # xs) \<and> map_of d' x = Some n \<and> x \<in> set p'"
      using f(4) IH by (metis list.set_intros subsetD)
    ultimately show ?case using IH f(3) by auto
  qed simp
  then show "\<forall>a \<in> set xs. \<exists>k \<le> n. map_of d' a = Some k" "map_of d x = Some k \<Longrightarrow> \<exists>k' \<le> k. map_of d' x = Some k'"
    "set p \<subseteq> set p'" "map_of d' x \<noteq> map_of d x \<Longrightarrow> x \<in> set xs \<and> map_of d' x = Some n \<and> x \<in> set p'" by auto
qed

lemma relax_all_pending: "fold (relax n) xs (d, p) = (d', p') \<Longrightarrow> set p' \<subseteq> set p \<union> set xs"
proof (induction xs arbitrary: d p)
  case (Cons a xs)
  obtain d1 p1 where one: "relax n a (d, p) = (d1, p1)" by (cases "relax n a (d, p)")
  then have "p1 = p \<or> p1 = p @ [a]" by (auto simp: relax_def split: option.splits if_splits)
  then show ?case using Cons.IH [of d1 p1] Cons.prems one by auto
qed simp

definition search_inv :: "string list dict \<Rightarrow> string \<Rightarrow> nat dict \<Rightarrow> string list \<Rightarrow> bool" where
  "search_inv adjacency start d p \<longleftrightarrow>
     map_of d start = Some 0
     \<and> (\<forall>x n. map_of d x = Some n \<longrightarrow> (start, x) \<in> succ_rel adjacency ^^ n)
     \<and> (\<forall>x \<in> set p. map_of d x \<noteq> None)
     \<and> (\<forall>x n y. map_of d x = Some n \<longrightarrow> x \<notin> set p \<longrightarrow> (x, y) \<in> succ_rel adjacency \<longrightarrow> (\<exists>k \<le> Suc n. map_of d y = Some k))"

lemma search_inv_step:
  assumes "search_inv adjacency start d (c # p)"
    "fold (relax (dict_get 0 d c + 1)) (dict_get [] adjacency c) (d, p) = (d', p')"
  shows "search_inv adjacency start d' p'"
proof -
  obtain m where m: "map_of d c = Some m" using assms(1) by (auto simp: search_inv_def)
  then have get: "dict_get 0 d c = m" by (simp add: dict_get_def)
  note f = relax_all_props [OF assms(2) [unfolded get]]
  have reach: "(start, x) \<in> succ_rel adjacency ^^ n" if "map_of d x = Some n" for x n
    using assms(1) that by (simp add: search_inv_def)
  have start: "map_of d' start = Some 0" using f(2) [of start 0] assms(1) by (auto simp: search_inv_def)
  have sound: "(start, x) \<in> succ_rel adjacency ^^ n" if x: "map_of d' x = Some n" for x n
  proof (cases "map_of d' x = map_of d x")
    case True
    then show ?thesis using reach x by simp
  next
    case False
    from f(4) [OF this] x have "n = Suc m" "(c, x) \<in> succ_rel adjacency" by (simp_all add: succ_rel_def)
    then show ?thesis using reach [OF m] by auto
  qed
  have pending: "map_of d' x \<noteq> None" if "x \<in> set p'" for x
  proof (cases "map_of d' x = map_of d x")
    case True
    from relax_all_pending [OF assms(2)] that have "x \<in> set p \<or> map_of d' x \<noteq> None" using f(1) by fastforce
    then show ?thesis using assms(1) True by (auto simp: search_inv_def)
  next
    case False
    from f(4) [OF this] show ?thesis by simp
  qed
  have relaxed: "\<exists>k \<le> Suc n. map_of d' y = Some k"
    if x: "map_of d' x = Some n" "x \<notin> set p'" "(x, y) \<in> succ_rel adjacency" for x n y
  proof -
    have same: "map_of d x = Some n" using f(4) [of x] x(1,2) by fastforce
    show ?thesis
    proof (cases "x = c")
      case True
      then have "n = m" using m same by simp
      then show ?thesis using f(1) x(3) True by (auto simp: succ_rel_def)
    next
      case False
      then have "x \<notin> set (c # p)" using x(2) f(3) by auto
      then obtain k where "k \<le> Suc n" "map_of d y = Some k" using assms(1) same x(3) unfolding search_inv_def by blast
      then show ?thesis using f(2) [of y k] by (meson order_trans)
    qed
  qed
  show ?thesis unfolding search_inv_def using start sound pending relaxed by blast
qed

lemma search_inv_end: "search_inv adjacency start d p \<Longrightarrow> search_inv adjacency start (search_distances adjacency d p) []"
proof (induction adjacency d p rule: search_distances.induct)
  case (2 adjacency d c p)
  obtain d' p' where f: "fold (relax (dict_get 0 d c + 1)) (dict_get [] adjacency c) (d, p) = (d', p')"
    by (cases "fold (relax (dict_get 0 d c + 1)) (dict_get [] adjacency c) (d, p)")
  from "2.IH" [OF f [symmetric] refl search_inv_step [OF "2.prems" f]] show ?case using f by simp
qed simp

lemma search_inv_complete:
  assumes "search_inv adjacency start d []" "(start, x) \<in> succ_rel adjacency ^^ n"
  shows "\<exists>k \<le> n. map_of d x = Some k"
  using assms(2)
proof (induction n arbitrary: x)
  case 0
  then show ?case using assms(1) by (simp add: search_inv_def)
next
  case (Suc n)
  then obtain y where y: "(start, y) \<in> succ_rel adjacency ^^ n" "(y, x) \<in> succ_rel adjacency" by auto
  from Suc.IH [OF y(1)] obtain k where "k \<le> n" "map_of d y = Some k" by blast
  have "\<forall>x n y. map_of d x = Some n \<longrightarrow> (x, y) \<in> succ_rel adjacency \<longrightarrow> (\<exists>k \<le> Suc n. map_of d y = Some k)"
    using assms(1) by (simp add: search_inv_def)
  then obtain j where "j \<le> Suc k" "map_of d x = Some j" using \<open>map_of d y = Some k\<close> y(2) by blast
  then show ?case using \<open>k \<le> n\<close> by (meson Suc_le_mono order_trans)
qed

text \<open>C24: The search of \<open>\_session\_graph\_distances\<close> ends on every graph, cyclic ones too, and equals the reference: a
  session has a distance exactly when it can be reached, and the distance is the length of a shortest path.\<close>

theorem distances_are_shortest:
  "map_of (session_graph_distances adjacency start) x = Some n
     \<longleftrightarrow> (start, x) \<in> succ_rel adjacency ^^ n \<and> (\<forall>k < n. (start, x) \<notin> succ_rel adjacency ^^ k)"
proof -
  let ?d = "session_graph_distances adjacency start"
  have "search_inv adjacency start [(start, 0)] [start]" by (auto simp: search_inv_def split: if_splits)
  then have inv: "search_inv adjacency start ?d []" unfolding session_graph_distances_def by (rule search_inv_end)
  have sound: "(start, x) \<in> succ_rel adjacency ^^ n" if "map_of ?d x = Some n" for n
    using inv that by (simp add: search_inv_def)
  note complete = search_inv_complete [OF inv]
  show ?thesis
  proof (intro iffI conjI allI impI; (elim conjE)?)
    assume d: "map_of ?d x = Some n"
    then show "(start, x) \<in> succ_rel adjacency ^^ n" by (rule sound)
    fix k assume "k < n"
    then show "(start, x) \<notin> succ_rel adjacency ^^ k" using complete [of x k] d by auto
  next
    assume n: "(start, x) \<in> succ_rel adjacency ^^ n" "\<forall>k < n. (start, x) \<notin> succ_rel adjacency ^^ k"
    from complete [OF n(1)] obtain k where k: "k \<le> n" "map_of ?d x = Some k" by blast
    with sound n(2) have "k = n" by (metis le_neq_implies_less)
    then show "map_of ?d x = Some n" using k by simp
  qed
qed

subsection \<open>The context of a goal\<close>

text \<open>\<open>session\_goal\_dag\<close>; edges without a parent or a child take no part in the search.\<close>

datatype relation = Ancestor | Focus | Descendant

record dag_node =
  dn_session_id :: string
  dn_title :: string
  dn_active :: bool
  dn_unit_id :: string
  dn_relation :: relation
  dn_distance :: nat
  dn_goal :: "(string \<times> string \<times> string \<times> string) option"

record dag =
  dag_focus :: string
  dag_include_descendants :: bool
  dag_nodes :: "dag_node list"
  dag_edges :: "(edge \<times> string) list"

definition linked_edges :: "state \<Rightarrow> edge list" where
  "linked_edges st = filter (\<lambda>e. e_parent e \<noteq> [] \<and> e_child e \<noteq> []) (st_session_edges st)"

definition parents_by_child :: "edge list \<Rightarrow> string list dict" where
  "parents_by_child edges =
     fold (\<lambda>e d. AList.update (e_child e) (dict_get [] d (e_child e) @ [e_parent e]) d) edges []"

definition current_goal_map :: "state \<Rightarrow> goal dict" where
  "current_goal_map st = fold (\<lambda>g. AList.update (g_session_id g) g) (current_goals st) []"

definition dag_node_of :: "state \<Rightarrow> string \<Rightarrow> nat dict \<Rightarrow> nat dict \<Rightarrow> string \<Rightarrow> dag_node option" where
  "dag_node_of st focus ancestors descendants selected =
     (case get_session st selected of
        None \<Rightarrow> None
      | Some s \<Rightarrow>
          let (relation, distance) =
                (if selected = focus then (Focus, 0)
                 else case map_of ancestors selected of
                   Some n \<Rightarrow> (Ancestor, n)
                 | None \<Rightarrow> (Descendant, dict_get 0 descendants selected))
          in Some \<lparr>dn_session_id = selected, dn_title = s_title s, dn_active = s_active s, dn_unit_id = s_unit_id s,
                   dn_relation = relation, dn_distance = distance,
                   dn_goal = map_option (\<lambda>g. (g_goal_id g, g_body g, completion_name (g_completion_state g), g_completion_reason g))
                     (map_of (current_goal_map st) selected)\<rparr>)"

fun relation_order :: "relation \<Rightarrow> int" where
  "relation_order Ancestor = 0"
| "relation_order Focus = 1"
| "relation_order Descendant = 2"

definition dag_node_key :: "dag_node \<Rightarrow> int \<times> int \<times> string" where
  "dag_node_key n =
     (relation_order (dn_relation n), if dn_relation n = Ancestor then - int (dn_distance n) else int (dn_distance n), dn_session_id n)"

definition session_goal_dag :: "string \<Rightarrow> bool \<Rightarrow> state \<Rightarrow> dag res" where
  "session_goal_dag session_id include_descendants st =
     (if get_session st session_id = None then Inl (StoreError (''unknown session: '' @ session_id))
      else
        let edges = linked_edges st;
            ancestors = session_graph_distances (parents_by_child edges) session_id;
            descendants = (if include_descendants then session_graph_distances (children_by_parent edges) session_id
                           else [(session_id, 0)]);
            selected = sorted_set (dict_keys ancestors @ dict_keys descendants);
            goals = current_goal_map st;
            has_goal = (\<lambda>sid. map_of goals sid \<noteq> None)
        in Inr \<lparr>dag_focus = session_id, dag_include_descendants = include_descendants,
             dag_nodes = sort_key dag_node_key (List.map_filter (dag_node_of st session_id ancestors descendants) selected),
             dag_edges = sort_key (\<lambda>(e, _). (e_parent e, e_child e))
               (map (\<lambda>e. (e, if has_goal (e_parent e) \<and> has_goal (e_child e) then ''subgoal'' else ''context''))
                 (filter (\<lambda>e. e_parent e \<in> set selected \<and> e_child e \<in> set selected) (st_session_edges st)))\<rparr>)"

text \<open>\<open>parents\<close>, \<open>children\<close> and \<open>session\_graph\<close>.\<close>

definition parents :: "string \<Rightarrow> state \<Rightarrow> edge list res" where
  "parents session_id st =
     (if get_session st session_id = None then Inl (StoreError (''unknown session: '' @ session_id))
      else Inr (sort_key e_parent (filter (\<lambda>e. e_child e = session_id) (st_session_edges st))))"

definition children :: "string \<Rightarrow> state \<Rightarrow> edge list res" where
  "children session_id st =
     (if get_session st session_id = None then Inl (StoreError (''unknown session: '' @ session_id))
      else Inr (sort_key e_child (filter (\<lambda>e. e_parent e = session_id) (st_session_edges st))))"

definition session_graph_query :: "state \<Rightarrow> session list \<times> edge list" where
  "session_graph_query st =
     (sort_key s_session_id (dict_values (st_sessions st)), sort_key (\<lambda>e. (e_parent e, e_child e)) (st_session_edges st))"

text \<open>
  \<open>active\_incomplete\_session\_graph\<close>; the window is \<open>hours\<close> in microseconds, and \<open>now\<close> the instant given or read. A
  time stamp that does not parse leaves its session out; one that overflows in the conversion to UTC is not caught.
\<close>

definition recently_updated :: "goal dict \<Rightarrow> instant \<Rightarrow> state \<Rightarrow> session \<Rightarrow> session list \<Rightarrow> session list res" where
  "recently_updated goals cutoff st s chosen =
     (if \<not> s_active s then Inr chosen
      else case map_of goals (s_session_id s) of
        None \<Rightarrow> Inr chosen
      | Some g \<Rightarrow>
          if g_completion_state g \<noteq> Incomplete then Inr chosen
          else (case parse_utc st (s_updated_at s) of
             Inl (OverflowError m) \<Rightarrow> Inl (OverflowError m)
           | Inl _ \<Rightarrow> Inr chosen
           | Inr t \<Rightarrow> Inr (if t < cutoff then chosen else chosen @ [s])))"

definition active_incomplete_session_graph :: "int \<Rightarrow> instant \<Rightarrow> state \<Rightarrow> (session list \<times> edge list \<times> instant) res" where
  "active_incomplete_session_graph window_us now st =
     (if window_us \<le> 0 then Inl (StoreError ''graph hours must be positive'')
      else if now - window_us < min_instant then Inl (StoreError ''graph hours are too large'')
      else
        bindR (foldR (recently_updated (current_goal_map st) (now - window_us) st) (dict_values (st_sessions st)) []) (\<lambda>chosen.
          let ids = map s_session_id chosen
          in Inr (sort_key s_session_id chosen,
                  sort_key (\<lambda>e. (e_parent e, e_child e))
                    (filter (\<lambda>e. e_parent e \<in> set ids \<and> e_child e \<in> set ids) (st_session_edges st)),
                  now - window_us)))"

subsection \<open>The context is complete\<close>

lemma dict_get_parents_fold:
  "dict_get [] (fold (\<lambda>e d. AList.update (e_child e) (dict_get [] d (e_child e) @ [e_parent e]) d) edges d) c
     = dict_get [] d c @ map e_parent (filter (\<lambda>e. e_child e = c) edges)"
  by (induction edges arbitrary: d) auto

lemma succ_rel_parents [simp]: "succ_rel (parents_by_child edges) = (edge_rel edges)\<inverse>"
  by (auto simp: succ_rel_def edge_rel_def parents_by_child_def dict_get_parents_fold)

lemma distance_keys: "x \<in> set (dict_keys (session_graph_distances adjacency start)) \<longleftrightarrow> (start, x) \<in> (succ_rel adjacency)\<^sup>*"
proof -
  have "search_inv adjacency start [(start, 0)] [start]" by (auto simp: search_inv_def split: if_splits)
  then have inv: "search_inv adjacency start (session_graph_distances adjacency start) []"
    unfolding session_graph_distances_def by (rule search_inv_end)
  let ?d = "session_graph_distances adjacency start"
  have "x \<in> set (dict_keys ?d) \<longleftrightarrow> (\<exists>n. map_of ?d x = Some n)"
    by (metis map_of_eq_None_iff not_None_eq list.set_map)
  also have "\<dots> \<longleftrightarrow> (\<exists>n. (start, x) \<in> succ_rel adjacency ^^ n)"
    using inv search_inv_complete [OF inv, of x] unfolding search_inv_def by blast
  finally show ?thesis by (simp add: rtrancl_power)
qed

lemma dag_node_of_facts:
  assumes "dag_node_of st focus a d x = Some n"
  shows "dn_session_id n = x" "get_session st x \<noteq> None"
    "dn_relation n = (if x = focus then Focus else if map_of a x \<noteq> None then Ancestor else Descendant)"
  using assms by (auto simp: dag_node_of_def Let_def split: option.splits if_splits)

lemma dag_node_of_None: "dag_node_of st focus a d x = None \<longleftrightarrow> get_session st x = None"
  by (auto simp: dag_node_of_def Let_def split: option.splits prod.splits)

text \<open>C25: The context of a goal holds exactly the family of its session: the sessions of the store that are above it, below
  it (when descendants are asked for) or itself. Each is labelled with its relation to the session, and an edge of
  the store is shown exactly when both its ends are in the family.\<close>

theorem goal_dag_is_family:
  assumes "session_goal_dag sid below st = Inr d"
  shows "let R = edge_rel (linked_edges st); family = {x. (x, sid) \<in> R\<^sup>* \<or> below \<and> (sid, x) \<in> R\<^sup>*} in
      dn_session_id ` set (dag_nodes d) = {x \<in> family. get_session st x \<noteq> None}
      \<and> (\<forall>n \<in> set (dag_nodes d). dn_relation n =
           (if dn_session_id n = sid then Focus else if (dn_session_id n, sid) \<in> R\<^sup>* then Ancestor else Descendant))
      \<and> fst ` set (dag_edges d) = {e \<in> set (st_session_edges st). e_parent e \<in> family \<and> e_child e \<in> family}"
proof -
  let ?R = "edge_rel (linked_edges st)"
  let ?a = "session_graph_distances (parents_by_child (linked_edges st)) sid"
  let ?b = "if below then session_graph_distances (children_by_parent (linked_edges st)) sid else [(sid, 0)]"
  define family where "family = {x. (x, sid) \<in> ?R\<^sup>* \<or> below \<and> (sid, x) \<in> ?R\<^sup>*}"
  have up: "x \<in> set (dict_keys ?a) \<longleftrightarrow> (x, sid) \<in> ?R\<^sup>*" for x
    unfolding distance_keys by (simp add: rtrancl_converse)
  have down: "x \<in> set (dict_keys ?b) \<longleftrightarrow> below \<and> (sid, x) \<in> ?R\<^sup>* \<or> \<not> below \<and> x = sid" for x
    using distance_keys [of x "children_by_parent (linked_edges st)" sid] by (cases below) simp_all
  have sel: "set (sorted_set (dict_keys ?a @ dict_keys ?b)) = family"
  proof -
    have "set (sorted_set (dict_keys ?a @ dict_keys ?b)) = set (dict_keys ?a) \<union> set (dict_keys ?b)" by (simp only: set_sorted_set set_append)
    then show ?thesis using up down by (auto simp: family_def simp del: set_map)
  qed
  have anc: "map_of ?a x \<noteq> None \<longleftrightarrow> (x, sid) \<in> ?R\<^sup>*" for x
    using up [of x] by (metis map_of_eq_None_iff list.set_map)
  have nodes: "set (dag_nodes d) = {n. \<exists>x \<in> family. dag_node_of st sid ?a ?b x = Some n}"
    and edges: "fst ` set (dag_edges d) = {e \<in> set (st_session_edges st). e_parent e \<in> family \<and> e_child e \<in> family}"
  proof -
    define selected where "selected = sorted_set (dict_keys ?a @ dict_keys ?b)"
    have d: "dag_nodes d = sort_key dag_node_key (List.map_filter (dag_node_of st sid ?a ?b) selected)"
      "dag_edges d = sort_key (\<lambda>(e, _). (e_parent e, e_child e))
         (map (\<lambda>e. (e, if map_of (current_goal_map st) (e_parent e) \<noteq> None \<and> map_of (current_goal_map st) (e_child e) \<noteq> None
                       then ''subgoal'' else ''context''))
           (filter (\<lambda>e. e_parent e \<in> set selected \<and> e_child e \<in> set selected) (st_session_edges st)))"
      using assms unfolding session_goal_dag_def Let_def selected_def by (auto split: if_splits simp del: set_sorted_set)
    have "set (List.map_filter f xs) = {n. \<exists>x \<in> set xs. f x = Some n}" for f :: "string \<Rightarrow> dag_node option" and xs
      by (induction xs) (auto simp: List.map_filter_def)
    then show "set (dag_nodes d) = {n. \<exists>x \<in> family. dag_node_of st sid ?a ?b x = Some n}"
      unfolding d(1) set_sort sel [folded selected_def, symmetric] by simp
    show "fst ` set (dag_edges d) = {e \<in> set (st_session_edges st). e_parent e \<in> family \<and> e_child e \<in> family}"
      unfolding d(2) set_sort sel [folded selected_def, symmetric] by (simp add: image_image)
  qed
  have ids: "dn_session_id ` set (dag_nodes d) = {x \<in> family. get_session st x \<noteq> None}"
  proof (intro equalityI subsetI)
    fix x assume "x \<in> dn_session_id ` set (dag_nodes d)"
    then obtain n y where "y \<in> family" "dag_node_of st sid ?a ?b y = Some n" "x = dn_session_id n" by (auto simp: nodes)
    with dag_node_of_facts(1,2) [OF this(2)] show "x \<in> {x \<in> family. get_session st x \<noteq> None}" by simp
  next
    fix x assume x: "x \<in> {x \<in> family. get_session st x \<noteq> None}"
    then have "dag_node_of st sid ?a ?b x \<noteq> None" by (simp add: dag_node_of_None)
    then obtain n where n: "dag_node_of st sid ?a ?b x = Some n" by blast
    then have "n \<in> set (dag_nodes d)" using x nodes by blast
    then show "x \<in> dn_session_id ` set (dag_nodes d)" by (rule rev_image_eqI) (simp add: dag_node_of_facts(1) [OF n])
  qed
  have "dn_relation n = (if dn_session_id n = sid then Focus else if (dn_session_id n, sid) \<in> ?R\<^sup>* then Ancestor else Descendant)"
    if "n \<in> set (dag_nodes d)" for n
  proof -
    from that nodes obtain x where "dag_node_of st sid ?a ?b x = Some n" by blast
    from dag_node_of_facts(1,3) [OF this] show ?thesis by (simp only: anc)
  qed
  then show ?thesis using ids edges unfolding Let_def family_def by blast
qed

end
