(* ===== verification/Query.thy ===== *)
theory Query
  imports Graph_Queries
begin

section \<open>Queries\<close>

text \<open>
  The rest of goal/query.py: what the program tells about a loaded state. Queries save nothing, except
  \<open>set\_dispatch\_lot\_size\<close>; the liveness queries refresh the readiness of the loaded state first. The texts of runs
  and threads are in the model's records, so hydrating them is the identity here.
\<close>

subsection \<open>Dispatch liveness\<close>

record live_item =
  li_session_id :: string
  li_goal_id :: string
  li_ready_roles :: "string list"
  li_running_roles :: "string list"
  li_waiting :: bool
  li_covered :: bool

record liveness_snapshot =
  sn_active_incomplete :: nat
  sn_covered :: nat
  sn_waiting :: nat
  sn_gap :: nat
  sn_orphaned_ids :: "string list"
  sn_orphaned_count :: nat
  sn_expired_ids :: "string list"
  sn_expired_count :: nat
  sn_sessions :: "live_item list"

definition acquired_runs :: "state \<Rightarrow> run list" where
  "acquired_runs st = filter (\<lambda>r. r_lease_state r = LeaseAcquired) (dict_values (st_dispatch_runs st))"

definition unexpired :: "string \<Rightarrow> run list \<Rightarrow> run list res" where
  "unexpired now runs =
     foldR (\<lambda>r acc. bindR (dispatch_lease_expired r now) (\<lambda>expired. Inr (if expired then acc else acc @ [r]))) runs []"

definition orphaned_readiness :: "run list \<Rightarrow> state \<Rightarrow> readiness list" where
  "orphaned_readiness live_runs st =
     filter (\<lambda>e. rd_status e = Acquired
         \<and> rd_readiness_id e \<notin> set (filter (\<lambda>i. i \<noteq> []) (map r_readiness_id live_runs)))
       (st_dispatch_readiness st)"

definition ready_roles :: "state \<Rightarrow> string \<Rightarrow> string list" where
  "ready_roles st goal_id =
     sorted_set (map (\<lambda>e. role_name (rd_role e))
       (filter (\<lambda>e. rd_status e = Ready \<and> rd_goal_id e = goal_id) (st_dispatch_readiness st)))"

definition running_roles :: "run list \<Rightarrow> string \<Rightarrow> string list" where
  "running_roles live_runs goal_id =
     sorted_set (map (\<lambda>r. role_name (r_role r)) (filter (\<lambda>r. r_goal_id r = goal_id) live_runs))"

definition must_be_covered :: "state \<Rightarrow> goal \<Rightarrow> bool" where
  "must_be_covered st g \<longleftrightarrow>
     g_archived_at g = [] \<and> g_completion_state g = Incomplete
     \<and> (case get_session st (g_session_id g) of
          None \<Rightarrow> False
        | Some s \<Rightarrow> s_active s \<and> \<not> unit_paused (map_of (st_units st) (s_unit_id s)))"

definition live_item_of :: "run list \<Rightarrow> state \<Rightarrow> goal \<Rightarrow> live_item" where
  "live_item_of live_runs st g =
     (let ready = ready_roles st (g_goal_id g); running = running_roles live_runs (g_goal_id g);
          waiting = (g_waiting g \<noteq> None)
      in \<lparr>li_session_id = g_session_id g, li_goal_id = g_goal_id g, li_ready_roles = ready, li_running_roles = running,
          li_waiting = waiting, li_covered = (ready \<noteq> [] \<or> running \<noteq> [] \<or> waiting)\<rparr>)"

definition dispatch_liveness_snapshot :: "state \<Rightarrow> (liveness_snapshot \<times> state) res" where
  "dispatch_liveness_snapshot st =
     (let (now, st1) = utc_now st; runs = acquired_runs st1
      in bindR (unexpired now runs) (\<lambda>live_runs.
         let orphaned = orphaned_readiness live_runs st1;
             sessions = sort_key li_session_id
               (map (live_item_of live_runs st1) (filter (must_be_covered st1) (current_goals st1)))
         in Inr (\<lparr>sn_active_incomplete = length sessions,
                  sn_covered = length (filter li_covered sessions),
                  sn_waiting = length (filter li_waiting sessions),
                  sn_gap = length (filter (\<lambda>i. \<not> li_covered i) sessions),
                  sn_orphaned_ids = sort (map rd_readiness_id orphaned), sn_orphaned_count = length orphaned,
                  sn_expired_ids = sort (map r_run_id (filter (\<lambda>r. r \<notin> set live_runs) runs)),
                  sn_expired_count = length runs - length live_runs,
                  sn_sessions = sessions\<rparr>, st1)))"

definition dispatch_liveness :: "state \<Rightarrow> (liveness_snapshot \<times> state) res" where
  "dispatch_liveness st = bindR (refresh_dispatch_readiness st) (\<lambda>(_, st1). dispatch_liveness_snapshot st1)"

subsection \<open>Status\<close>

definition dispatch_lot_size :: "state \<Rightarrow> int" where
  "dispatch_lot_size st = max 1 (if st_dispatch_lot_size st = 0 then 1 else st_dispatch_lot_size st)"

definition set_dispatch_lot_size :: "int \<Rightarrow> state \<Rightarrow> (int \<times> state) res" where
  "set_dispatch_lot_size lot_size st =
     (if lot_size < 1 then Inl (StoreError ''dispatch lot size must be positive'')
      else bindR (save (st\<lparr>st_dispatch_lot_size := lot_size\<rparr>)) (\<lambda>st1. Inr (lot_size, st1)))"

text \<open>The counts of \<open>status\<close> in its order; the version and the creation time of the store are not in the model.\<close>

definition count_if :: "('a \<Rightarrow> bool) \<Rightarrow> 'a list \<Rightarrow> int" where
  "count_if p xs = int (length (filter p xs))"

definition message_count :: "state \<Rightarrow> int" where
  "message_count st =
     sum_list (map (\<lambda>sid. count_if (\<lambda>e. item_message (le_item e) \<noteq> None) (disk_log st sid)) (dict_keys (st_disk_logs st)))"

definition status :: "state \<Rightarrow> ((string \<times> int) list \<times> state) res" where
  "status st =
     bindR (refresh_dispatch_readiness st) (\<lambda>(_, st1).
     bindR (dispatch_liveness_snapshot st1) (\<lambda>(sn, st2).
       let sessions = dict_values (st_sessions st2); goals = current_goals st2;
           incomplete = filter (\<lambda>g. g_completion_state g = Incomplete) goals;
           entries = st_dispatch_readiness st2
       in Inr ([(''unit_count'', int (length (st_units st2))),
                (''session_count'', int (length sessions)),
                (''active_session_count'', count_if s_active sessions),
                (''inactive_session_count'', count_if (\<lambda>s. \<not> s_active s) sessions),
                (''session_edge_count'', int (length (st_session_edges st2))),
                (''user_count'', int (length (st_users st2))),
                (''goal_count'', int (length goals)),
                (''incomplete_goal_count'', int (length incomplete)),
                (''complete_goal_count'', count_if (\<lambda>g. g_completion_state g = Complete) goals),
                (''active_incomplete_goal_count'', count_if (\<lambda>g.
                    case get_session st2 (g_session_id g) of None \<Rightarrow> False | Some s \<Rightarrow> s_active s) incomplete),
                (''dispatch_run_count'', int (length (st_dispatch_runs st2))),
                (''acquired_dispatch_lease_count'', int (length (acquired_runs st2))),
                (''dispatch_readiness_count'', int (length entries)),
                (''ready_dispatch_count'', count_if (\<lambda>e. rd_status e = Ready) entries),
                (''acquired_dispatch_readiness_count'', count_if (\<lambda>e. rd_status e = Acquired) entries),
                (''dispatch_liveness_gap_count'', int (sn_gap sn)),
                (''orphaned_acquired_readiness_count'', int (sn_orphaned_count sn)),
                (''expired_acquired_dispatch_lease_count'', int (sn_expired_count sn)),
                (''dispatch_lot_size'', dispatch_lot_size st2),
                (''agent_profile_count'', int (length (st_agent_profiles st2))),
                (''agent_thread_count'', int (length (st_agent_threads st2))),
                (''message_count'', message_count st2),
                (''endpoint_cursor_count'', int (length (st_endpoint_cursors st2)))], st2)))"

subsection \<open>Lists\<close>

text \<open>An empty \<open>session_id\<close> means every session, as the test \<open>if session_id\<close> has it.\<close>

definition goals :: "string \<Rightarrow> state \<Rightarrow> goal list" where
  "goals session_id st =
     sort_key goal_order (filter (\<lambda>g. session_id = [] \<or> g_session_id g = session_id) (current_goals st))"

definition dispatch_runs :: "string \<Rightarrow> state \<Rightarrow> run list" where
  "dispatch_runs session_id st =
     sort_key (\<lambda>r. (r_created_at r, r_run_id r))
       (filter (\<lambda>r. session_id = [] \<or> r_session_id r = session_id) (dict_values (st_dispatch_runs st)))"

fun readiness_name :: "readiness_status \<Rightarrow> string" where
  "readiness_name Ready = ''ready''"
| "readiness_name Acquired = ''acquired''"
| "readiness_name Resolved = ''resolved''"
| "readiness_name Stale = ''stale''"
| "readiness_name Failed = ''failed''"

definition dispatch_readiness :: "string \<Rightarrow> state \<Rightarrow> (readiness list \<times> state) res" where
  "dispatch_readiness session_id st =
     bindR (refresh_dispatch_readiness st) (\<lambda>(_, st1).
       let entries = filter (\<lambda>e. session_id = [] \<or> rd_session_id e = session_id) (st_dispatch_readiness st1)
       in Inr (sort_key (\<lambda>e. (readiness_name (rd_status e), rd_first_ready_at e, rd_session_id e, role_name (rd_role e))) entries,
               st1))"

definition agent_threads :: "string \<Rightarrow> state \<Rightarrow> agent_thread list" where
  "agent_threads session_id st =
     sort_key (\<lambda>t. (th_session_id t, role_name (th_role t)))
       (filter (\<lambda>t. session_id = [] \<or> th_session_id t = session_id) (dict_values (st_agent_threads st)))"

definition session_query :: "string \<Rightarrow> state \<Rightarrow> session res" where
  "session_query session_id st =
     (case get_session st session_id of
        None \<Rightarrow> Inl (StoreError (''unknown session: '' @ session_id)) | Some s \<Rightarrow> Inr s)"

definition units :: "state \<Rightarrow> unit_rec list" where
  "units st = sort_key un_unit_id (dict_values (st_units st))"

definition sessions :: "state \<Rightarrow> session list" where
  "sessions st = sort_key s_session_id (dict_values (st_sessions st))"

definition messages_query :: "string \<Rightarrow> state \<Rightarrow> message list \<times> state" where
  "messages_query session_id st = (if session_id = [] then all_messages st else session_messages session_id (snd (all_messages st)))"

definition session_log :: "string \<Rightarrow> nat option \<Rightarrow> nat option \<Rightarrow> int \<Rightarrow> role option \<Rightarrow> bool \<Rightarrow> state
    \<Rightarrow> (log_entry list \<times> state) res" where
  "session_log session_id from_seq to_seq limit role after_cursor st =
     (case get_session st session_id of
        None \<Rightarrow> Inl (StoreError (''unknown session: '' @ session_id))
      | Some s \<Rightarrow>
          if after_cursor \<and> role = None then Inl (StoreError ''--after-cursor requires --role'')
          else
            let first = (if after_cursor
                  then Some (max (case from_seq of None \<Rightarrow> 0 | Some n \<Rightarrow> n) (s_role_cursors s (the role) + 1)) else from_seq);
                (entries, st1) = session_log_entries session_id st;
                chosen = filter (\<lambda>e. (case first of None \<Rightarrow> True | Some n \<Rightarrow> n \<le> le_seq e)
                                   \<and> (case to_seq of None \<Rightarrow> True | Some n \<Rightarrow> le_seq e \<le> n)) entries
            in Inr (if 0 < limit then drop (length chosen - nat limit) chosen else chosen, st1))"

end
