(* ===== verification/Query_Rules.thy ===== *)
theory Query_Rules
  imports Query Dispatch_Leases
begin

section \<open>What the liveness query shows after a pass\<close>

lemma unexpired_filter:
  assumes "unexpired now runs = Inr live"
  shows "live = filter (\<lambda>r. dispatch_lease_expired r now = Inr False) runs"
proof -
  have "live = acc @ filter (\<lambda>r. dispatch_lease_expired r now = Inr False) runs"
    if "foldR (\<lambda>r acc. bindR (dispatch_lease_expired r now) (\<lambda>expired. Inr (if expired then acc else acc @ [r]))) runs acc = Inr live"
    for acc
    using that
  proof (induction runs arbitrary: acc)
    case (Cons r runs)
    then obtain b where "dispatch_lease_expired r now = Inr b" by (auto simp: bindR_Inr_iff)
    then show ?case using Cons.IH [of "if b then acc else acc @ [r]"] Cons.prems by (cases b) simp_all
  qed simp
  from this [of "[]"] assms show ?thesis by (simp add: unexpired_def)
qed

lemma filter_all_kept: "length xs - length (filter p xs) = 0 \<Longrightarrow> filter p xs = xs"
  by (metis diff_is_0_eq filter_True length_filter_less not_less)

text \<open>The entry of a lease and its run are about the same goal.\<close>

definition leases_agree :: "state \<Rightarrow> bool" where
  "leases_agree st \<longleftrightarrow>
     (\<forall>e \<in> set (st_dispatch_readiness st). \<forall>r \<in> set (acquired_runs st).
        rd_status e = Acquired \<longrightarrow> r_readiness_id r = rd_readiness_id e \<longrightarrow> r_goal_id r = rd_goal_id e)"

lemma role_lists [simp]:
  "ready_roles st gid \<noteq> [] \<longleftrightarrow> (\<exists>e \<in> set (st_dispatch_readiness st). rd_status e = Ready \<and> rd_goal_id e = gid)"
  "running_roles runs gid \<noteq> [] \<longleftrightarrow> (\<exists>r \<in> set runs. r_goal_id r = gid)"
proof -
  have e: "sorted_set xs \<noteq> [] \<longleftrightarrow> xs \<noteq> []" for xs :: "string list" by (metis set_empty set_sorted_set)
  show "ready_roles st gid \<noteq> [] \<longleftrightarrow> (\<exists>e \<in> set (st_dispatch_readiness st). rd_status e = Ready \<and> rd_goal_id e = gid)"
    "running_roles runs gid \<noteq> [] \<longleftrightarrow> (\<exists>r \<in> set runs. r_goal_id r = gid)"
    unfolding ready_roles_def running_roles_def e by (simp_all add: filter_empty_conv)
qed

lemma covered_iff:
  "li_covered (live_item_of runs st g) \<longleftrightarrow>
     (\<exists>e \<in> set (st_dispatch_readiness st). rd_status e = Ready \<and> rd_goal_id e = g_goal_id g)
     \<or> (\<exists>r \<in> set runs. r_goal_id r = g_goal_id g) \<or> g_waiting g \<noteq> None"
  unfolding live_item_of_def Let_def live_item.select_convs role_lists ..

text \<open>A goal that has work is shown as covered, when no lease is expired and no acquired entry is orphaned.\<close>

lemma live_goal_covered:
  assumes "g_goal_id g \<in> set (live_goal_ids st)" "leases_agree st" "orphaned_readiness (acquired_runs st) st = []"
  shows "li_covered (live_item_of (acquired_runs st) st g)"
proof -
  have ids: "live_goal_ids st = map rd_goal_id (filter (\<lambda>e. live_status (rd_status e)) (st_dispatch_readiness st))
      @ map r_goal_id (acquired_runs st)" by (simp add: live_goal_ids_def acquired_runs_def)
  from assms(1) consider
      e where "e \<in> set (st_dispatch_readiness st)" "rd_goal_id e = g_goal_id g" "rd_status e = Ready"
    | e where "e \<in> set (st_dispatch_readiness st)" "rd_goal_id e = g_goal_id g" "rd_status e = Acquired"
    | r where "r \<in> set (acquired_runs st)" "r_goal_id r = g_goal_id g"
    by (force simp: ids live_status_def)
  then show ?thesis
  proof cases
    case (2 e)
    then have "rd_readiness_id e \<in> set (map r_readiness_id (acquired_runs st))"
      using assms(3) by (auto simp: orphaned_readiness_def filter_empty_conv)
    then obtain r where "r \<in> set (acquired_runs st)" "r_readiness_id r = rd_readiness_id e" by auto
    with 2 assms(2) have "r_goal_id r = g_goal_id g" by (auto simp: leases_agree_def)
    with \<open>r \<in> _\<close> show ?thesis unfolding covered_iff by blast
  qed (unfold covered_iff, blast+)
qed


end
