(* ===== verification/Query_Example.thy ===== *)
theory Query_Example
  imports Dispatch_Example Query_Rules
begin

section \<open>Queries on small stores\<close>

text \<open>A cycle of two, a parent with its child, and the store of the dispatch example after a pass.\<close>

theorem distances_are_shortest_witness:
  "(''a'', ''c'') \<in> succ_rel [(''a'', [''b'']), (''b'', [''a'', ''c''])] ^^ 2
     \<and> (''a'', ''c'') \<notin> succ_rel [(''a'', [''b'']), (''b'', [''a'', ''c''])] ^^ 1"
proof -
  have "map_of (session_graph_distances [(''a'', [''b'']), (''b'', [''a'', ''c''])] ''a'') ''c'' = Some 2" by code_simp
  note d = iffD1 [OF distances_are_shortest this]
  show ?thesis by (rule conjI [OF conjunct1 [OF d]]) (rule mp [OF spec [OF conjunct2 [OF d]]], simp)
qed

definition parent_and_child :: state where
  "parent_and_child = (blank_state (\<lambda>_. 86400000000) (\<lambda>i. i))\<lparr>
     st_sessions := [(''p'', new_session ''p'' [] [] ''P'' False), (''c'', new_session ''c'' [] [] ''C'' False)],
     st_session_edges := [\<lparr>e_parent = ''p'', e_child = ''c'', e_created_at = []\<rparr>]\<rparr>"

theorem goal_dag_is_family_witness:
  "\<exists>d. session_goal_dag ''c'' False parent_and_child = Inr d \<and> dn_session_id ` set (dag_nodes d) = {''p'', ''c''}"
proof -
  have s: "get_session parent_and_child x \<noteq> None \<longleftrightarrow> x \<in> {''p'', ''c''}" for x
    by (simp add: parent_and_child_def)
  obtain d where d: "session_goal_dag ''c'' False parent_and_child = Inr d"
    by (simp add: session_goal_dag_def parent_and_child_def Let_def)
  have "edge_rel (linked_edges parent_and_child) = {(''p'', ''c'')}"
    by (simp add: parent_and_child_def linked_edges_def edge_rel_def)
  then have "(x, ''c'') \<in> (edge_rel (linked_edges parent_and_child))\<^sup>*" if "x \<in> {''p'', ''c''}" for x
    using that by auto
  then have "{x \<in> {x. (x, ''c'') \<in> (edge_rel (linked_edges parent_and_child))\<^sup>* \<or> False \<and> (''c'', x) \<in> (edge_rel (linked_edges parent_and_child))\<^sup>*}.
      get_session parent_and_child x \<noteq> None} = {''p'', ''c''}" unfolding s by auto
  then show ?thesis using goal_dag_is_family [OF d] d unfolding Let_def by metis
qed

lemma asleep_cursors: "owners_ok asleep" "cursors_ok asleep"
  by (auto simp: asleep_def blank_state_def owners_ok_def cursors_ok_def role_cursor_def new_session_def split: if_splits)


end
