(* ===== verification/Auth.thy ===== *)
theory Auth
  imports Store_Defaults
begin

section \<open>Accounts\<close>

text \<open>
  kernel/auth.py. \<open>hash\<close> stands for PBKDF2 with the module's number of iterations, a function of the password and the
  salt; the random salt is an argument of the operations that draw one.
\<close>

record public_user =
  pu_username :: string
  pu_groups :: "string list"
  pu_created_at :: string
  pu_status :: string
  pu_provider :: string
  pu_home_unit_id :: string
  pu_home_session_id :: string

definition build_user :: "(string \<Rightarrow> string \<Rightarrow> string) \<Rightarrow> string \<Rightarrow> string \<Rightarrow> string \<Rightarrow> string list \<Rightarrow> string \<Rightarrow> user" where
  "build_user hash salt username password groups created_at =
     new_user username (hash password salt) salt groups created_at ''active'' []"

definition public_user :: "user \<Rightarrow> public_user" where
  "public_user u = \<lparr>pu_username = u_username u, pu_groups = u_groups u, pu_created_at = u_created_at u, pu_status = u_status u,
     pu_provider = u_provider u, pu_home_unit_id = u_home_unit_id u, pu_home_session_id = u_home_session_id u\<rparr>"

definition create_user ::
  "(string \<Rightarrow> string \<Rightarrow> string) \<Rightarrow> string \<Rightarrow> string \<Rightarrow> string \<Rightarrow> string list \<Rightarrow> state \<Rightarrow> (public_user \<times> state) res" where
  "create_user hash salt username password groups st =
     (let name = py_strip username in
      if name = [] then Inl (StoreError ''username is required'')
      else if starts_with ''svc-'' name then Inl (StoreError ''usernames starting with svc- are reserved for service users'')
      else if password = [] then Inl (StoreError ''password is required'')
      else if map_of (st_users st) name \<noteq> None then Inl (StoreError (''user already exists: '' @ name))
      else
        let (now, st1) = utc_now st;
            user = build_user hash salt name password (if groups = [] then [''user''] else groups) now
        in bindR (ensure_user_home_sessions now (st1\<lparr>st_users := AList.update name user (st_users st1)\<rparr>)) (\<lambda>(_, st2).
           bindR (save st2) (\<lambda>st3.
             (case map_of (st_users st3) name of
                None \<Rightarrow> Inl (KeyError name)
              | Some u \<Rightarrow> Inr (public_user u, st3)))))"

definition create_service_user :: "string \<Rightarrow> string list \<Rightarrow> string \<Rightarrow> state \<Rightarrow> (public_user \<times> state) res" where
  "create_service_user username groups provider st =
     (let name = py_strip username in
      if name = [] then Inl (StoreError ''username is required'')
      else if \<not> starts_with ''svc-'' name then Inl (StoreError ''service usernames must start with svc-'')
      else if map_of (st_users st) name \<noteq> None then Inl (StoreError (''user already exists: '' @ name))
      else
        let (now, st1) = utc_now st;
            user = new_user name [] [] (filter (\<lambda>g. g \<noteq> []) (map py_strip groups)) now ''service'' (py_lower (py_strip provider))
        in bindR (save (st1\<lparr>st_users := AList.update name user (st_users st1)\<rparr>)) (\<lambda>st2. Inr (public_user user, st2)))"

definition authenticate :: "(string \<Rightarrow> string \<Rightarrow> string) \<Rightarrow> string \<Rightarrow> string \<Rightarrow> state \<Rightarrow> public_user res" where
  "authenticate hash username password st =
     (case map_of (st_users st) username of
        None \<Rightarrow> Inl (StoreError ''authentication failed'')
      | Some u \<Rightarrow>
          if u_status u \<noteq> ''active'' then Inl (StoreError ''authentication failed'')
          else if u_password_hash u \<noteq> hash password (u_salt u) then Inl (StoreError ''authentication failed'')
          else Inr (public_user u))"

definition user_home_session :: "string \<Rightarrow> state \<Rightarrow> string res" where
  "user_home_session username st =
     (case map_of (st_users st) username of
        None \<Rightarrow> Inl (StoreError (''unknown user: '' @ username))
      | Some u \<Rightarrow>
          let home = py_strip (u_home_session_id u) in
          if home = [] then Inl (StoreError (''user has no home session: '' @ username))
          else if get_session st home = None then Inl (StoreError (''unknown user home session: '' @ home))
          else Inr home)"

definition users :: "state \<Rightarrow> public_user list" where
  "users st = sort_key pu_username (map public_user (dict_values (st_users st)))"

definition add_membership :: "user \<Rightarrow> string \<Rightarrow> string list dict \<Rightarrow> string list dict" where
  "add_membership u gname by_name =
     (let members = dict_get [] by_name (py_strip gname) in
      AList.update (py_strip gname) (if u_username u \<in> set members then members else members @ [u_username u]) by_name)"

definition group_members :: "state \<Rightarrow> (string \<times> string list) list" where
  "group_members st =
     map (\<lambda>(gname, members). (gname, sort members))
       (sort_key fst (fold (\<lambda>u. fold (add_membership u) (u_groups u)) (sort_key u_username (dict_values (st_users st))) []))"

end
