(* ===== verification/Auth_Rules.thy ===== *)
theory Auth_Rules
  imports Auth Store_Defaults_Rules
begin

section \<open>Who can log in\<close>

text \<open>What decides a login is untouched by the homes that creating an account sets up.\<close>

definition login_of :: "state \<Rightarrow> string \<Rightarrow> (string \<times> string \<times> string) option" where
  "login_of st n = map_option (\<lambda>u. (u_status u, u_password_hash u, u_salt u)) (map_of (st_users st) n)"

lemma authenticate_login:
  "isl (authenticate hash n q st) \<longleftrightarrow>
     (case login_of st n of None \<Rightarrow> True | Some (status, h, salt) \<Rightarrow> status \<noteq> ''active'' \<or> h \<noteq> hash q salt)"
  by (auto simp: authenticate_def login_of_def split: option.splits)

lemma login_of_cong: "st_users st' = st_users st \<Longrightarrow> login_of st' = login_of st"
  by (simp add: fun_eq_iff login_of_def)

lemma login_of_home:
  assumes "st_users x = AList.map_entry m f (st_users y)"
    "\<And>u. u_status (f u) = u_status u \<and> u_password_hash (f u) = u_password_hash u \<and> u_salt (f u) = u_salt u"
  shows "login_of x = login_of y"
  using assms by (auto simp: fun_eq_iff login_of_def option.map_comp comp_def)

lemma rename_session_users: "rename_session_id old new st = Inr (c, st') \<Longrightarrow> st_users st' = st_users st"
  by (auto simp: rename_session_id_def split: if_splits)

lemma ensure_user_home_login:
  assumes "ensure_user_home t m (c, st) = Inr (c', st')"
  shows "login_of st' = login_of st"
proof (cases "map_of (st_users st) m")
  case None
  then show ?thesis using assms by (simp add: ensure_user_home_def)
next
  case (Some u)
  show ?thesis
  proof (cases "u_status u = ''service''")
    case True
    then show ?thesis using assms Some by (simp add: ensure_user_home_def)
  next
    case False
    obtain c1 st1 c2 st2 c3 st3 c4 st4
      where one: "rename_home_session (u\<lparr>u_username := m\<rparr>) (account_home_session_id m) st = Inr (c1, st1)"
        and two: "rename_home_unit (u\<lparr>u_username := m\<rparr>) (account_home_session_id m) st1 = Inr (c2, st2)"
        and st3: "ensure_home_unit m (account_home_session_id m) t st2 = (c3, st3)"
        and st4: "ensure_home_session m (account_home_session_id m) t st3 = (c4, st4)"
        and st': "st' = st4 \<or> (\<exists>e. link_sessions_in_state ROOT_SESSION_ID (account_home_session_id m) st4 = Inr (e, st'))"
      by (rule ensure_user_home_parts [OF assms Some False])
    have "st_users st1 = st_users st
        \<or> st_users st1 = AList.map_entry m (\<lambda>u. u\<lparr>u_home_session_id := account_home_session_id m\<rparr>) (st_users st)"
      using one by (auto simp: rename_home_session_def bindR_Inr_iff Let_def split: if_splits dest!: rename_session_users)
    then have l1: "login_of st1 = login_of st" using login_of_cong [of st1 st] login_of_home [of st1 m _ st] by auto
    have "st_users st2 = st_users st1
        \<or> st_users st2 = AList.map_entry m (\<lambda>u. u\<lparr>u_home_unit_id := account_home_session_id m\<rparr>) (st_users st1)"
      using two by (auto simp: rename_home_unit_def bindR_Inr_iff Let_def split: if_splits)
    then have l2: "login_of st2 = login_of st1" using login_of_cong [of st2 st1] login_of_home [of st2 m _ st1] by auto
    have "st_users st' = st_users st2"
      using st' ensure_home_unit_facts(1) [OF st3] ensure_home_session_facts(1) [OF st4] link_keeps_entities(1) by auto
    then show ?thesis using l1 l2 login_of_cong [of st' st2] by simp
  qed
qed

lemma ensure_homes_login:
  assumes "ensure_user_home_sessions t st = Inr (c, st')"
  shows "login_of st' = login_of st"
proof -
  have "login_of (snd (c, st')) = login_of st"
  proof (rule foldR_invariant [OF assms [unfolded ensure_user_home_sessions_def], of "\<lambda>a. login_of (snd a) = login_of st"])
    fix n a b assume "login_of (snd a) = login_of st" "ensure_user_home t n a = Inr b"
    then show "login_of (snd b) = login_of st"
      using ensure_user_home_login [of t n "fst a" "snd a" "fst b" "snd b"] by simp
  qed simp
  then show ?thesis by simp
qed

lemma create_user_steps:
  assumes "create_user hash salt username password groups st = Inr (p, st')"
  obtains now st1 st2 c where "utc_now st = (now, st1)" "map_of (st_users st) (py_strip username) = None"
    "ensure_user_home_sessions now (st1\<lparr>st_users := AList.update (py_strip username)
       (build_user hash salt (py_strip username) password (if groups = [] then [''user''] else groups) now) (st_users st1)\<rparr>) = Inr (c, st2)"
    "save st2 = Inr st'" "\<exists>u. map_of (st_users st') (py_strip username) = Some u \<and> p = public_user u"
    "st_users st' = st_users st2" "login_of st' = (login_of st)(py_strip username \<mapsto> (''active'', hash password salt, salt))"
proof -
  obtain now st1 where u: "utc_now st = (now, st1)" by (cases "utc_now st")
  let ?user = "build_user hash salt (py_strip username) password (if groups = [] then [''user''] else groups) now"
  let ?st1 = "st1\<lparr>st_users := AList.update (py_strip username) ?user (st_users st1)\<rparr>"
  from assms u obtain c st2 where h: "ensure_user_home_sessions now ?st1 = Inr (c, st2)" "save st2 = Inr st'"
      and new: "map_of (st_users st) (py_strip username) = None"
      and p: "\<exists>v. map_of (st_users st') (py_strip username) = Some v \<and> p = public_user v"
    by (auto simp: create_user_def Let_def bindR_Inr_iff split: if_splits option.splits)
  have users: "st_users st' = st_users st2" using save_frame [OF h(2)] by auto
  have "st_users st1 = st_users st" using u by (auto simp: utc_now_def)
  then have "login_of ?st1 = (login_of st)(py_strip username \<mapsto> (''active'', hash password salt, salt))"
    by (auto simp: fun_eq_iff login_of_def build_user_def new_user_def)
  then have "login_of st' = (login_of st)(py_strip username \<mapsto> (''active'', hash password salt, salt))"
    using ensure_homes_login [OF h(1)] login_of_cong [OF users] by simp
  with u new h p users show ?thesis by (intro that)
qed

text \<open>C26: A created account can log in with its password and is then shown as it was created; a password with another
  hash is refused, and nobody else's login changes: the same passwords open the same other accounts as before.\<close>

theorem created_user_can_log_in:
  assumes "create_user hash salt username password groups st = Inr (p, st')"
  shows "authenticate hash (py_strip username) password st' = Inr p
    \<and> (\<forall>q. hash q salt \<noteq> hash password salt \<longrightarrow>
         authenticate hash (py_strip username) q st' = Inl (StoreError ''authentication failed''))
    \<and> (\<forall>n q. n \<noteq> py_strip username \<longrightarrow> isl (authenticate hash n q st') = isl (authenticate hash n q st))"
proof -
  let ?n = "py_strip username"
  obtain u where u: "map_of (st_users st') ?n = Some u" "p = public_user u"
      and l: "login_of st' = (login_of st)(?n \<mapsto> (''active'', hash password salt, salt))"
    by (rule create_user_steps [OF assms]) blast
  have "login_of st' ?n = Some (''active'', hash password salt, salt)" using l by simp
  then have f: "u_status u = ''active''" "u_password_hash u = hash password salt" "u_salt u = salt"
    using u(1) by (simp_all add: login_of_def)
  have "authenticate hash ?n q st' = (if hash password salt \<noteq> hash q salt then Inl (StoreError ''authentication failed'') else Inr p)" for q
    using u f by (simp add: authenticate_def)
  moreover have "isl (authenticate hash n q st') = isl (authenticate hash n q st)" if "n \<noteq> ?n" for n q
    using that by (simp add: authenticate_login l)
  ultimately show ?thesis by auto
qed


end
