(* ===== verification/Auth_Example.thy ===== *)
theory Auth_Example
  imports Auth_Rules Store_Defaults_Example
begin

section \<open>Two accounts\<close>

text \<open>A store with one account, to which another with an alike name is added; the hash is a stand-in.\<close>

definition one_account :: state where
  "one_account = (blank_state (\<lambda>_. 86400000000) (\<lambda>i. i))\<lparr>
     st_users := [(''a-b'', new_user ''a-b'' ''h'' ''s'' [''user''] ''t'' ''active'' [])],
     st_units := [(''root'', new_unit ''root'' ''t'' ''singleton'')],
     st_sessions := [(''root'', new_session ''root'' ''root'' ''t'' ''root'' True)]\<rparr>"

definition demo_hash :: "string \<Rightarrow> string \<Rightarrow> string" where
  "demo_hash p s = s @ p"

lemma one_account_settled: "settled one_account"
  by (auto simp: one_account_def settled_def blank_state_def new_user_def py_strip_def strip_by_def)

lemma second_account: "\<exists>p st'. create_user demo_hash ''salt'' ''a b'' ''pw'' [] one_account = Inr (p, st')"
proof -
  have "\<not> isl (create_user demo_hash ''salt'' ''a b'' ''pw'' [] one_account)" by code_simp
  then show ?thesis by (cases "create_user demo_hash ''salt'' ''a b'' ''pw'' [] one_account") auto
qed

lemma second_name: "py_strip ''a b'' = ''a b''" by code_simp

theorem created_user_can_log_in_witness:
  "\<exists>p st'. create_user demo_hash ''salt'' ''a b'' ''pw'' [] one_account = Inr (p, st')
     \<and> authenticate demo_hash ''a b'' ''pw'' st' = Inr p
     \<and> authenticate demo_hash ''a b'' ''pv'' st' = Inl (StoreError ''authentication failed'')"
proof -
  obtain p st' where c: "create_user demo_hash ''salt'' ''a b'' ''pw'' [] one_account = Inr (p, st')"
    using second_account by blast
  have "demo_hash ''pv'' ''salt'' \<noteq> demo_hash ''pw'' ''salt''" by (simp add: demo_hash_def)
  with created_user_can_log_in [OF c] c show ?thesis unfolding second_name by blast
qed


end
