(* ===== verification/Spec2Isabelle.thy ===== *)
theory Spec2Isabelle
  imports Session_Example Runtime_Example Log_Store_Example State_Example Store_Defaults_Example Recovery_Example Query_Example Auth_Example
begin

text \<open>
  \<^bold>\<open>Aize: a verification development\<close>

  Aize (src/src) keeps Sessions, each with a SessionGoal and an append-only log, and lets two agent
  roles work on them: the GoalManager reviews a goal, the WorkerAgent does the work. A dispatcher
  turns unread log entries into \<open>readiness\<close> entries, the scheduling policy picks one, a \<open>run\<close> is
  created that holds the lease of that role in that session, the agent is called, and a commit
  writes the agent's result back, unless a fence finds that the goal or the requirements changed
  while the agent was away.

  \<^bold>\<open>How the program is modelled.\<close> The store is one JSON document of collections; its model is the
  record \<open>state\<close> of Model, a Python dictionary an association list in insertion order, a text a
  \<open>string\<close>, an entity a record with one field per key. Every operation of the code runs as a
  transaction: lock, load, change, save. It is modelled as a function on the loaded state that
  returns a sum: \<open>Inl\<close> an exception of the code (nothing is saved) or \<open>Inr\<close> the result and the state
  it saved. Where a caller catches the exception and goes on with the changed state, the error
  carries that state (\<open>st_res\<close> of Sessions). An object the code passes by reference is named by its
  key. The clock is a function of a tick count that advances at each reading and may do
  anything, the random identifiers are a counter, the local time zone is a function: all three are
  fields of the state and arguments of every theorem. What the code calls outside src/ (the
  operating system, the provider CLIs) is a parameter of the definitions.

  \<^bold>\<open>The theories, in the order the code has them.\<close>

  \<^item> Prelude: results, dictionaries, searching in lists. Py\_Text, Py\_Time: the parts of \<open>str\<close> and
    \<open>datetime\<close> the code uses, with the proof that a written timestamp is read back.
  \<^item> Kernel\_Defs (kernel/defs.py, goal/defs.py): endpoints, roles, vocabulary. Model (kernel/model.py,
    goal/model.py): entities, the store, the clock, identifiers.
  \<^item> Session\_Log (kernel/session\_log.py and the log part of kernel/storage.py): the pending and the durable
    entries of a session's log, appending with duplicate checks, cursors, saving. \<open>log_view\<close> is the abstract log: one
    sequence per session numbered from 1; \<open>log_ok\<close> is the invariant that the two parts form it.
  \<^item> Session\_Graph (goal/sessions.py): the parent/child links and the search that keeps them acyclic.
  \<^item> Kernel\_Messages (kernel/messages.py), Goal\_Messages (goal/messages.py): messages of services, agents and
    users, cursors, the forwarding of user input to a worker at work.
  \<^item> Goal\_Log (goal/log.py), Goals (goal/sessions.py): typed log events, completion transitions, what a child's
    completion does to its parents, reprocessing.
  \<^item> Projections, Policy, Readiness (files of the same names): which unread entries wake a role, the choice of the
    ready entry, the reconciliation of readiness with the logs, waiting goals, expired leases.
  \<^item> Schedules (goal/schedules.py, goal/sessions.py): resolvers and the next run of a Unit.
  \<^item> Units, Sessions, Launch, Runtime (goal/sessions.py): Units, accounts and settings; creating and starting sessions;
    scheduled and startup launches; what a GoalManager run declares.
  \<^item> Agents (goal/agents.py): running a provider. Dispatch, Dispatch\_Commit (goal/dispatch.py): leases, fences, the three
    commits.

  \<^bold>\<open>What the lemmas show.\<close> Evolution defines \<open>evolves\<close>, the contract every transaction keeps: logs only
  grow, the session graph stays acyclic, sessions, goals and runs are kept with their identity, readiness
  entries keep belonging to their goal. Goal\_Log, Goals, Dispatch\_Facts, Dispatch\_Leases and Operation\_Facts
  prove it for every operation (the \<open>_evolves\<close> lemmas). On top of it stand the rules of each part:
  Dispatch\_Safety and Dispatch\_Leases (a granted lease is sound and exclusive, a commit ends it, a fenced result
  changes no goal), Liveness and Liveness\_Pass (no active goal is left without an entry, a run or a signal),
  Session\_Rules, Runtime\_Rules, Message\_Rules (who may start, declare and speak, and with which effect).
  Dispatch\_Example, Session\_Example and Runtime\_Example hold concrete stores on which the properties are applied.

  \<^bold>\<open>Bounds and termination.\<close> The only unbounded loops are the search for a free session identifier, for the next
  interval boundary and along the session graph; each is a \<open>function\<close> with its termination proof, so no fuel is used.
  Timestamps range over the years of \<open>datetime\<close>.

  \<^bold>\<open>Not modelled.\<close> The text of prompts (goal/prompts.py; a commit takes the prompt as an argument), the read-only
  queries (goal/query.py), the defaults and the account home sessions that loading fills in (goal/store.py), password hashing
  (kernel/auth.py), JSON files, segments and the migration of old stores (kernel/storage.py), the file lock, the
  command line, the console and the worker threads (cli/), and the archived predecessor (archive/), which no current code
  imports.
\<close>

end
